(* ===== verification/Prelude.thy ===== *)
theory Prelude
  imports Main "HOL-Library.Word" "HOL-Library.Monad_Syntax"
begin

unbundle bit_operations_syntax

text \<open>
  Shared vocabulary of the development: the machine types of the C code, the byte-array
  primitives (\<open>memcpy\<close> into a buffer, \<open>memset\<close>), and the generic lemmas on lists, options and
  words that the component theories use.

  Conventions: an \<open>unsigned char\<close> array is a \<open>u8 list\<close>; \<open>size_t\<close> and \<open>uint64_t\<close> are \<open>u64\<close>;
  \<open>unsigned int\<close> is \<open>u32\<close>; \<open>unsigned short\<close> is \<open>u16\<close>; C's \<open>int\<close> return codes are \<open>int\<close>.
  Addition on words wraps exactly as the C unsigned arithmetic does. A computation that may
  fail to return in C (a spinning loop) has an \<open>option\<close> result, where \<open>None\<close> says that the fuel
  given was used up before the C code returned.
\<close>

type_synonym u8 = "8 word"
type_synonym u16 = "16 word"
type_synonym u32 = "32 word"
type_synonym u64 = "64 word"

named_theorems len_simps "lengths of the buffers the operations produce"
named_theorems frame_simps "fields an operation leaves unchanged"

section \<open>Byte buffers\<close>

text \<open>\<open>memcpy (buf + i, src, length src)\<close>: the bytes of \<open>src\<close> replace those at offset \<open>i\<close>.\<close>

definition memcpy_at :: "'a list \<Rightarrow> nat \<Rightarrow> 'a list \<Rightarrow> 'a list" where
  "memcpy_at buf i src = take i buf @ src @ drop (i + length src) buf"

text \<open>\<open>memset (buf + i, v, n)\<close>.\<close>

definition memset_at :: "'a list \<Rightarrow> nat \<Rightarrow> 'a \<Rightarrow> nat \<Rightarrow> 'a list" where
  "memset_at buf i v n = memcpy_at buf i (replicate n v)"

lemma length_memcpy_at [simp, len_simps]:
  "i + length src \<le> length buf \<Longrightarrow> length (memcpy_at buf i src) = length buf"
  by (simp add: memcpy_at_def)

lemma length_memset_at [simp, len_simps]:
  "i + n \<le> length buf \<Longrightarrow> length (memset_at buf i v n) = length buf"
  by (simp add: memset_at_def)

lemma take_memcpy_at_before [simp]:
  "n \<le> i \<Longrightarrow> i \<le> length buf \<Longrightarrow> take n (memcpy_at buf i src) = take n buf"
  by (simp add: memcpy_at_def min_def)

lemma take_memcpy_at [simp]:
  "i \<le> length buf \<Longrightarrow> take (i + length src) (memcpy_at buf i src) = take i buf @ src"
  by (simp add: memcpy_at_def)

lemma memcpy_at_0 [simp]: "length src = length buf \<Longrightarrow> memcpy_at buf 0 src = src"
  by (simp add: memcpy_at_def)

lemma memcpy_at_nil [simp]: "memcpy_at buf i [] = buf"
  by (simp add: memcpy_at_def)

lemma memset_at_to_end:
  "i + n = length buf \<Longrightarrow> memset_at buf i v n = take i buf @ replicate n v"
  by (simp add: memset_at_def memcpy_at_def)

section \<open>Lists\<close>

lemma length_Suc_cases:
  "length xs = Suc n \<Longrightarrow> (\<And>y ys. xs = y # ys \<Longrightarrow> length ys = n \<Longrightarrow> P) \<Longrightarrow> P"
  by (cases xs) auto

text \<open>The last \<open>c\<close> elements of a list.\<close>

definition last_of :: "nat \<Rightarrow> 'a list \<Rightarrow> 'a list" where
  "last_of c xs = drop (length xs - c) xs"

lemma length_last_of [simp]: "length (last_of c xs) = min c (length xs)"
  by (auto simp: last_of_def)

lemma last_of_append: "last_of c (last_of c xs @ ys) = last_of c (xs @ ys)"
proof (cases "length xs \<le> c")
  case False
  then have "length xs - c + (length ys + c - c) = length xs + length ys - c" by simp
  with False show ?thesis by (auto simp: last_of_def add.commute)
qed (simp add: last_of_def)

text \<open>Positions of a ring that are less than its size apart are different.\<close>

lemma mod_distinct: "i < j \<Longrightarrow> j < i + s \<Longrightarrow> i mod s \<noteq> j mod (s::nat)"
  using mod_eq_dvd_iff_nat [of i j s] dvd_imp_le [of s "j - i"] by auto

section \<open>Words\<close>

lemma unat_of_nat_small:
  "n < 2 ^ LENGTH('a) \<Longrightarrow> unat (of_nat n :: 'a::len word) = n"
  by (simp add: unat_of_nat take_bit_nat_eq_self)

lemma unat_le_of_nat_iff:
  "n < 2 ^ LENGTH('a) \<Longrightarrow> (w \<le> (of_nat n :: 'a::len word)) = (unat w \<le> n)"
  by (simp add: word_le_nat_alt unat_of_nat_small)

text \<open>A counter that is below a bound does not wrap when it is incremented.\<close>

lemma unat_Suc_below:
  "unat w < n \<Longrightarrow> n < 2 ^ LENGTH('a) \<Longrightarrow> unat (w + 1 :: 'a::len word) = Suc (unat w)"
  by (subst unat_word_ariths) simp

lemma unat_power_of_two: "n < LENGTH('a) \<Longrightarrow> unat (2 ^ n :: 'a::len word) = 2 ^ n"
  using unat_of_nat_small [of "2 ^ n", where 'a = 'a] by simp

section \<open>Options\<close>

lemma bind_SomeE:
  assumes "Option.bind m f = Some y"
  obtains x where "m = Some x" and "f x = Some y"
  using assms by (cases m) auto

section \<open>Results of computations that may have none\<close>

text \<open>
  A computation in the option monad \<open>returns\<close> a result that satisfies \<open>Q\<close> (total correctness), or
  every result it has satisfies \<open>Q\<close> (\<open>if_returns\<close>, partial correctness). The rules split a
  computation at its binds.
\<close>

definition returns :: "'a option \<Rightarrow> ('a \<Rightarrow> bool) \<Rightarrow> bool" where
  "returns m Q \<longleftrightarrow> (\<exists>x. m = Some x \<and> Q x)"

definition if_returns :: "'a option \<Rightarrow> ('a \<Rightarrow> bool) \<Rightarrow> bool" where
  "if_returns m Q \<longleftrightarrow> (\<forall>x. m = Some x \<longrightarrow> Q x)"

lemma returns_simps [simp]:
  "returns (Some x) Q = Q x" "\<not> returns None Q"
  "returns (Option.bind m f) Q = returns m (\<lambda>x. returns (f x) Q)"
  by (auto simp: returns_def split: Option.bind_splits)

lemma if_returns_simps [simp]:
  "if_returns (Some x) Q = Q x" "if_returns None Q"
  "if_returns (Option.bind m f) Q = if_returns m (\<lambda>x. if_returns (f x) Q)"
  by (auto simp: if_returns_def split: Option.bind_splits)

lemma returns_conseq: "returns m P \<Longrightarrow> (\<And>x. m = Some x \<Longrightarrow> P x \<Longrightarrow> Q x) \<Longrightarrow> returns m Q"
  by (auto simp: returns_def)

lemma if_returns_conseq:
  "if_returns m P \<Longrightarrow> (\<And>x. m = Some x \<Longrightarrow> P x \<Longrightarrow> Q x) \<Longrightarrow> if_returns m Q"
  by (auto simp: if_returns_def)

lemma returns_and: "returns m P \<Longrightarrow> if_returns m Q \<Longrightarrow> returns m (\<lambda>x. P x \<and> Q x)"
  by (auto simp: returns_def if_returns_def)

lemma returns_imp_if_returns: "returns m Q \<Longrightarrow> if_returns m Q"
  by (auto simp: returns_def if_returns_def)

lemma if_returnsD: "if_returns m Q \<Longrightarrow> m = Some x \<Longrightarrow> Q x"
  by (simp add: if_returns_def)

lemma returns_prod [simp]:
  "returns (case p of (a, b) \<Rightarrow> f a b) Q = (case p of (a, b) \<Rightarrow> returns (f a b) Q)"
  "if_returns (case p of (a, b) \<Rightarrow> f a b) Q = (case p of (a, b) \<Rightarrow> if_returns (f a b) Q)"
  by (simp_all split: prod.splits)

lemma returns_if [simp]:
  "returns (if c then m else m') Q = (if c then returns m Q else returns m' Q)"
  "if_returns (if c then m else m') Q = (if c then if_returns m Q else if_returns m' Q)"
  by simp_all

end
