(* ===== verification/Floats.thy ===== *)
theory Floats
  imports Prelude
begin

text \<open>
  The arithmetic of \<open>double\<close> as a parameter: a value is of a type \<open>'d\<close>, the operations and the
  functions of the C mathematics library are the fields of a record. Nothing is assumed about them,
  so what is shown of the dashboard holds for IEEE arithmetic with any rounding, infinities and NaN
  included. The record \<open>float_ops\<close> has what the monitor uses, \<open>math_ops\<close> adds what the statistics use.
\<close>

record 'd float_ops =
  fl_of_int :: "int \<Rightarrow> 'd"
  fl_add :: "'d \<Rightarrow> 'd \<Rightarrow> 'd"
  fl_mul :: "'d \<Rightarrow> 'd \<Rightarrow> 'd"
  fl_div :: "'d \<Rightarrow> 'd \<Rightarrow> 'd"
  fl_less :: "'d \<Rightarrow> 'd \<Rightarrow> bool"

record 'd math_ops = "'d float_ops" +
  fl_sub :: "'d \<Rightarrow> 'd \<Rightarrow> 'd"
  fl_neg :: "'d \<Rightarrow> 'd"
  fl_eq :: "'d \<Rightarrow> 'd \<Rightarrow> bool"
  fl_le :: "'d \<Rightarrow> 'd \<Rightarrow> bool"
  fl_abs :: "'d \<Rightarrow> 'd"
  fl_sqrt :: "'d \<Rightarrow> 'd"
  fl_pow :: "'d \<Rightarrow> 'd \<Rightarrow> 'd"
  fl_exp :: "'d \<Rightarrow> 'd"
  fl_log :: "'d \<Rightarrow> 'd"
  fl_log1p :: "'d \<Rightarrow> 'd"
  fl_log2 :: "'d \<Rightarrow> 'd"
  fl_lgamma :: "'d \<Rightarrow> 'd"
  fl_erfc :: "'d \<Rightarrow> 'd"
  fl_ceil :: "'d \<Rightarrow> 'd"
  fl_nan :: 'd
  fl_to_unsigned :: "'d \<Rightarrow> u32"

abbreviation (input) fl_zero :: "('d, 'm) float_ops_scheme \<Rightarrow> 'd" where
  "fl_zero fl \<equiv> fl_of_int fl 0"

end
