(* ===== verification/Keccak.thy ===== *)
theory Keccak
  imports Prelude
begin

unbundle bit_operations_syntax

text \<open>
  The Keccak-p[1600, 24] permutation of \<open>jitterentropy-sha3.c\<close>. The five step mappings work in
  place on \<open>uint64_t s[25]\<close>, which is a \<open>u64 list\<close> of length 25 here; every C assignment is one
  list update, in the order of the source. The second half of the theory states the step mappings
  of FIPS 202 on the bits \<open>A[x, y, z]\<close> of the state array, and shows that the code computes them.
\<close>

section \<open>The code\<close>

text \<open>\<open>rol64\<close>: \<open>(x << (n & 63)) | (x >> ((64 - n) & 63))\<close>.\<close>

definition rol64 :: "u64 \<Rightarrow> nat \<Rightarrow> u64" where
  "rol64 x n = push_bit (n mod 64) x OR drop_bit (nat ((64 - int n) mod 64)) x"

text \<open>The index macro \<open>A(x, y)\<close>.\<close>

abbreviation (input) lane_index :: "nat \<Rightarrow> nat \<Rightarrow> nat" where
  "lane_index x y \<equiv> x + 5 * y"

definition jent_keccakp_theta :: "u64 list \<Rightarrow> u64 list" where
  "jent_keccakp_theta s =
    (let
       c0 = s ! lane_index 0 0 XOR s ! lane_index 0 1 XOR s ! lane_index 0 2 XOR s ! lane_index 0 3 XOR s ! lane_index 0 4;
       c1 = s ! lane_index 1 0 XOR s ! lane_index 1 1 XOR s ! lane_index 1 2 XOR s ! lane_index 1 3 XOR s ! lane_index 1 4;
       c2 = s ! lane_index 2 0 XOR s ! lane_index 2 1 XOR s ! lane_index 2 2 XOR s ! lane_index 2 3 XOR s ! lane_index 2 4;
       c3 = s ! lane_index 3 0 XOR s ! lane_index 3 1 XOR s ! lane_index 3 2 XOR s ! lane_index 3 3 XOR s ! lane_index 3 4;
       c4 = s ! lane_index 4 0 XOR s ! lane_index 4 1 XOR s ! lane_index 4 2 XOR s ! lane_index 4 3 XOR s ! lane_index 4 4;
       d0 = c4 XOR rol64 c1 1;
       d1 = c0 XOR rol64 c2 1;
       d2 = c1 XOR rol64 c3 1;
       d3 = c2 XOR rol64 c4 1;
       d4 = c3 XOR rol64 c0 1;
       s = s[lane_index 0 0 := s ! lane_index 0 0 XOR d0];
       s = s[lane_index 1 0 := s ! lane_index 1 0 XOR d1];
       s = s[lane_index 2 0 := s ! lane_index 2 0 XOR d2];
       s = s[lane_index 3 0 := s ! lane_index 3 0 XOR d3];
       s = s[lane_index 4 0 := s ! lane_index 4 0 XOR d4];
       s = s[lane_index 0 1 := s ! lane_index 0 1 XOR d0];
       s = s[lane_index 1 1 := s ! lane_index 1 1 XOR d1];
       s = s[lane_index 2 1 := s ! lane_index 2 1 XOR d2];
       s = s[lane_index 3 1 := s ! lane_index 3 1 XOR d3];
       s = s[lane_index 4 1 := s ! lane_index 4 1 XOR d4];
       s = s[lane_index 0 2 := s ! lane_index 0 2 XOR d0];
       s = s[lane_index 1 2 := s ! lane_index 1 2 XOR d1];
       s = s[lane_index 2 2 := s ! lane_index 2 2 XOR d2];
       s = s[lane_index 3 2 := s ! lane_index 3 2 XOR d3];
       s = s[lane_index 4 2 := s ! lane_index 4 2 XOR d4];
       s = s[lane_index 0 3 := s ! lane_index 0 3 XOR d0];
       s = s[lane_index 1 3 := s ! lane_index 1 3 XOR d1];
       s = s[lane_index 2 3 := s ! lane_index 2 3 XOR d2];
       s = s[lane_index 3 3 := s ! lane_index 3 3 XOR d3];
       s = s[lane_index 4 3 := s ! lane_index 4 3 XOR d4];
       s = s[lane_index 0 4 := s ! lane_index 0 4 XOR d0];
       s = s[lane_index 1 4 := s ! lane_index 1 4 XOR d1];
       s = s[lane_index 2 4 := s ! lane_index 2 4 XOR d2];
       s = s[lane_index 3 4 := s ! lane_index 3 4 XOR d3];
       s = s[lane_index 4 4 := s ! lane_index 4 4 XOR d4]
     in s)"

text \<open>The macro \<open>RHO_ROL(t)\<close>.\<close>

definition RHO_ROL :: "nat \<Rightarrow> nat" where
  "RHO_ROL t = ((t + 1) * (t + 2) div 2) mod 64"

definition jent_keccakp_rho :: "u64 list \<Rightarrow> u64 list" where
  "jent_keccakp_rho s =
    (let
       s = s[lane_index 1 0 := rol64 (s ! lane_index 1 0) (RHO_ROL 0)];
       s = s[lane_index 0 2 := rol64 (s ! lane_index 0 2) (RHO_ROL 1)];
       s = s[lane_index 2 1 := rol64 (s ! lane_index 2 1) (RHO_ROL 2)];
       s = s[lane_index 1 2 := rol64 (s ! lane_index 1 2) (RHO_ROL 3)];
       s = s[lane_index 2 3 := rol64 (s ! lane_index 2 3) (RHO_ROL 4)];
       s = s[lane_index 3 3 := rol64 (s ! lane_index 3 3) (RHO_ROL 5)];
       s = s[lane_index 3 0 := rol64 (s ! lane_index 3 0) (RHO_ROL 6)];
       s = s[lane_index 0 1 := rol64 (s ! lane_index 0 1) (RHO_ROL 7)];
       s = s[lane_index 1 3 := rol64 (s ! lane_index 1 3) (RHO_ROL 8)];
       s = s[lane_index 3 1 := rol64 (s ! lane_index 3 1) (RHO_ROL 9)];
       s = s[lane_index 1 4 := rol64 (s ! lane_index 1 4) (RHO_ROL 10)];
       s = s[lane_index 4 4 := rol64 (s ! lane_index 4 4) (RHO_ROL 11)];
       s = s[lane_index 4 0 := rol64 (s ! lane_index 4 0) (RHO_ROL 12)];
       s = s[lane_index 0 3 := rol64 (s ! lane_index 0 3) (RHO_ROL 13)];
       s = s[lane_index 3 4 := rol64 (s ! lane_index 3 4) (RHO_ROL 14)];
       s = s[lane_index 4 3 := rol64 (s ! lane_index 4 3) (RHO_ROL 15)];
       s = s[lane_index 3 2 := rol64 (s ! lane_index 3 2) (RHO_ROL 16)];
       s = s[lane_index 2 2 := rol64 (s ! lane_index 2 2) (RHO_ROL 17)];
       s = s[lane_index 2 0 := rol64 (s ! lane_index 2 0) (RHO_ROL 18)];
       s = s[lane_index 0 4 := rol64 (s ! lane_index 0 4) (RHO_ROL 19)];
       s = s[lane_index 4 2 := rol64 (s ! lane_index 4 2) (RHO_ROL 20)];
       s = s[lane_index 2 4 := rol64 (s ! lane_index 2 4) (RHO_ROL 21)];
       s = s[lane_index 4 1 := rol64 (s ! lane_index 4 1) (RHO_ROL 22)];
       s = s[lane_index 1 1 := rol64 (s ! lane_index 1 1) (RHO_ROL 23)]
     in s)"

definition jent_keccakp_pi :: "u64 list \<Rightarrow> u64 list" where
  "jent_keccakp_pi s =
    (let
       t = s ! lane_index 4 4;
       s = s[lane_index 4 4 := s ! lane_index 1 4];
       s = s[lane_index 1 4 := s ! lane_index 3 1];
       s = s[lane_index 3 1 := s ! lane_index 1 3];
       s = s[lane_index 1 3 := s ! lane_index 0 1];
       s = s[lane_index 0 1 := s ! lane_index 3 0];
       s = s[lane_index 3 0 := s ! lane_index 3 3];
       s = s[lane_index 3 3 := s ! lane_index 2 3];
       s = s[lane_index 2 3 := s ! lane_index 1 2];
       s = s[lane_index 1 2 := s ! lane_index 2 1];
       s = s[lane_index 2 1 := s ! lane_index 0 2];
       s = s[lane_index 0 2 := s ! lane_index 1 0];
       s = s[lane_index 1 0 := s ! lane_index 1 1];
       s = s[lane_index 1 1 := s ! lane_index 4 1];
       s = s[lane_index 4 1 := s ! lane_index 2 4];
       s = s[lane_index 2 4 := s ! lane_index 4 2];
       s = s[lane_index 4 2 := s ! lane_index 0 4];
       s = s[lane_index 0 4 := s ! lane_index 2 0];
       s = s[lane_index 2 0 := s ! lane_index 2 2];
       s = s[lane_index 2 2 := s ! lane_index 3 2];
       s = s[lane_index 3 2 := s ! lane_index 4 3];
       s = s[lane_index 4 3 := s ! lane_index 3 4];
       s = s[lane_index 3 4 := s ! lane_index 0 3];
       s = s[lane_index 0 3 := s ! lane_index 4 0];
       s = s[lane_index 4 0 := t]
     in s)"

definition jent_keccakp_chi :: "u64 list \<Rightarrow> u64 list" where
  "jent_keccakp_chi s =
    (let
       t00 = s ! lane_index 0 0;
       t01 = s ! lane_index 0 1;
       t02 = s ! lane_index 0 2;
       t03 = s ! lane_index 0 3;
       t04 = s ! lane_index 0 4;
       t10 = s ! lane_index 1 0;
       t11 = s ! lane_index 1 1;
       t12 = s ! lane_index 1 2;
       t13 = s ! lane_index 1 3;
       t14 = s ! lane_index 1 4;
       s = s[lane_index 0 0 := s ! lane_index 0 0 XOR (NOT (s ! lane_index 1 0) AND s ! lane_index 2 0)];
       s = s[lane_index 0 1 := s ! lane_index 0 1 XOR (NOT (s ! lane_index 1 1) AND s ! lane_index 2 1)];
       s = s[lane_index 0 2 := s ! lane_index 0 2 XOR (NOT (s ! lane_index 1 2) AND s ! lane_index 2 2)];
       s = s[lane_index 0 3 := s ! lane_index 0 3 XOR (NOT (s ! lane_index 1 3) AND s ! lane_index 2 3)];
       s = s[lane_index 0 4 := s ! lane_index 0 4 XOR (NOT (s ! lane_index 1 4) AND s ! lane_index 2 4)];
       s = s[lane_index 1 0 := s ! lane_index 1 0 XOR (NOT (s ! lane_index 2 0) AND s ! lane_index 3 0)];
       s = s[lane_index 1 1 := s ! lane_index 1 1 XOR (NOT (s ! lane_index 2 1) AND s ! lane_index 3 1)];
       s = s[lane_index 1 2 := s ! lane_index 1 2 XOR (NOT (s ! lane_index 2 2) AND s ! lane_index 3 2)];
       s = s[lane_index 1 3 := s ! lane_index 1 3 XOR (NOT (s ! lane_index 2 3) AND s ! lane_index 3 3)];
       s = s[lane_index 1 4 := s ! lane_index 1 4 XOR (NOT (s ! lane_index 2 4) AND s ! lane_index 3 4)];
       s = s[lane_index 2 0 := s ! lane_index 2 0 XOR (NOT (s ! lane_index 3 0) AND s ! lane_index 4 0)];
       s = s[lane_index 2 1 := s ! lane_index 2 1 XOR (NOT (s ! lane_index 3 1) AND s ! lane_index 4 1)];
       s = s[lane_index 2 2 := s ! lane_index 2 2 XOR (NOT (s ! lane_index 3 2) AND s ! lane_index 4 2)];
       s = s[lane_index 2 3 := s ! lane_index 2 3 XOR (NOT (s ! lane_index 3 3) AND s ! lane_index 4 3)];
       s = s[lane_index 2 4 := s ! lane_index 2 4 XOR (NOT (s ! lane_index 3 4) AND s ! lane_index 4 4)];
       s = s[lane_index 3 0 := s ! lane_index 3 0 XOR (NOT (s ! lane_index 4 0) AND t00)];
       s = s[lane_index 3 1 := s ! lane_index 3 1 XOR (NOT (s ! lane_index 4 1) AND t01)];
       s = s[lane_index 3 2 := s ! lane_index 3 2 XOR (NOT (s ! lane_index 4 2) AND t02)];
       s = s[lane_index 3 3 := s ! lane_index 3 3 XOR (NOT (s ! lane_index 4 3) AND t03)];
       s = s[lane_index 3 4 := s ! lane_index 3 4 XOR (NOT (s ! lane_index 4 4) AND t04)];
       s = s[lane_index 4 0 := s ! lane_index 4 0 XOR (NOT (t00) AND t10)];
       s = s[lane_index 4 1 := s ! lane_index 4 1 XOR (NOT (t01) AND t11)];
       s = s[lane_index 4 2 := s ! lane_index 4 2 XOR (NOT (t02) AND t12)];
       s = s[lane_index 4 3 := s ! lane_index 4 3 XOR (NOT (t03) AND t13)];
       s = s[lane_index 4 4 := s ! lane_index 4 4 XOR (NOT (t04) AND t14)]
     in s)"

definition jent_keccakp_iota_vals :: "u64 list" where
  "jent_keccakp_iota_vals =
    [0x0000000000000001, 0x0000000000008082, 0x800000000000808a,
     0x8000000080008000, 0x000000000000808b, 0x0000000080000001,
     0x8000000080008081, 0x8000000000008009, 0x000000000000008a,
     0x0000000000000088, 0x0000000080008009, 0x000000008000000a,
     0x000000008000808b, 0x800000000000008b, 0x8000000000008089,
     0x8000000000008003, 0x8000000000008002, 0x8000000000000080,
     0x000000000000800a, 0x800000008000000a, 0x8000000080008081,
     0x8000000000008080, 0x0000000080000001, 0x8000000080008008]"

definition jent_keccakp_iota :: "u64 list \<Rightarrow> nat \<Rightarrow> u64 list" where
  "jent_keccakp_iota s round = s[0 := s ! 0 XOR jent_keccakp_iota_vals ! round]"

text \<open>One pass of the loop body of \<open>jent_keccakp_1600\<close>, and the loop over the 24 rounds.\<close>

definition keccakp_round :: "u64 list \<Rightarrow> nat \<Rightarrow> u64 list" where
  "keccakp_round s round =
     jent_keccakp_iota
       (jent_keccakp_chi (jent_keccakp_pi (jent_keccakp_rho (jent_keccakp_theta s)))) round"

definition jent_keccakp_1600 :: "u64 list \<Rightarrow> u64 list" where
  "jent_keccakp_1600 s = foldl keccakp_round s [0..<24]"

section \<open>Rotations, bit by bit\<close>

lemma mod64_offset:
  assumes "m = n mod 64" "k < (64::nat)"
  shows "nat ((int k - int n) mod 64) = (if m \<le> k then k - m else 64 + k - m)"
proof -
  have n: "int n = int m + 64 * int (n div 64)" and m: "m < 64"
    using assms(1) by (simp_all flip: of_nat_mod of_nat_div add: zmod_int zdiv_int)
  have "(int k - int n) mod 64 = ((int k - int m) + 64 * (- int (n div 64))) mod 64"
    using n by (simp add: algebra_simps)
  then have "(int k - int n) mod 64 = (int k - int m) mod 64"
    by (simp only: mod_mult_self2)
  also have "\<dots> = (if m \<le> k then int (k - m) else int (64 + k - m))"
  proof (cases "m \<le> k")
    case True
    then show ?thesis using assms(2) by (simp add: of_nat_diff)
  next
    case False
    have "(int k - int m) mod 64 = (int k - int m + 64) mod 64" by simp
    also have "int k - int m + 64 = int (64 + k - m)" using m by (simp add: of_nat_diff)
    also have "int (64 + k - m) mod 64 = int (64 + k - m)"
      using False by (intro mod_pos_pos_trivial) simp_all
    finally show ?thesis using False by simp
  qed
  finally show ?thesis by (simp only: if_distrib [of nat] nat_int)
qed

lemma mod64_complement:
  assumes "m = n mod 64"
  shows "nat ((64 - int n) mod 64) = (if m = 0 then 0 else 64 - m)"
proof -
  have "(64 - int n) mod 64 = (int 0 - int n) mod 64" by simp
  then show ?thesis
    using mod64_offset [OF assms, of 0] by (simp only:) simp
qed

lemma bit_rol64:
  assumes "z < 64"
  shows "bit (rol64 w n) z \<longleftrightarrow> bit w (nat ((int z - int n) mod 64))"
proof -
  define m where "m = n mod 64"
  have m: "m < 64" by (simp add: m_def)
  have b: "\<not> bit w j" if "64 \<le> j" for j
    using that bit_imp_le_length [of w j] by auto
  show ?thesis
    unfolding rol64_def mod64_offset [OF m_def assms] mod64_complement [OF m_def] m_def [symmetric]
    using m assms by (cases "m = 0") (auto simp: bit_simps b)
qed

lemma bit_rol64_mod:
  "z < 64 \<Longrightarrow> bit (rol64 w (n mod 64)) z \<longleftrightarrow> bit w (nat ((int z - int n) mod 64))"
  by (simp add: bit_rol64 zmod_int mod_diff_right_eq)

section \<open>The step mappings of FIPS 202\<close>

text \<open>
  The state array \<open>A[x, y, z]\<close> of the standard (its section 3.1) is a predicate on indices; the
  lane \<open>A[x, y]\<close> is the word \<open>s[x + 5 * y]\<close> of the code, its bit \<open>z\<close> the bit of weight \<open>2 ^ z\<close>.
  The definitions below follow algorithms 1 to 7 of the standard. The rotation offsets come from
  the walk of algorithm 2 and the round constants from the shift register of algorithm 5, so
  neither is copied from the code.
\<close>

type_synonym state_array = "nat \<Rightarrow> nat \<Rightarrow> nat \<Rightarrow> bool"

definition state_bits :: "u64 list \<Rightarrow> state_array" where
  "state_bits s x y z = bit (s ! (x + 5 * y)) z"

text \<open>Algorithm 1, the column parities and \<open>theta\<close>.\<close>

definition fips_parity :: "state_array \<Rightarrow> nat \<Rightarrow> nat \<Rightarrow> bool" where
  "fips_parity a x z = (a x 0 z \<noteq> (a x 1 z \<noteq> (a x 2 z \<noteq> (a x 3 z \<noteq> a x 4 z))))"

definition fips_theta :: "state_array \<Rightarrow> state_array" where
  "fips_theta a x y z =
     (a x y z \<noteq> (fips_parity a ((x + 4) mod 5) z \<noteq> fips_parity a ((x + 1) mod 5) ((z + 63) mod 64)))"

text \<open>The walk of FIPS 202 algorithm 2: \<open>(x, y) := (y, (2x + 3y) mod 5)\<close> from \<open>(1, 0)\<close>.\<close>

fun fips_rho_walk :: "nat \<Rightarrow> nat \<times> nat" where
  "fips_rho_walk 0 = (1, 0)"
| "fips_rho_walk (Suc t) = (case fips_rho_walk t of (x, y) \<Rightarrow> (y, (2 * x + 3 * y) mod 5))"

definition fips_rho_offset :: "nat \<Rightarrow> nat \<Rightarrow> nat" where
  "fips_rho_offset x y =
     (case map_of (map (\<lambda>t. (fips_rho_walk t, (t + 1) * (t + 2) div 2)) [0..<24]) (x, y) of
        None \<Rightarrow> 0 | Some d \<Rightarrow> d)"

definition fips_rho :: "state_array \<Rightarrow> state_array" where
  "fips_rho a x y z = a x y (nat ((int z - int (fips_rho_offset x y)) mod 64))"

text \<open>Algorithms 3 and 4.\<close>

definition fips_pi :: "state_array \<Rightarrow> state_array" where
  "fips_pi a x y z = a ((x + 3 * y) mod 5) x z"

definition fips_chi :: "state_array \<Rightarrow> state_array" where
  "fips_chi a x y z = (a x y z \<noteq> (\<not> a ((x + 1) mod 5) y z \<and> a ((x + 2) mod 5) y z))"

text \<open>Algorithm 5, the shift register that yields the round constants, and algorithm 6.\<close>

definition fips_lfsr_step :: "bool list \<Rightarrow> bool list" where
  "fips_lfsr_step r =
     (let r = False # r;
          r = r[0 := (r ! 0 \<noteq> r ! 8)];
          r = r[4 := (r ! 4 \<noteq> r ! 8)];
          r = r[5 := (r ! 5 \<noteq> r ! 8)];
          r = r[6 := (r ! 6 \<noteq> r ! 8)]
      in take 8 r)"

fun fips_lfsr :: "nat \<Rightarrow> bool list" where
  "fips_lfsr 0 = [True, False, False, False, False, False, False, False]"
| "fips_lfsr (Suc i) = fips_lfsr_step (fips_lfsr i)"

definition fips_rc :: "nat \<Rightarrow> bool" where
  "fips_rc t = fips_lfsr (t mod 255) ! 0"

definition fips_iota :: "nat \<Rightarrow> state_array \<Rightarrow> state_array" where
  "fips_iota i a x y z =
     (a x y z \<noteq> (x = 0 \<and> y = 0 \<and> (\<exists>j \<le> 6. z = 2 ^ j - 1 \<and> fips_rc (j + 7 * i))))"

text \<open>Algorithm 7 with its 24 rounds.\<close>

definition fips_round :: "nat \<Rightarrow> state_array \<Rightarrow> state_array" where
  "fips_round i a = fips_iota i (fips_chi (fips_pi (fips_rho (fips_theta a))))"

definition fips_keccak_p :: "state_array \<Rightarrow> state_array" where
  "fips_keccak_p a = foldl (\<lambda>a i. fips_round i a) a [0..<24]"

text \<open>Agreement on the 1600 bits of the state.\<close>

definition same_bits :: "state_array \<Rightarrow> state_array \<Rightarrow> bool" where
  "same_bits a b \<longleftrightarrow> (\<forall>x<5. \<forall>y<5. \<forall>z<64. a x y z = b x y z)"

section \<open>The code computes the step mappings\<close>

lemma less_5_disj: "x < (5::nat) \<longleftrightarrow> x = 0 \<or> x = 1 \<or> x = 2 \<or> x = 3 \<or> x = 4"
  by auto

lemma length_25E:
  assumes "length s = 25"
  obtains a0 a1 a2 a3 a4 a5 a6 a7 a8 a9 a10 a11 a12 a13 a14 a15 a16 a17 a18 a19 a20 a21 a22 a23 a24
  where "s = [a0, a1, a2, a3, a4, a5, a6, a7, a8, a9, a10, a11, a12, a13, a14, a15, a16, a17, a18,
              a19, a20, a21, a22, a23, a24]"
  using assms by (auto simp: length_Suc_conv eval_nat_numeral)

lemma length_theta [simp]: "length (jent_keccakp_theta s) = length s"
  by (simp add: jent_keccakp_theta_def Let_def)
lemma length_rho [simp]: "length (jent_keccakp_rho s) = length s"
  by (simp add: jent_keccakp_rho_def Let_def)
lemma length_pi [simp]: "length (jent_keccakp_pi s) = length s"
  by (simp add: jent_keccakp_pi_def Let_def)
lemma length_chi [simp]: "length (jent_keccakp_chi s) = length s"
  by (simp add: jent_keccakp_chi_def Let_def)

definition column_xor :: "u64 list \<Rightarrow> nat \<Rightarrow> u64" where
  "column_xor s x = s ! x XOR s ! (x + 5) XOR s ! (x + 10) XOR s ! (x + 15) XOR s ! (x + 20)"

lemma bit_column_xor: "bit (column_xor s x) z = fips_parity (state_bits s) x z"
  by (simp add: column_xor_def fips_parity_def state_bits_def bit_xor_iff)

lemma theta_nth:
  assumes "length s = 25" "x < 5" "y < 5"
  shows "jent_keccakp_theta s ! (x + 5 * y) = s ! (x + 5 * y) XOR
     (column_xor s ((x + 4) mod 5) XOR rol64 (column_xor s ((x + 1) mod 5)) 1)"
  using assms(2,3) unfolding less_5_disj
  by (elim disjE; insert assms(1), elim length_25E)
    (simp_all add: jent_keccakp_theta_def Let_def column_xor_def)

lemma theta_bits:
  assumes "length s = 25" "x < 5" "y < 5" "z < 64"
  shows "state_bits (jent_keccakp_theta s) x y z = fips_theta (state_bits s) x y z"
proof -
  have "(z + 63) mod 64 = (if 1 \<le> z then z - 1 else 64 + z - 1)"
    using assms(4) by (cases z) simp_all
  moreover have "nat ((int z - int 1) mod 64) = (if 1 \<le> z then z - 1 else 64 + z - 1)"
    by (rule mod64_offset) (simp_all add: assms(4))
  ultimately have "nat ((int z - int 1) mod 64) = (z + 63) mod 64"
    by (simp only:)
  then show ?thesis
    using assms theta_nth [OF assms(1-3)]
    by (simp add: state_bits_def fips_theta_def bit_xor_iff bit_rol64 bit_column_xor)
qed

definition rho_offset_table :: "nat list" where
  "rho_offset_table =
     [0, 1, 190, 28, 91, 36, 300, 6, 55, 276, 3, 10, 171, 153, 231, 105, 45, 15, 21, 136, 210, 66,
      253, 120, 78]"

lemma fips_rho_offset_values:
  "map (\<lambda>i. fips_rho_offset (i mod 5) (i div 5)) [0..<25] = rho_offset_table"
  by code_simp

lemma fips_rho_offset_eq:
  assumes "x < 5" "y < 5"
  shows "fips_rho_offset x y = rho_offset_table ! (x + 5 * y)"
proof -
  have "rho_offset_table ! (x + 5 * y) = fips_rho_offset ((x + 5 * y) mod 5) ((x + 5 * y) div 5)"
    using assms by (simp flip: fips_rho_offset_values)
  then show ?thesis using assms by simp
qed

lemma rho_nth:
  assumes "length s = 25" "x < 5" "y < 5"
  shows "jent_keccakp_rho s ! (x + 5 * y) = rol64 (s ! (x + 5 * y)) (fips_rho_offset x y mod 64)"
  unfolding fips_rho_offset_eq [OF assms(2,3)] rho_offset_table_def
  using assms(2,3) unfolding less_5_disj
  by (elim disjE; insert assms(1), elim length_25E)
   (simp_all add: jent_keccakp_rho_def Let_def RHO_ROL_def rol64_def [of _ 0])

lemma pi_nth:
  assumes "length s = 25" "x < 5" "y < 5"
  shows "jent_keccakp_pi s ! (x + 5 * y) = s ! ((x + 3 * y) mod 5 + 5 * x)"
  using assms(2,3) unfolding less_5_disj
  by (elim disjE; insert assms(1), elim length_25E)
   (simp_all add: jent_keccakp_pi_def Let_def)

lemma chi_nth:
  assumes "length s = 25" "x < 5" "y < 5"
  shows "jent_keccakp_chi s ! (x + 5 * y) = s ! (x + 5 * y) XOR (NOT (s ! ((x + 1) mod 5 + 5 * y)) AND s ! ((x + 2) mod 5 + 5 * y))"
  using assms(2,3) unfolding less_5_disj
  by (elim disjE; insert assms(1), elim length_25E)
   (simp_all add: jent_keccakp_chi_def Let_def)

lemma length_iota [simp]: "length (jent_keccakp_iota s i) = length s"
  by (simp add: jent_keccakp_iota_def)

definition fips_rc_word :: "nat \<Rightarrow> u64" where
  "fips_rc_word i =
     foldr (\<lambda>j w. w OR push_bit (2 ^ j - 1) (of_bool (fips_rc (j + 7 * i)))) [0..<7] 0"

lemma bit_foldr_or:
  "bit (foldr (\<lambda>j w. w OR push_bit (f j) (of_bool (p j))) js (0 :: u64)) z \<longleftrightarrow>
     (\<exists>j \<in> set js. z = f j \<and> p j \<and> z < 64)"
  by (induction js) (auto simp: bit_simps)

lemma bit_fips_rc_word:
  assumes "z < 64"
  shows "bit (fips_rc_word i) z \<longleftrightarrow> (\<exists>j \<le> 6. z = 2 ^ j - 1 \<and> fips_rc (j + 7 * i))"
proof -
  have "set [0..<7] = {..6 :: nat}" by auto
  then show ?thesis
    unfolding fips_rc_word_def bit_foldr_or using assms by (simp only:) blast
qed

fun lfsr_outputs :: "nat \<Rightarrow> bool list \<Rightarrow> bool list" where
  "lfsr_outputs 0 r = []"
| "lfsr_outputs (Suc n) r = r ! 0 # lfsr_outputs n (fips_lfsr_step r)"

lemma lfsr_outputs_eq: "lfsr_outputs n (fips_lfsr k) = map (\<lambda>t. fips_lfsr t ! 0) [k..<k + n]"
proof (induction n arbitrary: k)
  case (Suc n)
  from Suc [of "Suc k"] show ?case by (simp add: upt_conv_Cons del: upt_Suc)
qed simp

definition fips_rc_table :: "bool list" where
  "fips_rc_table =
     [True, False, False, False, False, False, False,
      False, True, False, True, True, False, False,
      False, True, True, True, True, False, True,
      False, False, False, False, True, True, True,
      True, True, True, True, True, False, False,
      True, False, False, False, False, True, False,
      True, False, False, True, True, True, True,
      True, False, True, False, True, False, True,
      False, True, True, True, False, False, False,
      False, False, True, True, False, False, False,
      True, False, True, False, True, True, False,
      False, True, True, False, False, True, False,
      True, True, True, True, True, True, False,
      True, True, True, True, False, False, True,
      True, False, True, True, True, False, True,
      True, True, False, False, True, False, True,
      False, True, False, False, True, False, True,
      False, False, False, True, False, False, True,
      False, True, True, False, True, False, False,
      False, True, True, False, False, True, True,
      True, False, False, True, True, True, True,
      False, False, False, True, True, False, True,
      True, False, False, False, False, True, False,
      False, False, True, False, True, True, True]"

lemma fips_rc_table_eq: "map fips_rc [0..<168] = fips_rc_table"
proof -
  have "map fips_rc [0..<168] = map (\<lambda>t. fips_lfsr t ! 0) [0..<168]"
    by (intro map_cong) (auto simp: fips_rc_def)
  also have "\<dots> = lfsr_outputs 168 (fips_lfsr 0)"
    using lfsr_outputs_eq [of 168 0] by simp
  also have "\<dots> = fips_rc_table" by code_simp
  finally show ?thesis .
qed

lemma fips_rc_word_values:
  "map (\<lambda>i. foldr (\<lambda>j w. w OR push_bit (2 ^ j - 1) (of_bool (fips_rc_table ! (j + 7 * i)))) [0..<7] (0 :: u64)) [0..<24]
    = jent_keccakp_iota_vals"
  by code_simp

lemma iota_val_bits:
  assumes "i < 24" "z < 64"
  shows "bit (jent_keccakp_iota_vals ! i) z \<longleftrightarrow> (\<exists>j \<le> 6. z = 2 ^ j - 1 \<and> fips_rc (j + 7 * i))"
proof -
  have rc: "fips_rc_table ! (j + 7 * i) = fips_rc (j + 7 * i)" if "j < 7" for j
    using that assms(1) by (simp flip: fips_rc_table_eq)
  have "jent_keccakp_iota_vals ! i =
      foldr (\<lambda>j w. w OR push_bit (2 ^ j - 1) (of_bool (fips_rc_table ! (j + 7 * i)))) [0..<7] (0 :: u64)"
    unfolding fips_rc_word_values [symmetric] using assms(1) by (simp del: upt_Suc)
  also have "\<dots> = fips_rc_word i"
    unfolding fips_rc_word_def by (rule foldr_cong) (auto simp: rc)
  finally show ?thesis using bit_fips_rc_word [OF assms(2), of i] by simp
qed

lemma iota_bits:
  assumes "length s = 25" "i < 24" "x < 5" "y < 5" "z < 64"
  shows "state_bits (jent_keccakp_iota s i) x y z = fips_iota i (state_bits s) x y z"
  using assms
  by (cases "x = 0 \<and> y = 0")
    (auto simp: state_bits_def fips_iota_def jent_keccakp_iota_def bit_xor_iff iota_val_bits)

lemma rho_bits:
  assumes "length s = 25" "x < 5" "y < 5" "z < 64"
  shows "state_bits (jent_keccakp_rho s) x y z = fips_rho (state_bits s) x y z"
  using assms by (simp add: state_bits_def fips_rho_def rho_nth bit_rol64_mod)

lemma pi_bits:
  assumes "length s = 25" "x < 5" "y < 5"
  shows "state_bits (jent_keccakp_pi s) x y z = fips_pi (state_bits s) x y z"
  using assms by (simp add: state_bits_def fips_pi_def pi_nth)

lemma chi_bits:
  assumes "length s = 25" "x < 5" "y < 5" "z < 64"
  shows "state_bits (jent_keccakp_chi s) x y z = fips_chi (state_bits s) x y z"
  using assms by (auto simp: state_bits_def fips_chi_def chi_nth bit_simps)

text \<open>The step mappings of the standard read the 1600 bits of the state only.\<close>

lemma fips_theta_cong: "same_bits a b \<Longrightarrow> same_bits (fips_theta a) (fips_theta b)"
  by (simp add: same_bits_def fips_theta_def fips_parity_def)

lemma fips_rho_cong: "same_bits a b \<Longrightarrow> same_bits (fips_rho a) (fips_rho b)"
  by (simp add: same_bits_def fips_rho_def nat_less_iff)

lemma fips_pi_cong: "same_bits a b \<Longrightarrow> same_bits (fips_pi a) (fips_pi b)"
  by (simp add: same_bits_def fips_pi_def)

lemma fips_chi_cong: "same_bits a b \<Longrightarrow> same_bits (fips_chi a) (fips_chi b)"
  by (simp add: same_bits_def fips_chi_def)

lemma fips_iota_cong: "same_bits a b \<Longrightarrow> same_bits (fips_iota i a) (fips_iota i b)"
  by (simp add: same_bits_def fips_iota_def)

lemmas fips_congs = fips_theta_cong fips_rho_cong fips_pi_cong fips_chi_cong fips_iota_cong

lemma fips_round_cong: "same_bits a b \<Longrightarrow> same_bits (fips_round i a) (fips_round i b)"
  unfolding fips_round_def by (intro fips_congs)

lemma same_bits_trans: "same_bits a b \<Longrightarrow> same_bits b c \<Longrightarrow> same_bits a c"
  by (simp add: same_bits_def)

lemma length_keccakp_round [simp]: "length (keccakp_round s i) = length s"
  by (simp add: keccakp_round_def)

lemma keccakp_round_bits:
  assumes "length s = 25" "i < 24"
  shows "same_bits (state_bits (keccakp_round s i)) (fips_round i (state_bits s))"
proof -
  let ?t = "jent_keccakp_theta s"
  let ?r = "jent_keccakp_rho ?t"
  let ?p = "jent_keccakp_pi ?r"
  let ?c = "jent_keccakp_chi ?p"
  have t: "same_bits (state_bits ?t) (fips_theta (state_bits s))"
    using assms by (simp add: same_bits_def theta_bits)
  have r: "same_bits (state_bits ?r) (fips_rho (state_bits ?t))"
    using assms by (simp add: same_bits_def rho_bits)
  have p: "same_bits (state_bits ?p) (fips_pi (state_bits ?r))"
    using assms by (simp add: same_bits_def pi_bits)
  have c: "same_bits (state_bits ?c) (fips_chi (state_bits ?p))"
    using assms by (simp add: same_bits_def chi_bits)
  have i: "same_bits (state_bits (jent_keccakp_iota ?c i)) (fips_iota i (state_bits ?c))"
    using assms by (simp add: same_bits_def iota_bits)
  have "same_bits (state_bits ?r) (fips_rho (fips_theta (state_bits s)))"
    using r fips_rho_cong [OF t] by (rule same_bits_trans)
  then have "same_bits (state_bits ?p) (fips_pi (fips_rho (fips_theta (state_bits s))))"
    using p fips_pi_cong same_bits_trans by blast
  then have "same_bits (state_bits ?c) (fips_chi (fips_pi (fips_rho (fips_theta (state_bits s)))))"
    using c fips_chi_cong same_bits_trans by blast
  then show ?thesis
    unfolding keccakp_round_def fips_round_def using i fips_iota_cong same_bits_trans by blast
qed

lemma length_keccakp_foldl [simp]: "length (foldl keccakp_round s rs) = length s"
  by (induction rs arbitrary: s) simp_all

lemma length_keccakp_1600 [simp, len_simps]: "length (jent_keccakp_1600 s) = length s"
  by (simp add: jent_keccakp_1600_def)

lemma keccakp_foldl_bits:
  assumes "length s = 25" "set rs \<subseteq> {..<24}" "same_bits (state_bits s) a"
  shows "same_bits (state_bits (foldl keccakp_round s rs)) (foldl (\<lambda>a i. fips_round i a) a rs)"
  using assms
proof (induction rs arbitrary: s a)
  case (Cons i rs)
  have "same_bits (state_bits (keccakp_round s i)) (fips_round i a)"
    using Cons.prems keccakp_round_bits [of s i] fips_round_cong same_bits_trans by auto
  then show ?case using Cons by simp
qed simp


text \<open>
  C1. The permutation \<open>jent_keccakp_1600\<close> is Keccak-p[1600, 24] of FIPS 202: for every 25-word
  state, each of the 1600 bits the code computes is the bit the standard's 24 rounds of
  \<open>theta\<close>, \<open>rho\<close>, \<open>pi\<close>, \<open>chi\<close> and \<open>iota\<close> yield, with rotation offsets and round constants
  generated by the standard's own procedures.
\<close>

theorem keccakp_1600_is_fips202:
  assumes "length s = 25"
  shows "same_bits (state_bits (jent_keccakp_1600 s)) (fips_keccak_p (state_bits s))"
  unfolding jent_keccakp_1600_def fips_keccak_p_def
  by (rule keccakp_foldl_bits [OF assms]) (auto simp: same_bits_def)

theorem keccakp_1600_is_fips202_witness:
  "same_bits (state_bits (jent_keccakp_1600 (replicate 25 1)))
     (fips_keccak_p (state_bits (replicate 25 1)))"
  by (rule keccakp_1600_is_fips202) simp

end
