(* ===== verification/Sha3.thy ===== *)
theory Sha3
  imports Keccak
begin

unbundle bit_operations_syntax

text \<open>
  \<open>jitterentropy-sha3.c\<close>: the little-endian conversions, the SHA3-256 / SHAKE-256 sponge over the
  Keccak permutation (\<open>struct jent_sha_ctx\<close> and its init, update and final operations), the XDRBG
  construction on top of it, and the self tests. The abstract side is the sponge of FIPS 202 over
  the whole message, to which the incremental operations are related by \<open>sha3_holds\<close>, and the
  XDRBG equations that the comments of the source quote.
\<close>

section \<open>Little-endian conversions\<close>

definition ptr_to_le32 :: "u8 list \<Rightarrow> u32" where
  "ptr_to_le32 p =
     ucast (p ! 0) OR push_bit 8 (ucast (p ! 1)) OR
     push_bit 16 (ucast (p ! 2)) OR push_bit 24 (ucast (p ! 3))"

definition ptr_to_le64 :: "u8 list \<Rightarrow> u64" where
  "ptr_to_le64 p = ucast (ptr_to_le32 p) OR push_bit 32 (ucast (ptr_to_le32 (drop 4 p)))"

text \<open>The stores write at offset \<open>i\<close> of the buffer \<open>p\<close>.\<close>

definition le32_to_ptr :: "u8 list \<Rightarrow> nat \<Rightarrow> u32 \<Rightarrow> u8 list" where
  "le32_to_ptr p i value =
     memcpy_at p i [ucast value, ucast (drop_bit 8 value), ucast (drop_bit 16 value),
                    ucast (drop_bit 24 value)]"

definition le64_to_ptr :: "u8 list \<Rightarrow> nat \<Rightarrow> u64 \<Rightarrow> u8 list" where
  "le64_to_ptr p i value =
     (let p = le32_to_ptr p (i + 4) (ucast (drop_bit 32 value))
      in le32_to_ptr p i (ucast value))"

section \<open>The hash context\<close>

record jent_sha_ctx =
  sha_state :: "u64 list"
  sha_partial :: "u8 list"
  sha_msg_len :: u64
  sha_r :: u8
  sha_rword :: u8
  sha_digestsize :: u8
  sha_padding :: u8
  sha_initially_seeded :: bool

text \<open>\<open>JENT_SHA3_SIZE_BLOCK(bits)\<close> and the sizes derived from it.\<close>

definition JENT_SHA3_SIZE_BLOCK :: "nat \<Rightarrow> nat" where
  "JENT_SHA3_SIZE_BLOCK bits = (1600 - 2 * bits) div 8"

abbreviation (input) "JENT_SHA3_256_SIZE_DIGEST_BITS \<equiv> 256 :: nat"
abbreviation (input) "JENT_SHA3_256_SIZE_DIGEST \<equiv> 32 :: nat"
abbreviation (input) "JENT_XDRBG_SIZE_STATE \<equiv> 64 :: nat"

definition JENT_SHA3_256_SIZE_BLOCK :: nat where
  "JENT_SHA3_256_SIZE_BLOCK = JENT_SHA3_SIZE_BLOCK JENT_SHA3_256_SIZE_DIGEST_BITS"

definition jent_sha3_init :: "jent_sha_ctx \<Rightarrow> jent_sha_ctx" where
  "jent_sha3_init ctx = ctx\<lparr>sha_state := replicate 25 0, sha_msg_len := 0\<rparr>"

definition jent_sha3_256_init :: "jent_sha_ctx \<Rightarrow> jent_sha_ctx" where
  "jent_sha3_256_init ctx =
     (jent_sha3_init ctx)
       \<lparr>sha_r := of_nat JENT_SHA3_256_SIZE_BLOCK,
        sha_rword := of_nat (JENT_SHA3_256_SIZE_BLOCK div 8),
        sha_digestsize := of_nat JENT_SHA3_256_SIZE_DIGEST,
        sha_padding := 0x06\<rparr>"

definition jent_shake256_init :: "jent_sha_ctx \<Rightarrow> jent_sha_ctx" where
  "jent_shake256_init ctx =
     (jent_sha3_init ctx)
       \<lparr>sha_r := of_nat JENT_SHA3_256_SIZE_BLOCK,
        sha_rword := of_nat (JENT_SHA3_256_SIZE_BLOCK div 8),
        sha_digestsize := 0,
        sha_padding := 0x1f,
        sha_initially_seeded := False\<rparr>"

definition jent_sha3_rate :: "jent_sha_ctx \<Rightarrow> u32" where
  "jent_sha3_rate ctx = ucast (sha_r ctx)"

definition jent_shake256_set_digestsize :: "jent_sha_ctx \<Rightarrow> u32 \<Rightarrow> jent_sha_ctx" where
  "jent_shake256_set_digestsize ctx digestsize = ctx\<lparr>sha_digestsize := ucast digestsize\<rparr>"

text \<open>The loop of \<open>jent_sha3_fill_state\<close>: \<open>state[i] ^= ptr_to_le64 (in + 8 * i)\<close>.\<close>

definition xor_block :: "nat \<Rightarrow> u64 list \<Rightarrow> u8 list \<Rightarrow> u64 list" where
  "xor_block rword st inp =
     foldl (\<lambda>st i. st[i := st ! i XOR ptr_to_le64 (drop (8 * i) inp)]) st [0..<rword]"

definition jent_sha3_fill_state :: "jent_sha_ctx \<Rightarrow> u8 list \<Rightarrow> jent_sha_ctx" where
  "jent_sha3_fill_state ctx inp =
     ctx\<lparr>sha_state := xor_block (unat (sha_rword ctx)) (sha_state ctx) inp\<rparr>"

definition sha3_transform :: "jent_sha_ctx \<Rightarrow> u8 list \<Rightarrow> jent_sha_ctx" where
  "sha3_transform ctx inp =
     (let ctx = jent_sha3_fill_state ctx inp
      in ctx\<lparr>sha_state := jent_keccakp_1600 (sha_state ctx)\<rparr>)"

text \<open>
  The tail of \<open>jent_sha3_update\<close>: whole blocks are absorbed, the rest goes to the partial buffer.
  (The guard \<open>0 < r\<close> is implied by the initialisation, which sets the rate to 136.)
\<close>

function sha3_absorb_blocks :: "jent_sha_ctx \<Rightarrow> u8 list \<Rightarrow> jent_sha_ctx" where
  "sha3_absorb_blocks ctx inp =
     (if 0 < unat (sha_r ctx) \<and> unat (sha_r ctx) \<le> length inp
      then sha3_absorb_blocks (sha3_transform ctx inp) (drop (unat (sha_r ctx)) inp)
      else ctx\<lparr>sha_partial := memcpy_at (sha_partial ctx) 0 inp\<rparr>)"
  by pat_completeness auto
termination
  by (relation "measure (\<lambda>(ctx, inp). length inp)") auto

declare sha3_absorb_blocks.simps [simp del]

definition jent_sha3_update :: "jent_sha_ctx \<Rightarrow> u8 list \<Rightarrow> jent_sha_ctx" where
  "jent_sha3_update ctx inp =
     (let partial = unat (sha_msg_len ctx mod ucast (sha_r ctx));
          ctx = ctx\<lparr>sha_msg_len := sha_msg_len ctx + of_nat (length inp)\<rparr>
      in if partial \<noteq> 0
         then let todo = unat (sha_r ctx) - partial
              in if length inp < todo
                 then ctx\<lparr>sha_partial := memcpy_at (sha_partial ctx) partial inp\<rparr>
                 else let ctx = ctx\<lparr>sha_partial :=
                                      memcpy_at (sha_partial ctx) partial (take todo inp)\<rparr>;
                          ctx = sha3_transform ctx (sha_partial ctx)
                      in sha3_absorb_blocks ctx (drop todo inp)
         else sha3_absorb_blocks ctx inp)"

text \<open>
  \<open>jent_sha3_final\<close> writes \<open>digestsize / 8\<close> words to the buffer \<open>digest\<close> and returns it with the
  re-initialised context.
\<close>

definition jent_sha3_final :: "jent_sha_ctx \<Rightarrow> u8 list \<Rightarrow> u8 list \<times> jent_sha_ctx" where
  "jent_sha3_final ctx digest =
     (let r = unat (sha_r ctx);
          partial = unat (sha_msg_len ctx mod ucast (sha_r ctx));
          buf = memset_at (sha_partial ctx) partial 0 (r - partial);
          buf = buf[partial := sha_padding ctx];
          buf = buf[r - 1 := buf ! (r - 1) OR 0x80];
          ctx = sha3_transform (ctx\<lparr>sha_partial := buf\<rparr>) buf;
          digest = foldl (\<lambda>d i. le64_to_ptr d (8 * i) (sha_state ctx ! i)) digest
                     [0..<unat (sha_digestsize ctx) div 8];
          ctx = ctx\<lparr>sha_partial := memset_at (sha_partial ctx) 0 0 r\<rparr>
      in (digest, jent_sha3_init ctx))"

section \<open>XDRBG\<close>

definition JENT_XDRBG_DRNG_ENCODE_N :: "nat \<Rightarrow> u8" where
  "JENT_XDRBG_DRNG_ENCODE_N x = of_nat (x * 85)"

text \<open>
  The block goes to \<open>dst + off\<close>; with \<open>dst_len = 0\<close> the destination is not touched. The local
  buffer \<open>jent_block_next_state\<close> is not initialised in C and is wholly written before it is read.
\<close>

definition jent_xdrbg256_generate_block ::
  "jent_sha_ctx \<Rightarrow> u8 list \<Rightarrow> nat \<Rightarrow> nat \<Rightarrow> u8 list \<times> jent_sha_ctx" where
  "jent_xdrbg256_generate_block ctx dst off dst_len =
     (let next = replicate (JENT_XDRBG_SIZE_STATE + JENT_SHA3_256_SIZE_DIGEST) 0;
          encode = JENT_XDRBG_DRNG_ENCODE_N (of_bool (sha_initially_seeded ctx));
          ctx = ctx\<lparr>sha_initially_seeded := True\<rparr>;
          ctx = jent_sha3_update ctx [encode];
          ctx = jent_shake256_set_digestsize ctx (of_nat JENT_XDRBG_SIZE_STATE);
          (next, ctx) = jent_sha3_final ctx next;
          ctx = jent_sha3_update ctx (take JENT_XDRBG_SIZE_STATE next);
          encode = JENT_XDRBG_DRNG_ENCODE_N 2;
          ctx = jent_sha3_update ctx [encode];
          ctx = jent_shake256_set_digestsize ctx
                  (of_nat (JENT_XDRBG_SIZE_STATE + JENT_SHA3_256_SIZE_DIGEST));
          (next, ctx) = jent_sha3_final ctx next;
          dst = (if dst_len \<noteq> 0
                 then let dst_len = (if dst_len > JENT_SHA3_256_SIZE_DIGEST
                                     then JENT_SHA3_256_SIZE_DIGEST else dst_len)
                      in memcpy_at dst off (take dst_len (drop JENT_XDRBG_SIZE_STATE next))
                 else dst);
          ctx = jent_sha3_update ctx (take JENT_XDRBG_SIZE_STATE next)
      in (dst, ctx))"

definition jent_drbg_generate_block ::
  "jent_sha_ctx \<Rightarrow> u8 list \<Rightarrow> nat \<Rightarrow> nat \<Rightarrow> u8 list \<times> jent_sha_ctx" where
  "jent_drbg_generate_block ctx dst off dst_len = jent_xdrbg256_generate_block ctx dst off dst_len"

section \<open>Self tests\<close>

text \<open>The context on the stack holds arbitrary data before its initialisation.\<close>

definition jent_xdrbg256_tester :: "jent_sha_ctx \<Rightarrow> int" where
  "jent_xdrbg256_tester ctx =
     (let seed = [0x00, 0x01, 0x02, 0x03, 0x04, 0x05, 0x06, 0x07, 0x08];
          exp = [0x51, 0xe4, 0x3c, 0xf6, 0x4b, 0xa2, 0x80, 0x77,
                 0x33, 0x1a, 0x47, 0xe3, 0xf8, 0xb4, 0x1a, 0x42,
                 0xad, 0xd3, 0xa0, 0xf2, 0x53, 0x97, 0x10, 0xdd,
                 0x6e, 0xa1, 0x16, 0x1d, 0x37, 0x8a, 0x6f, 0xb6];
          act = replicate 32 0;
          ctx = jent_shake256_init ctx;
          ctx = jent_sha3_update ctx seed;
          (act, ctx) = jent_xdrbg256_generate_block ctx act 0 (length act);
          ctx = jent_sha3_update ctx seed;
          (act, ctx) = jent_xdrbg256_generate_block ctx act 0 (length act)
      in if act = exp then 0 else 1)"

definition jent_sha3_256_tester :: "jent_sha_ctx \<Rightarrow> int" where
  "jent_sha3_256_tester ctx =
     (let msg = [0x5E, 0x5E, 0xD6];
          exp = [0xF1, 0x6E, 0x66, 0xC0, 0x43, 0x72, 0xB4, 0xA3, 0xE1, 0xE3,
                 0x2E, 0x07, 0xC4, 0x1C, 0x03, 0x40, 0x8A, 0xD5, 0x43, 0x86,
                 0x8C, 0xC4, 0x0E, 0xC5, 0x5E, 0x00, 0xBB, 0xBB, 0xBD, 0xF5,
                 0x91, 0x1E];
          act = replicate 32 0;
          ctx = jent_sha3_256_init ctx;
          ctx = jent_sha3_update ctx msg;
          (act, ctx) = jent_sha3_final ctx act
      in if act = exp then 0 else 1)"

definition jent_sha3_tester :: "jent_sha_ctx \<Rightarrow> int" where
  "jent_sha3_tester ctx =
     (if jent_sha3_256_tester ctx \<noteq> 0 then 1 else jent_xdrbg256_tester ctx)"

section \<open>Little-endian round trips\<close>

definition le64_bytes :: "u64 \<Rightarrow> u8 list" where
  "le64_bytes v = map (\<lambda>k. ucast (drop_bit (8 * k) v)) [0..<8]"

lemma length_le64_bytes [simp, len_simps]: "length (le64_bytes v) = 8"
  by (simp add: le64_bytes_def)

lemma le64_bytes_unfold:
  "le64_bytes v =
     [ucast v, ucast (drop_bit 8 v), ucast (drop_bit 16 v), ucast (drop_bit 24 v),
      ucast (drop_bit 32 v), ucast (drop_bit 40 v), ucast (drop_bit 48 v), ucast (drop_bit 56 v)]"
  by (simp add: le64_bytes_def upt_rec)

lemma ucast_ucast_drop_bit:
  "n \<le> 24 \<Longrightarrow> ucast (drop_bit n (ucast (v :: u64) :: u32)) = (ucast (drop_bit n v) :: u8)"
  by (rule bit_word_eqI) (auto simp: bit_simps)

lemma ucast_ucast_drop_bit_high:
  "n \<le> 24 \<Longrightarrow> ucast (drop_bit n (ucast (drop_bit 32 (v :: u64)) :: u32)) =
     (ucast (drop_bit (32 + n) v) :: u8)"
  by (rule bit_word_eqI) (auto simp: bit_simps add.assoc)

lemma le64_to_ptr_memcpy:
  assumes "i + 8 \<le> length p"
  shows "le64_to_ptr p i v = memcpy_at p i (le64_bytes v)"
  using assms ucast_ucast_drop_bit [of 0 v] ucast_ucast_drop_bit_high [of 0 v]
  by (simp add: le64_to_ptr_def le32_to_ptr_def memcpy_at_def Let_def le64_bytes_unfold
      ucast_ucast_drop_bit ucast_ucast_drop_bit_high drop_append min_def)
    (simp add: eval_nat_numeral)

lemma bit_u8_high [simp]: "8 \<le> n \<Longrightarrow> \<not> bit (w :: u8) n"
  using bit_imp_le_length [of w n] by auto

lemma ucast_push_byte:
  "k \<le> 24 \<Longrightarrow> ucast (push_bit k (ucast (b :: u8) :: u32)) = (push_bit k (ucast b) :: u64)"
  by (rule bit_word_eqI) (auto simp: bit_simps dest: bit_imp_le_length)

lemma ptr_to_le64_flat:
  assumes "8 \<le> length p"
  shows "ptr_to_le64 p =
     ucast (p ! 0) OR push_bit 8 (ucast (p ! 1)) OR push_bit 16 (ucast (p ! 2)) OR
     push_bit 24 (ucast (p ! 3)) OR push_bit 32 (ucast (p ! 4)) OR push_bit 40 (ucast (p ! 5)) OR
     push_bit 48 (ucast (p ! 6)) OR push_bit 56 (ucast (p ! 7))"
  using assms ucast_push_byte [of 0 "p ! 0"] ucast_push_byte [of 0 "p ! 4"]
  by (simp add: ptr_to_le64_def ptr_to_le32_def unsigned_or_eq ucast_push_byte push_bit_or or.assoc)

lemma bit_push_byte:
  "n < 64 \<Longrightarrow> bit (push_bit k (ucast (ucast (drop_bit k v) :: u8) :: u64)) n \<longleftrightarrow>
     k \<le> n \<and> n < k + 8 \<and> bit (v :: u64) n"
  by (auto simp: bit_simps)

lemma ptr_to_le64_bytes: "ptr_to_le64 (le64_bytes v @ rest) = v"
proof (rule bit_word_eqI)
  fix n assume n: "n < LENGTH(64)"
  have "bit (ptr_to_le64 (le64_bytes v @ rest)) n \<longleftrightarrow>
    (\<exists>k \<in> {0, 8, 16, 24, 32, 40, 48, 56}. k \<le> n \<and> n < k + 8 \<and> bit v n)"
    using n bit_push_byte [of n 0 v]
    by (simp add: ptr_to_le64_flat le64_bytes_unfold bit_or_iff bit_push_byte del: disj_not1)
  also have "\<dots> \<longleftrightarrow> bit v n" using n by auto
  finally show "bit (ptr_to_le64 (le64_bytes v @ rest)) n = bit v n" .
qed

lemma le64_bytes_ptr:
  assumes "8 \<le> length p"
  shows "le64_bytes (ptr_to_le64 p) = take 8 p"
proof -
  have p: "take 8 p = [p ! 0, p ! 1, p ! 2, p ! 3, p ! 4, p ! 5, p ! 6, p ! 7]"
    using assms by (auto intro!: nth_equalityI simp: less_Suc_eq eval_nat_numeral)
  show ?thesis
    unfolding p le64_bytes_unfold ptr_to_le64_flat [OF assms]
    by (auto intro!: bit_word_eqI simp: bit_simps)
qed

section \<open>The sponge\<close>

text \<open>
  Absorbing a message of arbitrary length: \<open>step\<close> is applied to each whole block of \<open>r\<close> bytes, and
  \<open>sponge_rest\<close> is what is left after the last whole block.
\<close>

function sponge_absorb :: "nat \<Rightarrow> ('st \<Rightarrow> u8 list \<Rightarrow> 'st) \<Rightarrow> 'st \<Rightarrow> u8 list \<Rightarrow> 'st" where
  "sponge_absorb r step st m =
     (if 0 < r \<and> r \<le> length m then sponge_absorb r step (step st (take r m)) (drop r m) else st)"
  by pat_completeness auto
termination
  by (relation "measure (\<lambda>(r, step, st, m). length m)") auto

declare sponge_absorb.simps [simp del]

definition sponge_rest :: "nat \<Rightarrow> u8 list \<Rightarrow> u8 list" where
  "sponge_rest r m = drop (r * (length m div r)) m"

text \<open>
  The interface between the sponge and the permutation: a positive rate, and a step that keeps the
  states well formed. Everything about chunked absorption is proved once from it.
\<close>

locale sponge =
  fixes rate :: nat
    and step :: "'st \<Rightarrow> u8 list \<Rightarrow> 'st"
    and wf_state :: "'st \<Rightarrow> bool"
  assumes rate_pos: "0 < rate"
    and wf_step: "wf_state st \<Longrightarrow> wf_state (step st b)"
begin

lemma length_rest: "length (sponge_rest rate m) = length m mod rate"
  by (simp add: sponge_rest_def minus_mult_div_eq_mod)

lemma rest_short: "length m < rate \<Longrightarrow> sponge_rest rate m = m"
  by (simp add: sponge_rest_def)

lemma absorb_short: "length m < rate \<Longrightarrow> sponge_absorb rate step st m = st"
  by (subst sponge_absorb.simps) simp

lemma absorb_block:
  "rate \<le> length m \<Longrightarrow>
     sponge_absorb rate step st m = sponge_absorb rate step (step st (take rate m)) (drop rate m)"
  using rate_pos by (subst sponge_absorb.simps) simp

lemma rest_block:
  assumes "rate \<le> length m"
  shows "sponge_rest rate m = sponge_rest rate (drop rate m)"
proof -
  obtain k where k: "length m div rate = Suc k"
    using assms rate_pos by (metis Suc_pred' div_greater_zero_iff)
  then have "(length m - rate) div rate = k"
    using assms rate_pos by (simp add: le_div_geq)
  with k show ?thesis by (simp add: sponge_rest_def add.commute)
qed

lemma absorb_append:
  "sponge_absorb rate step st (a @ b) =
     sponge_absorb rate step (sponge_absorb rate step st a) (sponge_rest rate a @ b)"
proof (induction "length a" arbitrary: a st rule: less_induct)
  case less
  show ?case
  proof (cases "rate \<le> length a")
    case True
    with rate_pos have "length (drop rate a) < length a" by simp
    from less [OF this, of "step st (take rate a)"] True show ?thesis
      by (simp add: absorb_block [of "a @ b"] absorb_block [of a] rest_block [of a])
  next
    case False
    then show ?thesis by (simp add: absorb_short rest_short)
  qed
qed

lemma rest_append: "sponge_rest rate (a @ b) = sponge_rest rate (sponge_rest rate a @ b)"
proof (induction "length a" arbitrary: a rule: less_induct)
  case less
  show ?case
  proof (cases "rate \<le> length a")
    case True
    with rate_pos have "length (drop rate a) < length a" by simp
    from less [OF this] True show ?thesis
      by (simp add: rest_block [of "a @ b"] rest_block [of a])
  next
    case False
    then show ?thesis by (simp add: rest_short)
  qed
qed

lemma wf_absorb: "wf_state st \<Longrightarrow> wf_state (sponge_absorb rate step st m)"
proof (induction "length m" arbitrary: m st rule: less_induct)
  case less
  show ?case
  proof (cases "rate \<le> length m")
    case True
    with rate_pos have "length (drop rate m) < length m" by simp
    from less(1) [OF this, of "step st (take rate m)"] less(2) True show ?thesis
      by (simp add: absorb_block wf_step)
  next
    case False
    with less(2) show ?thesis by (simp add: absorb_short)
  qed
qed

end

definition keccak_step :: "u64 list \<Rightarrow> u8 list \<Rightarrow> u64 list" where
  "keccak_step st b = jent_keccakp_1600 (xor_block 17 st b)"

lemma length_xor_block [simp, len_simps]: "length (xor_block n st b) = length st"
proof -
  have "length (foldl (\<lambda>st i. st[i := st ! i XOR f i]) st is') = length st" for is' f
    by (induction is' arbitrary: st) simp_all
  then show ?thesis by (simp add: xor_block_def)
qed

lemma length_keccak_step [simp, len_simps]: "length (keccak_step st b) = length st"
  by (simp add: keccak_step_def)

interpretation keccak_sponge: sponge 136 keccak_step "\<lambda>st. length st = 25"
  by unfold_locales simp_all

lemma length_keccak_absorb [simp, len_simps]:
  "length st = 25 \<Longrightarrow> length (sponge_absorb 136 keccak_step st m) = 25"
  by (rule keccak_sponge.wf_absorb)

section \<open>The incremental operations refine the sponge\<close>

lemma JENT_SHA3_256_SIZE_BLOCK_136 [simp]: "JENT_SHA3_256_SIZE_BLOCK = 136"
  by (simp add: JENT_SHA3_256_SIZE_BLOCK_def JENT_SHA3_SIZE_BLOCK_def)

lemma ptr_to_le64_take: "8 \<le> n \<Longrightarrow> ptr_to_le64 (take n p) = ptr_to_le64 p"
  by (simp add: ptr_to_le64_def ptr_to_le32_def drop_take)

lemma xor_block_take: "xor_block 17 st (take 136 b) = xor_block 17 st b"
proof -
  have "ptr_to_le64 (drop (8 * i) (take 136 b)) = ptr_to_le64 (drop (8 * i) b)" if "i < 17" for i
    using that by (simp add: drop_take ptr_to_le64_take)
  then show ?thesis
    unfolding xor_block_def by (intro foldl_cong) auto
qed

lemma keccak_step_take: "keccak_step st (take 136 b) = keccak_step st b"
  by (simp add: keccak_step_def xor_block_take)

text \<open>A context initialised for the 136-byte rate, with buffers of the C sizes.\<close>

definition sha_wf :: "jent_sha_ctx \<Rightarrow> bool" where
  "sha_wf ctx \<longleftrightarrow> length (sha_state ctx) = 25 \<and> length (sha_partial ctx) = 136 \<and>
     sha_r ctx = 136 \<and> sha_rword ctx = 17"

lemma sha3_transform_eq:
  "sha_rword ctx = 17 \<Longrightarrow>
     sha3_transform ctx b = ctx\<lparr>sha_state := keccak_step (sha_state ctx) b\<rparr>"
  by (simp add: sha3_transform_def jent_sha3_fill_state_def keccak_step_def Let_def)

lemma sha3_absorb_blocks_eq:
  assumes "sha_r ctx = 136" "sha_rword ctx = 17"
  shows "sha3_absorb_blocks ctx b =
     ctx\<lparr>sha_state := sponge_absorb 136 keccak_step (sha_state ctx) b,
         sha_partial := memcpy_at (sha_partial ctx) 0 (sponge_rest 136 b)\<rparr>"
  using assms
proof (induction "length b" arbitrary: b ctx rule: less_induct)
  case less
  show ?case
  proof (cases "136 \<le> length b")
    case True
    then have "length (drop 136 b) < length b" by simp
    from less(1) [OF this, of "sha3_transform ctx b"] less(2,3) True show ?thesis
      by (subst sha3_absorb_blocks.simps)
        (simp add: sha3_transform_eq keccak_sponge.absorb_block keccak_sponge.rest_block
          keccak_step_take)
  next
    case False
    with less(2) show ?thesis
      by (subst sha3_absorb_blocks.simps)
        (simp add: keccak_sponge.absorb_short keccak_sponge.rest_short)
  qed
qed

text \<open>The abstraction relation: the context has absorbed exactly the message \<open>m\<close>.\<close>

definition sha3_holds :: "jent_sha_ctx \<Rightarrow> u8 list \<Rightarrow> bool" where
  "sha3_holds ctx m \<longleftrightarrow> sha_wf ctx \<and> length m < 2 ^ 64 \<and>
     sha_msg_len ctx = of_nat (length m) \<and>
     sha_state ctx = sponge_absorb 136 keccak_step (replicate 25 0) m \<and>
     take (length m mod 136) (sha_partial ctx) = sponge_rest 136 m"

lemma msg_len_mod_rate:
  "n < 2 ^ 64 \<Longrightarrow> unat ((of_nat n :: u64) mod 136) = n mod 136"
  by (simp add: unat_mod unat_of_nat_small)

lemma sha3_holds_partial:
  assumes "sha3_holds ctx m"
  shows "unat (sha_msg_len ctx mod ucast (sha_r ctx)) = length m mod 136"
  using assms by (simp add: sha3_holds_def sha_wf_def msg_len_mod_rate)

lemma sha3_update_fits:
  assumes "sha3_holds ctx m" "length m + length d < 2 ^ 64"
    and "length m mod 136 \<noteq> 0" "length d < 136 - length m mod 136"
  shows "sha3_holds (jent_sha3_update ctx d) (m @ d)"
proof -
  have "(length m + length d) mod 136 = (length m mod 136 + length d) mod 136"
    by (simp add: mod_add_left_eq)
  also have "\<dots> = length m mod 136 + length d"
    using assms(4) by (intro mod_less) simp
  finally show ?thesis
    using assms keccak_sponge.length_rest [of m]
    unfolding jent_sha3_update_def sha3_holds_partial [OF assms(1)]
    by (simp add: sha3_holds_def sha_wf_def Let_def
        keccak_sponge.absorb_append [of _ m d] keccak_sponge.rest_append [of m d]
        keccak_sponge.absorb_short keccak_sponge.rest_short)
qed

lemma sha3_update_aligned:
  assumes "sha3_holds ctx m" "length m + length d < 2 ^ 64" "length m mod 136 = 0"
  shows "sha3_holds (jent_sha3_update ctx d) (m @ d)"
proof -
  have rest: "sponge_rest 136 m = []"
    using keccak_sponge.length_rest [of m] assms(3) by simp
  have len: "(length m + length d) mod 136 = length (sponge_rest 136 d)"
    using assms(3) by (simp add: keccak_sponge.length_rest mod_add_eq [symmetric])
  then have "length (sponge_rest 136 d) \<le> 136"
    using mod_less_divisor [of 136 "length m + length d"] by simp
  then show ?thesis
    using assms
    unfolding jent_sha3_update_def sha3_holds_partial [OF assms(1)]
    by (simp add: sha3_holds_def sha_wf_def Let_def sha3_absorb_blocks_eq rest len
        keccak_sponge.absorb_append [of _ m d] keccak_sponge.rest_append [of m d])
      (simp add: memcpy_at_def)
qed

lemma sha3_update_fills:
  assumes "sha3_holds ctx m" "length m + length d < 2 ^ 64"
    and "length m mod 136 \<noteq> 0" "136 - length m mod 136 \<le> length d"
  shows "sha3_holds (jent_sha3_update ctx d) (m @ d)"
proof -
  let ?p = "length m mod 136"
  let ?todo = "136 - ?p"
  let ?d = "drop ?todo d"
  have p: "?p < 136" by simp
  have lr: "length (sponge_rest 136 m) = ?p" by (rule keccak_sponge.length_rest)
  have buf: "memcpy_at (sha_partial ctx) ?p (take ?todo d) = sponge_rest 136 m @ take ?todo d"
    using assms(1,4) p by (simp add: memcpy_at_def sha3_holds_def sha_wf_def)
  have blk: "take 136 (sponge_rest 136 m @ d) = sponge_rest 136 m @ take ?todo d"
    "drop 136 (sponge_rest 136 m @ d) = ?d" "136 \<le> length (sponge_rest 136 m @ d)"
    using assms(4) p by (simp_all add: lr)
  have len: "(length m + length d) mod 136 = length (sponge_rest 136 ?d)"
  proof -
    have "length m + length d = (length m div 136 + 1) * 136 + length ?d"
      using assms(4) p div_mult_mod_eq [of "length m" 136] by simp
    then have "(length m + length d) mod 136 = length ?d mod 136"
      by (simp only: mod_mult_self3)
    then show ?thesis by (simp add: keccak_sponge.length_rest)
  qed
  then have "length (sponge_rest 136 ?d) \<le> 136"
    using mod_less_divisor [of 136 "length m + length d"] by simp
  then show ?thesis
    using assms p
    unfolding jent_sha3_update_def sha3_holds_partial [OF assms(1)]
    by (simp add: sha3_holds_def sha_wf_def Let_def sha3_absorb_blocks_eq sha3_transform_eq buf len
        keccak_sponge.absorb_append [of _ m d] keccak_sponge.rest_append [of m d]
        keccak_sponge.absorb_block [OF blk(3)] keccak_sponge.rest_block [OF blk(3)] blk(1,2) lr)
      (simp add: memcpy_at_def)
qed

lemma sha3_update_holds:
  assumes "sha3_holds ctx m" "length m + length d < 2 ^ 64"
  shows "sha3_holds (jent_sha3_update ctx d) (m @ d)"
  using assms sha3_update_aligned sha3_update_fits sha3_update_fills
  by (metis linorder_not_le)

text \<open>
  The padding of FIPS 202 (\<open>pad10*1\<close> after the domain bits, which \<open>suffix\<close> contains), and the
  bytes of the state in the order the sponge outputs them.
\<close>

definition sha3_pad :: "u8 \<Rightarrow> nat \<Rightarrow> u8 list" where
  "sha3_pad suffix n =
     (let q = 136 - n mod 136
      in if q = 1 then [suffix OR 0x80] else suffix # replicate (q - 2) 0 @ [0x80])"

definition state_bytes :: "u64 list \<Rightarrow> u8 list" where
  "state_bytes st = concat (map le64_bytes st)"

text \<open>The sponge with one squeezed block, for at most 200 bytes of output.\<close>

definition keccak_sponge_out :: "u8 \<Rightarrow> u8 list \<Rightarrow> nat \<Rightarrow> u8 list" where
  "keccak_sponge_out suffix m n =
     take n (state_bytes (sponge_absorb 136 keccak_step (replicate 25 0)
                           (m @ sha3_pad suffix (length m))))"

lemma length_state_bytes [simp, len_simps]: "length (state_bytes st) = 8 * length st"
  by (simp add: state_bytes_def length_concat comp_def sum_list_triv)

lemma length_keccak_sponge_out [simp, len_simps]:
  "n \<le> 200 \<Longrightarrow> length (keccak_sponge_out suffix m n) = n"
  by (simp add: keccak_sponge_out_def)

lemma squeeze_loop:
  "8 * n \<le> length d \<Longrightarrow> n \<le> length st \<Longrightarrow>
     foldl (\<lambda>d i. le64_to_ptr d (8 * i) (st ! i)) d [0..<n] =
       memcpy_at d 0 (take (8 * n) (state_bytes st))"
proof (induction n)
  case 0
  show ?case by simp
next
  case (Suc n)
  have "take (8 * Suc n) (state_bytes st) = take (8 * n) (state_bytes st) @ le64_bytes (st ! n)"
  proof -
    have st: "st = take n st @ st ! n # drop (Suc n) st"
      using Suc.prems by (simp add: id_take_nth_drop)
    have l: "length (state_bytes (take n st)) = 8 * n" using Suc.prems by simp
    have "state_bytes st =
        state_bytes (take n st) @ le64_bytes (st ! n) @ state_bytes (drop (Suc n) st)"
      by (subst st) (simp add: state_bytes_def)
    then show ?thesis using l by simp
  qed
  then show ?case
    using Suc by (simp add: le64_to_ptr_memcpy) (simp add: memcpy_at_def add.commute)
qed

lemma update_last_zero: "(replicate (Suc k) z)[k := v] = replicate k z @ [v]"
  by (induction k) simp_all

text \<open>The buffer that \<open>jent_sha3_final\<close> transforms is the rest of the message and its padding.\<close>

lemma final_buffer:
  assumes "sha3_holds ctx m"
  shows "(let buf = memset_at (sha_partial ctx) (length m mod 136) 0 (136 - length m mod 136);
              buf = buf[length m mod 136 := p]
          in buf[135 := buf ! 135 OR 0x80]) = sponge_rest 136 m @ sha3_pad p (length m)"
proof -
  let ?q = "length m mod 136"
  have l: "length (sponge_rest 136 m) = ?q" by (rule keccak_sponge.length_rest)
  have q: "?q < 136" by simp
  have buf: "memset_at (sha_partial ctx) ?q 0 (136 - ?q) = sponge_rest 136 m @ replicate (136 - ?q) 0"
    using assms q by (subst memset_at_to_end) (simp_all add: sha3_holds_def sha_wf_def)
  show ?thesis
  proof (cases "?q = 135")
    case True
    then show ?thesis unfolding buf
      by (simp add: sha3_pad_def Let_def list_update_append nth_append l)
  next
    case False
    define k where "k = 134 - ?q"
    have k: "136 - ?q = Suc (Suc k)" "135 = ?q + Suc k" "136 - ?q \<noteq> 1" "136 - ?q - 2 = k"
      using q False by (simp_all add: k_def)
    have u1: "(sponge_rest 136 m @ replicate (136 - ?q) 0)[?q := p] =
        sponge_rest 136 m @ p # replicate (Suc k) 0"
      by (simp add: k list_update_append l)
    have u2: "(sponge_rest 136 m @ p # replicate (Suc k) 0) ! 135 = 0"
      by (simp add: k nth_append l del: replicate.simps)
    have u3: "(sponge_rest 136 m @ p # replicate (Suc k) 0)[135 := 0x80] =
        sponge_rest 136 m @ p # replicate k 0 @ [0x80]"
      by (simp add: k list_update_append l update_last_zero del: replicate.simps)
    show ?thesis
      unfolding buf Let_def u1 u2 or.left_neutral u3 using k by (simp add: sha3_pad_def)
  qed
qed

lemma length_sha3_pad: "length (sha3_pad suffix n) = 136 - n mod 136"
proof -
  have "n mod 136 < 136" by simp
  then show ?thesis by (auto simp: sha3_pad_def Let_def)
qed

lemma absorb_padded:
  "sponge_absorb 136 keccak_step st (m @ sha3_pad p (length m)) =
     keccak_step (sponge_absorb 136 keccak_step st m) (sponge_rest 136 m @ sha3_pad p (length m))"
proof -
  have "length (sponge_rest 136 m @ sha3_pad p (length m)) = 136"
    by (simp add: length_sha3_pad keccak_sponge.length_rest)
  then show ?thesis
    by (simp add: keccak_sponge.absorb_append [of st m] keccak_sponge.absorb_block
        keccak_sponge.absorb_short)
qed

lemma sha3_final_eq:
  assumes "sha3_holds ctx m"
    and "8 * (unat (sha_digestsize ctx) div 8) \<le> length digest"
    and "unat (sha_digestsize ctx) \<le> 200"
  shows "jent_sha3_final ctx digest =
     (memcpy_at digest 0
        (keccak_sponge_out (sha_padding ctx) m (8 * (unat (sha_digestsize ctx) div 8))),
      ctx\<lparr>sha_state := replicate 25 0, sha_partial := replicate 136 0, sha_msg_len := 0\<rparr>)"
proof -
  have wf: "sha_wf ctx" using assms(1) by (simp add: sha3_holds_def)
  let ?st = "keccak_step (sha_state ctx) (sponge_rest 136 m @ sha3_pad (sha_padding ctx) (length m))"
  have len: "length ?st = 25" using wf by (simp add: sha_wf_def)
  have sq: "foldl (\<lambda>d i. le64_to_ptr d (8 * i) (?st ! i)) digest [0..<unat (sha_digestsize ctx) div 8]
      = memcpy_at digest 0 (take (8 * (unat (sha_digestsize ctx) div 8)) (state_bytes ?st))"
    using assms(2,3) len by (intro squeeze_loop) simp_all
  have st: "sponge_absorb 136 keccak_step (replicate 25 0) (m @ sha3_pad (sha_padding ctx) (length m))
      = ?st"
    using assms(1) by (simp add: absorb_padded sha3_holds_def)
  have "length (sponge_rest 136 m @ sha3_pad (sha_padding ctx) (length m)) = 136"
    by (simp add: length_sha3_pad keccak_sponge.length_rest)
  then show ?thesis
    using wf final_buffer [OF assms(1), of "sha_padding ctx"] sq
    unfolding jent_sha3_final_def sha3_holds_partial [OF assms(1)] keccak_sponge_out_def st
    by (simp add: Let_def sha_wf_def sha3_transform_eq jent_sha3_init_def memset_at_def)
qed

lemma sha3_holds_empty:
  "sha_wf ctx \<Longrightarrow> sha_state ctx = replicate 25 0 \<Longrightarrow> sha_msg_len ctx = 0 \<Longrightarrow> sha3_holds ctx []"
  by (simp add: sha3_holds_def keccak_sponge.absorb_short keccak_sponge.rest_short)

lemma sha3_256_init_holds:
  "length (sha_partial ctx) = 136 \<Longrightarrow> sha3_holds (jent_sha3_256_init ctx) []"
  by (rule sha3_holds_empty) (simp_all add: jent_sha3_256_init_def jent_sha3_init_def sha_wf_def)

lemma shake256_init_holds:
  "length (sha_partial ctx) = 136 \<Longrightarrow> sha3_holds (jent_shake256_init ctx) []"
  by (rule sha3_holds_empty) (simp_all add: jent_shake256_init_def jent_sha3_init_def sha_wf_def)

text \<open>Fields an update leaves alone.\<close>

lemma sha3_absorb_blocks_frame [frame_simps]:
  "sha_padding (sha3_absorb_blocks ctx b) = sha_padding ctx \<and>
   sha_digestsize (sha3_absorb_blocks ctx b) = sha_digestsize ctx \<and>
   sha_initially_seeded (sha3_absorb_blocks ctx b) = sha_initially_seeded ctx"
proof (induction ctx b rule: sha3_absorb_blocks.induct)
  case (1 ctx b)
  then show ?case
    by (subst (1 2 3) sha3_absorb_blocks.simps)
      (simp add: sha3_transform_def jent_sha3_fill_state_def Let_def)
qed

lemma jent_sha3_update_frame [simp, frame_simps]:
  "sha_padding (jent_sha3_update ctx b) = sha_padding ctx"
  "sha_digestsize (jent_sha3_update ctx b) = sha_digestsize ctx"
  "sha_initially_seeded (jent_sha3_update ctx b) = sha_initially_seeded ctx"
  by (simp_all add: jent_sha3_update_def Let_def sha3_absorb_blocks_frame sha3_transform_def
      jent_sha3_fill_state_def)

lemma sha3_holds_set [simp]:
  "sha3_holds (ctx\<lparr>sha_initially_seeded := b\<rparr>) m = sha3_holds ctx m"
  "sha3_holds (ctx\<lparr>sha_digestsize := n\<rparr>) m = sha3_holds ctx m"
  by (simp_all add: sha3_holds_def sha_wf_def)

lemma sha3_updates_hold:
  assumes "sha3_holds ctx m" "length m + length (concat chunks) < 2 ^ 64"
  shows "sha3_holds (foldl jent_sha3_update ctx chunks) (m @ concat chunks) \<and>
     sha_padding (foldl jent_sha3_update ctx chunks) = sha_padding ctx \<and>
     sha_digestsize (foldl jent_sha3_update ctx chunks) = sha_digestsize ctx"
  using assms
proof (induction chunks arbitrary: ctx m)
  case (Cons c chunks)
  have "sha3_holds (jent_sha3_update ctx c) (m @ c)"
    using Cons.prems by (intro sha3_update_holds) simp_all
  from Cons.IH [OF this] Cons.prems show ?case by simp
qed simp

section \<open>XDRBG-256, abstractly\<close>

text \<open>
  The equations of the XDRBG paper that the source quotes, with the empty \<open>alpha\<close>:
  \<open>V = XOF (encode seed 0)\<close> or \<open>V = XOF (encode (V' || seed) 1)\<close>, and
  \<open>T = XOF (encode V' 2)\<close> whose first 512 bits are the next \<open>V\<close> and whose last 256 bits are output.
\<close>

definition shake256 :: "u8 list \<Rightarrow> nat \<Rightarrow> u8 list" where
  "shake256 m n = keccak_sponge_out 0x1f m n"

definition xdrbg_encode :: "u8 list \<Rightarrow> nat \<Rightarrow> u8 list" where
  "xdrbg_encode s n = s @ [of_nat (n * 85)]"

definition xdrbg_seed :: "bool \<Rightarrow> u8 list \<Rightarrow> u8 list" where
  "xdrbg_seed reseed m = shake256 (xdrbg_encode m (of_bool reseed)) 64"

definition xdrbg_generate :: "u8 list \<Rightarrow> u8 list \<times> u8 list" where
  "xdrbg_generate v = (let t = shake256 (xdrbg_encode v 2) 96 in (take 64 t, drop 64 t))"

lemma length_shake256 [simp, len_simps]: "n \<le> 200 \<Longrightarrow> length (shake256 m n) = n"
  by (simp add: shake256_def)

lemma length_xdrbg [simp, len_simps]:
  "length (xdrbg_seed b m) = 64" "length (fst (xdrbg_generate v)) = 64"
  "length (snd (xdrbg_generate v)) = 32"
  by (simp_all add: xdrbg_seed_def xdrbg_generate_def Let_def)

text \<open>
  One finalisation inside the generator: \<open>n\<close> bytes of SHAKE-256 of the message land at the start
  of the buffer, and the context is empty again.
\<close>

lemma xdrbg_finalize:
  assumes "sha3_holds ctx m" "sha_padding ctx = 0x1f" "n \<le> length buf" "n \<le> 200" "8 dvd n"
  shows "\<exists>ctx'. jent_sha3_final (jent_shake256_set_digestsize ctx (of_nat n)) buf =
      (memcpy_at buf 0 (shake256 m n), ctx') \<and> sha3_holds ctx' [] \<and>
      sha_padding ctx' = 0x1f \<and> sha_initially_seeded ctx' = sha_initially_seeded ctx"
proof -
  let ?c = "jent_shake256_set_digestsize ctx (of_nat n)"
  have n: "unat (ucast (of_nat n :: u32) :: u8) = n"
    using assms(4) by (simp add: unsigned_ucast_eq unat_of_nat take_bit_nat_eq_self)
  have c: "sha3_holds ?c m" "sha_padding ?c = 0x1f" "unat (sha_digestsize ?c) = n"
    using assms(1,2) n by (simp_all add: jent_shake256_set_digestsize_def)
  have "8 * (n div 8) = n" using assms(5) by simp
  then have "jent_sha3_final ?c buf = (memcpy_at buf 0 (shake256 m n),
      ?c\<lparr>sha_state := replicate 25 0, sha_partial := replicate 136 0, sha_msg_len := 0\<rparr>)"
    using sha3_final_eq [OF c(1), of buf] assms(3,4) c(2,3) by (simp add: shake256_def)
  moreover have "sha_wf ?c" using c(1) by (simp add: sha3_holds_def)
  ultimately show ?thesis
    using assms(2)
    by (auto intro!: sha3_holds_empty simp: sha_wf_def jent_shake256_set_digestsize_def)
qed

lemma xdrbg_block_refines:
  assumes "sha3_holds ctx m" "sha_padding ctx = 0x1f" "length m + 1 < 2 ^ 64"
  shows "\<exists>ctx'. jent_drbg_generate_block ctx dst off n =
      (if n = 0 then dst
       else memcpy_at dst off
              (take n (snd (xdrbg_generate (xdrbg_seed (sha_initially_seeded ctx) m)))), ctx') \<and>
      sha3_holds ctx' (fst (xdrbg_generate (xdrbg_seed (sha_initially_seeded ctx) m))) \<and>
      sha_padding ctx' = 0x1f \<and> sha_initially_seeded ctx'"
proof -
  let ?e = "JENT_XDRBG_DRNG_ENCODE_N (of_bool (sha_initially_seeded ctx))"
  let ?v = "xdrbg_seed (sha_initially_seeded ctx) m"
  let ?t = "shake256 (xdrbg_encode ?v 2) 96"
  let ?c0 = "jent_sha3_update (ctx\<lparr>sha_initially_seeded := True\<rparr>) [?e]"
  have "sha3_holds ?c0 (m @ [?e])"
    using assms by (intro sha3_update_holds) simp_all
  from xdrbg_finalize [OF this, of 64 "replicate 96 0"] assms(2) obtain c1 where
    c1: "jent_sha3_final (jent_shake256_set_digestsize ?c0 64) (replicate 96 0) =
        (memcpy_at (replicate 96 0) 0 ?v, c1)"
      "sha3_holds c1 []" "sha_padding c1 = 0x1f" "sha_initially_seeded c1"
    by (auto simp: xdrbg_seed_def xdrbg_encode_def JENT_XDRBG_DRNG_ENCODE_N_def)
  let ?c2 = "jent_sha3_update (jent_sha3_update c1 ?v) [JENT_XDRBG_DRNG_ENCODE_N 2]"
  have "sha3_holds (jent_sha3_update c1 ?v) ([] @ ?v)"
    using c1(2) by (intro sha3_update_holds) simp_all
  then have "sha3_holds ?c2 (([] @ ?v) @ [JENT_XDRBG_DRNG_ENCODE_N 2])"
    by (rule sha3_update_holds) simp
  from xdrbg_finalize [OF this, of 96 "memcpy_at (replicate 96 0) 0 ?v"] c1(3,4) obtain c3 where
    c3: "jent_sha3_final (jent_shake256_set_digestsize ?c2 96) (memcpy_at (replicate 96 0) 0 ?v) =
        (?t, c3)"
      "sha3_holds c3 []" "sha_padding c3 = 0x1f" "sha_initially_seeded c3"
    by (auto simp: xdrbg_encode_def JENT_XDRBG_DRNG_ENCODE_N_def)
  have "sha3_holds (jent_sha3_update c3 (take 64 ?t)) ([] @ take 64 ?t)"
    using c3(2) by (intro sha3_update_holds) simp_all
  moreover have "take 64 (memcpy_at (replicate 96 0) 0 ?v) = ?v"
    by (simp add: memcpy_at_def)
  ultimately show ?thesis
    using c1 c3
    by (simp add: jent_drbg_generate_block_def jent_xdrbg256_generate_block_def Let_def
        xdrbg_generate_def)
qed

section \<open>Properties\<close>

definition sha3_256 :: "u8 list \<Rightarrow> u8 list" where
  "sha3_256 m = keccak_sponge_out 0x06 m 32"

text \<open>
  C2. Incremental SHA3-256 is the sponge of the whole message: whatever the stack garbage in the
  context before its initialisation and however the message is cut into the pieces given to
  \<open>jent_sha3_update\<close>, \<open>jent_sha3_final\<close> writes the 32-byte digest of the concatenation.
\<close>

theorem sha3_256_incremental:
  assumes "length (sha_partial ctx) = 136" "length digest = 32" "length (concat chunks) < 2 ^ 64"
  shows "fst (jent_sha3_final (foldl jent_sha3_update (jent_sha3_256_init ctx) chunks) digest) =
     sha3_256 (concat chunks)"
proof -
  let ?c = "foldl jent_sha3_update (jent_sha3_256_init ctx) chunks"
  have "sha3_holds ?c ([] @ concat chunks) \<and> sha_padding ?c = 0x06 \<and> sha_digestsize ?c = 32"
    using sha3_updates_hold [OF sha3_256_init_holds [OF assms(1)], of chunks] assms(3)
    by (simp add: jent_sha3_256_init_def)
  then show ?thesis
    using sha3_final_eq [of ?c "concat chunks" digest] assms(2) by (simp add: sha3_256_def)
qed

theorem sha3_256_incremental_witness:
  "fst (jent_sha3_final
          (foldl jent_sha3_update
             (jent_sha3_256_init
                \<lparr>sha_state = [], sha_partial = replicate 136 7, sha_msg_len = 5, sha_r = 0,
                 sha_rword = 0, sha_digestsize = 1, sha_padding = 2, sha_initially_seeded = True\<rparr>)
             [[1, 2], [], replicate 300 3]) (replicate 32 0)) =
     sha3_256 (concat [[1, 2], [], replicate 300 3])"
  by (rule sha3_256_incremental) simp_all

text \<open>
  C3. The conditioner is XDRBG-256: a context that has absorbed the message \<open>m\<close> (the seed, after the
  retained state \<open>V'\<close> if it was seeded before) delivers at \<open>dst + off\<close> the first \<open>n\<close> (at most 32)
  bytes that the XDRBG equations yield, leaves the rest of the destination alone, and then holds
  exactly the next state \<open>V\<close>, so that what is inserted next is a reseed.
\<close>

theorem drbg_generate_block_is_xdrbg:
  assumes "sha3_holds ctx m" "sha_padding ctx = 0x1f" "length m + 1 < 2 ^ 64"
    and "(v, out) = xdrbg_generate (xdrbg_seed (sha_initially_seeded ctx) m)"
    and "(dst', ctx') = jent_drbg_generate_block ctx dst off n"
  shows "dst' = (if n = 0 then dst else memcpy_at dst off (take n out)) \<and>
     length out = 32 \<and> length v = 64 \<and>
     sha3_holds ctx' v \<and> sha_initially_seeded ctx' \<and> sha_padding ctx' = 0x1f"
proof -
  let ?v = "xdrbg_seed (sha_initially_seeded ctx) m"
  have g: "v = fst (xdrbg_generate ?v)" "out = snd (xdrbg_generate ?v)"
    using assms(4) by (simp_all flip: assms(4))
  obtain c where c: "jent_drbg_generate_block ctx dst off n =
      (if n = 0 then dst else memcpy_at dst off (take n out), c)"
    "sha3_holds c v" "sha_padding c = 0x1f" "sha_initially_seeded c"
    using xdrbg_block_refines [OF assms(1-3), of dst off n] unfolding g by blast
  have "dst' = (if n = 0 then dst else memcpy_at dst off (take n out))" "ctx' = c"
    using assms(5) unfolding c(1) by simp_all
  with c show ?thesis by (simp add: g)
qed

theorem drbg_generate_block_is_xdrbg_witness:
  "\<exists>ctx v out dst' ctx'. sha3_holds ctx [] \<and>
     (v, out) = xdrbg_generate (xdrbg_seed False []) \<and>
     (dst', ctx') = jent_drbg_generate_block ctx (replicate 20 0) 10 10 \<and>
     dst' = memcpy_at (replicate 20 0) 10 (take 10 out) \<and> sha3_holds ctx' v"
proof -
  let ?c = "jent_shake256_init
    \<lparr>sha_state = [], sha_partial = replicate 136 7, sha_msg_len = 5, sha_r = 0,
     sha_rword = 0, sha_digestsize = 1, sha_padding = 2, sha_initially_seeded = True\<rparr>"
  obtain v out where v: "(v, out) = xdrbg_generate (xdrbg_seed False [])"
    by (metis surj_pair)
  obtain dst' ctx' where d: "(dst', ctx') = jent_drbg_generate_block ?c (replicate 20 0) 10 10"
    by (metis surj_pair)
  have h: "sha3_holds ?c []" by (rule shake256_init_holds) simp
  have p: "sha_padding ?c = 0x1f" "\<not> sha_initially_seeded ?c"
    by (simp_all add: jent_shake256_init_def)
  then show ?thesis
    using drbg_generate_block_is_xdrbg [OF h p(1) _ _ d, where v = v and out = out] v d h by (auto simp: p)
qed

text \<open>
  The little-endian load and store are inverse: a word stored at any offset inside a buffer is
  read back unchanged, and storing the word read from a place restores the bytes of that place.
\<close>

theorem le64_roundtrip:
  assumes "i + 8 \<le> length p"
  shows "ptr_to_le64 (drop i (le64_to_ptr p i v)) = v \<and>
     le64_to_ptr p i (ptr_to_le64 (drop i p)) = p"
proof
  show "ptr_to_le64 (drop i (le64_to_ptr p i v)) = v"
    using assms ptr_to_le64_bytes by (simp add: le64_to_ptr_memcpy memcpy_at_def)
  show "le64_to_ptr p i (ptr_to_le64 (drop i p)) = p"
    using assms
    by (simp add: le64_to_ptr_memcpy memcpy_at_def le64_bytes_ptr add.commute [of i])
      (metis add.commute append_assoc append_take_drop_id take_add)
qed

theorem le64_roundtrip_witness:
  "ptr_to_le64 (drop 1 (le64_to_ptr (replicate 10 7) 1 0x0102030405060708)) = 0x0102030405060708"
  using le64_roundtrip [of 1 "replicate 10 7" "0x0102030405060708"] by simp

end
