(* ===== verification/Jent_State.thy ===== *)
theory Jent_State
  imports Sha3 "HOL-Library.Multiset"
begin

unbundle bit_operations_syntax

text \<open>
  The data of the library: the flags, error codes and failure masks of \<open>jitterentropy.h\<close>, the
  configuration constants and \<open>struct rand_data\<close> of \<open>jitterentropy-internal.h\<close>, and the world an
  operation runs in: the library's file-scope variables (prefix \<open>g_\<close>) and the environment the C
  code reads (prefix \<open>w_\<close>: the time stamps, the counter thread's values, the allocator, the CPU
  count, the cache sizes), given as streams of answers with a position.
\<close>

section \<open>Flags\<close>

definition JENT_DISABLE_MEMORY_ACCESS :: u32 where
  "JENT_DISABLE_MEMORY_ACCESS = push_bit 2 1"

definition JENT_FORCE_INTERNAL_TIMER :: u32 where
  "JENT_FORCE_INTERNAL_TIMER = push_bit 3 1"

definition JENT_DISABLE_INTERNAL_TIMER :: u32 where
  "JENT_DISABLE_INTERNAL_TIMER = push_bit 4 1"

definition JENT_FORCE_FIPS :: u32 where
  "JENT_FORCE_FIPS = push_bit 5 1"

definition JENT_NTG1 :: u32 where
  "JENT_NTG1 = push_bit 6 1"

definition JENT_CACHE_ALL :: u32 where
  "JENT_CACHE_ALL = push_bit 7 1"

definition JENT_FLAGS_TO_MAX_MEMSIZE :: "u32 \<Rightarrow> u32" where
  "JENT_FLAGS_TO_MAX_MEMSIZE val = drop_bit 27 val"

definition JENT_MAX_MEMSIZE_TO_FLAGS :: "u32 \<Rightarrow> u32" where
  "JENT_MAX_MEMSIZE_TO_FLAGS val = push_bit 27 val"

definition JENT_MAX_MEMSIZE_MAX :: u32 where
  "JENT_MAX_MEMSIZE_MAX = JENT_MAX_MEMSIZE_TO_FLAGS 20"

definition JENT_MAX_MEMSIZE_MASK :: u32 where
  "JENT_MAX_MEMSIZE_MASK = JENT_MAX_MEMSIZE_TO_FLAGS 0xffffffff"

definition JENT_HASHLOOP_TO_FLAGS :: "u32 \<Rightarrow> u32" where
  "JENT_HASHLOOP_TO_FLAGS val = push_bit 24 val"

definition JENT_MAX_HASHLOOP_MASK :: u32 where
  "JENT_MAX_HASHLOOP_MASK = JENT_HASHLOOP_TO_FLAGS 7"

definition JENT_FLAGS_TO_HASHLOOP :: "u32 \<Rightarrow> u32" where
  "JENT_FLAGS_TO_HASHLOOP val = drop_bit 24 val AND 7"

definition JENT_MAX_HASHLOOP :: u32 where
  "JENT_MAX_HASHLOOP = JENT_HASHLOOP_TO_FLAGS 7"

abbreviation (input) "JENT_MAX_MEMSIZE_OFFSET \<equiv> 9 :: u32"

section \<open>Failure masks and error codes\<close>

definition JENT_RCT_FAILURE :: u32 where "JENT_RCT_FAILURE = 1"
definition JENT_APT_FAILURE :: u32 where "JENT_APT_FAILURE = 2"
definition JENT_LAG_FAILURE :: u32 where "JENT_LAG_FAILURE = 4"
definition JENT_RCT_MEM_FAILURE :: u32 where "JENT_RCT_MEM_FAILURE = 8"

definition JENT_PERMANENT_FAILURE :: "u32 \<Rightarrow> u32" where
  "JENT_PERMANENT_FAILURE x = push_bit 16 x"

definition JENT_RCT_FAILURE_PERMANENT :: u32 where
  "JENT_RCT_FAILURE_PERMANENT = JENT_PERMANENT_FAILURE JENT_RCT_FAILURE"
definition JENT_APT_FAILURE_PERMANENT :: u32 where
  "JENT_APT_FAILURE_PERMANENT = JENT_PERMANENT_FAILURE JENT_APT_FAILURE"
definition JENT_LAG_FAILURE_PERMANENT :: u32 where
  "JENT_LAG_FAILURE_PERMANENT = JENT_PERMANENT_FAILURE JENT_LAG_FAILURE"
definition JENT_RCT_MEM_FAILURE_PERMANENT :: u32 where
  "JENT_RCT_MEM_FAILURE_PERMANENT = JENT_PERMANENT_FAILURE JENT_RCT_MEM_FAILURE"

abbreviation (input) "ENOTIME \<equiv> 1 :: int"
abbreviation (input) "ECOARSETIME \<equiv> 2 :: int"
abbreviation (input) "ENOMONOTONIC \<equiv> 3 :: int"
abbreviation (input) "EMINVARVAR \<equiv> 6 :: int"
abbreviation (input) "ESTUCK \<equiv> 8 :: int"
abbreviation (input) "EHEALTH \<equiv> 9 :: int"
abbreviation (input) "ERCT \<equiv> 10 :: int"
abbreviation (input) "EHASH \<equiv> 11 :: int"
abbreviation (input) "EMEM \<equiv> 12 :: int"
abbreviation (input) "EGCD \<equiv> 13 :: int"

text \<open>The \<open>errno\<close> values the library returns negated.\<close>

abbreviation (input) "ENOENT \<equiv> 2 :: int"
abbreviation (input) "EAGAIN \<equiv> 11 :: int"
abbreviation (input) "ENOMEM \<equiv> 12 :: int"
abbreviation (input) "EINVAL \<equiv> 22 :: int"

section \<open>Configuration constants\<close>

abbreviation (input) "JENT_APT_MASK \<equiv> 0xffffffffffffffff :: u64"
abbreviation (input) "JENT_DEFAULT_MEMORY_BITS \<equiv> 18 :: u32"
abbreviation (input) "JENT_CACHE_SHIFT_BITS \<equiv> 0 :: u32"
abbreviation (input) "JENT_MEM_ACC_LOOP_DEFAULT \<equiv> 128 :: u32"
abbreviation (input) "JENT_MEM_ACC_LOOP_INIT \<equiv> 3 :: u32"
abbreviation (input) "JENT_HASH_LOOP_DEFAULT \<equiv> 1 :: u32"
abbreviation (input) "JENT_HASH_LOOP_INIT \<equiv> 3 :: u32"
abbreviation (input) "JENT_MIN_OSR \<equiv> 3 :: u32"
abbreviation (input) "JENT_MAX_OSR \<equiv> 20 :: u32"
abbreviation (input) "DATA_SIZE_BITS \<equiv> 256 :: u32"
abbreviation (input) "ENTROPY_SAFETY_FACTOR \<equiv> 65 :: u32"
abbreviation (input) "JENT_MEMORY_BLOCKSIZE \<equiv> 128 :: u32"
abbreviation (input) "JENT_APT_WINDOW_SIZE \<equiv> 512 :: u32"
abbreviation (input) "JENT_LAG_WINDOW_SIZE \<equiv> 131072 :: u32"
abbreviation (input) "JENT_LAG_HISTORY_SIZE \<equiv> 8 :: u32"
abbreviation (input) "JENT_LAG_MASK \<equiv> 7 :: u32"

text \<open>\<open>enum jent_startup_state\<close>, an unsigned int that the code decrements.\<close>

abbreviation (input) "jent_startup_completed \<equiv> 0 :: u32"
abbreviation (input) "jent_startup_sha3 \<equiv> 1 :: u32"
abbreviation (input) "jent_startup_memory \<equiv> 2 :: u32"

section \<open>The entropy collector\<close>

text \<open>\<open>struct jent_notime_ctx\<close>: the thread handle itself belongs to the thread library.\<close>

record jent_notime_ctx =
  nc_notime_cpu :: u64
  nc_notime_thread_started :: bool

text \<open>
  \<open>struct rand_data\<close>, with the fields in the order of the source. A pointer is an \<open>option\<close>, a
  one-bit field a \<open>bool\<close>. \<open>volatile notime_timer\<close> is written by the counter thread: its reads take
  the next value of the stream \<open>w_ticks\<close> of the world.
\<close>

record rand_data =
  ec_hash_state :: "jent_sha_ctx option"
  ec_prev_time :: u64
  ec_flags :: u32
  ec_osr :: u32
  ec_uuid :: "u8 list"
  ec_reinit_count :: u32
  ec_read_invocations :: u64
  ec_bytes_output :: u64
  ec_startup_state :: u32
  ec_mem :: "u8 list option"
  ec_memmask :: u32
  ec_memlocation :: u32
  ec_memaccessloops :: u32
  ec_hashloopcnt :: u32
  ec_rct_count :: u32
  ec_rct_cutoff :: u16
  ec_rct_cutoff_permanent :: u16
  ec_apt_cutoff :: u32
  ec_apt_cutoff_permanent :: u32
  ec_apt_observations :: u32
  ec_apt_count :: u32
  ec_apt_base :: u64
  ec_health_failure :: u32
  ec_rct_mem_ctr :: u16
  ec_rct_mem_nosr :: u16
  ec_rct_mem_count :: u16
  ec_rct_mem_cutoff :: u16
  ec_rct_mem_cutoff_permanent :: u16
  ec_apt_base_set :: bool
  ec_is_fips_enabled :: bool
  ec_enable_notime :: bool
  ec_max_mem_set :: bool
  ec_in_recovery :: bool
  ec_notime_interrupt :: bool
  ec_notime_timer :: u64
  ec_notime_prev_timer :: u64
  ec_notime_thread_ctx :: "jent_notime_ctx option"
  ec_common_timer_gcd :: u64
  ec_lag_global_cutoff :: u32
  ec_lag_local_cutoff :: u32
  ec_lag_prediction_success_count :: u32
  ec_lag_prediction_success_run :: u32
  ec_lag_best_predictor :: u32
  ec_lag_observations :: u32
  ec_lag_delta_history :: "u64 list"
  ec_lag_scoreboard :: "u32 list"

abbreviation (input) "JENT_UUID_STRLEN \<equiv> 37 :: nat"

text \<open>What \<open>jent_zalloc (sizeof (struct rand_data))\<close> returns.\<close>

definition zalloc_rand_data :: rand_data where
  "zalloc_rand_data =
     \<lparr>ec_hash_state = None, ec_prev_time = 0, ec_flags = 0, ec_osr = 0,
      ec_uuid = replicate JENT_UUID_STRLEN 0, ec_reinit_count = 0, ec_read_invocations = 0,
      ec_bytes_output = 0, ec_startup_state = 0, ec_mem = None, ec_memmask = 0,
      ec_memlocation = 0, ec_memaccessloops = 0, ec_hashloopcnt = 0, ec_rct_count = 0,
      ec_rct_cutoff = 0, ec_rct_cutoff_permanent = 0, ec_apt_cutoff = 0,
      ec_apt_cutoff_permanent = 0, ec_apt_observations = 0, ec_apt_count = 0, ec_apt_base = 0,
      ec_health_failure = 0, ec_rct_mem_ctr = 0, ec_rct_mem_nosr = 0, ec_rct_mem_count = 0,
      ec_rct_mem_cutoff = 0, ec_rct_mem_cutoff_permanent = 0, ec_apt_base_set = False,
      ec_is_fips_enabled = False, ec_enable_notime = False, ec_max_mem_set = False,
      ec_in_recovery = False, ec_notime_interrupt = False, ec_notime_timer = 0,
      ec_notime_prev_timer = 0, ec_notime_thread_ctx = None, ec_common_timer_gcd = 0,
      ec_lag_global_cutoff = 0, ec_lag_local_cutoff = 0, ec_lag_prediction_success_count = 0,
      ec_lag_prediction_success_run = 0, ec_lag_best_predictor = 0, ec_lag_observations = 0,
      ec_lag_delta_history = replicate 8 0, ec_lag_scoreboard = replicate 8 0\<rparr>"

text \<open>What \<open>jent_zalloc (JENT_SHA_MAX_CTX_SIZE)\<close> returns.\<close>

definition zalloc_sha_ctx :: jent_sha_ctx where
  "zalloc_sha_ctx =
     \<lparr>sha_state = replicate 25 0, sha_partial = replicate JENT_SHA3_256_SIZE_BLOCK 0,
      sha_msg_len = 0, sha_r = 0, sha_rword = 0, sha_digestsize = 0, sha_padding = 0,
      sha_initially_seeded = False\<rparr>"

section \<open>The world\<close>

text \<open>
  A function pointer of a thread handler: the built-in function of \<open>jitterentropy-timer.c\<close>, or one
  the caller supplied. \<open>struct jent_notime_thread\<close> has four of them, each possibly \<open>NULL\<close>.
\<close>

datatype handler_fn = Builtin | Supplied nat

record jent_notime_thread =
  nt_init :: "handler_fn option"
  nt_fini :: "handler_fn option"
  nt_start :: "handler_fn option"
  nt_stop :: "handler_fn option"

text \<open>A block obtained from \<open>jent_zalloc\<close>, tagged with its use and, for arrays, its size in bytes.\<close>

datatype heap_block =
    Blk_collector
  | Blk_memory nat
  | Blk_sha_ctx
  | Blk_history nat
  | Blk_thread_ctx

record jent_world =
  w_clock :: "nat \<Rightarrow> u64"
  w_clock_pos :: nat
  w_ticks :: "nat \<Rightarrow> u64"
  w_tick_pos :: nat
  w_alloc_ok :: "nat \<Rightarrow> bool"
  w_alloc_pos :: nat
  w_heap :: "heap_block multiset"
  w_thread_ret :: "nat \<Rightarrow> int"
  w_thread_pos :: nat
  w_supplied_ret :: "nat \<Rightarrow> int"
  w_supplied_pos :: nat
  w_ncpu :: int
  w_fips_enabled :: bool
  w_secure_memory :: bool
  w_cache_size :: "bool \<Rightarrow> u32"
  w_uuid_bytes :: "nat \<Rightarrow> u8 list option"
  w_uuid_pos :: nat
  w_stack_ctx :: jent_sha_ctx
  g_common_timer_gcd :: u64
  g_selftest_run :: bool
  g_fips_cb :: "nat option"
  g_fips_log :: "(nat \<times> u32) list"
  g_health_cb_switch_blocked :: bool
  g_notime_cpu_configured :: bool
  g_notime_cpu :: u64
  g_force_internal_timer :: bool
  g_notime_switch_blocked :: bool
  g_notime_thread :: "jent_notime_thread option"

text \<open>The library's variables as the program starts.\<close>

definition jent_notime_thread_builtin :: jent_notime_thread where
  "jent_notime_thread_builtin =
     \<lparr>nt_init = Some Builtin, nt_fini = Some Builtin, nt_start = Some Builtin,
      nt_stop = Some Builtin\<rparr>"

text \<open>
  A concrete world, used where a property is applied to a concrete input: a clock that advances
  quadratically (so that no derivative vanishes), allocations and threads that succeed, two CPUs,
  no cache information and the library's variables as they are when the program starts.
\<close>

definition test_world :: jent_world where
  "test_world =
     \<lparr>w_clock = (\<lambda>n. of_nat (1000 + n ^ 3)), w_clock_pos = 0,
      w_ticks = (\<lambda>n. of_nat n), w_tick_pos = 0,
      w_alloc_ok = (\<lambda>_. True), w_alloc_pos = 0, w_heap = {#},
      w_thread_ret = (\<lambda>_. 0), w_thread_pos = 0, w_supplied_ret = (\<lambda>_. 0), w_supplied_pos = 0,
      w_ncpu = 2, w_fips_enabled = False, w_secure_memory = True, w_cache_size = (\<lambda>_. 0),
      w_uuid_bytes = (\<lambda>_. Some (replicate 16 7)), w_uuid_pos = 0, w_stack_ctx = zalloc_sha_ctx,
      g_common_timer_gcd = 0, g_selftest_run = False, g_fips_cb = None, g_fips_log = [],
      g_health_cb_switch_blocked = False, g_notime_cpu_configured = False, g_notime_cpu = 0,
      g_force_internal_timer = False, g_notime_switch_blocked = False,
      g_notime_thread = Some jent_notime_thread_builtin\<rparr>"

text \<open>\<open>jent_zalloc\<close> may fail; \<open>jent_zfree\<close> returns the block it is given.\<close>

definition jent_zalloc :: "heap_block \<Rightarrow> jent_world \<Rightarrow> bool \<times> jent_world" where
  "jent_zalloc b w =
     (if w_alloc_ok w (w_alloc_pos w)
      then (True, w\<lparr>w_alloc_pos := w_alloc_pos w + 1, w_heap := add_mset b (w_heap w)\<rparr>)
      else (False, w\<lparr>w_alloc_pos := w_alloc_pos w + 1\<rparr>))"

definition jent_zfree :: "heap_block \<Rightarrow> jent_world \<Rightarrow> jent_world" where
  "jent_zfree b w = w\<lparr>w_heap := w_heap w - {#b#}\<rparr>"

text \<open>\<open>jent_get_nstime\<close>: the next time stamp of the hardware.\<close>

definition jent_get_nstime :: "jent_world \<Rightarrow> u64 \<times> jent_world" where
  "jent_get_nstime w = (w_clock w (w_clock_pos w), w\<lparr>w_clock_pos := w_clock_pos w + 1\<rparr>)"

definition jent_sha3_alloc :: "jent_world \<Rightarrow> jent_sha_ctx option \<times> jent_world" where
  "jent_sha3_alloc w =
     (let (ok, w) = jent_zalloc Blk_sha_ctx w
      in (if ok then Some zalloc_sha_ctx else None, w))"

definition jent_sha3_dealloc :: "jent_world \<Rightarrow> jent_world" where
  "jent_sha3_dealloc w = jent_zfree Blk_sha_ctx w"

section \<open>Filling an array\<close>

text \<open>A loop that assigns to each index in turn.\<close>

lemma foldl_fill:
  "n \<le> length h \<Longrightarrow> foldl (\<lambda>h i. h[i := f i]) h [0..<n] = map f [0..<n] @ drop n h"
proof (induction n)
  case (Suc n)
  then obtain x xs where "drop n h = x # xs"
    by (cases "drop n h") simp_all
  moreover from this have "drop (Suc n) h = xs" by (metis drop_Suc list.sel(3) tl_drop)
  ultimately show ?case using Suc by (simp add: list_update_append)
qed simp

section \<open>Tables indexed by the oversampling rate\<close>

lemma osr_index: "1 \<le> osr \<Longrightarrow> unat (osr - 1 :: u32) = unat osr - 1"
  by (subst unat_sub) (simp_all add: word_le_nat_alt)

lemma nth_all: "list_all P xs \<Longrightarrow> i < length xs \<Longrightarrow> P (xs ! i)"
  by (simp add: list_all_length)

lemma nth_all_pairs:
  "list_all (\<lambda>(x, y). P x y) (zip xs ys) \<Longrightarrow> length xs = length ys \<Longrightarrow> i < length xs \<Longrightarrow>
     P (xs ! i) (ys ! i)"
  by (auto simp: list_all_length)

section \<open>Bits of the flags\<close>

lemmas flag_defs =
  JENT_DISABLE_MEMORY_ACCESS_def JENT_FORCE_INTERNAL_TIMER_def JENT_DISABLE_INTERNAL_TIMER_def
  JENT_FORCE_FIPS_def JENT_NTG1_def JENT_CACHE_ALL_def

lemmas failure_defs =
  JENT_RCT_FAILURE_def JENT_APT_FAILURE_def JENT_LAG_FAILURE_def JENT_RCT_MEM_FAILURE_def
  JENT_PERMANENT_FAILURE_def JENT_RCT_FAILURE_PERMANENT_def JENT_APT_FAILURE_PERMANENT_def
  JENT_LAG_FAILURE_PERMANENT_def JENT_RCT_MEM_FAILURE_PERMANENT_def

lemma and_flag_eq_0: "(w AND push_bit n 1 = 0) = (\<not> bit w n)" for w :: "'a::len word"
  by (simp add: and_exp_eq_0_iff_not_bit)

text \<open>The masks as the bits they test.\<close>

lemma failure_bits:
  "w AND JENT_RCT_FAILURE = 0 \<longleftrightarrow> \<not> bit w 0"
  "w AND JENT_APT_FAILURE = 0 \<longleftrightarrow> \<not> bit w 1"
  "w AND JENT_LAG_FAILURE = 0 \<longleftrightarrow> \<not> bit w 2"
  "w AND JENT_RCT_MEM_FAILURE = 0 \<longleftrightarrow> \<not> bit w 3"
  "w AND JENT_RCT_FAILURE_PERMANENT = 0 \<longleftrightarrow> \<not> bit w 16"
  "w AND JENT_APT_FAILURE_PERMANENT = 0 \<longleftrightarrow> \<not> bit w 17"
  "w AND JENT_LAG_FAILURE_PERMANENT = 0 \<longleftrightarrow> \<not> bit w 18"
  "w AND JENT_RCT_MEM_FAILURE_PERMANENT = 0 \<longleftrightarrow> \<not> bit w 19"
  using and_flag_eq_0 [of w 0] and_flag_eq_0 [of w 1] and_flag_eq_0 [of w 2] and_flag_eq_0 [of w 3]
    and_flag_eq_0 [of w 16] and_flag_eq_0 [of w 17] and_flag_eq_0 [of w 18] and_flag_eq_0 [of w 19]
  by (simp_all add: failure_defs)

lemma flag_bits:
  "w AND JENT_DISABLE_MEMORY_ACCESS = 0 \<longleftrightarrow> \<not> bit w 2"
  "w AND JENT_FORCE_INTERNAL_TIMER = 0 \<longleftrightarrow> \<not> bit w 3"
  "w AND JENT_DISABLE_INTERNAL_TIMER = 0 \<longleftrightarrow> \<not> bit w 4"
  "w AND JENT_FORCE_FIPS = 0 \<longleftrightarrow> \<not> bit w 5"
  "w AND JENT_NTG1 = 0 \<longleftrightarrow> \<not> bit w 6"
  "w AND JENT_CACHE_ALL = 0 \<longleftrightarrow> \<not> bit w 7"
  using and_flag_eq_0 [of w 2] and_flag_eq_0 [of w 3] and_flag_eq_0 [of w 4] and_flag_eq_0 [of w 5]
    and_flag_eq_0 [of w 6] and_flag_eq_0 [of w 7]
  by (simp_all add: flag_defs)

end
