(* ===== verification/Health_Monitor.thy ===== *)
theory Health_Monitor
  imports Floats Jent_State
begin

unbundle bit_operations_syntax

text \<open>
  The dashboard's monitor (\<open>src/app/health_monitor.c\<close>): the statistics of the generator and the two
  ring buffers with the most recent generation attempts and the most recent latencies of the
  library calls. Every function takes one lock for its whole body, so each is one step of the model.

  The arithmetic of \<open>double\<close> is the parameter \<open>float_ops\<close>, the readings of
  \<open>QueryPerformanceCounter\<close> are arguments.
\<close>

section \<open>State\<close>

record 'd rng_health_stats =
  st_initialized :: bool
  st_total_bytes_generated :: u64
  st_generation_call_count :: u64
  st_failure_count :: u64
  st_last_error_code :: int
  st_cumulative_generation_seconds :: 'd
  st_average_latency_seconds :: 'd
  st_throughput_bytes_per_second :: 'd
  st_last_fips_failure_mask :: u32
  st_fips_failure_count :: u64

record 'd history_sample =
  hs_timestamp_seconds :: 'd
  hs_byte_count :: u64
  hs_duration_seconds :: 'd

text \<open>An array with its write index and the number of samples written.\<close>

type_synonym 'a ring = "'a list \<times> u64 \<times> u64"

abbreviation (input) HISTORY_RING_SIZE :: u64 where "HISTORY_RING_SIZE \<equiv> 300"
abbreviation (input) JITTER_RING_SIZE :: u64 where "JITTER_RING_SIZE \<equiv> 256"

record 'd monitor =
  epoch_start :: int
  epoch_frequency :: int
  current_stats :: "'d rng_health_stats"
  history_ring :: "'d history_sample ring"
  jitter_ring :: "'d ring"

definition zero_stats :: "'d float_ops \<Rightarrow> 'd rng_health_stats" where
  "zero_stats fl = \<lparr>st_initialized = False, st_total_bytes_generated = 0, st_generation_call_count = 0,
     st_failure_count = 0, st_last_error_code = 0, st_cumulative_generation_seconds = fl_zero fl,
     st_average_latency_seconds = fl_zero fl, st_throughput_bytes_per_second = fl_zero fl,
     st_last_fips_failure_mask = 0, st_fips_failure_count = 0\<rparr>"

definition zero_ring :: "u64 \<Rightarrow> 'a \<Rightarrow> 'a ring" where
  "zero_ring sz zero = (replicate (unat sz) zero, 0, 0)"

definition zero_sample :: "'d float_ops \<Rightarrow> 'd history_sample" where
  "zero_sample fl = \<lparr>hs_timestamp_seconds = fl_zero fl, hs_byte_count = 0,
     hs_duration_seconds = fl_zero fl\<rparr>"

section \<open>The rings\<close>

definition ring_record :: "u64 \<Rightarrow> 'a \<Rightarrow> 'a ring \<Rightarrow> 'a ring" where
  "ring_record sz sample = (\<lambda>(ring, write_index, samples_written).
     (ring[unat write_index := sample], (write_index + 1) mod sz,
      if samples_written < sz then samples_written + 1 else samples_written))"

definition ring_count :: "'a ring \<Rightarrow> u64 \<Rightarrow> u64" where
  "ring_count = (\<lambda>(ring, write_index, available) max_count.
     if available < max_count then available else max_count)"

definition ring_start :: "u64 \<Rightarrow> 'a ring \<Rightarrow> u64 \<Rightarrow> u64" where
  "ring_start sz = (\<lambda>(ring, write_index, samples_written) count_to_copy.
     if samples_written < sz then write_index - count_to_copy
     else (write_index + sz - count_to_copy) mod sz)"

definition ring_at :: "u64 \<Rightarrow> 'a ring \<Rightarrow> u64 \<Rightarrow> nat \<Rightarrow> 'a" where
  "ring_at sz = (\<lambda>(ring, _, _) start_idx i. ring ! unat ((start_idx + of_nat i) mod sz))"

section \<open>Operations\<close>

definition get_process_elapsed_seconds :: "'d float_ops \<Rightarrow> 'd monitor \<Rightarrow> int \<Rightarrow> 'd" where
  "get_process_elapsed_seconds fl m now =
     fl_div fl (fl_of_int fl (now - epoch_start m)) (fl_of_int fl (epoch_frequency m))"

definition health_monitor_get_epoch :: "'d monitor \<Rightarrow> int \<times> int" where
  "health_monitor_get_epoch m = (epoch_start m, epoch_frequency m)"

definition health_monitor_update_derived_values ::
  "'d float_ops \<Rightarrow> 'd rng_health_stats \<Rightarrow> 'd rng_health_stats" where
  "health_monitor_update_derived_values fl s =
     (let s = s\<lparr>st_average_latency_seconds :=
            if st_generation_call_count s \<noteq> 0
            then fl_div fl (st_cumulative_generation_seconds s)
                   (fl_of_int fl (uint (st_generation_call_count s)))
            else fl_zero fl\<rparr>
      in s\<lparr>st_throughput_bytes_per_second :=
            if fl_less fl (fl_zero fl) (st_cumulative_generation_seconds s)
            then fl_div fl (fl_of_int fl (uint (st_total_bytes_generated s)))
                   (st_cumulative_generation_seconds s)
            else fl_zero fl\<rparr>)"

definition health_monitor_set_initialized :: "bool \<Rightarrow> 'd monitor \<Rightarrow> 'd monitor" where
  "health_monitor_set_initialized initialized m =
     m\<lparr>current_stats := (current_stats m)\<lparr>st_initialized := initialized\<rparr>\<rparr>"

definition health_monitor_record_failure :: "int \<Rightarrow> 'd monitor \<Rightarrow> 'd monitor" where
  "health_monitor_record_failure error_code m =
     (let s = current_stats m
      in m\<lparr>current_stats := s\<lparr>st_failure_count := st_failure_count s + 1,
             st_last_error_code := error_code\<rparr>\<rparr>)"

definition health_monitor_record_fips_failure :: "u32 \<Rightarrow> 'd monitor \<Rightarrow> 'd monitor" where
  "health_monitor_record_fips_failure failure_mask m =
     (let s = current_stats m
      in m\<lparr>current_stats := s\<lparr>st_last_fips_failure_mask := failure_mask,
             st_fips_failure_count := st_fips_failure_count s + 1\<rparr>\<rparr>)"

text \<open>\<open>now\<close> is the counter reading that stamps the sample.\<close>

definition health_monitor_record_generation_attempt ::
  "'d float_ops \<Rightarrow> int \<Rightarrow> bool \<Rightarrow> u64 \<Rightarrow> 'd \<Rightarrow> int \<Rightarrow> 'd monitor \<Rightarrow> 'd monitor" where
  "health_monitor_record_generation_attempt fl now success byte_count duration_seconds error_code m =
     (let s = current_stats m;
          s = s\<lparr>st_generation_call_count := st_generation_call_count s + 1,
                st_cumulative_generation_seconds :=
                  fl_add fl (st_cumulative_generation_seconds s) duration_seconds,
                st_total_bytes_generated := st_total_bytes_generated s + byte_count\<rparr>;
          s = (if success then s\<lparr>st_last_error_code := 0\<rparr>
               else s\<lparr>st_failure_count := st_failure_count s + 1, st_last_error_code := error_code\<rparr>);
          sample = \<lparr>hs_timestamp_seconds = get_process_elapsed_seconds fl m now,
                    hs_byte_count = (if success then byte_count else 0),
                    hs_duration_seconds = duration_seconds\<rparr>
      in m\<lparr>history_ring := ring_record HISTORY_RING_SIZE sample (history_ring m),
           current_stats := health_monitor_update_derived_values fl s\<rparr>)"

definition health_monitor_record_jitter_sample :: "'d \<Rightarrow> 'd monitor \<Rightarrow> 'd monitor" where
  "health_monitor_record_jitter_sample microseconds m =
     m\<lparr>jitter_ring := ring_record JITTER_RING_SIZE microseconds (jitter_ring m)\<rparr>"

definition health_monitor_snapshot ::
  "'d float_ops \<Rightarrow> 'd monitor \<Rightarrow> 'd rng_health_stats \<times> 'd monitor" where
  "health_monitor_snapshot fl m =
     (let s = health_monitor_update_derived_values fl (current_stats m)
      in (s, m\<lparr>current_stats := s\<rparr>))"

text \<open>A NULL output array is \<open>None\<close>; a given one has at least \<open>max_count\<close> elements.\<close>

definition health_monitor_recent_history_snapshot ::
  "'d monitor \<Rightarrow> 'd list option \<Rightarrow> u64 list option \<Rightarrow> 'd list option \<Rightarrow> u64 \<Rightarrow>
     u64 \<times> 'd list option \<times> u64 list option \<times> 'd list option" where
  "health_monitor_recent_history_snapshot m out_timestamps out_bytes out_durations max_count =
     (case (out_timestamps, out_bytes, out_durations) of
        (Some ts, Some bs, Some ds) \<Rightarrow>
          if max_count = 0 then (0, Some ts, Some bs, Some ds)
          else let r = history_ring m;
                   count_to_copy = ring_count r max_count
            in if count_to_copy = 0 then (0, Some ts, Some bs, Some ds)
               else let start_idx = ring_start HISTORY_RING_SIZE r count_to_copy;
                        at = ring_at HISTORY_RING_SIZE r start_idx
                 in case foldl (\<lambda>(ts, bs, ds) i. (ts[i := hs_timestamp_seconds (at i)],
                        bs[i := hs_byte_count (at i)], ds[i := hs_duration_seconds (at i)]))
                      (ts, bs, ds) [0..<unat count_to_copy]
                    of (ts, bs, ds) \<Rightarrow> (count_to_copy, Some ts, Some bs, Some ds)
      | _ \<Rightarrow> (0, out_timestamps, out_bytes, out_durations))"

definition health_monitor_jitter_samples_snapshot ::
  "'d monitor \<Rightarrow> 'd list option \<Rightarrow> u64 \<Rightarrow> u64 \<times> 'd list option" where
  "health_monitor_jitter_samples_snapshot m out_samples max_count =
     (case out_samples of
        None \<Rightarrow> (0, None)
      | Some out \<Rightarrow>
          if max_count = 0 then (0, Some out)
          else let r = jitter_ring m;
                   count_to_copy = ring_count r max_count
            in if count_to_copy = 0 then (0, Some out)
               else let start_idx = ring_start JITTER_RING_SIZE r count_to_copy
                 in (count_to_copy,
                     Some (foldl (\<lambda>out i. out[i := ring_at JITTER_RING_SIZE r start_idx i]) out
                       [0..<unat count_to_copy])))"

definition health_monitor_clear_history :: "'d float_ops \<Rightarrow> 'd monitor \<Rightarrow> 'd monitor" where
  "health_monitor_clear_history fl m =
     (let was_initialized = st_initialized (current_stats m)
      in m\<lparr>current_stats := (zero_stats fl)\<lparr>st_initialized := was_initialized\<rparr>,
           history_ring := zero_ring HISTORY_RING_SIZE (zero_sample fl),
           jitter_ring := zero_ring JITTER_RING_SIZE (fl_zero fl)\<rparr>)"

text \<open>The state of the process before the first call, with the epoch latched.\<close>

definition zero_monitor :: "'d float_ops \<Rightarrow> int \<Rightarrow> int \<Rightarrow> 'd monitor" where
  "zero_monitor fl start frequency = \<lparr>epoch_start = start, epoch_frequency = frequency,
     current_stats = zero_stats fl, history_ring = zero_ring HISTORY_RING_SIZE (zero_sample fl),
     jitter_ring = zero_ring JITTER_RING_SIZE (fl_zero fl)\<rparr>"


section \<open>A ring holds the last samples in order\<close>

definition ring_holds :: "u64 \<Rightarrow> 'a ring \<Rightarrow> 'a list \<Rightarrow> bool" where
  "ring_holds sz = (\<lambda>(ring, write_index, samples_written) xs.
     length ring = unat sz \<and> unat write_index = length xs mod unat sz \<and>
     unat samples_written = min (length xs) (unat sz) \<and>
     (\<forall>i < length xs. length xs \<le> i + unat sz \<longrightarrow> ring ! (i mod unat sz) = xs ! i))"

lemma ring_holds_zero: "0 < sz \<Longrightarrow> ring_holds sz (zero_ring sz z) []"
  by (simp add: ring_holds_def zero_ring_def word_less_nat_alt)

lemma ring_holds_record:
  assumes h: "ring_holds sz r xs" and s: "0 < sz" "sz \<le> 2 ^ 32"
  shows "ring_holds sz (ring_record sz x r) (xs @ [x])"
proof -
  obtain ring wi n where r: "r = (ring, wi, n)" by (metis prod_cases3)
  have sz: "0 < unat sz" "unat sz \<le> 2 ^ 32"
    using s by (simp_all add: word_less_nat_alt word_le_nat_alt)
  have len: "length ring = unat sz" and wi: "unat wi = length xs mod unat sz"
    and n: "unat n = min (length xs) (unat sz)"
    and nth: "\<And>i. i < length xs \<Longrightarrow> length xs \<le> i + unat sz \<Longrightarrow> ring ! (i mod unat sz) = xs ! i"
    using h by (auto simp: ring_holds_def r)
  have "unat wi < unat sz" using wi sz by simp
  then have wi1: "unat ((wi + 1) mod sz) = Suc (length xs) mod unat sz"
    using sz wi by (simp add: unat_mod unat_Suc_below [of wi "unat sz"] mod_Suc_eq)
  have n1: "unat (if n < sz then n + 1 else n) = min (Suc (length xs)) (unat sz)"
    using n sz by (auto simp: word_less_nat_alt unat_Suc_below [of n "unat sz"])
  have "ring[length xs mod unat sz := x] ! (i mod unat sz) = (xs @ [x]) ! i"
    if "i < Suc (length xs)" "Suc (length xs) \<le> i + unat sz" for i
    using that nth [of i] mod_distinct [of i "length xs" "unat sz"] sz len
    by (cases "i = length xs") (simp_all add: nth_append)
  with len wi wi1 n1 show ?thesis by (simp add: ring_holds_def ring_record_def r)
qed

lemma ring_count_holds:
  assumes "ring_holds sz r xs"
  shows "unat (ring_count r c) = min (min (length xs) (unat sz)) (unat c)"
  using assms by (cases r) (auto simp: ring_holds_def ring_count_def word_less_nat_alt)

lemma ring_start_holds:
  assumes h: "ring_holds sz r xs" and s: "0 < sz" "sz \<le> 2 ^ 32"
    and c: "unat n_copy \<le> min (length xs) (unat sz)" and k: "k < unat n_copy"
  shows "ring_at sz r (ring_start sz r n_copy) k = xs ! (length xs - unat n_copy + k)"
proof -
  obtain ring wi n where r: "r = (ring, wi, n)" by (metis prod_cases3)
  have sz: "0 < unat sz" "unat sz \<le> 2 ^ 32"
    using s by (simp_all add: word_less_nat_alt word_le_nat_alt)
  have wi: "unat wi = length xs mod unat sz" and n: "unat n = min (length xs) (unat sz)"
    and nth: "\<And>i. i < length xs \<Longrightarrow> length xs \<le> i + unat sz \<Longrightarrow> ring ! (i mod unat sz) = xs ! i"
    using h by (auto simp: ring_holds_def r)
  let ?i = "length xs - unat n_copy + k"
  have k64: "unat (of_nat k :: u64) = k"
    using k by (intro unat_of_nat_small) (metis less_trans unsigned_less)
  have "unat ((ring_start sz r n_copy + of_nat k) mod sz) = ?i mod unat sz"
  proof (cases "length xs < unat sz")
    case True
    have "n_copy \<le> wi" using True wi c by (simp add: word_le_nat_alt)
    then have "unat (wi - n_copy) = length xs - unat n_copy"
      using True wi by (simp add: unat_sub)
    moreover have "unat (wi - n_copy + of_nat k) = unat (wi - n_copy) + k"
      using True sz calculation k k64 c
      by (subst unat_word_ariths) (simp add: k64)
    ultimately show ?thesis
      using True n by (simp add: ring_start_def r word_less_nat_alt unat_mod)
  next
    case False
    have wb: "unat wi < unat sz" using wi sz by simp
    have s1: "unat (wi + sz) = unat wi + unat sz"
      using wb sz by (subst unat_word_ariths) simp
    have "n_copy \<le> wi + sz" using c s1 by (simp add: word_le_nat_alt)
    then have s2: "unat (wi + sz - n_copy) = unat wi + unat sz - unat n_copy"
      using s1 by (simp add: unat_sub)
    have "(unat wi + unat sz - unat n_copy) mod unat sz < unat sz" using sz(1) by simp
    then have "(unat wi + unat sz - unat n_copy) mod unat sz + k < 2 * 2 ^ 32" using sz k c by linarith
    also have "\<dots> \<le> 2 ^ 64" by simp
    finally have s3: "unat ((wi + sz - n_copy) mod sz + of_nat k) =
        (unat wi + unat sz - unat n_copy) mod unat sz + k"
      by (subst unat_word_ariths) (simp add: s2 k64 unat_mod)
    have "((unat wi + unat sz - unat n_copy) mod unat sz + k) mod unat sz =
        (unat wi + unat sz - unat n_copy + k) mod unat sz"
      by (rule mod_add_left_eq)
    also have "unat wi + unat sz - unat n_copy + k =
        length xs mod unat sz + (unat sz - unat n_copy + k)" using c wi by simp
    also have "(length xs mod unat sz + (unat sz - unat n_copy + k)) mod unat sz =
        (length xs + (unat sz - unat n_copy + k)) mod unat sz" by (rule mod_add_left_eq)
    also have "length xs + (unat sz - unat n_copy + k) = ?i + unat sz" using c by simp
    finally show ?thesis
      using False n by (simp add: ring_start_def r word_less_nat_alt unat_mod s3)
  qed
  moreover have "?i < length xs" "length xs \<le> ?i + unat sz" using c k by linarith+
  ultimately show ?thesis using nth [of ?i] by (simp add: ring_at_def r)
qed

lemma ring_copy:
  assumes "ring_holds sz r xs" "0 < sz" "sz \<le> 2 ^ 32"
  shows "map (ring_at sz r (ring_start sz r (ring_count r c))) [0..<unat (ring_count r c)] =
    last_of (unat (ring_count r c)) xs"
proof -
  have "unat (ring_count r c) \<le> min (length xs) (unat sz)"
    by (simp add: ring_count_holds [OF assms(1)] min.coboundedI1)
  then show ?thesis
    using ring_start_holds [OF assms] by (intro nth_equalityI) (simp_all add: last_of_def)
qed

lemma foldl_fill_three:
  "foldl (\<lambda>(a, b, c) i. (a[i := f i], b[i := g i], c[i := h i])) (a, b, c) is =
     (foldl (\<lambda>a i. a[i := f i]) a is, foldl (\<lambda>b i. b[i := g i]) b is,
      foldl (\<lambda>c i. c[i := h i]) c is)"
  by (induction "is" arbitrary: a b c) auto

text \<open>What a reader of a ring may rely on, whatever the ring stores.\<close>

locale recorder =
  fixes record_sample :: "'x \<Rightarrow> 's \<Rightarrow> 's"
    and recent :: "'s \<Rightarrow> u64 \<Rightarrow> 'x list"
    and holds :: "'s \<Rightarrow> 'x list \<Rightarrow> bool"
    and capacity :: nat
  assumes record_holds: "holds s xs \<Longrightarrow> holds (record_sample x s) (xs @ [x])"
    and recent_holds: "holds s xs \<Longrightarrow> recent s c = last_of (min (unat c) capacity) xs"
begin

lemma records_hold: "holds s xs \<Longrightarrow> holds (fold record_sample ys s) (xs @ ys)"
proof (induction ys arbitrary: s xs)
  case (Cons y ys)
  from Cons.IH [OF record_holds [OF Cons.prems]] show ?case by simp
qed simp

lemma recent_length:
  "holds s xs \<Longrightarrow> length (recent s c) = min (unat c) (min capacity (length xs))"
  by (simp add: recent_holds)

lemma recent_latest:
  "holds s xs \<Longrightarrow> 0 < c \<Longrightarrow> 0 < capacity \<Longrightarrow> last (recent (record_sample x s) c) = x"
  using recent_holds [OF record_holds, of s xs x c]
  by (simp add: last_of_def last_drop word_less_nat_alt)

end

definition ring_recent :: "u64 \<Rightarrow> 'a ring \<Rightarrow> u64 \<Rightarrow> 'a list" where
  "ring_recent sz r c =
     map (ring_at sz r (ring_start sz r (ring_count r c))) [0..<unat (ring_count r c)]"

lemma ring_recent_holds:
  assumes "ring_holds sz r xs" "0 < sz" "sz \<le> 2 ^ 32"
  shows "ring_recent sz r c = last_of (min (unat c) (unat sz)) xs"
proof -
  have "ring_recent sz r c = last_of (unat (ring_count r c)) xs"
    by (simp only: ring_recent_def ring_copy [OF assms])
  then show ?thesis by (simp add: ring_count_holds [OF assms(1)] last_of_def min_def)
qed

lemma ring_recorder:
  "0 < sz \<Longrightarrow> sz \<le> 2 ^ 32 \<Longrightarrow>
     recorder (ring_record sz) (ring_recent sz) (ring_holds sz) (unat sz)"
  by unfold_locales (simp_all add: ring_holds_record ring_recent_holds)

interpretation history: recorder "ring_record HISTORY_RING_SIZE" "ring_recent HISTORY_RING_SIZE"
    "ring_holds HISTORY_RING_SIZE" 300
  using ring_recorder [of HISTORY_RING_SIZE] by simp

interpretation jitter: recorder "ring_record JITTER_RING_SIZE" "ring_recent JITTER_RING_SIZE"
    "ring_holds JITTER_RING_SIZE" 256
  using ring_recorder [of JITTER_RING_SIZE] by simp

section \<open>The monitor refines the log of its calls\<close>

text \<open>The calls that record something, with the counter reading of an attempt, and what they add up to.\<close>

datatype 'd event =
  Set_Initialized bool
| Failed int
| Fips_Failed u32
| Attempt (at_now: int) (at_success: bool) (at_bytes: u64) (at_duration: 'd) (at_error: int)
| Latency 'd

primrec record_event :: "'d float_ops \<Rightarrow> 'd event \<Rightarrow> 'd monitor \<Rightarrow> 'd monitor" where
  "record_event fl (Set_Initialized b) m = health_monitor_set_initialized b m"
| "record_event fl (Failed e) m = health_monitor_record_failure e m"
| "record_event fl (Fips_Failed k) m = health_monitor_record_fips_failure k m"
| "record_event fl (Attempt now ok n d e) m =
     health_monitor_record_generation_attempt fl now ok n d e m"
| "record_event fl (Latency d) m = health_monitor_record_jitter_sample d m"

definition attempts :: "'d event list \<Rightarrow> 'd event list" where
  "attempts es = filter (\<lambda>e. case e of Attempt _ _ _ _ _ \<Rightarrow> True | _ \<Rightarrow> False) es"

definition latencies :: "'d event list \<Rightarrow> 'd list" where
  "latencies es = concat (map (\<lambda>e. case e of Latency d \<Rightarrow> [d] | _ \<Rightarrow> []) es)"

definition fips_masks :: "'d event list \<Rightarrow> u32 list" where
  "fips_masks es = concat (map (\<lambda>e. case e of Fips_Failed k \<Rightarrow> [k] | _ \<Rightarrow> []) es)"

text \<open>The error codes reported, 0 for a successful attempt.\<close>

definition codes :: "'d event list \<Rightarrow> (bool \<times> int) list" where
  "codes es = concat (map (\<lambda>e. case e of Failed c \<Rightarrow> [(True, c)]
     | Attempt _ ok _ _ c \<Rightarrow> [if ok then (False, 0) else (True, c)] | _ \<Rightarrow> []) es)"

definition sample_of :: "'d float_ops \<Rightarrow> 'd monitor \<Rightarrow> 'd event \<Rightarrow> 'd history_sample" where
  "sample_of fl m e = \<lparr>hs_timestamp_seconds = get_process_elapsed_seconds fl m (at_now e),
     hs_byte_count = (if at_success e then at_bytes e else 0), hs_duration_seconds = at_duration e\<rparr>"

definition stats_hold :: "'d float_ops \<Rightarrow> 'd rng_health_stats \<Rightarrow> 'd event list \<Rightarrow> bool" where
  "stats_hold fl s es \<longleftrightarrow>
     st_total_bytes_generated s = sum_list (map at_bytes (attempts es)) \<and>
     st_generation_call_count s = of_nat (length (attempts es)) \<and>
     st_failure_count s = of_nat (length (filter fst (codes es))) \<and>
     st_last_error_code s = last (0 # map snd (codes es)) \<and>
     st_cumulative_generation_seconds s = foldl (fl_add fl) (fl_zero fl) (map at_duration (attempts es)) \<and>
     st_last_fips_failure_mask s = last (0 # fips_masks es) \<and>
     st_fips_failure_count s = of_nat (length (fips_masks es))"

definition monitor_holds :: "'d float_ops \<Rightarrow> 'd monitor \<Rightarrow> 'd monitor \<Rightarrow> 'd event list \<Rightarrow> bool" where
  "monitor_holds fl m0 m es \<longleftrightarrow> stats_hold fl (current_stats m) es \<and>
     epoch_start m = epoch_start m0 \<and> epoch_frequency m = epoch_frequency m0 \<and>
     ring_holds HISTORY_RING_SIZE (history_ring m) (map (sample_of fl m0) (attempts es)) \<and>
     ring_holds JITTER_RING_SIZE (jitter_ring m) (latencies es)"

lemma log_snoc [simp]:
  "attempts (es @ fs) = attempts es @ attempts fs" "latencies (es @ fs) = latencies es @ latencies fs"
  "fips_masks (es @ fs) = fips_masks es @ fips_masks fs" "codes (es @ fs) = codes es @ codes fs"
  by (simp_all add: attempts_def latencies_def fips_masks_def codes_def)

lemma log_one [simp]:
  "attempts [] = []" "latencies [] = []" "fips_masks [] = []" "codes [] = []"
  "attempts [Attempt t ok n d c] = [Attempt t ok n d c]" "attempts [Failed c] = []"
  "attempts [Fips_Failed k] = []" "attempts [Set_Initialized b] = []" "attempts [Latency d] = []"
  "latencies [Attempt t ok n d c] = []" "latencies [Failed c] = []" "latencies [Fips_Failed k] = []"
  "latencies [Set_Initialized b] = []" "latencies [Latency d] = [d]"
  "fips_masks [Attempt t ok n d c] = []" "fips_masks [Failed c] = []"
  "fips_masks [Fips_Failed k] = [k]" "fips_masks [Set_Initialized b] = []"
  "fips_masks [Latency d] = []"
  "codes [Attempt t ok n d c] = [if ok then (False, 0) else (True, c)]" "codes [Failed c] = [(True, c)]"
  "codes [Fips_Failed k] = []" "codes [Set_Initialized b] = []" "codes [Latency d] = []"
  by (simp_all add: attempts_def latencies_def fips_masks_def codes_def)

lemma stats_hold_derived [simp]:
  "stats_hold fl (health_monitor_update_derived_values fl s) es = stats_hold fl s es"
  by (simp add: stats_hold_def health_monitor_update_derived_values_def Let_def)

lemma stats_hold_initialized [simp]:
  "stats_hold fl (s\<lparr>st_initialized := b\<rparr>) es = stats_hold fl s es"
  by (simp add: stats_hold_def)

lemma record_event_holds:
  assumes "monitor_holds fl m0 m es"
  shows "monitor_holds fl m0 (record_event fl e m) (es @ [e])"
proof (cases e)
  case (Attempt t ok n d c)
  have "sample_of fl m0 e = \<lparr>hs_timestamp_seconds = get_process_elapsed_seconds fl m t,
      hs_byte_count = (if ok then n else 0), hs_duration_seconds = d\<rparr>"
    using assms Attempt by (simp add: sample_of_def get_process_elapsed_seconds_def monitor_holds_def)
  moreover have "ring_holds HISTORY_RING_SIZE (ring_record HISTORY_RING_SIZE x (history_ring m))
      (map (sample_of fl m0) (attempts es) @ [x])" for x
    using assms by (intro history.record_holds) (simp add: monitor_holds_def)
  ultimately show ?thesis
    using assms Attempt
    by (simp add: monitor_holds_def health_monitor_record_generation_attempt_def Let_def)
      (simp add: stats_hold_def last_map)
next
  case (Latency d)
  with assms jitter.record_holds [of "jitter_ring m" "latencies es" d] show ?thesis
    by (simp add: monitor_holds_def health_monitor_record_jitter_sample_def stats_hold_def)
next
  case (Set_Initialized b)
  with assms show ?thesis
    by (simp add: monitor_holds_def health_monitor_set_initialized_def) (simp add: stats_hold_def)
qed (use assms in \<open>simp add: monitor_holds_def health_monitor_record_failure_def
    health_monitor_record_fips_failure_def Let_def stats_hold_def\<close>)+

lemma record_events_hold:
  "monitor_holds fl m0 m es \<Longrightarrow> monitor_holds fl m0 (fold (record_event fl) fs m) (es @ fs)"
proof (induction fs arbitrary: m es)
  case (Cons f fs)
  from Cons.IH [OF record_event_holds [OF Cons.prems]] show ?case by simp
qed simp

lemma monitor_holds_zero:
  "monitor_holds fl (zero_monitor fl start frequency) (zero_monitor fl start frequency) []"
  by (simp add: monitor_holds_def zero_monitor_def stats_hold_def zero_stats_def ring_holds_zero)

lemma monitor_holds_clear:
  "monitor_holds fl (health_monitor_clear_history fl m) (health_monitor_clear_history fl m) []"
  by (simp add: monitor_holds_def health_monitor_clear_history_def stats_hold_def zero_stats_def
      ring_holds_zero Let_def)

lemma ring_fill:
  assumes h: "ring_holds sz r xs" "0 < sz" "sz \<le> 2 ^ 32" and c: "unat c \<le> length out"
  defines "l \<equiv> last_of (min (unat c) (unat sz)) xs"
  shows "unat (ring_count r c) = length l \<and> ring_count r c = of_nat (length l) \<and>
    foldl (\<lambda>out i. out[i := g (ring_at sz r (ring_start sz r (ring_count r c)) i)]) out
      [0..<unat (ring_count r c)] = map g l @ drop (length l) out"
proof -
  have n: "unat (ring_count r c) = length l" using ring_count_holds [OF h(1), of c] by (simp add: l_def)
  have "map (\<lambda>i. g (ring_at sz r (ring_start sz r (ring_count r c)) i)) [0..<unat (ring_count r c)] =
      map g (ring_recent sz r c)" by (simp add: ring_recent_def)
  then have "map (\<lambda>i. g (ring_at sz r (ring_start sz r (ring_count r c)) i))
      [0..<unat (ring_count r c)] = map g l" by (simp add: ring_recent_holds [OF h] l_def)
  moreover have "ring_count r c = of_nat (length l)" by (simp flip: n)
  ultimately show ?thesis using n c foldl_fill [of "unat (ring_count r c)" out] by (simp add: l_def)
qed

lemma jitter_snapshot_holds:
  assumes h: "ring_holds JITTER_RING_SIZE (jitter_ring m) xs" and c: "unat c \<le> length out"
  defines "l \<equiv> last_of (min (unat c) 256) xs"
  shows "health_monitor_jitter_samples_snapshot m (Some out) c =
    (of_nat (length l), Some (l @ drop (length l) out))"
proof -
  have b: "0 < JITTER_RING_SIZE" "JITTER_RING_SIZE \<le> 2 ^ 32" by simp_all
  have l: "last_of (min (unat c) (unat JITTER_RING_SIZE)) xs = l" by (simp add: l_def)
  note f = ring_fill [OF h b c, unfolded l]
  show ?thesis
  proof (cases "c = 0 \<or> ring_count (jitter_ring m) c = 0")
    case True
    then have "length l = 0"
      using f by (elim disjE) (simp_all add: l_def last_of_def)
    with True show ?thesis by (auto simp: health_monitor_jitter_samples_snapshot_def Let_def)
  next
    case False
    then have "health_monitor_jitter_samples_snapshot m (Some out) c =
        (ring_count (jitter_ring m) c, Some (l @ drop (length l) out))"
      using f [of "\<lambda>x. x", THEN conjunct2, THEN conjunct2]
      by (simp add: health_monitor_jitter_samples_snapshot_def Let_def)
    with f show ?thesis by simp
  qed
qed

lemma history_snapshot_holds:
  assumes h: "ring_holds HISTORY_RING_SIZE (history_ring m) xs"
    and c: "unat c \<le> length ts" "unat c \<le> length bs" "unat c \<le> length ds"
  defines "l \<equiv> last_of (min (unat c) 300) xs"
  shows "health_monitor_recent_history_snapshot m (Some ts) (Some bs) (Some ds) c =
    (of_nat (length l), Some (map hs_timestamp_seconds l @ drop (length l) ts),
     Some (map hs_byte_count l @ drop (length l) bs),
     Some (map hs_duration_seconds l @ drop (length l) ds))"
proof -
  have b: "0 < HISTORY_RING_SIZE" "HISTORY_RING_SIZE \<le> 2 ^ 32" by simp_all
  have l: "last_of (min (unat c) (unat HISTORY_RING_SIZE)) xs = l" by (simp add: l_def)
  note f = ring_fill [OF h b c(1), unfolded l] ring_fill [OF h b c(2), unfolded l]
    ring_fill [OF h b c(3), unfolded l]
  show ?thesis
  proof (cases "c = 0 \<or> ring_count (history_ring m) c = 0")
    case True
    then have "length l = 0"
      using f by (elim disjE) (simp_all add: l_def last_of_def)
    with True show ?thesis by (auto simp: health_monitor_recent_history_snapshot_def Let_def)
  next
    case False
    then have "health_monitor_recent_history_snapshot m (Some ts) (Some bs) (Some ds) c =
        (ring_count (history_ring m) c, Some (map hs_timestamp_seconds l @ drop (length l) ts),
         Some (map hs_byte_count l @ drop (length l) bs),
         Some (map hs_duration_seconds l @ drop (length l) ds))"
      using f [THEN conjunct2, THEN conjunct2]
      by (simp add: health_monitor_recent_history_snapshot_def Let_def foldl_fill_three)
    with f(1) show ?thesis by simp
  qed
qed

lemma fresh_monitor_holds:
  assumes "m0 = zero_monitor fl start frequency \<or> m0 = health_monitor_clear_history fl m1"
  shows "monitor_holds fl m0 (fold (record_event fl) es m0) es"
  using assms record_events_hold [OF monitor_holds_zero, where fs = es]
    record_events_hold [OF monitor_holds_clear, where fs = es] by auto

text \<open>
  C37. After any sequence of recording calls since the start of the process or the last clear, the
  statistics that a snapshot returns are those of the sequence: the bytes, failed attempts
  included; the number of attempts; the failures reported by either kind of call; the code of the
  last attempt or failure, 0 when the last attempt succeeded; the total duration summed in order;
  the callbacks and the last mask; and the averages derived from these, 0 when there was no
  attempt or no time has passed. The counters are those of the sequence modulo \<open>2 ^ 64\<close>.
\<close>

theorem monitor_statistics:
  assumes "m0 = zero_monitor fl start frequency \<or> m0 = health_monitor_clear_history fl m1"
  shows "let s = fst (health_monitor_snapshot fl (fold (record_event fl) es m0));
      calls = attempts es; time = foldl (fl_add fl) (fl_zero fl) (map at_duration calls)
    in st_total_bytes_generated s = sum_list (map at_bytes calls) \<and>
       st_generation_call_count s = of_nat (length calls) \<and>
       st_failure_count s = of_nat (length (filter fst (codes es))) \<and>
       st_last_error_code s = last (0 # map snd (codes es)) \<and>
       st_cumulative_generation_seconds s = time \<and>
       st_average_latency_seconds s =
         (if of_nat (length calls) \<noteq> (0 :: u64)
          then fl_div fl time (fl_of_int fl (uint (of_nat (length calls) :: u64))) else fl_zero fl) \<and>
       st_throughput_bytes_per_second s =
         (if fl_less fl (fl_zero fl) time
          then fl_div fl (fl_of_int fl (uint (sum_list (map at_bytes calls)))) time else fl_zero fl) \<and>
       st_last_fips_failure_mask s = last (0 # fips_masks es) \<and>
       st_fips_failure_count s = of_nat (length (fips_masks es))"
  using fresh_monitor_holds [OF assms, of es]
  by (simp add: monitor_holds_def stats_hold_def health_monitor_snapshot_def Let_def
      health_monitor_update_derived_values_def)

definition int_ops :: "int float_ops" where
  "int_ops = \<lparr>fl_of_int = (\<lambda>x. x), fl_add = (+), fl_mul = (*), fl_div = (div), fl_less = (<)\<rparr>"

theorem monitor_statistics_witness:
  "let s = fst (health_monitor_snapshot int_ops (fold (record_event int_ops)
     [Attempt 5 True 32 2 0, Failed (-7), Attempt 9 False 10 4 (-3)] (zero_monitor int_ops 1 1)))
   in st_total_bytes_generated s = 42 \<and> st_generation_call_count s = 2 \<and> st_failure_count s = 2 \<and>
      st_last_error_code s = -3 \<and> st_average_latency_seconds s = 3 \<and>
      st_throughput_bytes_per_second s = 7"
  using monitor_statistics [of "zero_monitor int_ops 1 1" int_ops 1 1 _
      "[Attempt 5 True 32 2 0, Failed (-7), Attempt 9 False 10 4 (-3)]"]
  unfolding Let_def by (simp add: attempts_def codes_def int_ops_def)

text \<open>
  C36. The snapshots return the most recent samples, oldest first, as many as were recorded, asked
  for and kept (300 attempts, 256 latencies), however often the rings have wrapped; the rest of the
  output arrays is untouched. A failed attempt appears with 0 bytes.
\<close>

theorem monitor_recent_samples:
  assumes "m0 = zero_monitor fl start frequency \<or> m0 = health_monitor_clear_history fl m1"
    and "unat c \<le> length ts" "unat c \<le> length bs" "unat c \<le> length ds"
  shows "let m = fold (record_event fl) es m0;
      h = last_of (min (unat c) 300) (map (sample_of fl m0) (attempts es));
      l = last_of (min (unat c) 256) (latencies es)
    in health_monitor_recent_history_snapshot m (Some ts) (Some bs) (Some ds) c =
         (of_nat (length h), Some (map hs_timestamp_seconds h @ drop (length h) ts),
          Some (map hs_byte_count h @ drop (length h) bs),
          Some (map hs_duration_seconds h @ drop (length h) ds)) \<and>
       health_monitor_jitter_samples_snapshot m (Some ts) c =
         (of_nat (length l), Some (l @ drop (length l) ts))"
  using fresh_monitor_holds [OF assms(1), of es] history_snapshot_holds [OF _ assms(2-4)]
    jitter_snapshot_holds [OF _ assms(2)]
  unfolding Let_def monitor_holds_def by blast

theorem monitor_recent_samples_witness:
  "let m = fold (record_event int_ops)
     [Latency 4, Attempt 5 True 32 2 0, Latency 6, Attempt 9 False 10 4 (-3)] (zero_monitor int_ops 1 1)
   in health_monitor_recent_history_snapshot m (Some [0, 0]) (Some [7, 7]) (Some [0, 0]) 2 =
        (2, Some [4, 8], Some [32, 0], Some [2, 4]) \<and>
      health_monitor_jitter_samples_snapshot m (Some [0, 0]) 1 = (1, Some [6, 0])"
proof -
  let ?es = "[Latency 4, Attempt 5 True 32 2 0, Latency 6, Attempt 9 False 10 4 (-3)]"
  note t = monitor_recent_samples [of "zero_monitor int_ops 1 1" int_ops 1 1 undefined _ "[0, 0]"
      "[7, 7]" "[0, 0]" ?es, unfolded Let_def]
  from t [of 2] t [of 1] show ?thesis
    unfolding Let_def
    by (simp add: attempts_def latencies_def last_of_def sample_of_def int_ops_def
        get_process_elapsed_seconds_def zero_monitor_def)
qed

end
