(* ===== verification/Config.thy ===== *)
theory Config
  imports Jent_State
begin

unbundle bit_operations_syntax

text \<open>
  The helpers of \<open>jitterentropy-base.c\<close> that turn the flags of a collector into sizes: the
  oversampling rate, the memory size, which is kept in the flags as an exponent, and the number of
  rounds of the hash loop.
\<close>

section \<open>Operations\<close>

definition ensure_osr_is_at_least_minimal :: "u32 \<Rightarrow> u32" where
  "ensure_osr_is_at_least_minimal current_osr =
     (if current_osr < JENT_MIN_OSR then JENT_MIN_OSR else current_osr)"

definition JENT_VERSION :: u32 where
  "JENT_VERSION = 3 * 1000000 + 7 * 10000 + 1 * 100"

definition jent_version :: u32 where
  "jent_version = JENT_VERSION"

text \<open>\<open>while (val >>= 1) idx++\<close>.\<close>

function log2_loop :: "u32 \<Rightarrow> u32 \<Rightarrow> u32" where
  "log2_loop val idx =
     (let val = drop_bit 1 val in if val \<noteq> 0 then log2_loop val (idx + 1) else idx)"
  by pat_completeness auto
termination
proof (relation "measure (\<lambda>(val, idx). unat val)")
  fix val idx v :: u32
  assume "v = drop_bit 1 val" "v \<noteq> 0"
  moreover from this have "unat val \<noteq> 0" by (auto simp: unat_eq_0)
  ultimately show "((v, idx + 1), (val, idx)) \<in> measure (\<lambda>(val, idx). unat val)"
    by (simp add: drop_bit_eq_div unat_div)
qed simp

declare log2_loop.simps [simp del]

definition jent_log2_simple :: "u32 \<Rightarrow> u32" where
  "jent_log2_simple val = log2_loop val 0"

text \<open>\<open>jent_cache_size_roundup\<close> is an answer of the machine.\<close>

definition jent_cache_size_roundup :: "bool \<Rightarrow> jent_world \<Rightarrow> u32" where
  "jent_cache_size_roundup all_caches w = w_cache_size w all_caches"

definition jent_update_memsize :: "u32 \<Rightarrow> u32 \<Rightarrow> jent_world \<Rightarrow> u32" where
  "jent_update_memsize flags inc w =
     (let global_max = JENT_FLAGS_TO_MAX_MEMSIZE JENT_MAX_MEMSIZE_MAX;
          max = JENT_FLAGS_TO_MAX_MEMSIZE flags;
          max = (if max = 0
                 then let max = jent_log2_simple
                              (jent_cache_size_roundup (flags AND JENT_CACHE_ALL \<noteq> 0) w);
                          max = (if max = 0 then JENT_DEFAULT_MEMORY_BITS
                                 else let max = max + JENT_CACHE_SHIFT_BITS
                                      in if flags AND JENT_CACHE_ALL = 0 then max + 2 else max)
                      in if max > JENT_MAX_MEMSIZE_OFFSET then max - JENT_MAX_MEMSIZE_OFFSET else 0
                 else max + inc);
          max = (if max > global_max then global_max else max);
          flags = flags AND NOT JENT_MAX_MEMSIZE_MASK
      in flags OR JENT_MAX_MEMSIZE_TO_FLAGS max)"

definition jent_update_hashloop :: "u32 \<Rightarrow> u32 \<Rightarrow> u32" where
  "jent_update_hashloop flags inc =
     (let global_max = JENT_FLAGS_TO_HASHLOOP JENT_MAX_HASHLOOP;
          max = JENT_FLAGS_TO_HASHLOOP flags;
          max = max + inc;
          max = (if max > global_max then global_max else max);
          flags = flags AND NOT JENT_MAX_HASHLOOP_MASK
      in flags OR JENT_HASHLOOP_TO_FLAGS max)"

text \<open>A shift by the width of the type or more is undefined (\<open>None\<close>).\<close>

definition jent_memsize :: "u32 \<Rightarrow> u32 option" where
  "jent_memsize flags =
     (let memsize = JENT_FLAGS_TO_MAX_MEMSIZE flags;
          memsize = (if memsize = 0 then JENT_DEFAULT_MEMORY_BITS
                     else memsize + JENT_MAX_MEMSIZE_OFFSET)
      in if unat memsize < 32 then Some (push_bit (unat memsize) 1) else None)"

definition jent_hashloop_cnt :: "u32 \<Rightarrow> u32" where
  "jent_hashloop_cnt flags =
     (let cnt = JENT_FLAGS_TO_HASHLOOP flags
      in if cnt = 0 then JENT_HASH_LOOP_DEFAULT else push_bit (unat cnt) 1)"

section \<open>The logarithm\<close>

lemma log2_loop_bounds:
  "val \<noteq> 0 \<Longrightarrow> \<exists>k < 32. log2_loop val idx = idx + of_nat k \<and>
     2 ^ k \<le> unat val \<and> unat val < 2 ^ Suc k"
proof (induction val idx rule: log2_loop.induct)
  case (1 val idx)
  let ?v = "drop_bit 1 val"
  have half: "unat ?v = unat val div 2"
    by (simp add: drop_bit_eq_div unat_div)
  show ?case
  proof (cases "?v = 0")
    case True
    then have "unat val div 2 = 0" using half by simp
    then have "unat val < 2" by simp
    moreover have "unat val \<noteq> 0" using "1.prems" by (simp add: unat_eq_0)
    ultimately have "unat val = 1" by simp
    with True show ?thesis
      by (subst log2_loop.simps) (intro exI [of _ 0], simp)
  next
    case False
    from "1.IH" [OF refl False False] obtain k where k: "log2_loop ?v (idx + 1) = idx + 1 + of_nat k"
      "2 ^ k \<le> unat ?v" "unat ?v < 2 ^ Suc k"
      by blast
    have "unat val < 2 ^ 32" using unsigned_less [of val] by simp
    moreover have b: "2 ^ Suc k \<le> unat val" "unat val < 2 ^ Suc (Suc k)"
      using k(2,3) half by simp_all
    ultimately have "(2::nat) ^ Suc k < 2 ^ 32" by linarith
    then have "Suc k < 32" by (rule power_less_imp_less_exp [rotated]) simp
    with False k(1) b show ?thesis
      by (subst log2_loop.simps) (intro exI [of _ "Suc k"], simp)
  qed
qed

lemma jent_log2_bounds:
  assumes "val \<noteq> 0"
  shows "2 ^ unat (jent_log2_simple val) \<le> unat val"
    "unat val < 2 ^ Suc (unat (jent_log2_simple val))" "unat (jent_log2_simple val) < 32"
proof -
  obtain k where k: "k < 32" "log2_loop val 0 = of_nat k" "2 ^ k \<le> unat val" "unat val < 2 ^ Suc k"
    using log2_loop_bounds [OF assms, of 0] by auto
  then have "unat (jent_log2_simple val) = k"
    by (simp add: jent_log2_simple_def unat_of_nat_small)
  with k show "2 ^ unat (jent_log2_simple val) \<le> unat val"
    "unat val < 2 ^ Suc (unat (jent_log2_simple val))" "unat (jent_log2_simple val) < 32"
    by simp_all
qed

lemma jent_log2_0 [simp]: "jent_log2_simple 0 = 0"
  by (simp add: jent_log2_simple_def log2_loop.simps)

section \<open>The fields of the flags\<close>

lemma bit_below:
  assumes "unat v < 2 ^ k" "bit (v :: 'a::len word) n"
  shows "n < k"
proof -
  have "take_bit k (unat v) = unat v" using assms(1) by (rule take_bit_nat_eq_self)
  moreover have "bit (unat v) n" using assms(2) by (simp add: bit_unsigned_iff)
  ultimately have "bit (take_bit k (unat v)) n" by simp
  then show ?thesis by (simp add: bit_take_bit_iff)
qed

lemma field_masks:
  "JENT_MAX_MEMSIZE_MASK = push_bit 27 (mask 5)" "JENT_MAX_HASHLOOP_MASK = push_bit 24 (mask 3)"
  "(7 :: u32) = mask 3"
  by code_simp+

text \<open>The memory size lies in the bits 27 to 31, the number of hash rounds in the bits 24 to 26.\<close>

lemma memsize_field:
  assumes "v < 32"
  shows "JENT_FLAGS_TO_MAX_MEMSIZE ((flags AND NOT JENT_MAX_MEMSIZE_MASK) OR
      JENT_MAX_MEMSIZE_TO_FLAGS v) = v"
    "take_bit 27 ((flags AND NOT JENT_MAX_MEMSIZE_MASK) OR JENT_MAX_MEMSIZE_TO_FLAGS v) =
      take_bit 27 flags"
proof -
  have v: "n < 5" if "bit v n" for n
    using bit_below [of v 5 n] assms that by (simp add: word_less_nat_alt)
  show "JENT_FLAGS_TO_MAX_MEMSIZE ((flags AND NOT JENT_MAX_MEMSIZE_MASK) OR
      JENT_MAX_MEMSIZE_TO_FLAGS v) = v"
    unfolding JENT_FLAGS_TO_MAX_MEMSIZE_def field_masks JENT_MAX_MEMSIZE_TO_FLAGS_def
    by (rule bit_word_eqI) (auto simp: bit_simps dest: v)
  show "take_bit 27 ((flags AND NOT JENT_MAX_MEMSIZE_MASK) OR JENT_MAX_MEMSIZE_TO_FLAGS v) =
      take_bit 27 flags"
    unfolding field_masks JENT_MAX_MEMSIZE_TO_FLAGS_def
    by (rule bit_word_eqI) (auto simp: bit_simps)
qed

lemma hashloop_field:
  assumes "v < 8"
  shows "JENT_FLAGS_TO_HASHLOOP ((flags AND NOT JENT_MAX_HASHLOOP_MASK) OR
      JENT_HASHLOOP_TO_FLAGS v) = v"
    "drop_bit 27 ((flags AND NOT JENT_MAX_HASHLOOP_MASK) OR JENT_HASHLOOP_TO_FLAGS v) =
      drop_bit 27 flags"
    "take_bit 24 ((flags AND NOT JENT_MAX_HASHLOOP_MASK) OR JENT_HASHLOOP_TO_FLAGS v) =
      take_bit 24 flags"
proof -
  have v: "n < 3" if "bit v n" for n
    using bit_below [of v 3 n] assms that by (simp add: word_less_nat_alt)
  show "JENT_FLAGS_TO_HASHLOOP ((flags AND NOT JENT_MAX_HASHLOOP_MASK) OR
      JENT_HASHLOOP_TO_FLAGS v) = v"
    unfolding JENT_FLAGS_TO_HASHLOOP_def field_masks JENT_HASHLOOP_TO_FLAGS_def
    by (rule bit_word_eqI) (auto simp: bit_simps dest: v)
  show "drop_bit 27 ((flags AND NOT JENT_MAX_HASHLOOP_MASK) OR JENT_HASHLOOP_TO_FLAGS v) =
      drop_bit 27 flags"
    unfolding field_masks JENT_HASHLOOP_TO_FLAGS_def
    by (rule bit_word_eqI) (auto simp: bit_simps dest: v bit_imp_le_length)
  show "take_bit 24 ((flags AND NOT JENT_MAX_HASHLOOP_MASK) OR JENT_HASHLOOP_TO_FLAGS v) =
      take_bit 24 flags"
    unfolding field_masks JENT_HASHLOOP_TO_FLAGS_def
    by (rule bit_word_eqI) (auto simp: bit_simps)
qed

lemma memsize_max: "JENT_FLAGS_TO_MAX_MEMSIZE JENT_MAX_MEMSIZE_MAX = 20"
  by code_simp

lemma hashloop_max: "JENT_FLAGS_TO_HASHLOOP JENT_MAX_HASHLOOP = 7"
  by code_simp

section \<open>The updates\<close>

text \<open>The exponent that \<open>jent_update_memsize\<close> writes.\<close>

definition memsize_exponent :: "u32 \<Rightarrow> u32 \<Rightarrow> jent_world \<Rightarrow> u32" where
  "memsize_exponent flags inc w =
     min 20 (if JENT_FLAGS_TO_MAX_MEMSIZE flags = 0
             then let l = jent_log2_simple (w_cache_size w (flags AND JENT_CACHE_ALL \<noteq> 0));
                      e = (if l = 0 then 18 else if flags AND JENT_CACHE_ALL = 0 then l + 2 else l)
                  in if e > 9 then e - 9 else 0
             else JENT_FLAGS_TO_MAX_MEMSIZE flags + inc)"

lemma update_memsize_eq:
  "jent_update_memsize flags inc w = (flags AND NOT JENT_MAX_MEMSIZE_MASK) OR
     JENT_MAX_MEMSIZE_TO_FLAGS (memsize_exponent flags inc w)"
proof -
  have m: "(if (20 :: u32) < x then 20 else x) = min 20 x" for x
    by (auto simp: min_def not_less dest: less_imp_le)
  show ?thesis
    unfolding jent_update_memsize_def memsize_exponent_def jent_cache_size_roundup_def memsize_max
      Let_def m
    by simp
qed

lemma memsize_exponent_le: "memsize_exponent flags inc w \<le> 20"
  by (simp add: memsize_exponent_def)

lemma update_memsize_field:
  "JENT_FLAGS_TO_MAX_MEMSIZE (jent_update_memsize flags inc w) = memsize_exponent flags inc w"
  "take_bit 27 (jent_update_memsize flags inc w) = take_bit 27 flags"
proof -
  have "memsize_exponent flags inc w < 32"
    using memsize_exponent_le [of flags inc w] by (rule le_less_trans) simp
  from memsize_field [OF this, of flags]
  show "JENT_FLAGS_TO_MAX_MEMSIZE (jent_update_memsize flags inc w) = memsize_exponent flags inc w"
    "take_bit 27 (jent_update_memsize flags inc w) = take_bit 27 flags"
    by (simp_all only: update_memsize_eq)
qed

text \<open>The flags proper lie in the bits 2 to 7.\<close>

lemma update_memsize_flags:
  "n < 27 \<Longrightarrow> bit (jent_update_memsize flags inc w) n = bit flags n"
  using update_memsize_field(2) [of flags inc w] by (metis bit_take_bit_iff)

lemma update_hashloop_eq:
  "jent_update_hashloop flags inc = (flags AND NOT JENT_MAX_HASHLOOP_MASK) OR
     JENT_HASHLOOP_TO_FLAGS (min 7 (JENT_FLAGS_TO_HASHLOOP flags + inc))"
proof -
  have m: "(if (7 :: u32) < x then 7 else x) = min 7 x" for x
    by (auto simp: min_def not_less dest: less_imp_le)
  show ?thesis
    unfolding jent_update_hashloop_def hashloop_max Let_def m by (rule refl)
qed

lemma update_hashloop_field:
  "JENT_FLAGS_TO_HASHLOOP (jent_update_hashloop flags inc) = min 7 (JENT_FLAGS_TO_HASHLOOP flags + inc)"
  "JENT_FLAGS_TO_MAX_MEMSIZE (jent_update_hashloop flags inc) = JENT_FLAGS_TO_MAX_MEMSIZE flags"
  "take_bit 24 (jent_update_hashloop flags inc) = take_bit 24 flags"
proof -
  have "min 7 (JENT_FLAGS_TO_HASHLOOP flags + inc) \<le> 7" by simp
  then have "min 7 (JENT_FLAGS_TO_HASHLOOP flags + inc) < 8" by (rule le_less_trans) simp
  from hashloop_field [OF this, of flags] show
    "JENT_FLAGS_TO_HASHLOOP (jent_update_hashloop flags inc) = min 7 (JENT_FLAGS_TO_HASHLOOP flags + inc)"
    "JENT_FLAGS_TO_MAX_MEMSIZE (jent_update_hashloop flags inc) = JENT_FLAGS_TO_MAX_MEMSIZE flags"
    "take_bit 24 (jent_update_hashloop flags inc) = take_bit 24 flags"
    by (simp_all only: update_hashloop_eq JENT_FLAGS_TO_MAX_MEMSIZE_def)
qed

lemma update_hashloop_flags:
  "n < 24 \<Longrightarrow> bit (jent_update_hashloop flags inc) n = bit flags n"
  using update_hashloop_field(3) [of flags inc] by (metis bit_take_bit_iff)

text \<open>The size of the memory for an exponent that the update produces.\<close>

definition memsize_bits :: "u32 \<Rightarrow> nat" where
  "memsize_bits v = (if v = 0 then 18 else unat v + 9)"

lemma jent_memsize_bits:
  assumes "JENT_FLAGS_TO_MAX_MEMSIZE flags \<le> 20"
  shows "jent_memsize flags = Some (push_bit (memsize_bits (JENT_FLAGS_TO_MAX_MEMSIZE flags)) 1)"
    "10 \<le> memsize_bits (JENT_FLAGS_TO_MAX_MEMSIZE flags)"
    "memsize_bits (JENT_FLAGS_TO_MAX_MEMSIZE flags) \<le> 29"
proof -
  let ?v = "JENT_FLAGS_TO_MAX_MEMSIZE flags"
  have v: "unat ?v \<le> 20" using assms by (simp add: word_le_nat_alt)
  then have "unat (?v + 9) = unat ?v + 9" by (simp add: unat_word_ariths)
  with v show "jent_memsize flags = Some (push_bit (memsize_bits ?v) 1)"
    by (simp add: jent_memsize_def memsize_bits_def Let_def)
  show "10 \<le> memsize_bits ?v" "memsize_bits ?v \<le> 29"
    using v unat_gt_0 [of ?v] by (auto simp: memsize_bits_def unat_gt_0 Suc_le_eq)
qed

lemma unat_push_bit_1: "k < LENGTH('a) \<Longrightarrow> unat (push_bit k (1 :: 'a::len word)) = 2 ^ k"
  using unat_of_nat_small [of "2 ^ k", where 'a = 'a] by (simp add: push_bit_eq_mult)

lemma hashloop_cnt_power: "\<exists>k \<le> 7. unat (jent_hashloop_cnt (jent_update_hashloop flags inc)) = 2 ^ k"
proof -
  let ?v = "JENT_FLAGS_TO_HASHLOOP (jent_update_hashloop flags inc)"
  have "?v \<le> 7" by (simp add: update_hashloop_field)
  then have le: "unat ?v \<le> 7" by (simp add: word_le_nat_alt)
  moreover from le have "unat (jent_hashloop_cnt (jent_update_hashloop flags inc)) = 2 ^ unat ?v"
    using unat_push_bit_1 [of "unat ?v", where 'a = 32] by (simp add: jent_hashloop_cnt_def Let_def)
  ultimately show ?thesis by blast
qed

section \<open>Properties\<close>

text \<open>
  The size of the memory region is always in range: whatever the flags, the increment and the
  cache sizes the machine reports, the exponent written to the flags is at most 20, a size that the
  caller chose is increased by the increment up to that bound, the other 27 bits of the flags are
  kept, and the size read back from the new flags is a power of two between 2 to the 10 and 2 to
  the 29, so that the shift is defined and its predecessor is a mask.
\<close>

theorem update_memsize_range:
  fixes flags inc w
  defines "r \<equiv> jent_update_memsize flags inc w"
  shows "JENT_FLAGS_TO_MAX_MEMSIZE r \<le> 20 \<and> take_bit 27 r = take_bit 27 flags \<and>
    JENT_FLAGS_TO_MAX_MEMSIZE r = (if JENT_FLAGS_TO_MAX_MEMSIZE flags = 0
      then JENT_FLAGS_TO_MAX_MEMSIZE (jent_update_memsize (take_bit 27 flags) 0 w)
      else min 20 (JENT_FLAGS_TO_MAX_MEMSIZE flags + inc)) \<and>
    (\<exists>m k. jent_memsize r = Some m \<and> 10 \<le> k \<and> k \<le> 29 \<and> unat m = 2 ^ k \<and> m - 1 = mask k)"
proof -
  have f: "JENT_FLAGS_TO_MAX_MEMSIZE r = memsize_exponent flags inc w" "take_bit 27 r = take_bit 27 flags"
    by (simp_all add: r_def update_memsize_field)
  then have le: "JENT_FLAGS_TO_MAX_MEMSIZE r \<le> 20" by (simp add: memsize_exponent_le)
  have z: "JENT_FLAGS_TO_MAX_MEMSIZE (take_bit 27 flags) = 0"
    unfolding JENT_FLAGS_TO_MAX_MEMSIZE_def by (rule bit_word_eqI) (simp add: bit_simps)
  have c: "take_bit 27 flags AND JENT_CACHE_ALL = flags AND JENT_CACHE_ALL"
    using bit_below [of JENT_CACHE_ALL 8]
    by (intro bit_word_eqI) (fastforce simp: bit_simps JENT_CACHE_ALL_def)
  have "memsize_exponent flags inc w = memsize_exponent (take_bit 27 flags) 0 w"
    if "JENT_FLAGS_TO_MAX_MEMSIZE flags = 0"
    using that unfolding memsize_exponent_def z c by simp
  then have e: "JENT_FLAGS_TO_MAX_MEMSIZE r = (if JENT_FLAGS_TO_MAX_MEMSIZE flags = 0
      then JENT_FLAGS_TO_MAX_MEMSIZE (jent_update_memsize (take_bit 27 flags) 0 w)
      else min 20 (JENT_FLAGS_TO_MAX_MEMSIZE flags + inc))"
    by (simp add: f(1) update_memsize_field(1)) (simp add: memsize_exponent_def)
  define k where "k = memsize_bits (JENT_FLAGS_TO_MAX_MEMSIZE r)"
  have "jent_memsize r = Some (push_bit k 1)" "10 \<le> k" "k \<le> 29"
    using jent_memsize_bits [OF le] by (simp_all add: k_def)
  moreover from \<open>k \<le> 29\<close> have "unat (push_bit k (1 :: u32)) = 2 ^ k"
    by (intro unat_push_bit_1) simp
  moreover have "push_bit k (1 :: u32) - 1 = mask k"
    by (simp add: mask_eq_exp_minus_1 push_bit_eq_mult)
  ultimately show ?thesis using le f(2) e by blast
qed

text \<open>
  The hash loop runs a power of two between 1 and 128 rounds, whatever the flags and the
  increment: the field is capped at 7, and updating it leaves all other bits of the flags, the
  memory size among them, as they were.
\<close>

theorem update_hashloop_range:
  fixes flags inc
  defines "r \<equiv> jent_update_hashloop flags inc"
  shows "JENT_FLAGS_TO_HASHLOOP r = min 7 (JENT_FLAGS_TO_HASHLOOP flags + inc) \<and>
    take_bit 24 r = take_bit 24 flags \<and>
    JENT_FLAGS_TO_MAX_MEMSIZE r = JENT_FLAGS_TO_MAX_MEMSIZE flags \<and>
    (\<exists>k \<le> 7. unat (jent_hashloop_cnt r) = 2 ^ k)"
  by (simp add: r_def update_hashloop_field hashloop_cnt_power)

text \<open>
  The size computed from flags that no update has normalised can be undefined: for a memory
  size field of 23 or more \<open>jent_memsize\<close> shifts by 32 or more. The allocation with the memory
  access disabled keeps such flags, and the status report computes the size from them.
\<close>

theorem memsize_undefined:
  "jent_memsize flags = None \<longleftrightarrow> 23 \<le> JENT_FLAGS_TO_MAX_MEMSIZE flags"
proof -
  let ?v = "JENT_FLAGS_TO_MAX_MEMSIZE flags"
  have "unat ?v \<le> 31"
  proof -
    have "unat ?v = unat flags div 2 ^ 27"
      by (simp add: JENT_FLAGS_TO_MAX_MEMSIZE_def drop_bit_eq_div unat_div)
    moreover have "unat flags < 2 ^ 32" using unsigned_less [of flags] by simp
    ultimately show ?thesis by simp
  qed
  then have "unat (?v + 9) = unat ?v + 9" by (simp add: unat_word_ariths)
  then show ?thesis
    by (auto simp: jent_memsize_def Let_def word_le_nat_alt)
qed

end
