(* ===== verification/Lag.thy ===== *)
theory Lag
  imports Jent_State
begin

unbundle bit_operations_syntax

text \<open>
  The lag predictor of \<open>jitterentropy-health.c\<close>: eight predictors guess the next time delta to be
  the one seen \<open>i + 1\<close> deltas before; a scoreboard counts their hits, the best one makes the
  prediction, and too many correct predictions are a health failure. The second and third
  derivative of the stuck test read the history this test keeps. \<open>lag_holds\<close> relates the ring buffer
  and the scoreboard to the list of deltas of the window.
\<close>

section \<open>Operations\<close>

definition jent_delta :: "u64 \<Rightarrow> u64 \<Rightarrow> u64" where
  "jent_delta prev next = next - prev"

definition jent_lag_global_cutoff_lookup :: "u32 list" where
  "jent_lag_global_cutoff_lookup =
     [66443, 93504, 104761, 110875, 114707, 117330, 119237, 120686, 121823,
      122739, 123493, 124124, 124660, 125120, 125520, 125871, 126181, 126457,
      126704, 126926]"

definition jent_lag_local_cutoff_lookup :: "u32 list" where
  "jent_lag_local_cutoff_lookup =
     [38, 75, 111, 146, 181, 215, 250, 284, 318, 351,
      385, 419, 452, 485, 518, 551, 584, 617, 650, 683]"

text \<open>The tables are read at \<open>osr - 1\<close>; every caller has \<open>osr \<ge> 3\<close>.\<close>

definition jent_lag_init :: "rand_data \<Rightarrow> u32 \<Rightarrow> rand_data" where
  "jent_lag_init ec osr =
     (let ec = (if osr > of_nat (length jent_lag_global_cutoff_lookup)
                then ec\<lparr>ec_lag_global_cutoff :=
                         jent_lag_global_cutoff_lookup !
                           (length jent_lag_global_cutoff_lookup - 1)\<rparr>
                else ec\<lparr>ec_lag_global_cutoff := jent_lag_global_cutoff_lookup ! unat (osr - 1)\<rparr>)
      in if osr > of_nat (length jent_lag_local_cutoff_lookup)
         then ec\<lparr>ec_lag_local_cutoff :=
                  jent_lag_local_cutoff_lookup ! (length jent_lag_local_cutoff_lookup - 1)\<rparr>
         else ec\<lparr>ec_lag_local_cutoff := jent_lag_local_cutoff_lookup ! unat (osr - 1)\<rparr>)"

definition jent_lag_reset :: "rand_data \<Rightarrow> rand_data" where
  "jent_lag_reset ec =
     (let ec = ec\<lparr>ec_lag_prediction_success_count := 0, ec_lag_prediction_success_run := 0,
                  ec_lag_best_predictor := 0, ec_lag_observations := 0\<rparr>
      in foldl (\<lambda>ec i. ec\<lparr>ec_lag_scoreboard := (ec_lag_scoreboard ec)[i := 0],
                         ec_lag_delta_history := (ec_lag_delta_history ec)[i := 0]\<rparr>)
           ec [0..<8])"

definition JENT_LAG_HISTORY :: "rand_data \<Rightarrow> u32 \<Rightarrow> u64" where
  "JENT_LAG_HISTORY ec loc =
     ec_lag_delta_history ec ! unat ((ec_lag_observations ec - loc - 1) AND JENT_LAG_MASK)"

text \<open>One round of the loop of \<open>jent_lag_insert\<close> that scores the predictor \<open>i\<close>.\<close>

definition lag_score_predictor :: "u64 \<Rightarrow> rand_data \<Rightarrow> nat \<Rightarrow> rand_data" where
  "lag_score_predictor current_delta ec i =
     (if JENT_LAG_HISTORY ec (of_nat i) = current_delta
      then let ec = ec\<lparr>ec_lag_scoreboard :=
                        (ec_lag_scoreboard ec)[i := ec_lag_scoreboard ec ! i + 1]\<rparr>
           in if ec_lag_scoreboard ec ! i >
                 ec_lag_scoreboard ec ! unat (ec_lag_best_predictor ec)
              then ec\<lparr>ec_lag_best_predictor := of_nat i\<rparr>
              else ec
      else ec)"

definition jent_lag_insert :: "rand_data \<Rightarrow> u64 \<Rightarrow> rand_data" where
  "jent_lag_insert ec current_delta =
     (if ec_lag_observations ec < JENT_LAG_HISTORY_SIZE
      then ec\<lparr>ec_lag_delta_history :=
                (ec_lag_delta_history ec)[unat (ec_lag_observations ec) := current_delta],
              ec_lag_observations := ec_lag_observations ec + 1\<rparr>
      else
        let prediction = JENT_LAG_HISTORY ec (ec_lag_best_predictor ec);
            ec = (if prediction = current_delta
                  then let ec = ec\<lparr>ec_lag_prediction_success_count :=
                                    ec_lag_prediction_success_count ec + 1,
                                  ec_lag_prediction_success_run :=
                                    ec_lag_prediction_success_run ec + 1\<rparr>
                       in if ec_lag_prediction_success_run ec \<ge> ec_lag_local_cutoff ec \<or>
                             ec_lag_prediction_success_count ec \<ge> ec_lag_global_cutoff ec
                          then ec\<lparr>ec_health_failure := ec_health_failure ec OR JENT_LAG_FAILURE\<rparr>
                          else ec
                  else ec\<lparr>ec_lag_prediction_success_run := 0\<rparr>);
            ec = foldl (lag_score_predictor current_delta) ec [0..<8];
            ec = ec\<lparr>ec_lag_delta_history :=
                      (ec_lag_delta_history ec)
                        [unat (ec_lag_observations ec AND JENT_LAG_MASK) := current_delta],
                    ec_lag_observations := ec_lag_observations ec + 1\<rparr>
        in if ec_lag_observations ec \<ge> JENT_LAG_WINDOW_SIZE then jent_lag_reset ec else ec)"

definition jent_delta2 :: "rand_data \<Rightarrow> u64 \<Rightarrow> u64" where
  "jent_delta2 ec current_delta = jent_delta (JENT_LAG_HISTORY ec 0) current_delta"

definition jent_delta3 :: "rand_data \<Rightarrow> u64 \<Rightarrow> u64" where
  "jent_delta3 ec delta2 =
     jent_delta (jent_delta (JENT_LAG_HISTORY ec 1) (JENT_LAG_HISTORY ec 0)) delta2"

definition jent_lag_duplicate :: "rand_data \<Rightarrow> rand_data \<Rightarrow> rand_data" where
  "jent_lag_duplicate new_ec old_ec =
     (let new_ec = new_ec
            \<lparr>ec_lag_prediction_success_run := ec_lag_prediction_success_run old_ec,
             ec_lag_prediction_success_count := ec_lag_prediction_success_count old_ec,
             ec_lag_best_predictor := ec_lag_best_predictor old_ec,
             ec_lag_observations := ec_lag_observations old_ec\<rparr>
      in foldl (\<lambda>ec i. ec\<lparr>ec_lag_scoreboard :=
                           (ec_lag_scoreboard ec)[i := ec_lag_scoreboard old_ec ! i],
                         ec_lag_delta_history :=
                           (ec_lag_delta_history ec)[i := ec_lag_delta_history old_ec ! i]\<rparr>)
           new_ec [0..<8])"

section \<open>The predictors and their hits\<close>

text \<open>
  How often the predictor \<open>i\<close> was right in the window \<open>xs\<close>: the positions from 8 on whose delta is
  the one \<open>i + 1\<close> positions before.
\<close>

definition lag_hits :: "nat \<Rightarrow> u64 list \<Rightarrow> nat" where
  "lag_hits i xs = length (filter (\<lambda>j. xs ! j = xs ! (j - 1 - i)) [8..<length xs])"

lemma lag_hits_short [simp]: "length xs \<le> 8 \<Longrightarrow> lag_hits i xs = 0"
  by (simp add: lag_hits_def)

lemma lag_hits_snoc:
  assumes "8 \<le> length xs"
  shows "lag_hits i (xs @ [x]) = lag_hits i xs + of_bool (xs ! (length xs - 1 - i) = x)"
proof -
  have "filter (\<lambda>j. (xs @ [x]) ! j = (xs @ [x]) ! (j - 1 - i)) [8..<length xs] =
      filter (\<lambda>j. xs ! j = xs ! (j - 1 - i)) [8..<length xs]"
    by (rule filter_cong) (auto simp: nth_append)
  moreover have "length xs - 1 - i < length xs" using assms by linarith
  ultimately show ?thesis
    using assms by (auto simp: lag_hits_def nth_append)
qed

lemma lag_hits_bound: "lag_hits i xs \<le> length xs"
  unfolding lag_hits_def by (rule order.trans [OF length_filter_le]) simp

text \<open>The state of the test after the deltas \<open>xs\<close> of the current window.\<close>

definition lag_holds :: "rand_data \<Rightarrow> u64 list \<Rightarrow> bool" where
  "lag_holds ec xs \<longleftrightarrow>
     length (ec_lag_delta_history ec) = 8 \<and> length (ec_lag_scoreboard ec) = 8 \<and>
     unat (ec_lag_observations ec) = length xs \<and> length xs < 131072 \<and>
     (\<forall>j < length xs. length xs \<le> j + 8 \<longrightarrow> ec_lag_delta_history ec ! (j mod 8) = xs ! j) \<and>
     (\<forall>j < 8. length xs \<le> j \<longrightarrow> ec_lag_delta_history ec ! j = 0) \<and>
     (\<forall>i < 8. unat (ec_lag_scoreboard ec ! i) = lag_hits i xs) \<and>
     unat (ec_lag_best_predictor ec) < 8 \<and>
     (\<forall>i < 8. lag_hits i xs \<le> lag_hits (unat (ec_lag_best_predictor ec)) xs) \<and>
     unat (ec_lag_prediction_success_count ec) \<le> length xs \<and>
     unat (ec_lag_prediction_success_run ec) \<le> unat (ec_lag_prediction_success_count ec)"

lemma unat_and_7: "unat (w AND 7) = unat w mod 8" for w :: u32
proof -
  have "w AND 7 = take_bit 3 w"
    by (simp add: take_bit_eq_mask mask_numeral)
  then show ?thesis by (simp add: unsigned_take_bit_eq take_bit_nat_def)
qed

text \<open>The delta \<open>i + 1\<close> insertions ago, zero when the window does not reach back that far.\<close>

definition lag_recent :: "u64 list \<Rightarrow> nat \<Rightarrow> u64" where
  "lag_recent xs i = (if i < length xs then xs ! (length xs - 1 - i) else 0)"

lemma lag_history_index:
  assumes "unat obs = n" "i < 8"
  shows "unat ((obs - of_nat i - 1 :: u32) AND 7) =
     (if i < n then (n - 1 - i) mod 8 else 7 + n - i)"
proof -
  have i: "unat (of_nat i + 1 :: u32) = i + 1"
    using assms(2) by (subst unat_Suc_below [of _ 8]) (simp_all add: unat_of_nat_small)
  have "unat (obs - of_nat i - 1 :: u32) = (if i < n then n - (i + 1) else n + 2 ^ 32 - (i + 1))"
    unfolding diff_diff_eq using assms i unsigned_less [of obs] by (subst unat_sub_if') (simp add: word_le_nat_alt, linarith?)
  moreover have "(4294967295 + n - i) mod 8 = 7 + n - i" if "\<not> i < n"
  proof -
    have "4294967295 + n - i = (7 + n - i) + 8 * 536870911" using assms(2) by simp
    moreover have "7 + n - i < 8" using that by simp
    ultimately show ?thesis by (metis mod_less mod_mult_self2)
  qed
  ultimately show ?thesis by (simp add: unat_and_7)
qed

lemma JENT_LAG_HISTORY_holds:
  assumes "lag_holds ec xs" "i < 8"
  shows "JENT_LAG_HISTORY ec (of_nat i) = lag_recent xs i"
proof (cases "i < length xs")
  case True
  then have "length xs - 1 - i < length xs" "length xs \<le> length xs - 1 - i + 8"
    using assms(2) by linarith+
  with assms True show ?thesis
    by (simp add: lag_holds_def JENT_LAG_HISTORY_def lag_history_index lag_recent_def)
next
  case False
  then have "7 + length xs - i < 8" "length xs \<le> 7 + length xs - i" using assms(2) by linarith+
  with assms False show ?thesis
    by (simp add: lag_holds_def JENT_LAG_HISTORY_def lag_history_index lag_recent_def)
qed

text \<open>After one score is incremented, the updated best predictor is a maximum again.\<close>

lemma best_after_increment:
  assumes "length sb = 8" "unat (bp :: u32) < 8" "\<forall>i < 8. unat (sb ! i) \<le> unat (sb ! unat bp)"
    and "n < 8" "unat (sb ! n + 1 :: u32) = Suc (unat (sb ! n))" "unat (of_nat n :: u32) = n"
  shows "\<forall>i < 8. unat (sb[n := sb ! n + 1] ! i) \<le>
     unat (sb[n := sb ! n + 1] !
       unat (if sb[n := sb ! n + 1] ! n > sb[n := sb ! n + 1] ! unat bp then of_nat n else bp))"
proof (cases "unat bp = n")
  case True
  then show ?thesis using assms by (auto simp: nth_list_update word_less_nat_alt le_SucI)
next
  case False
  have "\<forall>i < 8. unat (sb ! i) \<le> unat (sb ! unat bp)" by (rule assms(3))
  with False assms show ?thesis
    by (auto simp: nth_list_update word_less_nat_alt not_less intro: le_trans [of _ "unat (sb ! unat bp)"])
qed

text \<open>The scoring loop touches the scoreboard and the best predictor only.\<close>

lemma lag_score_loop:
  assumes "length (ec_lag_scoreboard ec) = 8" "unat (ec_lag_best_predictor ec) < 8"
    and "\<forall>i < 8. unat (ec_lag_scoreboard ec ! i) \<le>
      unat (ec_lag_scoreboard ec ! unat (ec_lag_best_predictor ec))"
    and "\<forall>i < 8. unat (ec_lag_scoreboard ec ! i) < 131072" and "n \<le> 8"
  shows "\<exists>sb bp. foldl (lag_score_predictor d) ec [0..<n] =
      ec\<lparr>ec_lag_scoreboard := sb, ec_lag_best_predictor := bp\<rparr> \<and>
      length sb = 8 \<and> unat bp < 8 \<and> (\<forall>i < 8. unat (sb ! i) \<le> unat (sb ! unat bp)) \<and>
      (\<forall>i < 8. unat (sb ! i) = unat (ec_lag_scoreboard ec ! i) +
         of_bool (i < n \<and> JENT_LAG_HISTORY ec (of_nat i) = d))"
  using assms(5)
proof (induction n)
  case 0
  show ?case
    using assms(1-3)
    by (intro exI [of _ "ec_lag_scoreboard ec"] exI [of _ "ec_lag_best_predictor ec"]) simp
next
  case (Suc n)
  then obtain sb bp where e: "foldl (lag_score_predictor d) ec [0..<n] =
      ec\<lparr>ec_lag_scoreboard := sb, ec_lag_best_predictor := bp\<rparr>"
    and l: "length sb = 8" "unat bp < 8" "\<forall>i < 8. unat (sb ! i) \<le> unat (sb ! unat bp)"
    and sb: "\<forall>i < 8. unat (sb ! i) = unat (ec_lag_scoreboard ec ! i) +
         of_bool (i < n \<and> JENT_LAG_HISTORY ec (of_nat i) = d)"
    by auto
  have h: "JENT_LAG_HISTORY (ec\<lparr>ec_lag_scoreboard := sb, ec_lag_best_predictor := bp\<rparr>) k =
      JENT_LAG_HISTORY ec k" for k
    by (simp add: JENT_LAG_HISTORY_def)
  have step: "foldl (lag_score_predictor d) ec [0..<Suc n] =
      lag_score_predictor d (ec\<lparr>ec_lag_scoreboard := sb, ec_lag_best_predictor := bp\<rparr>) n"
    using e by simp
  show ?case
  proof (cases "JENT_LAG_HISTORY ec (of_nat n) = d")
    case False
    then have "lag_score_predictor d (ec\<lparr>ec_lag_scoreboard := sb, ec_lag_best_predictor := bp\<rparr>) n =
        ec\<lparr>ec_lag_scoreboard := sb, ec_lag_best_predictor := bp\<rparr>"
      by (simp add: lag_score_predictor_def h)
    moreover have "\<forall>i < 8. unat (sb ! i) = unat (ec_lag_scoreboard ec ! i) +
         of_bool (i < Suc n \<and> JENT_LAG_HISTORY ec (of_nat i) = d)"
      using sb False by (auto simp: less_Suc_eq)
    ultimately show ?thesis
      unfolding step using l by (intro exI [of _ sb] exI [of _ bp]) blast
  next
    case True
    let ?sb = "sb[n := sb ! n + 1]"
    let ?bp = "if ?sb ! n > ?sb ! unat bp then of_nat n else bp"
    have n: "n < 8" using Suc.prems by simp
    then have "unat (sb ! n) = unat (ec_lag_scoreboard ec ! n)" using sb by simp
    then have inc: "unat (sb ! n + 1) = Suc (unat (sb ! n))"
      using assms(4) n by (intro unat_Suc_below [of _ 131072]) simp_all
    have un: "unat (of_nat n :: u32) = n" using n by (simp add: unat_of_nat_small)
    have "lag_score_predictor d (ec\<lparr>ec_lag_scoreboard := sb, ec_lag_best_predictor := bp\<rparr>) n =
        ec\<lparr>ec_lag_scoreboard := ?sb, ec_lag_best_predictor := ?bp\<rparr>"
      using True by (simp add: lag_score_predictor_def h Let_def)
    moreover have "unat ?bp < 8" using l(2) n un by simp
    moreover have "\<forall>i < 8. unat (?sb ! i) \<le> unat (?sb ! unat ?bp)"
      by (rule best_after_increment [OF l n inc un])
    moreover have "\<forall>i < 8. unat (?sb ! i) = unat (ec_lag_scoreboard ec ! i) +
         of_bool (i < Suc n \<and> JENT_LAG_HISTORY ec (of_nat i) = d)"
      using l(1) sb n inc True by (simp add: nth_list_update less_Suc_eq)
    moreover have "length ?sb = 8" using l(1) by simp
    ultimately show ?thesis
      unfolding step by (intro exI [of _ ?sb] exI [of _ ?bp]) blast
  qed
qed

text \<open>The reset empties the window.\<close>

lemma lag_reset_eq:
  assumes "length (ec_lag_delta_history ec) = 8" "length (ec_lag_scoreboard ec) = 8"
  shows "jent_lag_reset ec =
     ec\<lparr>ec_lag_prediction_success_count := 0, ec_lag_prediction_success_run := 0,
        ec_lag_best_predictor := 0, ec_lag_observations := 0,
        ec_lag_scoreboard := replicate 8 0, ec_lag_delta_history := replicate 8 0\<rparr>"
proof -
  have loop: "foldl (\<lambda>ec i. ec\<lparr>ec_lag_scoreboard := (ec_lag_scoreboard ec)[i := 0],
        ec_lag_delta_history := (ec_lag_delta_history ec)[i := 0]\<rparr>) e [0..<n] =
      e\<lparr>ec_lag_scoreboard := foldl (\<lambda>h i. h[i := 0]) (ec_lag_scoreboard e) [0..<n],
        ec_lag_delta_history := foldl (\<lambda>h i. h[i := 0]) (ec_lag_delta_history e) [0..<n]\<rparr>" for e n
    by (induction n) simp_all
  have fill: "foldl (\<lambda>h i. h[i := 0]) h [0..<8] = replicate 8 0" if "length h = 8" for h :: "'a::zero list"
    using that foldl_fill [of 8 h "\<lambda>_. 0"] by (simp add: map_replicate_const)
  show ?thesis
    unfolding jent_lag_reset_def Let_def loop using assms by (simp add: fill)
qed

lemma lag_holds_reset:
  assumes "length (ec_lag_delta_history ec) = 8" "length (ec_lag_scoreboard ec) = 8"
  shows "lag_holds (jent_lag_reset ec) []"
  using assms by (simp add: lag_reset_eq lag_holds_def)

lemma lag_holds_empty:
  assumes "ec_lag_delta_history ec = replicate 8 0" "ec_lag_scoreboard ec = replicate 8 0"
    "ec_lag_best_predictor ec = 0" "ec_lag_observations ec = 0"
    "ec_lag_prediction_success_count ec = 0" "ec_lag_prediction_success_run ec = 0"
  shows "lag_holds ec []"
  using assms by (simp add: lag_holds_def)

section \<open>One insertion\<close>

definition lag_alarm :: "rand_data \<Rightarrow> u64 list \<Rightarrow> u64 \<Rightarrow> bool" where
  "lag_alarm ec xs d \<longleftrightarrow>
     8 \<le> length xs \<and> xs ! (length xs - 1 - unat (ec_lag_best_predictor ec)) = d \<and>
     (ec_lag_prediction_success_run ec + 1 \<ge> ec_lag_local_cutoff ec \<or>
      ec_lag_prediction_success_count ec + 1 \<ge> ec_lag_global_cutoff ec)"

text \<open>The buffer and the positions it holds, when a value is stored at the next position.\<close>

lemma ring_snoc:
  assumes "length hist = 8"
    and "\<forall>j < length xs. length xs \<le> j + 8 \<longrightarrow> hist ! (j mod 8) = xs ! j"
  shows "\<forall>j < length (xs @ [d]). length (xs @ [d]) \<le> j + 8 \<longrightarrow>
     hist[length xs mod 8 := d] ! (j mod 8) = (xs @ [d]) ! j"
proof (intro allI impI)
  fix j assume j: "j < length (xs @ [d])" "length (xs @ [d]) \<le> j + 8"
  show "hist[length xs mod 8 := d] ! (j mod 8) = (xs @ [d]) ! j"
  proof (cases "j = length xs")
    case True
    with assms(1) show ?thesis by simp
  next
    case False
    with j have l: "j < length xs" "length xs < j + 8" by auto
    have "j mod 8 \<noteq> length xs mod 8"
    proof
      assume "j mod 8 = length xs mod 8"
      then have "8 dvd length xs - j" using l(1) by (metis less_imp_le mod_eq_dvd_iff_nat)
      with l show False by (auto dest!: dvd_imp_le)
    qed
    with assms l show ?thesis by (simp add: nth_append)
  qed
qed

lemma lag_holds_window:
  assumes "lag_holds ec xs" "8 \<le> length xs"
  obtains sb bp cnt run where
    "jent_lag_insert ec d =
       (let ec = ec\<lparr>ec_health_failure := ec_health_failure ec OR
                     (if lag_alarm ec xs d then JENT_LAG_FAILURE else 0),
                   ec_lag_prediction_success_count := cnt, ec_lag_prediction_success_run := run,
                   ec_lag_scoreboard := sb, ec_lag_best_predictor := bp,
                   ec_lag_delta_history := (ec_lag_delta_history ec)[length xs mod 8 := d],
                   ec_lag_observations := ec_lag_observations ec + 1\<rparr>
        in if ec_lag_observations ec \<ge> JENT_LAG_WINDOW_SIZE then jent_lag_reset ec else ec)"
    "length sb = 8" "unat bp < 8" "\<forall>i < 8. unat (sb ! i) \<le> unat (sb ! unat bp)"
    "\<forall>i < 8. unat (sb ! i) = lag_hits i (xs @ [d])"
    "unat cnt \<le> length xs + 1" "unat run \<le> unat cnt"
proof -
  let ?best = "unat (ec_lag_best_predictor ec)"
  let ?cnt = "if xs ! (length xs - 1 - ?best) = d then ec_lag_prediction_success_count ec + 1
              else ec_lag_prediction_success_count ec"
  let ?run = "if xs ! (length xs - 1 - ?best) = d then ec_lag_prediction_success_run ec + 1 else 0"
  let ?hf = "ec_health_failure ec OR (if lag_alarm ec xs d then JENT_LAG_FAILURE else 0)"
  let ?e = "ec\<lparr>ec_health_failure := ?hf, ec_lag_prediction_success_count := ?cnt,
              ec_lag_prediction_success_run := ?run\<rparr>"
  note h = assms(1) [unfolded lag_holds_def]
  have obs: "\<not> ec_lag_observations ec < JENT_LAG_HISTORY_SIZE"
    using h assms(2) by (simp add: word_less_nat_alt)
  have pred: "JENT_LAG_HISTORY ec (ec_lag_best_predictor ec) = xs ! (length xs - 1 - ?best)"
    using JENT_LAG_HISTORY_holds [OF assms(1), of ?best] h assms(2) by (simp add: lag_recent_def)
  have cnt: "unat (ec_lag_prediction_success_count ec + 1) =
      Suc (unat (ec_lag_prediction_success_count ec))"
    "unat (ec_lag_prediction_success_run ec + 1) = Suc (unat (ec_lag_prediction_success_run ec))"
    using h by (intro unat_Suc_below [of _ 131072]; simp)+
  have bnd: "\<forall>i < 8. unat (ec_lag_scoreboard ?e ! i) < 131072"
    using h lag_hits_bound [of _ xs] by (auto intro: le_less_trans)
  obtain sb bp where s: "foldl (lag_score_predictor d) ?e [0..<8] =
      ?e\<lparr>ec_lag_scoreboard := sb, ec_lag_best_predictor := bp\<rparr>"
    "length sb = 8" "unat bp < 8" "\<forall>i < 8. unat (sb ! i) \<le> unat (sb ! unat bp)"
    "\<forall>i < 8. unat (sb ! i) = unat (ec_lag_scoreboard ?e ! i) +
         of_bool (i < 8 \<and> JENT_LAG_HISTORY ?e (of_nat i) = d)"
    using lag_score_loop [of ?e 8 d, OF _ _ _ bnd] h by auto
  have "JENT_LAG_HISTORY ?e k = JENT_LAG_HISTORY ec k" for k
    by (simp add: JENT_LAG_HISTORY_def)
  then have hits: "\<forall>i < 8. unat (sb ! i) = lag_hits i (xs @ [d])"
    using s(5) h assms(2)
    by (simp add: JENT_LAG_HISTORY_holds [OF assms(1)] lag_hits_snoc lag_recent_def)
  have "jent_lag_insert ec d =
     (let ec = ?e\<lparr>ec_lag_scoreboard := sb, ec_lag_best_predictor := bp,
                  ec_lag_delta_history := (ec_lag_delta_history ec)[length xs mod 8 := d],
                  ec_lag_observations := ec_lag_observations ec + 1\<rparr>
      in if ec_lag_observations ec \<ge> JENT_LAG_WINDOW_SIZE then jent_lag_reset ec else ec)"
  proof -
    have "(if xs ! (length xs - 1 - ?best) = d
           then let ec = ec\<lparr>ec_lag_prediction_success_count := ec_lag_prediction_success_count ec + 1,
                           ec_lag_prediction_success_run := ec_lag_prediction_success_run ec + 1\<rparr>
                in if ec_lag_prediction_success_run ec \<ge> ec_lag_local_cutoff ec \<or>
                      ec_lag_prediction_success_count ec \<ge> ec_lag_global_cutoff ec
                   then ec\<lparr>ec_health_failure := ec_health_failure ec OR JENT_LAG_FAILURE\<rparr>
                   else ec
           else ec\<lparr>ec_lag_prediction_success_run := 0\<rparr>) = ?e"
      using assms(2) by (simp add: Let_def lag_alarm_def)
    then show ?thesis
      using obs s(1) h by (simp add: jent_lag_insert_def pred Let_def unat_and_7)
  qed
  note eq = this
  have "unat ?cnt \<le> length xs + 1" "unat ?run \<le> unat ?cnt"
    using cnt h by simp_all
  with eq s(2-4) hits show ?thesis by (rule that)
qed


section \<open>The window under insertion\<close>

lemma lag_insert_short:
  assumes "lag_holds ec xs" "length xs < 8"
  shows "jent_lag_insert ec d =
     ec\<lparr>ec_lag_delta_history := (ec_lag_delta_history ec)[length xs := d],
        ec_lag_observations := ec_lag_observations ec + 1\<rparr>"
  using assms by (simp add: jent_lag_insert_def lag_holds_def word_less_nat_alt)

lemma lag_insert_holds_short:
  assumes "lag_holds ec xs" "length xs < 8"
  shows "lag_holds (jent_lag_insert ec d) (xs @ [d])"
proof -
  note h = assms(1) [unfolded lag_holds_def]
  have "unat (ec_lag_observations ec + 1) = Suc (length xs)"
    using h assms(2) by (subst unat_Suc_below [of _ 8]) simp_all
  then show ?thesis
    unfolding lag_insert_short [OF assms] lag_holds_def
    using h assms(2) ring_snoc [of "ec_lag_delta_history ec" xs d]
    by simp
qed

lemma lag_insert_holds:
  assumes "lag_holds ec xs"
  shows "lag_holds (jent_lag_insert ec d) (if length xs + 1 = 131072 then [] else xs @ [d])"
proof (cases "length xs < 8")
  case True
  with lag_insert_holds_short [OF assms True] show ?thesis by simp
next
  case False
  note h = assms [unfolded lag_holds_def]
  from False have "8 \<le> length xs" by simp
  then obtain sb bp cnt run where e: "jent_lag_insert ec d =
       (let ec = ec\<lparr>ec_health_failure := ec_health_failure ec OR
                     (if lag_alarm ec xs d then JENT_LAG_FAILURE else 0),
                   ec_lag_prediction_success_count := cnt, ec_lag_prediction_success_run := run,
                   ec_lag_scoreboard := sb, ec_lag_best_predictor := bp,
                   ec_lag_delta_history := (ec_lag_delta_history ec)[length xs mod 8 := d],
                   ec_lag_observations := ec_lag_observations ec + 1\<rparr>
        in if ec_lag_observations ec \<ge> JENT_LAG_WINDOW_SIZE then jent_lag_reset ec else ec)"
    and sb: "length sb = 8" "unat bp < 8" "\<forall>i < 8. unat (sb ! i) \<le> unat (sb ! unat bp)"
      "\<forall>i < 8. unat (sb ! i) = lag_hits i (xs @ [d])"
    and c: "unat cnt \<le> length xs + 1" "unat run \<le> unat cnt"
    by (rule lag_holds_window [OF assms, of d])
  have obs: "unat (ec_lag_observations ec + 1) = Suc (length xs)"
    using h by (subst unat_Suc_below [of _ 131072]) simp_all
  show ?thesis
  proof (cases "length xs + 1 = 131072")
    case True
    then show ?thesis
      unfolding e using h obs sb(1)
      by (simp add: Let_def word_le_nat_alt lag_holds_reset)
  next
    case False
    with h have l: "Suc (length xs) < 131072" by simp
    have "\<forall>i < 8. lag_hits i (xs @ [d]) \<le> lag_hits (unat bp) (xs @ [d])"
      using sb by simp
    with l show ?thesis
      unfolding e using h obs sb(1,2,4) c ring_snoc [of "ec_lag_delta_history ec" xs d]
      by (simp add: Let_def word_le_nat_alt lag_holds_def)
  qed
qed

section \<open>What the test leaves alone\<close>

text \<open>The collector with the fields of the lag predictor blanked: two collectors that agree on it differ
  in these fields only.\<close>

definition lag_erase :: "rand_data \<Rightarrow> rand_data" where
  "lag_erase ec = ec
     \<lparr>ec_lag_prediction_success_count := 0,
      ec_lag_prediction_success_run := 0,
      ec_lag_best_predictor := 0,
      ec_lag_observations := 0,
      ec_lag_delta_history := [],
      ec_lag_scoreboard := [],
      ec_health_failure := 0\<rparr>"

lemma lag_erase_update [simp]:
  "lag_erase (ec\<lparr>ec_lag_prediction_success_count := x0\<rparr>) = lag_erase ec"
  "lag_erase (ec\<lparr>ec_lag_prediction_success_run := x1\<rparr>) = lag_erase ec"
  "lag_erase (ec\<lparr>ec_lag_best_predictor := x2\<rparr>) = lag_erase ec"
  "lag_erase (ec\<lparr>ec_lag_observations := x3\<rparr>) = lag_erase ec"
  "lag_erase (ec\<lparr>ec_lag_delta_history := x4\<rparr>) = lag_erase ec"
  "lag_erase (ec\<lparr>ec_lag_scoreboard := x5\<rparr>) = lag_erase ec"
  "lag_erase (ec\<lparr>ec_health_failure := x6\<rparr>) = lag_erase ec"
  by (simp_all add: lag_erase_def)

lemma lag_erase_frame:
  assumes "lag_erase ec' = lag_erase ec"
  shows
    "ec_hash_state ec' = ec_hash_state ec"
    "ec_prev_time ec' = ec_prev_time ec"
    "ec_flags ec' = ec_flags ec"
    "ec_osr ec' = ec_osr ec"
    "ec_uuid ec' = ec_uuid ec"
    "ec_reinit_count ec' = ec_reinit_count ec"
    "ec_read_invocations ec' = ec_read_invocations ec"
    "ec_bytes_output ec' = ec_bytes_output ec"
    "ec_startup_state ec' = ec_startup_state ec"
    "ec_mem ec' = ec_mem ec"
    "ec_memmask ec' = ec_memmask ec"
    "ec_memlocation ec' = ec_memlocation ec"
    "ec_memaccessloops ec' = ec_memaccessloops ec"
    "ec_hashloopcnt ec' = ec_hashloopcnt ec"
    "ec_rct_count ec' = ec_rct_count ec"
    "ec_rct_cutoff ec' = ec_rct_cutoff ec"
    "ec_rct_cutoff_permanent ec' = ec_rct_cutoff_permanent ec"
    "ec_apt_cutoff ec' = ec_apt_cutoff ec"
    "ec_apt_cutoff_permanent ec' = ec_apt_cutoff_permanent ec"
    "ec_apt_observations ec' = ec_apt_observations ec"
    "ec_apt_count ec' = ec_apt_count ec"
    "ec_apt_base ec' = ec_apt_base ec"
    "ec_rct_mem_ctr ec' = ec_rct_mem_ctr ec"
    "ec_rct_mem_nosr ec' = ec_rct_mem_nosr ec"
    "ec_rct_mem_count ec' = ec_rct_mem_count ec"
    "ec_rct_mem_cutoff ec' = ec_rct_mem_cutoff ec"
    "ec_rct_mem_cutoff_permanent ec' = ec_rct_mem_cutoff_permanent ec"
    "ec_apt_base_set ec' = ec_apt_base_set ec"
    "ec_is_fips_enabled ec' = ec_is_fips_enabled ec"
    "ec_enable_notime ec' = ec_enable_notime ec"
    "ec_max_mem_set ec' = ec_max_mem_set ec"
    "ec_in_recovery ec' = ec_in_recovery ec"
    "ec_notime_interrupt ec' = ec_notime_interrupt ec"
    "ec_notime_timer ec' = ec_notime_timer ec"
    "ec_notime_prev_timer ec' = ec_notime_prev_timer ec"
    "ec_notime_thread_ctx ec' = ec_notime_thread_ctx ec"
    "ec_common_timer_gcd ec' = ec_common_timer_gcd ec"
    "ec_lag_global_cutoff ec' = ec_lag_global_cutoff ec"
    "ec_lag_local_cutoff ec' = ec_lag_local_cutoff ec"
  using assms by (cases ec; cases ec'; simp add: lag_erase_def)+

lemma lag_erase_score [simp]: "lag_erase (foldl (lag_score_predictor d) ec is) = lag_erase ec"
proof (induction "is" arbitrary: ec)
  case (Cons i "is")
  have "lag_erase (lag_score_predictor d ec i) = lag_erase ec"
    by (simp add: lag_score_predictor_def Let_def)
  with Cons show ?case by simp
qed simp

lemma lag_erase_reset [simp]: "lag_erase (jent_lag_reset ec) = lag_erase ec"
proof -
  have "lag_erase (foldl (\<lambda>ec i. ec\<lparr>ec_lag_scoreboard := (ec_lag_scoreboard ec)[i := 0],
        ec_lag_delta_history := (ec_lag_delta_history ec)[i := 0]\<rparr>) e is) = lag_erase e"
    for e :: rand_data and "is" :: "nat list"
    by (induction "is" arbitrary: e) simp_all
  then show ?thesis by (simp add: jent_lag_reset_def Let_def)
qed

lemma lag_erase_insert [simp]: "lag_erase (jent_lag_insert ec d) = lag_erase ec"
  by (simp add: jent_lag_insert_def Let_def)

lemma lag_erase_duplicate [simp]: "lag_erase (jent_lag_duplicate new_ec old_ec) = lag_erase new_ec"
proof -
  have "lag_erase (foldl (\<lambda>ec i. ec\<lparr>ec_lag_scoreboard :=
                           (ec_lag_scoreboard ec)[i := ec_lag_scoreboard old_ec ! i],
                         ec_lag_delta_history :=
                           (ec_lag_delta_history ec)[i := ec_lag_delta_history old_ec ! i]\<rparr>) e is) =
      lag_erase e" for e :: rand_data and "is" :: "nat list"
    by (induction "is" arbitrary: e) simp_all
  then show ?thesis by (simp add: jent_lag_duplicate_def Let_def)
qed

lemmas lag_insert_frame [simp] = lag_erase_frame [OF lag_erase_insert]

text \<open>The failure word: only the bit of the lag predictor may be added.\<close>

lemma lag_score_failure [simp]:
  "ec_health_failure (foldl (lag_score_predictor d) ec is) = ec_health_failure ec"
proof (induction "is" arbitrary: ec)
  case (Cons i "is")
  have "ec_health_failure (lag_score_predictor d ec i) = ec_health_failure ec"
    by (simp add: lag_score_predictor_def Let_def)
  with Cons show ?case by simp
qed simp

lemma lag_reset_failure [simp]: "ec_health_failure (jent_lag_reset ec) = ec_health_failure ec"
proof -
  have "ec_health_failure (foldl (\<lambda>ec i. ec\<lparr>ec_lag_scoreboard := (ec_lag_scoreboard ec)[i := 0],
        ec_lag_delta_history := (ec_lag_delta_history ec)[i := 0]\<rparr>) e is) = ec_health_failure e"
    for e :: rand_data and "is" :: "nat list"
    by (induction "is" arbitrary: e) simp_all
  then show ?thesis by (simp add: jent_lag_reset_def Let_def)
qed

lemma lag_insert_failure:
  "ec_health_failure (jent_lag_insert ec d) \<in>
     {ec_health_failure ec, ec_health_failure ec OR JENT_LAG_FAILURE}"
  by (simp add: jent_lag_insert_def Let_def)

lemma lag_insert_alarm:
  assumes "lag_holds ec xs"
  shows "ec_health_failure (jent_lag_insert ec d) =
     ec_health_failure ec OR (if lag_alarm ec xs d then JENT_LAG_FAILURE else 0)"
proof (cases "length xs < 8")
  case True
  then show ?thesis by (simp add: lag_insert_short [OF assms] lag_alarm_def)
next
  case False
  then have "8 \<le> length xs" by simp
  then show ?thesis
    by (rule lag_holds_window [OF assms, of d]) (simp add: Let_def)
qed

section \<open>Derivatives of the time stamps\<close>

lemma jent_delta2_holds:
  "lag_holds ec xs \<Longrightarrow> jent_delta2 ec d = d - lag_recent xs 0"
  using JENT_LAG_HISTORY_holds [of ec xs 0] by (simp add: jent_delta2_def jent_delta_def)

lemma jent_delta3_holds:
  "lag_holds ec xs \<Longrightarrow>
     jent_delta3 ec d2 = d2 - (lag_recent xs 0 - lag_recent xs 1)"
  using JENT_LAG_HISTORY_holds [of ec xs 0] JENT_LAG_HISTORY_holds [of ec xs 1]
  by (simp add: jent_delta3_def jent_delta_def)

text \<open>The duplicate of a reset continues with the window of the old collector.\<close>

lemma lag_duplicate_holds:
  assumes "lag_holds old_ec xs" "length (ec_lag_delta_history new_ec) = 8"
    "length (ec_lag_scoreboard new_ec) = 8"
  shows "lag_holds (jent_lag_duplicate new_ec old_ec) xs"
proof -
  have loop: "foldl (\<lambda>ec i. ec\<lparr>ec_lag_scoreboard :=
                           (ec_lag_scoreboard ec)[i := ec_lag_scoreboard old_ec ! i],
                         ec_lag_delta_history :=
                           (ec_lag_delta_history ec)[i := ec_lag_delta_history old_ec ! i]\<rparr>) e [0..<n] =
      e\<lparr>ec_lag_scoreboard := foldl (\<lambda>h i. h[i := ec_lag_scoreboard old_ec ! i])
                              (ec_lag_scoreboard e) [0..<n],
        ec_lag_delta_history := foldl (\<lambda>h i. h[i := ec_lag_delta_history old_ec ! i])
                              (ec_lag_delta_history e) [0..<n]\<rparr>" for e :: rand_data and n
    by (induction n) simp_all
  have fill: "foldl (\<lambda>h i. h[i := g ! i]) h [0..<8] = g"
    if "length h = 8" "length g = 8" for h g :: "'a list"
    using that foldl_fill [of 8 h "\<lambda>i. g ! i"] map_nth [of g] by simp
  have "length (ec_lag_scoreboard old_ec) = 8" "length (ec_lag_delta_history old_ec) = 8"
    using assms(1) by (simp_all add: lag_holds_def)
  then show ?thesis
    unfolding jent_lag_duplicate_def Let_def loop
    using assms by (simp add: fill lag_holds_def)
qed

section \<open>Properties\<close>



end
