(* ===== verification/Apt.thy ===== *)
theory Apt
  imports Jent_State
begin

unbundle bit_operations_syntax

text \<open>
  The adaptive proportion test of \<open>jitterentropy-health.c\<close>: the first delta of a window of 512 is
  the base, and its occurrences in the window are counted against two cutoffs.
\<close>

section \<open>Operations\<close>

definition jent_apt_cutoff_lookup :: "u32 list" where
  "jent_apt_cutoff_lookup =
     [325, 422, 459, 477, 488, 494, 499, 502, 505, 507, 508, 509, 510, 511, 512]"

definition jent_apt_cutoff_permanent_lookup :: "u32 list" where
  "jent_apt_cutoff_permanent_lookup =
     [355, 447, 479, 494, 502, 507, 510, 512, 512, 512, 512, 512, 512, 512, 512]"

definition jent_apt_init :: "rand_data \<Rightarrow> rand_data" where
  "jent_apt_init ec =
     (if ec_osr ec \<ge> of_nat (length jent_apt_cutoff_lookup)
      then ec\<lparr>ec_apt_cutoff := jent_apt_cutoff_lookup ! (length jent_apt_cutoff_lookup - 1),
              ec_apt_cutoff_permanent :=
                jent_apt_cutoff_permanent_lookup ! (length jent_apt_cutoff_permanent_lookup - 1)\<rparr>
      else ec\<lparr>ec_apt_cutoff := jent_apt_cutoff_lookup ! unat (ec_osr ec - 1),
              ec_apt_cutoff_permanent :=
                jent_apt_cutoff_permanent_lookup ! unat (ec_osr ec - 1)\<rparr>)"

definition jent_apt_cutoff_lookup_ntg1 :: "u32 list" where
  "jent_apt_cutoff_lookup_ntg1 =
     [17, 71, 136, 191, 236, 272, 301, 325, 345, 361, 375, 388, 398, 407, 415]"

definition jent_apt_cutoff_permanent_lookup_ntg1 :: "u32 list" where
  "jent_apt_cutoff_permanent_lookup_ntg1 =
     [26, 92, 162, 221, 267, 303, 332, 355, 375, 390, 404, 415, 425, 433, 440]"

definition jent_apt_init_ntg1 :: "rand_data \<Rightarrow> rand_data" where
  "jent_apt_init_ntg1 ec =
     (if ec_osr ec \<ge> of_nat (length jent_apt_cutoff_lookup_ntg1)
      then ec\<lparr>ec_apt_cutoff :=
                jent_apt_cutoff_lookup_ntg1 ! (length jent_apt_cutoff_lookup_ntg1 - 1),
              ec_apt_cutoff_permanent :=
                jent_apt_cutoff_permanent_lookup_ntg1 !
                  (length jent_apt_cutoff_permanent_lookup_ntg1 - 1)\<rparr>
      else ec\<lparr>ec_apt_cutoff := jent_apt_cutoff_lookup_ntg1 ! unat (ec_osr ec - 1),
              ec_apt_cutoff_permanent :=
                jent_apt_cutoff_permanent_lookup_ntg1 ! unat (ec_osr ec - 1)\<rparr>)"

definition jent_apt_reinit :: "rand_data \<Rightarrow> u64 \<Rightarrow> u32 \<Rightarrow> u32 \<Rightarrow> rand_data" where
  "jent_apt_reinit ec current_delta apt_count apt_observations =
     (let ec = ec\<lparr>ec_apt_base := current_delta, ec_apt_base_set := True\<rparr>;
          ec = (if apt_count \<noteq> 0 then ec\<lparr>ec_apt_count := apt_count\<rparr>
                else ec\<lparr>ec_apt_count := ec_apt_cutoff ec\<rparr>)
      in ec\<lparr>ec_apt_observations := apt_observations\<rparr>)"

definition jent_apt_duplicate :: "rand_data \<Rightarrow> rand_data \<Rightarrow> rand_data" where
  "jent_apt_duplicate new_ec old_ec =
     (if ec_apt_observations old_ec \<noteq> 0
      then jent_apt_reinit new_ec (ec_apt_base old_ec) 0 (ec_apt_observations old_ec)
      else new_ec)"

definition jent_apt_reset :: "rand_data \<Rightarrow> rand_data" where
  "jent_apt_reset ec = ec\<lparr>ec_apt_base_set := False\<rparr>"

definition jent_apt_insert :: "rand_data \<Rightarrow> u64 \<Rightarrow> rand_data" where
  "jent_apt_insert ec current_delta =
     (let current_delta = current_delta AND JENT_APT_MASK
      in if \<not> ec_apt_base_set ec then jent_apt_reinit ec current_delta 1 1
         else
           let ec = (if current_delta = ec_apt_base ec
                     then let ec = ec\<lparr>ec_apt_count := ec_apt_count ec + 1\<rparr>
                          in if ec_apt_count ec \<ge> ec_apt_cutoff_permanent ec
                             then ec\<lparr>ec_health_failure :=
                                      ec_health_failure ec OR JENT_APT_FAILURE_PERMANENT\<rparr>
                             else if ec_apt_count ec = ec_apt_cutoff ec
                             then ec\<lparr>ec_health_failure :=
                                      ec_health_failure ec OR JENT_APT_FAILURE\<rparr>
                             else ec
                     else ec);
               ec = ec\<lparr>ec_apt_observations := ec_apt_observations ec + 1\<rparr>
           in if ec_apt_observations ec \<ge> JENT_APT_WINDOW_SIZE then jent_apt_reset ec else ec)"

section \<open>What the test leaves alone\<close>

text \<open>The collector with the fields of the proportion test blanked.\<close>

definition apt_erase :: "rand_data \<Rightarrow> rand_data" where
  "apt_erase ec = ec
     \<lparr>ec_apt_base := 0,
      ec_apt_base_set := False,
      ec_apt_count := 0,
      ec_apt_observations := 0,
      ec_health_failure := 0\<rparr>"

lemma apt_erase_update [simp]:
  "apt_erase (ec\<lparr>ec_apt_base := x0\<rparr>) = apt_erase ec"
  "apt_erase (ec\<lparr>ec_apt_base_set := x1\<rparr>) = apt_erase ec"
  "apt_erase (ec\<lparr>ec_apt_count := x2\<rparr>) = apt_erase ec"
  "apt_erase (ec\<lparr>ec_apt_observations := x3\<rparr>) = apt_erase ec"
  "apt_erase (ec\<lparr>ec_health_failure := x4\<rparr>) = apt_erase ec"
  by (simp_all add: apt_erase_def)

lemma apt_erase_frame:
  assumes "apt_erase ec' = apt_erase ec"
  shows
    "ec_hash_state ec' = ec_hash_state ec"
    "ec_prev_time ec' = ec_prev_time ec"
    "ec_flags ec' = ec_flags ec"
    "ec_osr ec' = ec_osr ec"
    "ec_uuid ec' = ec_uuid ec"
    "ec_reinit_count ec' = ec_reinit_count ec"
    "ec_read_invocations ec' = ec_read_invocations ec"
    "ec_bytes_output ec' = ec_bytes_output ec"
    "ec_startup_state ec' = ec_startup_state ec"
    "ec_mem ec' = ec_mem ec"
    "ec_memmask ec' = ec_memmask ec"
    "ec_memlocation ec' = ec_memlocation ec"
    "ec_memaccessloops ec' = ec_memaccessloops ec"
    "ec_hashloopcnt ec' = ec_hashloopcnt ec"
    "ec_rct_count ec' = ec_rct_count ec"
    "ec_rct_cutoff ec' = ec_rct_cutoff ec"
    "ec_rct_cutoff_permanent ec' = ec_rct_cutoff_permanent ec"
    "ec_apt_cutoff ec' = ec_apt_cutoff ec"
    "ec_apt_cutoff_permanent ec' = ec_apt_cutoff_permanent ec"
    "ec_rct_mem_ctr ec' = ec_rct_mem_ctr ec"
    "ec_rct_mem_nosr ec' = ec_rct_mem_nosr ec"
    "ec_rct_mem_count ec' = ec_rct_mem_count ec"
    "ec_rct_mem_cutoff ec' = ec_rct_mem_cutoff ec"
    "ec_rct_mem_cutoff_permanent ec' = ec_rct_mem_cutoff_permanent ec"
    "ec_is_fips_enabled ec' = ec_is_fips_enabled ec"
    "ec_enable_notime ec' = ec_enable_notime ec"
    "ec_max_mem_set ec' = ec_max_mem_set ec"
    "ec_in_recovery ec' = ec_in_recovery ec"
    "ec_notime_interrupt ec' = ec_notime_interrupt ec"
    "ec_notime_timer ec' = ec_notime_timer ec"
    "ec_notime_prev_timer ec' = ec_notime_prev_timer ec"
    "ec_notime_thread_ctx ec' = ec_notime_thread_ctx ec"
    "ec_common_timer_gcd ec' = ec_common_timer_gcd ec"
    "ec_lag_global_cutoff ec' = ec_lag_global_cutoff ec"
    "ec_lag_local_cutoff ec' = ec_lag_local_cutoff ec"
    "ec_lag_prediction_success_count ec' = ec_lag_prediction_success_count ec"
    "ec_lag_prediction_success_run ec' = ec_lag_prediction_success_run ec"
    "ec_lag_best_predictor ec' = ec_lag_best_predictor ec"
    "ec_lag_observations ec' = ec_lag_observations ec"
    "ec_lag_delta_history ec' = ec_lag_delta_history ec"
    "ec_lag_scoreboard ec' = ec_lag_scoreboard ec"
  using assms by (cases ec; cases ec'; simp add: apt_erase_def)+

lemma apt_erase_insert [simp]: "apt_erase (jent_apt_insert ec d) = apt_erase ec"
  by (simp add: jent_apt_insert_def jent_apt_reinit_def jent_apt_reset_def Let_def)

lemma apt_erase_duplicate [simp]: "apt_erase (jent_apt_duplicate new_ec old_ec) = apt_erase new_ec"
  by (simp add: jent_apt_duplicate_def jent_apt_reinit_def Let_def)

lemmas apt_insert_frame [simp] = apt_erase_frame [OF apt_erase_insert]

lemma apt_insert_failure:
  "ec_health_failure (jent_apt_insert ec d) \<in>
     {ec_health_failure ec, ec_health_failure ec OR JENT_APT_FAILURE_PERMANENT,
      ec_health_failure ec OR JENT_APT_FAILURE}"
  by (simp add: jent_apt_insert_def jent_apt_reinit_def jent_apt_reset_def Let_def)

section \<open>One window\<close>

text \<open>What the occurrence count \<open>n\<close> of the base means for the failure word.\<close>

definition apt_alarm :: "rand_data \<Rightarrow> nat \<Rightarrow> u32" where
  "apt_alarm ec n =
     (if unat (ec_apt_cutoff_permanent ec) \<le> n then JENT_APT_FAILURE_PERMANENT else 0) OR
     (if unat (ec_apt_cutoff ec) \<le> n \<and> ec_apt_cutoff ec < ec_apt_cutoff_permanent ec
      then JENT_APT_FAILURE else 0)"

text \<open>The state after the base \<open>x\<close> and the deltas \<open>xs\<close> of the current window.\<close>

definition apt_holds :: "rand_data \<Rightarrow> u32 \<Rightarrow> u64 \<Rightarrow> u64 list \<Rightarrow> bool" where
  "apt_holds ec hf x xs \<longleftrightarrow>
     length xs < 512 \<and> ec_apt_base ec = x \<and> ec_apt_base_set ec = (length xs < 511) \<and>
     unat (ec_apt_count ec) = Suc (count_list xs x) \<and>
     unat (ec_apt_observations ec) = Suc (length xs) \<and>
     ec_health_failure ec = hf OR apt_alarm ec (Suc (count_list xs x))"

lemma apt_alarm_update [simp]:
  "apt_alarm (ec\<lparr>ec_apt_count := c\<rparr>) n = apt_alarm ec n"
  "apt_alarm (ec\<lparr>ec_apt_observations := c\<rparr>) n = apt_alarm ec n"
  "apt_alarm (ec\<lparr>ec_apt_base := d\<rparr>) n = apt_alarm ec n"
  "apt_alarm (ec\<lparr>ec_apt_base_set := b\<rparr>) n = apt_alarm ec n"
  "apt_alarm (ec\<lparr>ec_health_failure := c\<rparr>) n = apt_alarm ec n"
  by (simp_all add: apt_alarm_def)

lemma apt_alarm_1:
  "2 \<le> unat (ec_apt_cutoff ec) \<Longrightarrow> 2 \<le> unat (ec_apt_cutoff_permanent ec) \<Longrightarrow>
     apt_alarm ec (Suc 0) = 0"
  by (simp add: apt_alarm_def)

text \<open>The two checks after an increment add exactly what the new count means.\<close>

lemma apt_alarm_Suc:
  assumes "unat (w :: u32) = Suc n"
  shows "(hf OR apt_alarm ec n) OR
      (if ec_apt_cutoff_permanent ec \<le> w then JENT_APT_FAILURE_PERMANENT
       else if w = ec_apt_cutoff ec then JENT_APT_FAILURE else 0) = hf OR apt_alarm ec (Suc n)"
proof -
  have w: "(ec_apt_cutoff_permanent ec \<le> w) = (unat (ec_apt_cutoff_permanent ec) \<le> Suc n)"
    "(w = ec_apt_cutoff ec) = (unat (ec_apt_cutoff ec) = Suc n)"
    using assms by (auto simp: word_le_nat_alt word_unat_eq_iff)
  show ?thesis
    unfolding apt_alarm_def w word_less_nat_alt
    by (auto simp: or.assoc or.left_commute or.commute le_Suc_eq)
qed

lemma apt_mask [simp]: "d AND JENT_APT_MASK = d"
proof -
  have "JENT_APT_MASK = - 1" by simp
  then show ?thesis by (metis and.right_neutral)
qed

lemma apt_insert_base:
  "\<not> ec_apt_base_set ec \<Longrightarrow> jent_apt_insert ec x =
     ec\<lparr>ec_apt_base := x, ec_apt_base_set := True, ec_apt_count := 1, ec_apt_observations := 1\<rparr>"
  by (simp add: jent_apt_insert_def jent_apt_reinit_def Let_def)

lemma apt_insert_in_window:
  assumes "ec_apt_base_set ec"
  shows "jent_apt_insert ec d =
     (let ec = (if d = ec_apt_base ec
                then ec\<lparr>ec_apt_count := ec_apt_count ec + 1,
                        ec_health_failure := ec_health_failure ec OR
                          (if ec_apt_cutoff_permanent ec \<le> ec_apt_count ec + 1
                           then JENT_APT_FAILURE_PERMANENT
                           else if ec_apt_count ec + 1 = ec_apt_cutoff ec
                           then JENT_APT_FAILURE else 0)\<rparr>
                else ec)
      in ec\<lparr>ec_apt_observations := ec_apt_observations ec + 1,
            ec_apt_base_set := ec_apt_observations ec + 1 < 512\<rparr>)"
  using assms by (simp add: jent_apt_insert_def jent_apt_reset_def Let_def not_le)

lemma apt_insert_holds:
  assumes "apt_holds ec hf x xs" "length xs < 511"
  shows "apt_holds (jent_apt_insert ec d) hf x (xs @ [d])"
proof -
  note h = assms(1) [unfolded apt_holds_def]
  have c: "unat (ec_apt_count ec + 1) = Suc (Suc (count_list xs x))"
    using h count_le_length [of xs x] by (subst unat_Suc_below [of _ 513]) simp_all
  have o: "unat (ec_apt_observations ec + 1) = Suc (Suc (length xs))"
    using h by (subst unat_Suc_below [of _ 513]) simp_all
  have s: "ec_apt_base_set ec" using h assms(2) by simp
  show ?thesis
  proof (cases "d = x")
    case True
    then show ?thesis
      unfolding apt_insert_in_window [OF s] apt_holds_def
      using h assms(2) c o apt_alarm_Suc [OF c, of hf ec]
      by (simp add: Let_def word_less_nat_alt)
  next
    case False
    then show ?thesis
      unfolding apt_insert_in_window [OF s] apt_holds_def
      using h assms(2) o
      by (simp add: Let_def word_less_nat_alt)
  qed
qed

lemma apt_window_holds:
  assumes "\<not> ec_apt_base_set ec" "2 \<le> unat (ec_apt_cutoff ec)"
    "2 \<le> unat (ec_apt_cutoff_permanent ec)" "length xs < 512"
  shows "apt_holds (foldl jent_apt_insert ec (x # xs)) (ec_health_failure ec) x xs \<and>
     apt_alarm (foldl jent_apt_insert ec (x # xs)) = apt_alarm ec"
  using assms(4)
proof (induction xs rule: rev_induct)
  case Nil
  have "apt_alarm (jent_apt_insert ec x) = apt_alarm ec"
    by (intro ext) (simp add: apt_alarm_def)
  moreover have "apt_alarm ec (Suc 0) = 0" by (rule apt_alarm_1 [OF assms(2,3)])
  ultimately show ?case using assms(1) by (simp add: apt_holds_def apt_insert_base)
next
  case (snoc d xs)
  let ?e = "foldl jent_apt_insert ec (x # xs)"
  have IH: "apt_holds ?e (ec_health_failure ec) x xs" "apt_alarm ?e = apt_alarm ec"
    using snoc by simp_all
  have "apt_alarm (jent_apt_insert ?e d) = apt_alarm ?e"
    by (intro ext) (simp add: apt_alarm_def)
  with apt_insert_holds [OF IH(1), of d] snoc.prems IH(2) show ?case by simp
qed

section \<open>The cutoffs\<close>

lemma apt_table_lengths [simp]:
  "length jent_apt_cutoff_lookup = 15" "length jent_apt_cutoff_permanent_lookup = 15"
  "length jent_apt_cutoff_lookup_ntg1 = 15" "length jent_apt_cutoff_permanent_lookup_ntg1 = 15"
  by (simp_all add: jent_apt_cutoff_lookup_def jent_apt_cutoff_permanent_lookup_def
      jent_apt_cutoff_lookup_ntg1_def jent_apt_cutoff_permanent_lookup_ntg1_def)

lemma apt_tables:
  assumes "i < 15"
  shows "2 \<le> jent_apt_cutoff_lookup ! i \<and>
       jent_apt_cutoff_lookup ! i \<le> jent_apt_cutoff_permanent_lookup ! i \<and>
       jent_apt_cutoff_permanent_lookup ! i \<le> 512"
    "2 \<le> jent_apt_cutoff_lookup_ntg1 ! i \<and>
       jent_apt_cutoff_lookup_ntg1 ! i \<le> jent_apt_cutoff_permanent_lookup_ntg1 ! i \<and>
       jent_apt_cutoff_permanent_lookup_ntg1 ! i \<le> 512"
proof -
  have "list_all (\<lambda>(x, y). 2 \<le> x \<and> x \<le> y \<and> y \<le> 512)
      (zip jent_apt_cutoff_lookup jent_apt_cutoff_permanent_lookup)"
    by (simp add: jent_apt_cutoff_lookup_def jent_apt_cutoff_permanent_lookup_def)
  from nth_all_pairs [OF this] assms
  show "2 \<le> jent_apt_cutoff_lookup ! i \<and>
       jent_apt_cutoff_lookup ! i \<le> jent_apt_cutoff_permanent_lookup ! i \<and>
       jent_apt_cutoff_permanent_lookup ! i \<le> 512" by simp
  have "list_all (\<lambda>(x, y). 2 \<le> x \<and> x \<le> y \<and> y \<le> 512)
      (zip jent_apt_cutoff_lookup_ntg1 jent_apt_cutoff_permanent_lookup_ntg1)"
    by (simp add: jent_apt_cutoff_lookup_ntg1_def jent_apt_cutoff_permanent_lookup_ntg1_def)
  from nth_all_pairs [OF this] assms
  show "2 \<le> jent_apt_cutoff_lookup_ntg1 ! i \<and>
       jent_apt_cutoff_lookup_ntg1 ! i \<le> jent_apt_cutoff_permanent_lookup_ntg1 ! i \<and>
       jent_apt_cutoff_permanent_lookup_ntg1 ! i \<le> 512" by simp
qed

lemma apt_init_table:
  assumes "1 \<le> ec_osr ec"
  obtains i where "i < 15"
    "jent_apt_init ec = ec\<lparr>ec_apt_cutoff := jent_apt_cutoff_lookup ! i,
       ec_apt_cutoff_permanent := jent_apt_cutoff_permanent_lookup ! i\<rparr>"
    "jent_apt_init_ntg1 ec = ec\<lparr>ec_apt_cutoff := jent_apt_cutoff_lookup_ntg1 ! i,
       ec_apt_cutoff_permanent := jent_apt_cutoff_permanent_lookup_ntg1 ! i\<rparr>"
proof -
  show ?thesis
  proof (cases "15 \<le> ec_osr ec")
    case True
    show ?thesis
      by (rule that [of 14])
        (use True in \<open>simp_all add: jent_apt_init_def jent_apt_init_ntg1_def\<close>)
  next
    case False
    then have "unat (ec_osr ec) < 15" by (simp add: word_le_nat_alt not_le)
    then show ?thesis
      by (intro that [of "unat (ec_osr ec - 1)"])
        (use False in \<open>simp_all add: jent_apt_init_def jent_apt_init_ntg1_def osr_index [OF assms]\<close>)
  qed
qed

definition apt_cutoffs_ok :: "rand_data \<Rightarrow> bool" where
  "apt_cutoffs_ok ec \<longleftrightarrow>
     2 \<le> ec_apt_cutoff ec \<and> ec_apt_cutoff ec \<le> ec_apt_cutoff_permanent ec \<and>
     ec_apt_cutoff_permanent ec \<le> JENT_APT_WINDOW_SIZE"

lemma apt_init_cutoffs:
  assumes "1 \<le> ec_osr ec"
  shows "apt_cutoffs_ok (jent_apt_init ec)" "apt_cutoffs_ok (jent_apt_init_ntg1 ec)"
  using apt_tables
  by (rule_tac apt_init_table [OF assms]; simp add: apt_cutoffs_ok_def)+

section \<open>Properties\<close>

text \<open>
  C10. The adaptive proportion test is exact on a window: started on a fresh window with cutoffs of
  at least two, after the base \<open>x\<close> and up to 511 further deltas \<open>xs\<close> the permanent alarm has been
  added to the failure word exactly when \<open>x\<close> occurred at least as often as the permanent cutoff
  (the base included), the intermittent alarm exactly when it occurred at least as often as a
  smaller intermittent cutoff, nothing else was added, and the window is closed by its 512th delta.
\<close>

theorem apt_window_exact:
  assumes "\<not> ec_apt_base_set ec" "2 \<le> unat (ec_apt_cutoff ec)"
    "2 \<le> unat (ec_apt_cutoff_permanent ec)" "length xs < 512"
  shows "ec_health_failure (foldl jent_apt_insert ec (x # xs)) =
      ec_health_failure ec OR
      (if unat (ec_apt_cutoff_permanent ec) \<le> 1 + count_list xs x
       then JENT_APT_FAILURE_PERMANENT else 0) OR
      (if unat (ec_apt_cutoff ec) \<le> 1 + count_list xs x \<and>
          ec_apt_cutoff ec < ec_apt_cutoff_permanent ec then JENT_APT_FAILURE else 0) \<and>
    ec_apt_base_set (foldl jent_apt_insert ec (x # xs)) = (length xs < 511)"
proof -
  have "ec_health_failure (foldl jent_apt_insert ec (x # xs)) =
      ec_health_failure ec OR apt_alarm ec (1 + count_list xs x)"
    "ec_apt_base_set (foldl jent_apt_insert ec (x # xs)) = (length xs < 511)"
    using apt_window_holds [OF assms, of x] unfolding apt_holds_def by simp_all
  then show ?thesis unfolding apt_alarm_def by blast
qed

theorem apt_window_exact_witness:
  "ec_health_failure (foldl jent_apt_insert
      (zalloc_rand_data\<lparr>ec_apt_cutoff := 3, ec_apt_cutoff_permanent := 5\<rparr>) (7 # [7, 1, 7])) =
    JENT_APT_FAILURE"
  using apt_window_exact
    [of "zalloc_rand_data\<lparr>ec_apt_cutoff := 3, ec_apt_cutoff_permanent := 5\<rparr>" "[7, 1, 7]" 7]
  by (simp add: zalloc_rand_data_def del: foldl_Cons)

end
