(* ===== verification/Rct.thy ===== *)
theory Rct
  imports Jent_State
begin

unbundle bit_operations_syntax

text \<open>
  The two repetition count tests of \<open>jitterentropy-health.c\<close>, both fed with the verdict of the stuck
  test: the RCT counts stuck values in a row, the RCT with memory counts every third position of the
  collection of one output block. When the latter reaches its cutoff it first runs a recovery loop
  that generates ten further blocks (\<open>rd\<close>, the operation \<open>jent_random_data\<close>), and only a further
  hit during that loop is a failure.
\<close>

section \<open>Operations\<close>

definition jent_rct_mem_cutoff_lookup :: "u16 list" where
  "jent_rct_mem_cutoff_lookup =
     [107, 214, 321, 428, 535, 642, 749, 856, 963, 1070,
      1177, 1284, 1391, 1498, 1605, 1712, 1819, 1926, 2033, 2140]"

definition jent_rct_mem_cutoff_permanent_lookup :: "u16 list" where
  "jent_rct_mem_cutoff_permanent_lookup =
     [108, 215, 322, 429, 536, 643, 750, 857, 964, 1071,
      1178, 1285, 1392, 1499, 1606, 1713, 1820, 1927, 2034, 2141]"

definition jent_rct_mem_init :: "rand_data \<Rightarrow> rand_data" where
  "jent_rct_mem_init ec =
     (if ec_osr ec \<ge> of_nat (length jent_rct_mem_cutoff_lookup)
      then ec\<lparr>ec_rct_mem_cutoff :=
                jent_rct_mem_cutoff_lookup ! (length jent_rct_mem_cutoff_lookup - 1),
              ec_rct_mem_cutoff_permanent :=
                jent_rct_mem_cutoff_permanent_lookup !
                  (length jent_rct_mem_cutoff_permanent_lookup - 1)\<rparr>
      else ec\<lparr>ec_rct_mem_cutoff := jent_rct_mem_cutoff_lookup ! unat (ec_osr ec - 1),
              ec_rct_mem_cutoff_permanent :=
                jent_rct_mem_cutoff_permanent_lookup ! unat (ec_osr ec - 1)\<rparr>)"

definition jent_rct_mem_cutoff_lookup_ntg1 :: "u16 list" where
  "jent_rct_mem_cutoff_lookup_ntg1 =
     [4, 46, 134, 255, 399, 560, 733, 856, 963, 1070,
      1177, 1284, 1391, 1498, 1605, 1712, 1819, 1926, 2033, 2140]"

definition jent_rct_mem_cutoff_permanent_lookup_ntg1 :: "u16 list" where
  "jent_rct_mem_cutoff_permanent_lookup_ntg1 =
     [5, 50, 142, 265, 410, 572, 746, 857, 964, 1071,
      1178, 1285, 1392, 1499, 1606, 1713, 1820, 1927, 2034, 2141]"

definition jent_rct_mem_init_ntg1 :: "rand_data \<Rightarrow> rand_data" where
  "jent_rct_mem_init_ntg1 ec =
     (if ec_osr ec \<ge> of_nat (length jent_rct_mem_cutoff_lookup_ntg1)
      then ec\<lparr>ec_rct_mem_cutoff :=
                jent_rct_mem_cutoff_lookup_ntg1 ! (length jent_rct_mem_cutoff_lookup_ntg1 - 1),
              ec_rct_mem_cutoff_permanent :=
                jent_rct_mem_cutoff_permanent_lookup_ntg1 !
                  (length jent_rct_mem_cutoff_permanent_lookup_ntg1 - 1)\<rparr>
      else ec\<lparr>ec_rct_mem_cutoff := jent_rct_mem_cutoff_lookup_ntg1 ! unat (ec_osr ec - 1),
              ec_rct_mem_cutoff_permanent :=
                jent_rct_mem_cutoff_permanent_lookup_ntg1 ! unat (ec_osr ec - 1)\<rparr>)"

abbreviation (input) "JENT_RCT_MEM_RECOVERY_LOOP_CNT \<equiv> 10 :: nat"

type_synonym collect = "jent_world \<Rightarrow> rand_data \<Rightarrow> (jent_world \<times> rand_data) option"

text \<open>The loop that calls \<open>jent_random_data\<close>.\<close>

primrec rct_mem_recovery :: "collect \<Rightarrow> nat \<Rightarrow> collect" where
  "rct_mem_recovery rd 0 w ec = Some (w, ec)"
| "rct_mem_recovery rd (Suc n) w ec = do { (w, ec) \<leftarrow> rd w ec; rct_mem_recovery rd n w ec }"

definition JENT_RCT_MEM_IN_WINDOW :: "rand_data \<Rightarrow> bool" where
  "JENT_RCT_MEM_IN_WINDOW ec = (ec_rct_mem_ctr ec < ec_rct_mem_nosr ec)"

definition JENT_RCT_MEM_SKIP_STUCK :: "rand_data \<Rightarrow> bool" where
  "JENT_RCT_MEM_SKIP_STUCK ec = (ec_rct_mem_ctr ec mod 3 \<noteq> 0)"

definition jent_rct_mem_insert ::
  "collect \<Rightarrow> jent_world \<Rightarrow> rand_data \<Rightarrow> bool \<Rightarrow> (jent_world \<times> rand_data) option" where
  "jent_rct_mem_insert rd w ec stuck = do {
     let ec = (if ec_rct_mem_ctr ec = 0 then ec\<lparr>ec_rct_mem_count := 0\<rparr> else ec);
     let ec = (if stuck \<and> JENT_RCT_MEM_IN_WINDOW ec \<and> \<not> JENT_RCT_MEM_SKIP_STUCK ec
               then ec\<lparr>ec_rct_mem_count := ec_rct_mem_count ec + 1\<rparr> else ec);
     (w, ec) \<leftarrow>
       (if ec_rct_mem_count ec \<ge> ec_rct_mem_cutoff_permanent ec
        then Some (w, if JENT_RCT_MEM_IN_WINDOW ec
                      then ec\<lparr>ec_health_failure :=
                               ec_health_failure ec OR JENT_RCT_MEM_FAILURE_PERMANENT\<rparr>
                      else ec)
        else if ec_rct_mem_count ec = ec_rct_mem_cutoff ec
        then (if \<not> ec_in_recovery ec
              then do {
                let ec = ec\<lparr>ec_rct_mem_count := 0, ec_in_recovery := True\<rparr>;
                (w, ec) \<leftarrow> rct_mem_recovery rd JENT_RCT_MEM_RECOVERY_LOOP_CNT w ec;
                Some (w, ec\<lparr>ec_in_recovery := False\<rparr>)
              }
              else Some (w, if JENT_RCT_MEM_IN_WINDOW ec
                            then ec\<lparr>ec_health_failure :=
                                     ec_health_failure ec OR JENT_RCT_MEM_FAILURE\<rparr>
                            else ec))
        else Some (w, ec));
     Some (w, if JENT_RCT_MEM_IN_WINDOW ec
              then ec\<lparr>ec_rct_mem_ctr := ec_rct_mem_ctr ec + 1\<rparr> else ec)
   }"

definition jent_rct_mem_duplicate :: "rand_data \<Rightarrow> rand_data \<Rightarrow> rand_data" where
  "jent_rct_mem_duplicate new_ec old_ec = new_ec\<lparr>ec_rct_mem_count := ec_rct_mem_cutoff old_ec\<rparr>"

definition JENT_HEALTH_RCT_INTERMITTENT_CUTOFF :: "'a::semiring_1 \<Rightarrow> 'a" where
  "JENT_HEALTH_RCT_INTERMITTENT_CUTOFF x = x * 30"

definition JENT_HEALTH_RCT_PERMANENT_CUTOFF :: "'a::semiring_1 \<Rightarrow> 'a" where
  "JENT_HEALTH_RCT_PERMANENT_CUTOFF x = x * 60"

text \<open>The arithmetic on \<open>unsigned short\<close> is done in \<open>int\<close> and cut to 16 bits when it is stored.\<close>

definition jent_rct_init :: "rand_data \<Rightarrow> u16 \<Rightarrow> rand_data" where
  "jent_rct_init ec safety =
     (let osr = ucast (ec_osr ec) :: u16;
          ec = ec\<lparr>ec_rct_cutoff := of_nat (JENT_HEALTH_RCT_INTERMITTENT_CUTOFF (unat osr)),
                  ec_rct_cutoff_permanent := of_nat (JENT_HEALTH_RCT_PERMANENT_CUTOFF (unat osr))\<rparr>
      in if safety \<noteq> 0
         then let ec = ec\<lparr>ec_rct_cutoff :=
                           of_nat ((unat (ec_rct_cutoff ec) + unat safety - 1) div unat safety)\<rparr>
              in ec\<lparr>ec_rct_cutoff_permanent :=
                     of_nat ((unat (ec_rct_cutoff_permanent ec) + unat safety - 1)
                               div unat safety)\<rparr>
         else ec)"

definition jent_rct_duplicate :: "rand_data \<Rightarrow> rand_data" where
  "jent_rct_duplicate new_ec =
     new_ec\<lparr>ec_rct_count := JENT_HEALTH_RCT_INTERMITTENT_CUTOFF (ec_osr new_ec)\<rparr>"

definition jent_rct_insert :: "rand_data \<Rightarrow> bool \<Rightarrow> rand_data" where
  "jent_rct_insert ec stuck =
     (if stuck
      then let ec = ec\<lparr>ec_rct_count := ec_rct_count ec + 1\<rparr>
           in if ec_rct_count ec \<ge> ucast (ec_rct_cutoff_permanent ec)
              then ec\<lparr>ec_health_failure := ec_health_failure ec OR JENT_RCT_FAILURE_PERMANENT\<rparr>
              else if ec_rct_count ec = ucast (ec_rct_cutoff ec)
              then ec\<lparr>ec_health_failure := ec_health_failure ec OR JENT_RCT_FAILURE\<rparr>
              else ec
      else ec\<lparr>ec_rct_count := 0\<rparr>)"

section \<open>What the test leaves alone\<close>

text \<open>The collector with the fields of the repetition count test blanked.\<close>

definition rct_erase :: "rand_data \<Rightarrow> rand_data" where
  "rct_erase ec = ec
     \<lparr>ec_rct_count := 0,
      ec_health_failure := 0\<rparr>"

lemma rct_erase_update [simp]:
  "rct_erase (ec\<lparr>ec_rct_count := x0\<rparr>) = rct_erase ec"
  "rct_erase (ec\<lparr>ec_health_failure := x1\<rparr>) = rct_erase ec"
  by (simp_all add: rct_erase_def)

lemma rct_erase_frame:
  assumes "rct_erase ec' = rct_erase ec"
  shows
    "ec_hash_state ec' = ec_hash_state ec"
    "ec_prev_time ec' = ec_prev_time ec"
    "ec_flags ec' = ec_flags ec"
    "ec_osr ec' = ec_osr ec"
    "ec_uuid ec' = ec_uuid ec"
    "ec_reinit_count ec' = ec_reinit_count ec"
    "ec_read_invocations ec' = ec_read_invocations ec"
    "ec_bytes_output ec' = ec_bytes_output ec"
    "ec_startup_state ec' = ec_startup_state ec"
    "ec_mem ec' = ec_mem ec"
    "ec_memmask ec' = ec_memmask ec"
    "ec_memlocation ec' = ec_memlocation ec"
    "ec_memaccessloops ec' = ec_memaccessloops ec"
    "ec_hashloopcnt ec' = ec_hashloopcnt ec"
    "ec_rct_cutoff ec' = ec_rct_cutoff ec"
    "ec_rct_cutoff_permanent ec' = ec_rct_cutoff_permanent ec"
    "ec_apt_cutoff ec' = ec_apt_cutoff ec"
    "ec_apt_cutoff_permanent ec' = ec_apt_cutoff_permanent ec"
    "ec_apt_observations ec' = ec_apt_observations ec"
    "ec_apt_count ec' = ec_apt_count ec"
    "ec_apt_base ec' = ec_apt_base ec"
    "ec_rct_mem_ctr ec' = ec_rct_mem_ctr ec"
    "ec_rct_mem_nosr ec' = ec_rct_mem_nosr ec"
    "ec_rct_mem_count ec' = ec_rct_mem_count ec"
    "ec_rct_mem_cutoff ec' = ec_rct_mem_cutoff ec"
    "ec_rct_mem_cutoff_permanent ec' = ec_rct_mem_cutoff_permanent ec"
    "ec_apt_base_set ec' = ec_apt_base_set ec"
    "ec_is_fips_enabled ec' = ec_is_fips_enabled ec"
    "ec_enable_notime ec' = ec_enable_notime ec"
    "ec_max_mem_set ec' = ec_max_mem_set ec"
    "ec_in_recovery ec' = ec_in_recovery ec"
    "ec_notime_interrupt ec' = ec_notime_interrupt ec"
    "ec_notime_timer ec' = ec_notime_timer ec"
    "ec_notime_prev_timer ec' = ec_notime_prev_timer ec"
    "ec_notime_thread_ctx ec' = ec_notime_thread_ctx ec"
    "ec_common_timer_gcd ec' = ec_common_timer_gcd ec"
    "ec_lag_global_cutoff ec' = ec_lag_global_cutoff ec"
    "ec_lag_local_cutoff ec' = ec_lag_local_cutoff ec"
    "ec_lag_prediction_success_count ec' = ec_lag_prediction_success_count ec"
    "ec_lag_prediction_success_run ec' = ec_lag_prediction_success_run ec"
    "ec_lag_best_predictor ec' = ec_lag_best_predictor ec"
    "ec_lag_observations ec' = ec_lag_observations ec"
    "ec_lag_delta_history ec' = ec_lag_delta_history ec"
    "ec_lag_scoreboard ec' = ec_lag_scoreboard ec"
  using assms by (cases ec; cases ec'; simp add: rct_erase_def)+

lemma rct_erase_insert [simp]: "rct_erase (jent_rct_insert ec b) = rct_erase ec"
  by (simp add: jent_rct_insert_def Let_def)

lemma rct_erase_duplicate [simp]: "rct_erase (jent_rct_duplicate ec) = rct_erase ec"
  by (simp add: jent_rct_duplicate_def)

lemmas rct_insert_frame [simp] = rct_erase_frame [OF rct_erase_insert]

lemma rct_insert_failure:
  "ec_health_failure (jent_rct_insert ec b) \<in>
     {ec_health_failure ec, ec_health_failure ec OR JENT_RCT_FAILURE_PERMANENT,
      ec_health_failure ec OR JENT_RCT_FAILURE}"
  by (simp add: jent_rct_insert_def Let_def)

text \<open>The collector with the fields of the test with memory blanked.\<close>

definition rct_mem_erase :: "rand_data \<Rightarrow> rand_data" where
  "rct_mem_erase ec = ec
     \<lparr>ec_rct_mem_ctr := 0,
      ec_rct_mem_count := 0,
      ec_health_failure := 0\<rparr>"

lemma rct_mem_erase_update [simp]:
  "rct_mem_erase (ec\<lparr>ec_rct_mem_ctr := x0\<rparr>) = rct_mem_erase ec"
  "rct_mem_erase (ec\<lparr>ec_rct_mem_count := x1\<rparr>) = rct_mem_erase ec"
  "rct_mem_erase (ec\<lparr>ec_health_failure := x2\<rparr>) = rct_mem_erase ec"
  by (simp_all add: rct_mem_erase_def)

lemma rct_mem_erase_frame:
  assumes "rct_mem_erase ec' = rct_mem_erase ec"
  shows
    "ec_hash_state ec' = ec_hash_state ec"
    "ec_prev_time ec' = ec_prev_time ec"
    "ec_flags ec' = ec_flags ec"
    "ec_osr ec' = ec_osr ec"
    "ec_uuid ec' = ec_uuid ec"
    "ec_reinit_count ec' = ec_reinit_count ec"
    "ec_read_invocations ec' = ec_read_invocations ec"
    "ec_bytes_output ec' = ec_bytes_output ec"
    "ec_startup_state ec' = ec_startup_state ec"
    "ec_mem ec' = ec_mem ec"
    "ec_memmask ec' = ec_memmask ec"
    "ec_memlocation ec' = ec_memlocation ec"
    "ec_memaccessloops ec' = ec_memaccessloops ec"
    "ec_hashloopcnt ec' = ec_hashloopcnt ec"
    "ec_rct_count ec' = ec_rct_count ec"
    "ec_rct_cutoff ec' = ec_rct_cutoff ec"
    "ec_rct_cutoff_permanent ec' = ec_rct_cutoff_permanent ec"
    "ec_apt_cutoff ec' = ec_apt_cutoff ec"
    "ec_apt_cutoff_permanent ec' = ec_apt_cutoff_permanent ec"
    "ec_apt_observations ec' = ec_apt_observations ec"
    "ec_apt_count ec' = ec_apt_count ec"
    "ec_apt_base ec' = ec_apt_base ec"
    "ec_rct_mem_nosr ec' = ec_rct_mem_nosr ec"
    "ec_rct_mem_cutoff ec' = ec_rct_mem_cutoff ec"
    "ec_rct_mem_cutoff_permanent ec' = ec_rct_mem_cutoff_permanent ec"
    "ec_apt_base_set ec' = ec_apt_base_set ec"
    "ec_is_fips_enabled ec' = ec_is_fips_enabled ec"
    "ec_enable_notime ec' = ec_enable_notime ec"
    "ec_max_mem_set ec' = ec_max_mem_set ec"
    "ec_in_recovery ec' = ec_in_recovery ec"
    "ec_notime_interrupt ec' = ec_notime_interrupt ec"
    "ec_notime_timer ec' = ec_notime_timer ec"
    "ec_notime_prev_timer ec' = ec_notime_prev_timer ec"
    "ec_notime_thread_ctx ec' = ec_notime_thread_ctx ec"
    "ec_common_timer_gcd ec' = ec_common_timer_gcd ec"
    "ec_lag_global_cutoff ec' = ec_lag_global_cutoff ec"
    "ec_lag_local_cutoff ec' = ec_lag_local_cutoff ec"
    "ec_lag_prediction_success_count ec' = ec_lag_prediction_success_count ec"
    "ec_lag_prediction_success_run ec' = ec_lag_prediction_success_run ec"
    "ec_lag_best_predictor ec' = ec_lag_best_predictor ec"
    "ec_lag_observations ec' = ec_lag_observations ec"
    "ec_lag_delta_history ec' = ec_lag_delta_history ec"
    "ec_lag_scoreboard ec' = ec_lag_scoreboard ec"
  using assms by (cases ec; cases ec'; simp add: rct_mem_erase_def)+

section \<open>Runs of stuck values\<close>

text \<open>The run of stuck values at the end of the history, and whether the history has a run of \<open>n\<close>.\<close>

definition stuck_run :: "bool list \<Rightarrow> nat" where
  "stuck_run bs = length (takeWhile id (rev bs))"

definition has_run :: "nat \<Rightarrow> bool list \<Rightarrow> bool" where
  "has_run n bs \<longleftrightarrow> (\<exists>k \<le> length bs. n \<le> stuck_run (take k bs))"

lemma stuck_run_snoc [simp]:
  "stuck_run [] = 0" "stuck_run (bs @ [b]) = (if b then Suc (stuck_run bs) else 0)"
  by (simp_all add: stuck_run_def)

lemma stuck_run_le: "stuck_run bs \<le> length bs"
  unfolding stuck_run_def by (metis length_rev length_takeWhile_le)

lemma has_run_Nil [simp]: "has_run n [] = (n = 0)"
  by (simp add: has_run_def)

lemma prefixes_snoc:
  "(\<exists>k \<le> length (xs @ [x]). P (take k (xs @ [x]))) \<longleftrightarrow>
     (\<exists>k \<le> length xs. P (take k xs)) \<or> P (xs @ [x])"
proof
  assume "\<exists>k \<le> length (xs @ [x]). P (take k (xs @ [x]))"
  then show "(\<exists>k \<le> length xs. P (take k xs)) \<or> P (xs @ [x])" by (auto simp: le_Suc_eq)
next
  assume "(\<exists>k \<le> length xs. P (take k xs)) \<or> P (xs @ [x])"
  then show "\<exists>k \<le> length (xs @ [x]). P (take k (xs @ [x]))"
  proof
    assume "\<exists>k \<le> length xs. P (take k xs)"
    then obtain k where "k \<le> length xs" "P (take k xs)" by blast
    then show ?thesis by (intro exI [of _ k]) simp
  next
    assume "P (xs @ [x])"
    then show ?thesis by (intro exI [of _ "length (xs @ [x])"]) simp
  qed
qed

lemma has_run_snoc: "has_run n (bs @ [b]) \<longleftrightarrow> has_run n bs \<or> n \<le> stuck_run (bs @ [b])"
  unfolding has_run_def by (rule prefixes_snoc)

lemma has_run_end: "n \<le> stuck_run bs \<Longrightarrow> has_run n bs"
  unfolding has_run_def by (rule exI [of _ "length bs"]) simp

definition rct_alarm :: "rand_data \<Rightarrow> bool list \<Rightarrow> u32" where
  "rct_alarm ec bs =
     (if has_run (unat (ec_rct_cutoff_permanent ec)) bs then JENT_RCT_FAILURE_PERMANENT else 0) OR
     (if has_run (unat (ec_rct_cutoff ec)) bs \<and> ec_rct_cutoff ec < ec_rct_cutoff_permanent ec
      then JENT_RCT_FAILURE else 0)"

definition rct_holds :: "rand_data \<Rightarrow> u32 \<Rightarrow> bool list \<Rightarrow> bool" where
  "rct_holds ec hf bs \<longleftrightarrow>
     unat (ec_rct_count ec) = stuck_run bs \<and> ec_health_failure ec = hf OR rct_alarm ec bs"

lemma rct_alarm_update [simp]:
  "rct_alarm (ec\<lparr>ec_rct_count := c\<rparr>) bs = rct_alarm ec bs"
  "rct_alarm (ec\<lparr>ec_health_failure := c\<rparr>) bs = rct_alarm ec bs"
  by (simp_all add: rct_alarm_def)

lemma rct_alarm_insert [simp]: "rct_alarm (jent_rct_insert ec b) bs = rct_alarm ec bs"
  by (simp add: rct_alarm_def)

lemma rct_alarm_snoc_good:
  "0 < unat (ec_rct_cutoff ec) \<Longrightarrow> 0 < unat (ec_rct_cutoff_permanent ec) \<Longrightarrow>
     rct_alarm ec (bs @ [False]) = rct_alarm ec bs"
  by (simp add: rct_alarm_def has_run_snoc)

text \<open>The two checks after an increment add exactly what the new run means.\<close>

lemma rct_alarm_snoc_stuck:
  assumes "unat w = Suc (stuck_run bs)"
  shows "(hf OR rct_alarm ec bs) OR
      (if ucast (ec_rct_cutoff_permanent ec) \<le> (w :: u32) then JENT_RCT_FAILURE_PERMANENT
       else if w = ucast (ec_rct_cutoff ec) then JENT_RCT_FAILURE else 0) =
      hf OR rct_alarm ec (bs @ [True])"
proof -
  have w: "(ucast (ec_rct_cutoff_permanent ec) \<le> w) =
      (unat (ec_rct_cutoff_permanent ec) \<le> Suc (stuck_run bs))"
    "(w = ucast (ec_rct_cutoff ec)) = (unat (ec_rct_cutoff ec) = Suc (stuck_run bs))"
    using assms by (auto simp: word_le_nat_alt word_unat_eq_iff unsigned_ucast_eq take_bit_nat_eq_self
        unsigned_less [THEN less_trans])
  have "has_run n (bs @ [True]) \<longleftrightarrow> has_run n bs \<or> n = Suc (stuck_run bs)" for n
    using has_run_end [of n bs] by (auto simp: has_run_snoc le_Suc_eq)
  moreover have "n \<le> Suc (stuck_run bs) \<longleftrightarrow> n \<le> stuck_run bs \<or> n = Suc (stuck_run bs)" for n
    by auto
  ultimately show ?thesis
    unfolding rct_alarm_def w word_less_nat_alt
    using has_run_end [of _ bs]
    by (auto simp: or.assoc or.left_commute or.commute)
qed

lemma rct_insert_stuck:
  "jent_rct_insert ec True =
     ec\<lparr>ec_rct_count := ec_rct_count ec + 1,
        ec_health_failure := ec_health_failure ec OR
          (if ucast (ec_rct_cutoff_permanent ec) \<le> ec_rct_count ec + 1
           then JENT_RCT_FAILURE_PERMANENT
           else if ec_rct_count ec + 1 = ucast (ec_rct_cutoff ec) then JENT_RCT_FAILURE else 0)\<rparr>"
  by (simp add: jent_rct_insert_def Let_def)

lemma rct_insert_holds:
  assumes "rct_holds ec hf bs" "Suc (length bs) < 2 ^ 32"
    and "0 < unat (ec_rct_cutoff ec)" "0 < unat (ec_rct_cutoff_permanent ec)"
  shows "rct_holds (jent_rct_insert ec b) hf (bs @ [b])"
proof (cases b)
  case True
  have c: "unat (ec_rct_count ec + 1) = Suc (stuck_run bs)"
    using assms(1,2) stuck_run_le [of bs]
    by (subst unat_Suc_below [of _ "2 ^ 32 - 1"]) (simp_all add: rct_holds_def)
  from True show ?thesis
    using assms(1) c rct_alarm_snoc_stuck [OF c, of hf ec]
    by (simp add: rct_holds_def rct_insert_stuck)
next
  case False
  then show ?thesis
    using assms by (simp add: rct_holds_def jent_rct_insert_def rct_alarm_snoc_good)
qed

lemma rct_inserts_hold:
  assumes "ec_rct_count ec = 0" "length bs < 2 ^ 32"
    and "0 < unat (ec_rct_cutoff ec)" "0 < unat (ec_rct_cutoff_permanent ec)"
  shows "rct_holds (foldl jent_rct_insert ec bs) (ec_health_failure ec) bs \<and>
     ec_rct_cutoff (foldl jent_rct_insert ec bs) = ec_rct_cutoff ec \<and>
     ec_rct_cutoff_permanent (foldl jent_rct_insert ec bs) = ec_rct_cutoff_permanent ec"
  using assms(2)
proof (induction bs rule: rev_induct)
  case Nil
  show ?case using assms(1,3,4) by (simp add: rct_holds_def rct_alarm_def)
next
  case (snoc b bs)
  then show ?case
    using rct_insert_holds [of "foldl jent_rct_insert ec bs" "ec_health_failure ec" bs b] assms(3,4)
    by simp
qed

section \<open>The cutoffs of the repetition count test\<close>

lemma osr_small_cutoff:
  assumes "1 \<le> osr" "osr \<le> 20"
  shows "unat (ucast (osr :: u32) :: u16) = unat osr" "1 \<le> unat osr" "unat osr \<le> 20"
  using assms by (simp_all add: unsigned_ucast_eq take_bit_nat_eq_self word_le_nat_alt)

lemma rct_init_cutoffs:
  assumes "1 \<le> ec_osr ec" "ec_osr ec \<le> 20"
  shows "unat (ec_rct_cutoff (jent_rct_init ec 0)) = 30 * unat (ec_osr ec)"
    "unat (ec_rct_cutoff_permanent (jent_rct_init ec 0)) = 60 * unat (ec_osr ec)"
    "unat (ec_rct_cutoff (jent_rct_init ec 8)) = (30 * unat (ec_osr ec) + 7) div 8"
    "unat (ec_rct_cutoff_permanent (jent_rct_init ec 8)) = (60 * unat (ec_osr ec) + 7) div 8"
proof -
  note o = osr_small_cutoff [OF assms]
  have c: "unat (of_nat n :: u16) = n" if "n \<le> 1200" for n
    using that by (simp add: unat_of_nat_small)
  have s: "n div 8 \<le> 1200" if "n \<le> 1207" for n :: nat
    using that by simp
  show "unat (ec_rct_cutoff (jent_rct_init ec 0)) = 30 * unat (ec_osr ec)"
    "unat (ec_rct_cutoff_permanent (jent_rct_init ec 0)) = 60 * unat (ec_osr ec)"
    "unat (ec_rct_cutoff (jent_rct_init ec 8)) = (30 * unat (ec_osr ec) + 7) div 8"
    "unat (ec_rct_cutoff_permanent (jent_rct_init ec 8)) = (60 * unat (ec_osr ec) + 7) div 8"
    using o by (simp_all add: jent_rct_init_def Let_def c JENT_HEALTH_RCT_INTERMITTENT_CUTOFF_def
        JENT_HEALTH_RCT_PERMANENT_CUTOFF_def mult.commute del: of_nat_mult of_nat_add)
qed

section \<open>The test with memory\<close>

lemma rct_mem_osr_tables:
  assumes "i < 20"
  shows "1 \<le> jent_rct_mem_cutoff_lookup ! i \<and>
       jent_rct_mem_cutoff_lookup ! i < jent_rct_mem_cutoff_permanent_lookup ! i"
    "1 \<le> jent_rct_mem_cutoff_lookup_ntg1 ! i \<and>
       jent_rct_mem_cutoff_lookup_ntg1 ! i < jent_rct_mem_cutoff_permanent_lookup_ntg1 ! i"
proof -
  have "list_all (\<lambda>(x, y). 1 \<le> x \<and> x < y)
      (zip jent_rct_mem_cutoff_lookup jent_rct_mem_cutoff_permanent_lookup)"
    by (simp add: jent_rct_mem_cutoff_lookup_def jent_rct_mem_cutoff_permanent_lookup_def)
  from nth_all_pairs [OF this] assms
  show "1 \<le> jent_rct_mem_cutoff_lookup ! i \<and>
       jent_rct_mem_cutoff_lookup ! i < jent_rct_mem_cutoff_permanent_lookup ! i"
    by (simp add: jent_rct_mem_cutoff_lookup_def jent_rct_mem_cutoff_permanent_lookup_def)
  have "list_all (\<lambda>(x, y). 1 \<le> x \<and> x < y)
      (zip jent_rct_mem_cutoff_lookup_ntg1 jent_rct_mem_cutoff_permanent_lookup_ntg1)"
    by (simp add: jent_rct_mem_cutoff_lookup_ntg1_def
        jent_rct_mem_cutoff_permanent_lookup_ntg1_def)
  from nth_all_pairs [OF this] assms
  show "1 \<le> jent_rct_mem_cutoff_lookup_ntg1 ! i \<and>
       jent_rct_mem_cutoff_lookup_ntg1 ! i < jent_rct_mem_cutoff_permanent_lookup_ntg1 ! i"
    by (simp add: jent_rct_mem_cutoff_lookup_ntg1_def
        jent_rct_mem_cutoff_permanent_lookup_ntg1_def)
qed

text \<open>The counting of one verdict, and the step of a test that does not enter the recovery loop.\<close>

definition rct_mem_counted :: "rand_data \<Rightarrow> bool \<Rightarrow> rand_data" where
  "rct_mem_counted ec stuck =
     (let ec = (if ec_rct_mem_ctr ec = 0 then ec\<lparr>ec_rct_mem_count := 0\<rparr> else ec)
      in if stuck \<and> JENT_RCT_MEM_IN_WINDOW ec \<and> \<not> JENT_RCT_MEM_SKIP_STUCK ec
         then ec\<lparr>ec_rct_mem_count := ec_rct_mem_count ec + 1\<rparr> else ec)"

definition rct_mem_advance :: "rand_data \<Rightarrow> rand_data" where
  "rct_mem_advance ec =
     (if JENT_RCT_MEM_IN_WINDOW ec then ec\<lparr>ec_rct_mem_ctr := ec_rct_mem_ctr ec + 1\<rparr> else ec)"

definition rct_mem_step :: "rand_data \<Rightarrow> bool \<Rightarrow> rand_data" where
  "rct_mem_step ec stuck = rct_mem_advance
     (let ec = rct_mem_counted ec stuck
      in if JENT_RCT_MEM_IN_WINDOW ec \<and> ec_rct_mem_count ec \<ge> ec_rct_mem_cutoff_permanent ec
         then ec\<lparr>ec_health_failure := ec_health_failure ec OR JENT_RCT_MEM_FAILURE_PERMANENT\<rparr>
         else if JENT_RCT_MEM_IN_WINDOW ec \<and> ec_rct_mem_count ec = ec_rct_mem_cutoff ec
         then ec\<lparr>ec_health_failure := ec_health_failure ec OR JENT_RCT_MEM_FAILURE\<rparr>
         else ec)"

definition rct_mem_recovers :: "rand_data \<Rightarrow> bool \<Rightarrow> bool" where
  "rct_mem_recovers ec stuck \<longleftrightarrow>
     (let ec = rct_mem_counted ec stuck
      in ec_rct_mem_count ec < ec_rct_mem_cutoff_permanent ec \<and>
         ec_rct_mem_count ec = ec_rct_mem_cutoff ec \<and> \<not> ec_in_recovery ec)"

lemma rct_mem_insert_cases:
  "jent_rct_mem_insert rd w ec stuck =
     (if rct_mem_recovers ec stuck
      then do {
        (w, ec) \<leftarrow> rct_mem_recovery rd 10 w
          ((rct_mem_counted ec stuck)\<lparr>ec_rct_mem_count := 0, ec_in_recovery := True\<rparr>);
        Some (w, rct_mem_advance (ec\<lparr>ec_in_recovery := False\<rparr>))
      }
      else Some (w, rct_mem_step ec stuck))"
  unfolding jent_rct_mem_insert_def rct_mem_recovers_def rct_mem_step_def
  unfolding rct_mem_counted_def [symmetric, unfolded Let_def] rct_mem_advance_def Let_def
  by (auto split: prod.splits option.splits Option.bind_splits simp: not_less)

text \<open>
  The verdicts that the test counts in a window of \<open>n\<close>: the stuck ones at the positions divisible
  by three.
\<close>

definition rct_mem_hits :: "nat \<Rightarrow> bool list \<Rightarrow> nat" where
  "rct_mem_hits n bs = length (filter (\<lambda>k. k mod 3 = 0 \<and> bs ! k) [0..<min n (length bs)])"

lemma rct_mem_hits_Nil [simp]: "rct_mem_hits n [] = 0"
  by (simp add: rct_mem_hits_def)

lemma rct_mem_hits_snoc:
  "rct_mem_hits n (bs @ [b]) =
     rct_mem_hits n bs + of_bool (length bs < n \<and> length bs mod 3 = 0 \<and> b)"
proof -
  have "filter (\<lambda>k. k mod 3 = 0 \<and> (bs @ [b]) ! k) [0..<min n (length bs)] =
      filter (\<lambda>k. k mod 3 = 0 \<and> bs ! k) [0..<min n (length bs)]"
    by (rule filter_cong) (auto simp: nth_append)
  moreover have "min n (length (bs @ [b])) =
      (if length bs < n then Suc (min n (length bs)) else min n (length bs))"
    "length bs < n \<Longrightarrow> min n (length bs) = length bs"
    by simp_all
  ultimately show ?thesis
    by (cases "length bs < n") (simp_all add: rct_mem_hits_def)
qed

lemma rct_mem_hits_le: "rct_mem_hits n bs \<le> min n (length bs)"
  unfolding rct_mem_hits_def by (rule order.trans [OF length_filter_le]) simp

definition rct_mem_alarm :: "rand_data \<Rightarrow> nat \<Rightarrow> u32" where
  "rct_mem_alarm ec n =
     (if unat (ec_rct_mem_cutoff_permanent ec) \<le> n then JENT_RCT_MEM_FAILURE_PERMANENT else 0) OR
     (if unat (ec_rct_mem_cutoff ec) \<le> n then JENT_RCT_MEM_FAILURE else 0)"

lemma rct_mem_alarm_update [simp]:
  "rct_mem_alarm (ec\<lparr>ec_rct_mem_count := c\<rparr>) n = rct_mem_alarm ec n"
  "rct_mem_alarm (ec\<lparr>ec_rct_mem_ctr := c\<rparr>) n = rct_mem_alarm ec n"
  "rct_mem_alarm (ec\<lparr>ec_health_failure := d\<rparr>) n = rct_mem_alarm ec n"
  by (simp_all add: rct_mem_alarm_def)

definition rct_mem_holds :: "rand_data \<Rightarrow> u32 \<Rightarrow> bool list \<Rightarrow> bool" where
  "rct_mem_holds ec hf bs \<longleftrightarrow>
     unat (ec_rct_mem_ctr ec) = min (unat (ec_rct_mem_nosr ec)) (length bs) \<and>
     (bs \<noteq> [] \<longrightarrow> unat (ec_rct_mem_count ec) = rct_mem_hits (unat (ec_rct_mem_nosr ec)) bs) \<and>
     ec_health_failure ec = hf OR rct_mem_alarm ec (rct_mem_hits (unat (ec_rct_mem_nosr ec)) bs)"

lemma rct_mem_window_update [simp]:
  "JENT_RCT_MEM_IN_WINDOW (ec\<lparr>ec_rct_mem_count := c\<rparr>) = JENT_RCT_MEM_IN_WINDOW ec"
  "JENT_RCT_MEM_SKIP_STUCK (ec\<lparr>ec_rct_mem_count := c\<rparr>) = JENT_RCT_MEM_SKIP_STUCK ec"
  by (simp_all add: JENT_RCT_MEM_IN_WINDOW_def JENT_RCT_MEM_SKIP_STUCK_def)

lemma unat_u16_less: "unat (w :: u16) < 2 ^ 16"
  using unsigned_less [of w] by simp

lemma rct_mem_counted_holds:
  assumes "rct_mem_holds ec hf bs" "0 < unat (ec_rct_mem_nosr ec)"
  shows "\<exists>c. rct_mem_counted ec b = ec\<lparr>ec_rct_mem_count := c\<rparr> \<and>
     unat c = rct_mem_hits (unat (ec_rct_mem_nosr ec)) (bs @ [b])"
proof -
  let ?n = "unat (ec_rct_mem_nosr ec)"
  define c0 where "c0 = (if ec_rct_mem_ctr ec = 0 then 0 else ec_rct_mem_count ec)"
  have ctr: "unat (ec_rct_mem_ctr ec) = min ?n (length bs)"
    and cnt: "bs \<noteq> [] \<longrightarrow> unat (ec_rct_mem_count ec) = rct_mem_hits ?n bs"
    using assms(1) by (simp_all add: rct_mem_holds_def)
  have "(ec_rct_mem_ctr ec = 0) = (bs = [])"
    using ctr assms(2) by (auto simp: word_unat_eq_iff min_def split: if_splits)
  with cnt have c0: "unat c0 = rct_mem_hits ?n bs" by (simp add: c0_def)
  have win: "JENT_RCT_MEM_IN_WINDOW ec = (length bs < ?n)"
    using ctr by (auto simp: JENT_RCT_MEM_IN_WINDOW_def word_less_nat_alt)
  have skip: "JENT_RCT_MEM_SKIP_STUCK ec = (length bs mod 3 \<noteq> 0)" if "length bs < ?n"
    using ctr that by (simp add: JENT_RCT_MEM_SKIP_STUCK_def word_unat_eq_iff unat_mod)
  have inc: "unat (c0 + 1) = Suc (unat c0)" if "length bs < ?n"
    using that c0 rct_mem_hits_le [of ?n bs] unat_u16_less [of "ec_rct_mem_nosr ec"]
    by (intro unat_Suc_below [of _ "2 ^ 16 - 1"]) simp_all
  have "rct_mem_counted ec b = ec\<lparr>ec_rct_mem_count :=
      if b \<and> length bs < ?n \<and> length bs mod 3 = 0 then c0 + 1 else c0\<rparr>"
    using win skip
    by (cases "ec_rct_mem_ctr ec = 0"; cases "length bs < ?n")
      (simp_all add: rct_mem_counted_def Let_def c0_def)
  moreover have "unat (if b \<and> length bs < ?n \<and> length bs mod 3 = 0 then c0 + 1 else c0) =
      rct_mem_hits ?n (bs @ [b])"
    using c0 inc by (cases b) (auto simp: rct_mem_hits_snoc)
  ultimately show ?thesis by blast
qed

lemma rct_mem_alarm_step:
  assumes "n' = n \<or> n' = Suc n" "0 < unat (ec_rct_mem_cutoff ec)"
    "ec_rct_mem_cutoff ec < ec_rct_mem_cutoff_permanent ec" "unat w = n'"
  shows "(hf OR rct_mem_alarm ec n) OR
      (if ec_rct_mem_cutoff_permanent ec \<le> w then JENT_RCT_MEM_FAILURE_PERMANENT
       else if w = ec_rct_mem_cutoff ec then JENT_RCT_MEM_FAILURE else 0) = hf OR rct_mem_alarm ec n'"
proof -
  have w: "(ec_rct_mem_cutoff_permanent ec \<le> w) = (unat (ec_rct_mem_cutoff_permanent ec) \<le> n')"
    "(w = ec_rct_mem_cutoff ec) = (unat (ec_rct_mem_cutoff ec) = n')"
    using assms(4) by (auto simp: word_le_nat_alt word_unat_eq_iff)
  show ?thesis
    unfolding rct_mem_alarm_def w
    using assms(1,2) assms(3) [unfolded word_less_nat_alt]
    by (auto simp: or.assoc or.left_commute or.commute le_Suc_eq)
qed

lemma rct_mem_step_holds:
  assumes "rct_mem_holds ec hf bs" "0 < unat (ec_rct_mem_nosr ec)" "0 < unat (ec_rct_mem_cutoff ec)"
    "ec_rct_mem_cutoff ec < ec_rct_mem_cutoff_permanent ec"
  shows "rct_mem_holds (rct_mem_step ec b) hf (bs @ [b])"
proof -
  let ?n = "unat (ec_rct_mem_nosr ec)"
  obtain c where e: "rct_mem_counted ec b = ec\<lparr>ec_rct_mem_count := c\<rparr>"
    and c: "unat c = rct_mem_hits ?n (bs @ [b])"
    using rct_mem_counted_holds [OF assms(1,2)] by blast
  have ctr: "unat (ec_rct_mem_ctr ec) = min ?n (length bs)"
    and hf: "ec_health_failure ec = hf OR rct_mem_alarm ec (rct_mem_hits ?n bs)"
    using assms(1) by (simp_all add: rct_mem_holds_def)
  have win: "(ec_rct_mem_ctr ec < ec_rct_mem_nosr ec) = (length bs < ?n)"
    using ctr by (auto simp: word_less_nat_alt)
  let ?add = "if ec_rct_mem_cutoff_permanent ec \<le> c then JENT_RCT_MEM_FAILURE_PERMANENT
       else if c = ec_rct_mem_cutoff ec then JENT_RCT_MEM_FAILURE else 0"
  have al: "ec_health_failure ec OR ?add = hf OR rct_mem_alarm ec (rct_mem_hits ?n (bs @ [b]))"
    unfolding hf
    by (rule rct_mem_alarm_step [OF _ assms(3,4) c]) (simp add: rct_mem_hits_snoc)
  show ?thesis
  proof (cases "length bs < ?n")
    case True
    then have "rct_mem_step ec b =
        ec\<lparr>ec_rct_mem_count := c, ec_health_failure := ec_health_failure ec OR ?add,
           ec_rct_mem_ctr := ec_rct_mem_ctr ec + 1\<rparr>"
      using win by (simp add: rct_mem_step_def e Let_def rct_mem_advance_def JENT_RCT_MEM_IN_WINDOW_def)
    moreover have "unat (ec_rct_mem_ctr ec + 1) = Suc (length bs)"
      using True ctr unat_u16_less [of "ec_rct_mem_nosr ec"]
      by (subst unat_Suc_below [of _ "2 ^ 16 - 1"]) simp_all
    ultimately show ?thesis
      using True c al by (simp add: rct_mem_holds_def)
  next
    case False
    then have "rct_mem_step ec b = ec\<lparr>ec_rct_mem_count := c\<rparr>"
      using win by (simp add: rct_mem_step_def e Let_def rct_mem_advance_def JENT_RCT_MEM_IN_WINDOW_def)
    moreover have "rct_mem_hits ?n (bs @ [b]) = rct_mem_hits ?n bs"
      using False by (simp add: rct_mem_hits_snoc)
    ultimately show ?thesis
      using False c ctr hf by (simp add: rct_mem_holds_def)
  qed
qed

lemma rct_mem_counted_frame [simp]:
  "ec_rct_mem_nosr (rct_mem_counted ec b) = ec_rct_mem_nosr ec"
  "ec_rct_mem_cutoff (rct_mem_counted ec b) = ec_rct_mem_cutoff ec"
  "ec_rct_mem_cutoff_permanent (rct_mem_counted ec b) = ec_rct_mem_cutoff_permanent ec"
  "ec_in_recovery (rct_mem_counted ec b) = ec_in_recovery ec"
  "ec_health_failure (rct_mem_counted ec b) = ec_health_failure ec"
  "rct_mem_erase (rct_mem_counted ec b) = rct_mem_erase ec"
  by (simp_all add: rct_mem_counted_def Let_def)

lemma rct_mem_erase_step [simp]: "rct_mem_erase (rct_mem_step ec b) = rct_mem_erase ec"
  by (simp add: rct_mem_step_def rct_mem_advance_def Let_def)

lemmas rct_mem_step_frame [simp] = rct_mem_erase_frame [OF rct_mem_erase_step]

lemma rct_mem_step_failure:
  "ec_health_failure (rct_mem_step ec b) \<in>
     {ec_health_failure ec, ec_health_failure ec OR JENT_RCT_MEM_FAILURE_PERMANENT,
      ec_health_failure ec OR JENT_RCT_MEM_FAILURE}"
  by (simp add: rct_mem_step_def rct_mem_advance_def Let_def)

text \<open>In recovery the test does not call the noise source.\<close>

lemma rct_mem_insert_in_recovery:
  "ec_in_recovery ec \<Longrightarrow> jent_rct_mem_insert rd w ec b = Some (w, rct_mem_step ec b)"
  by (simp add: rct_mem_insert_cases rct_mem_recovers_def Let_def)

lemma rct_mem_insert_below:
  assumes "rct_mem_holds ec hf bs" "0 < unat (ec_rct_mem_nosr ec)"
    "rct_mem_hits (unat (ec_rct_mem_nosr ec)) (bs @ [b]) < unat (ec_rct_mem_cutoff ec)"
  shows "jent_rct_mem_insert rd w ec b = Some (w, rct_mem_step ec b)"
  using rct_mem_counted_holds [OF assms(1,2), of b] assms(3)
  by (auto simp: rct_mem_insert_cases rct_mem_recovers_def Let_def)

text \<open>A sequence of verdicts.\<close>

primrec rct_mem_inserts :: "collect \<Rightarrow> jent_world \<Rightarrow> rand_data \<Rightarrow> bool list \<Rightarrow>
    (jent_world \<times> rand_data) option" where
  "rct_mem_inserts rd w ec [] = Some (w, ec)"
| "rct_mem_inserts rd w ec (b # bs) =
     do { (w, ec) \<leftarrow> jent_rct_mem_insert rd w ec b; rct_mem_inserts rd w ec bs }"

lemma rct_mem_inserts_append:
  "rct_mem_inserts rd w ec (bs @ cs) =
     do { (w, ec) \<leftarrow> rct_mem_inserts rd w ec bs; rct_mem_inserts rd w ec cs }"
  by (induction bs arbitrary: w ec) (auto split: Option.bind_splits)

lemma rct_mem_hits_mono: "rct_mem_hits n bs \<le> rct_mem_hits n (bs @ [b])"
  by (simp add: rct_mem_hits_snoc)

lemma rct_mem_inserts_hold:
  assumes "ec_rct_mem_ctr ec = 0" "0 < unat (ec_rct_mem_nosr ec)" "0 < unat (ec_rct_mem_cutoff ec)"
    "ec_rct_mem_cutoff ec < ec_rct_mem_cutoff_permanent ec"
    and "ec_in_recovery ec \<or>
      rct_mem_hits (unat (ec_rct_mem_nosr ec)) bs < unat (ec_rct_mem_cutoff ec)"
  shows "\<exists>e. rct_mem_inserts rd w ec bs = Some (w, e) \<and>
     rct_mem_holds e (ec_health_failure ec) bs \<and> rct_mem_erase e = rct_mem_erase ec"
  using assms(5)
proof (induction bs rule: rev_induct)
  case Nil
  show ?case
    using assms(1-4) by (simp add: rct_mem_holds_def rct_mem_alarm_def word_less_nat_alt)
next
  case (snoc b bs)
  have "rct_mem_hits (unat (ec_rct_mem_nosr ec)) bs \<le>
      rct_mem_hits (unat (ec_rct_mem_nosr ec)) (bs @ [b])"
    by (rule rct_mem_hits_mono)
  then obtain e where e: "rct_mem_inserts rd w ec bs = Some (w, e)"
    "rct_mem_holds e (ec_health_failure ec) bs" "rct_mem_erase e = rct_mem_erase ec"
    using snoc by (auto intro: le_less_trans)
  note f = rct_mem_erase_frame [OF e(3)]
  have "jent_rct_mem_insert rd w e b = Some (w, rct_mem_step e b)"
    using snoc.prems assms(2) rct_mem_insert_in_recovery [of e rd w b]
      rct_mem_insert_below [OF e(2), of b rd w] by (auto simp: f)
  with e rct_mem_step_holds [OF e(2), of b] assms(2-4) show ?case
    by (simp add: rct_mem_inserts_append f)
qed

section \<open>Properties\<close>

text \<open>
  C9. The repetition count test is exact: over any history of stuck verdicts from a cleared counter
  the permanent alarm is added to the failure word exactly when the history has a run of stuck
  values as long as the permanent cutoff, the intermittent alarm exactly when it has one as long as
  a smaller intermittent cutoff, and the counter is the length of the run at its end.
\<close>

theorem rct_exact:
  assumes "ec_rct_count ec = 0" "length bs < 2 ^ 32"
    and "0 < unat (ec_rct_cutoff ec)" "0 < unat (ec_rct_cutoff_permanent ec)"
  shows "ec_health_failure (foldl jent_rct_insert ec bs) =
      ec_health_failure ec OR
      (if has_run (unat (ec_rct_cutoff_permanent ec)) bs then JENT_RCT_FAILURE_PERMANENT else 0) OR
      (if has_run (unat (ec_rct_cutoff ec)) bs \<and> ec_rct_cutoff ec < ec_rct_cutoff_permanent ec
       then JENT_RCT_FAILURE else 0) \<and>
    unat (ec_rct_count (foldl jent_rct_insert ec bs)) = stuck_run bs"
proof -
  let ?e = "foldl jent_rct_insert ec bs"
  have h: "rct_holds ?e (ec_health_failure ec) bs" "ec_rct_cutoff ?e = ec_rct_cutoff ec"
    "ec_rct_cutoff_permanent ?e = ec_rct_cutoff_permanent ec"
    using rct_inserts_hold [OF assms] by simp_all
  then have "rct_alarm ?e bs = rct_alarm ec bs" by (simp add: rct_alarm_def)
  with h(1) show ?thesis
    unfolding rct_holds_def by (simp only: rct_alarm_def simp_thms)
qed

theorem rct_exact_witness:
  "ec_health_failure (foldl jent_rct_insert
      (zalloc_rand_data\<lparr>ec_rct_cutoff := 2, ec_rct_cutoff_permanent := 4\<rparr>)
      [True, False, True, True, True, False]) = JENT_RCT_FAILURE"
proof -
  have "\<not> has_run 4 [True, False, True, True, True, False]"
    by (simp add: has_run_def stuck_run_def) (simp add: le_Suc_eq numeral_eq_Suc)
  moreover have "has_run 2 [True, False, True, True, True, False]"
    unfolding has_run_def by (rule exI [of _ 5]) (simp add: stuck_run_def)
  ultimately show ?thesis
    using rct_exact [of "zalloc_rand_data\<lparr>ec_rct_cutoff := 2, ec_rct_cutoff_permanent := 4\<rparr>"
        "[True, False, True, True, True, False]"]
    by (simp add: zalloc_rand_data_def del: foldl_Cons)
qed



text \<open>
  After a health-test reset of an NTG.1 collector the repetition count test is primed above its
  own limit: \<open>jent_rct_duplicate\<close> sets the counter to 30 times the oversampling rate, the
  intermittent cutoff of the common mode, while the NTG.1 cutoffs are an eighth of that. The comment
  speaks of the intermittent error value; but the next stuck value is at once a permanent failure.
  (In the common mode the counter sits at the intermittent cutoff and a stuck value raises nothing.)
\<close>

theorem rct_duplicate_primes_permanent_failure:
  assumes "3 \<le> ec_osr ec" "ec_osr ec \<le> 20"
  shows "ec_health_failure (jent_rct_insert (jent_rct_duplicate (jent_rct_init ec 8)) True) =
      ec_health_failure ec OR JENT_RCT_FAILURE_PERMANENT \<and>
    ec_health_failure (jent_rct_insert (jent_rct_duplicate (jent_rct_init ec 0)) True) =
      ec_health_failure ec"
proof -
  note c = rct_init_cutoffs [OF _ assms(2)]
  have o: "1 \<le> ec_osr ec" "3 \<le> unat (ec_osr ec)" "unat (ec_osr ec) \<le> 20"
    using assms by (simp_all add: word_le_nat_alt)
  have f: "ec_osr (jent_rct_init ec s) = ec_osr ec"
    "ec_health_failure (jent_rct_init ec s) = ec_health_failure ec" for s
    by (simp_all add: jent_rct_init_def Let_def)
  have n: "unat (ec_osr ec * 30 + 1) = 30 * unat (ec_osr ec) + 1"
    using o by (simp add: unat_word_ariths)
  have u: "unat (ucast (x :: u16) :: u32) = unat x" for x
    using unat_u16_less [of x] by (simp add: unsigned_ucast_eq take_bit_nat_eq_self)
  have "ucast (ec_rct_cutoff_permanent (jent_rct_init ec 8)) \<le> ec_osr ec * 30 + 1"
    unfolding word_le_nat_alt n u c(4) [OF o(1)] using o by linarith
  moreover have "\<not> ucast (ec_rct_cutoff_permanent (jent_rct_init ec 0)) \<le> ec_osr ec * 30 + 1"
    unfolding word_le_nat_alt n u c(2) [OF o(1)] using o by linarith
  moreover have "ec_osr ec * 30 + 1 \<noteq> ucast (ec_rct_cutoff (jent_rct_init ec 0))"
    unfolding word_unat_eq_iff n u c(1) [OF o(1)] by simp
  ultimately show ?thesis
    by (simp add: jent_rct_duplicate_def rct_insert_stuck JENT_HEALTH_RCT_INTERMITTENT_CUTOFF_def f)
qed

theorem rct_duplicate_primes_permanent_failure_witness:
  "ec_health_failure (jent_rct_insert (jent_rct_duplicate
      (jent_rct_init (zalloc_rand_data\<lparr>ec_osr := 4\<rparr>) 8)) True) = JENT_RCT_FAILURE_PERMANENT"
  using rct_duplicate_primes_permanent_failure [of "zalloc_rand_data\<lparr>ec_osr := 4\<rparr>"]
  by (simp add: zalloc_rand_data_def)

end
