(* ===== verification/Health.thy ===== *)
theory Health
  imports Lag Apt Rct
begin

unbundle bit_operations_syntax

text \<open>
  The parts of \<open>jitterentropy-health.c\<close> that join the tests: the stuck test, which feeds a time delta
  to all of them, the failure word the library reports, the failure callback, and the
  initialisation. What the tests have in common, that a test only adds failures and only its own, is
  the locale \<open>health_test\<close>.
\<close>

section \<open>Operations\<close>

definition jent_health_cb_block_switch :: "jent_world \<Rightarrow> jent_world" where
  "jent_health_cb_block_switch w = w\<lparr>g_health_cb_switch_blocked := True\<rparr>"

definition jent_set_fips_failure_callback_internal ::
  "nat option \<Rightarrow> jent_world \<Rightarrow> int \<times> jent_world" where
  "jent_set_fips_failure_callback_internal cb w =
     (if g_health_cb_switch_blocked w then (- EAGAIN, w) else (0, w\<lparr>g_fips_cb := cb\<rparr>))"

definition jent_stuck ::
  "collect \<Rightarrow> jent_world \<Rightarrow> rand_data \<Rightarrow> u64 \<Rightarrow> (bool \<times> jent_world \<times> rand_data) option" where
  "jent_stuck rd w ec current_delta = do {
     let delta2 = jent_delta2 ec current_delta;
     let delta3 = jent_delta3 ec delta2;
     let stuck = (current_delta = 0 \<or> delta2 = 0 \<or> delta3 = 0);
     let ec = jent_apt_insert ec current_delta;
     let ec = jent_lag_insert ec current_delta;
     let ec = jent_rct_insert ec stuck;
     (w, ec) \<leftarrow> jent_rct_mem_insert rd w ec stuck;
     Some (stuck, w, ec)
   }"

text \<open>The call of the registered callback is recorded in \<open>g_fips_log\<close>.\<close>

definition jent_health_failure :: "jent_world \<Rightarrow> rand_data \<Rightarrow> u32 \<times> jent_world" where
  "jent_health_failure w ec =
     (if \<not> ec_is_fips_enabled ec then (0, w)
      else
        let w = (case g_fips_cb w of
                   Some cb \<Rightarrow> if ec_health_failure ec \<noteq> 0
                              then w\<lparr>g_fips_log := g_fips_log w @ [(cb, ec_health_failure ec)]\<rparr>
                              else w
                 | None \<Rightarrow> w)
        in (ec_health_failure ec, w))"

datatype jent_health_init_type = jent_health_init_type_common | jent_health_init_type_ntg1

definition jent_health_init :: "rand_data \<Rightarrow> jent_health_init_type \<Rightarrow> rand_data" where
  "jent_health_init ec inittype =
     (let ec = ec\<lparr>ec_rct_count := 0\<rparr>;
          ec = jent_lag_init ec (ec_osr ec)
      in case inittype of
           jent_health_init_type_ntg1 \<Rightarrow>
             jent_rct_mem_init_ntg1 (jent_rct_init (jent_apt_init_ntg1 ec) 8)
         | jent_health_init_type_common \<Rightarrow>
             jent_rct_mem_init (jent_rct_init (jent_apt_init ec) 0))"

section \<open>What a health test promises\<close>

text \<open>The failure word never loses a bit, and gains only bits of the test's mask.\<close>

locale health_test =
  fixes insert_value :: "rand_data \<Rightarrow> 'i \<Rightarrow> rand_data"
    and mask :: u32
  assumes keeps_failures:
      "bit (ec_health_failure ec) n \<Longrightarrow> bit (ec_health_failure (insert_value ec x)) n"
    and own_failures:
      "bit (ec_health_failure (insert_value ec x)) n \<Longrightarrow>
         bit (ec_health_failure ec) n \<or> bit mask n"
begin

lemma keeps_failures_all:
  "bit (ec_health_failure ec) n \<Longrightarrow> bit (ec_health_failure (foldl insert_value ec xs)) n"
  by (induction xs arbitrary: ec) (simp_all add: keeps_failures)

lemma own_failures_all:
  "bit (ec_health_failure (foldl insert_value ec xs)) n \<Longrightarrow>
     bit (ec_health_failure ec) n \<or> bit mask n"
  by (induction xs arbitrary: ec) (auto dest: own_failures)

end

lemma adds_bits:
  "(v :: u32) \<in> {a, a OR m, a OR m'} \<Longrightarrow> bit a n \<Longrightarrow> bit v n"
  "(v :: u32) \<in> {a, a OR m, a OR m'} \<Longrightarrow> bit v n \<Longrightarrow> bit a n \<or> bit (m OR m') n"
  by (auto simp: bit_or_iff)

interpretation apt_test: health_test jent_apt_insert
    "JENT_APT_FAILURE_PERMANENT OR JENT_APT_FAILURE"
  by unfold_locales (rule adds_bits [OF apt_insert_failure], assumption)+

interpretation rct_test: health_test jent_rct_insert
    "JENT_RCT_FAILURE_PERMANENT OR JENT_RCT_FAILURE"
  by unfold_locales (rule adds_bits [OF rct_insert_failure], assumption)+

interpretation rct_mem_test: health_test rct_mem_step
    "JENT_RCT_MEM_FAILURE_PERMANENT OR JENT_RCT_MEM_FAILURE"
  by unfold_locales (rule adds_bits [OF rct_mem_step_failure], assumption)+

interpretation lag_test: health_test jent_lag_insert JENT_LAG_FAILURE
proof unfold_locales
  fix ec :: rand_data and x n
  note f = lag_insert_failure [of ec x]
  from f show "bit (ec_health_failure ec) n \<Longrightarrow> bit (ec_health_failure (jent_lag_insert ec x)) n"
    by (auto simp: bit_or_iff)
  from f show "bit (ec_health_failure (jent_lag_insert ec x)) n \<Longrightarrow>
      bit (ec_health_failure ec) n \<or> bit JENT_LAG_FAILURE n"
    by (auto simp: bit_or_iff)
qed

section \<open>The stuck test\<close>

lemma lag_holds_other [simp]:
  "lag_holds (jent_apt_insert ec d) xs = lag_holds ec xs"
  "lag_holds (jent_rct_insert ec b) xs = lag_holds ec xs"
  "lag_holds (rct_mem_step ec b) xs = lag_holds ec xs"
  by (simp_all add: lag_holds_def)

text \<open>The collector after the three tests that do not call the noise source.\<close>

definition stuck_tests :: "rand_data \<Rightarrow> u64 \<Rightarrow> bool \<Rightarrow> rand_data" where
  "stuck_tests ec d stuck = jent_rct_insert (jent_lag_insert (jent_apt_insert ec d) d) stuck"

definition is_stuck :: "rand_data \<Rightarrow> u64 \<Rightarrow> bool" where
  "is_stuck ec d \<longleftrightarrow> d = 0 \<or> jent_delta2 ec d = 0 \<or> jent_delta3 ec (jent_delta2 ec d) = 0"

lemma jent_stuck_eq:
  "jent_stuck rd w ec d =
     do { (w', ec') \<leftarrow> jent_rct_mem_insert rd w (stuck_tests ec d (is_stuck ec d)) (is_stuck ec d);
          Some (is_stuck ec d, w', ec') }"
  by (simp add: jent_stuck_def stuck_tests_def is_stuck_def Let_def)

text \<open>A zero delta is always stuck, whatever the history.\<close>

lemma is_stuck_0 [simp]: "is_stuck ec 0"
  by (simp add: is_stuck_def)

lemma is_stuck_holds:
  assumes "lag_holds ec xs"
  shows "is_stuck ec d \<longleftrightarrow>
     d = 0 \<or> d = lag_recent xs 0 \<or>
     d - lag_recent xs 0 = lag_recent xs 0 - lag_recent xs 1"
  unfolding is_stuck_def jent_delta2_holds [OF assms] jent_delta3_holds [OF assms] right_minus_eq ..

lemma stuck_tests_lag:
  "lag_holds ec xs \<Longrightarrow>
     lag_holds (stuck_tests ec d b) (if length xs + 1 = 131072 then [] else xs @ [d])"
  unfolding stuck_tests_def lag_holds_other by (rule lag_insert_holds) simp

lemma stuck_tests_keeps:
  "bit (ec_health_failure ec) n \<Longrightarrow> bit (ec_health_failure (stuck_tests ec d b)) n"
  unfolding stuck_tests_def
  by (intro rct_test.keeps_failures lag_test.keeps_failures apt_test.keeps_failures)

text \<open>The fields that no health test touches.\<close>

lemma stuck_tests_frame [simp]:
  "ec_hash_state (stuck_tests ec d b) = ec_hash_state ec"
  "ec_prev_time (stuck_tests ec d b) = ec_prev_time ec"
  "ec_flags (stuck_tests ec d b) = ec_flags ec"
  "ec_osr (stuck_tests ec d b) = ec_osr ec"
  "ec_uuid (stuck_tests ec d b) = ec_uuid ec"
  "ec_reinit_count (stuck_tests ec d b) = ec_reinit_count ec"
  "ec_read_invocations (stuck_tests ec d b) = ec_read_invocations ec"
  "ec_bytes_output (stuck_tests ec d b) = ec_bytes_output ec"
  "ec_startup_state (stuck_tests ec d b) = ec_startup_state ec"
  "ec_mem (stuck_tests ec d b) = ec_mem ec"
  "ec_memmask (stuck_tests ec d b) = ec_memmask ec"
  "ec_memlocation (stuck_tests ec d b) = ec_memlocation ec"
  "ec_memaccessloops (stuck_tests ec d b) = ec_memaccessloops ec"
  "ec_hashloopcnt (stuck_tests ec d b) = ec_hashloopcnt ec"
  "ec_rct_cutoff (stuck_tests ec d b) = ec_rct_cutoff ec"
  "ec_rct_cutoff_permanent (stuck_tests ec d b) = ec_rct_cutoff_permanent ec"
  "ec_apt_cutoff (stuck_tests ec d b) = ec_apt_cutoff ec"
  "ec_apt_cutoff_permanent (stuck_tests ec d b) = ec_apt_cutoff_permanent ec"
  "ec_rct_mem_ctr (stuck_tests ec d b) = ec_rct_mem_ctr ec"
  "ec_rct_mem_nosr (stuck_tests ec d b) = ec_rct_mem_nosr ec"
  "ec_rct_mem_count (stuck_tests ec d b) = ec_rct_mem_count ec"
  "ec_rct_mem_cutoff (stuck_tests ec d b) = ec_rct_mem_cutoff ec"
  "ec_rct_mem_cutoff_permanent (stuck_tests ec d b) = ec_rct_mem_cutoff_permanent ec"
  "ec_is_fips_enabled (stuck_tests ec d b) = ec_is_fips_enabled ec"
  "ec_enable_notime (stuck_tests ec d b) = ec_enable_notime ec"
  "ec_max_mem_set (stuck_tests ec d b) = ec_max_mem_set ec"
  "ec_in_recovery (stuck_tests ec d b) = ec_in_recovery ec"
  "ec_notime_interrupt (stuck_tests ec d b) = ec_notime_interrupt ec"
  "ec_notime_timer (stuck_tests ec d b) = ec_notime_timer ec"
  "ec_notime_prev_timer (stuck_tests ec d b) = ec_notime_prev_timer ec"
  "ec_notime_thread_ctx (stuck_tests ec d b) = ec_notime_thread_ctx ec"
  "ec_common_timer_gcd (stuck_tests ec d b) = ec_common_timer_gcd ec"
  "ec_lag_global_cutoff (stuck_tests ec d b) = ec_lag_global_cutoff ec"
  "ec_lag_local_cutoff (stuck_tests ec d b) = ec_lag_local_cutoff ec"
  by (simp_all add: stuck_tests_def)

section \<open>The failure report\<close>

lemma jent_health_failure_result:
  "fst (jent_health_failure w ec) = (if ec_is_fips_enabled ec then ec_health_failure ec else 0)"
  by (simp add: jent_health_failure_def Let_def)

lemma jent_health_failure_none [simp]:
  "ec_health_failure ec = 0 \<Longrightarrow> jent_health_failure w ec = (0, w)"
  "\<not> ec_is_fips_enabled ec \<Longrightarrow> jent_health_failure w ec = (0, w)"
  by (simp_all add: jent_health_failure_def Let_def split: option.splits)

section \<open>Initialisation\<close>

lemma lag_init_erased:
  "lag_erase (jent_lag_init ec osr) = lag_erase (ec
     \<lparr>ec_lag_global_cutoff := ec_lag_global_cutoff (jent_lag_init ec osr),
      ec_lag_local_cutoff := ec_lag_local_cutoff (jent_lag_init ec osr)\<rparr>)"
  "ec_lag_observations (jent_lag_init ec osr) = ec_lag_observations ec"
  "lag_holds (jent_lag_init ec osr) xs = lag_holds ec xs"
  by (simp_all add: jent_lag_init_def Let_def lag_erase_def lag_holds_def)

text \<open>What the cutoffs of the four tests satisfy after the initialisation, for either type.\<close>

definition health_cutoffs_ok :: "rand_data \<Rightarrow> bool" where
  "health_cutoffs_ok ec \<longleftrightarrow>
     apt_cutoffs_ok ec \<and>
     0 < ec_rct_cutoff ec \<and> ec_rct_cutoff ec < ec_rct_cutoff_permanent ec \<and>
     0 < ec_rct_mem_cutoff ec \<and> ec_rct_mem_cutoff ec < ec_rct_mem_cutoff_permanent ec \<and>
     0 < ec_lag_local_cutoff ec \<and> ec_lag_local_cutoff ec < ec_lag_global_cutoff ec \<and>
     ec_lag_global_cutoff ec < JENT_LAG_WINDOW_SIZE"

lemma rct_mem_init_table:
  assumes "1 \<le> ec_osr ec"
  obtains i where "i < 20"
    "jent_rct_mem_init ec = ec\<lparr>ec_rct_mem_cutoff := jent_rct_mem_cutoff_lookup ! i,
       ec_rct_mem_cutoff_permanent := jent_rct_mem_cutoff_permanent_lookup ! i\<rparr>"
    "jent_rct_mem_init_ntg1 ec = ec\<lparr>ec_rct_mem_cutoff := jent_rct_mem_cutoff_lookup_ntg1 ! i,
       ec_rct_mem_cutoff_permanent := jent_rct_mem_cutoff_permanent_lookup_ntg1 ! i\<rparr>"
proof -
  have l: "length jent_rct_mem_cutoff_lookup = 20"
    "length jent_rct_mem_cutoff_permanent_lookup = 20"
    "length jent_rct_mem_cutoff_lookup_ntg1 = 20"
    "length jent_rct_mem_cutoff_permanent_lookup_ntg1 = 20"
    by (simp_all add: jent_rct_mem_cutoff_lookup_def jent_rct_mem_cutoff_permanent_lookup_def
      jent_rct_mem_cutoff_lookup_ntg1_def jent_rct_mem_cutoff_permanent_lookup_ntg1_def)
  show ?thesis
  proof (cases "20 \<le> ec_osr ec")
    case True
    show ?thesis
      by (rule that [of 19])
        (use True in \<open>simp_all add: jent_rct_mem_init_def jent_rct_mem_init_ntg1_def l\<close>)
  next
    case False
    then have "unat (ec_osr ec) < 20" by (simp add: word_le_nat_alt not_le)
    then show ?thesis
      by (intro that [of "unat (ec_osr ec - 1)"])
        (use False in \<open>simp_all add: jent_rct_mem_init_def jent_rct_mem_init_ntg1_def l
          osr_index [OF assms]\<close>)
  qed
qed

lemma lag_init_table:
  assumes "1 \<le> osr"
  obtains i where "i < 20"
    "jent_lag_init ec osr = ec\<lparr>ec_lag_global_cutoff := jent_lag_global_cutoff_lookup ! i,
       ec_lag_local_cutoff := jent_lag_local_cutoff_lookup ! i\<rparr>"
proof -
  have l: "length jent_lag_global_cutoff_lookup = 20" "length jent_lag_local_cutoff_lookup = 20"
    by (simp_all add: jent_lag_global_cutoff_lookup_def jent_lag_local_cutoff_lookup_def)
  show ?thesis
  proof (cases "20 < osr")
    case True
    show ?thesis
      by (rule that [of 19]) (use True in \<open>simp_all add: jent_lag_init_def l\<close>)
  next
    case False
    then have "unat osr \<le> 20" by (simp add: word_less_nat_alt not_less)
    moreover have "1 \<le> unat osr" using assms by (simp add: word_le_nat_alt)
    ultimately show ?thesis
      by (intro that [of "unat (osr - 1)"])
        (use False in \<open>simp_all add: jent_lag_init_def l osr_index [OF assms]\<close>)
  qed
qed

lemma lag_tables:
  assumes "i < 20"
  shows "0 < jent_lag_local_cutoff_lookup ! i \<and>
     jent_lag_local_cutoff_lookup ! i < jent_lag_global_cutoff_lookup ! i \<and>
     jent_lag_global_cutoff_lookup ! i < 131072"
proof -
  have "list_all (\<lambda>(x, y). 0 < x \<and> x < y \<and> y < 131072)
      (zip jent_lag_local_cutoff_lookup jent_lag_global_cutoff_lookup)"
    by (simp add: jent_lag_local_cutoff_lookup_def jent_lag_global_cutoff_lookup_def)
  from nth_all_pairs [OF this] assms show ?thesis
    by (simp add: jent_lag_local_cutoff_lookup_def jent_lag_global_cutoff_lookup_def)
qed

text \<open>The collector with the fields that the initialisation sets blanked.\<close>

definition init_erase :: "rand_data \<Rightarrow> rand_data" where
  "init_erase ec = ec
     \<lparr>ec_lag_global_cutoff := 0,
      ec_lag_local_cutoff := 0,
      ec_apt_cutoff := 0,
      ec_apt_cutoff_permanent := 0,
      ec_rct_cutoff := 0,
      ec_rct_cutoff_permanent := 0,
      ec_rct_mem_cutoff := 0,
      ec_rct_mem_cutoff_permanent := 0,
      ec_rct_count := 0\<rparr>"

lemma init_erase_update [simp]:
  "init_erase (ec\<lparr>ec_lag_global_cutoff := x0\<rparr>) = init_erase ec"
  "init_erase (ec\<lparr>ec_lag_local_cutoff := x1\<rparr>) = init_erase ec"
  "init_erase (ec\<lparr>ec_apt_cutoff := x2\<rparr>) = init_erase ec"
  "init_erase (ec\<lparr>ec_apt_cutoff_permanent := x3\<rparr>) = init_erase ec"
  "init_erase (ec\<lparr>ec_rct_cutoff := x4\<rparr>) = init_erase ec"
  "init_erase (ec\<lparr>ec_rct_cutoff_permanent := x5\<rparr>) = init_erase ec"
  "init_erase (ec\<lparr>ec_rct_mem_cutoff := x6\<rparr>) = init_erase ec"
  "init_erase (ec\<lparr>ec_rct_mem_cutoff_permanent := x7\<rparr>) = init_erase ec"
  "init_erase (ec\<lparr>ec_rct_count := x8\<rparr>) = init_erase ec"
  by (simp_all add: init_erase_def)

lemma init_erase_frame:
  assumes "init_erase ec' = init_erase ec"
  shows
    "ec_hash_state ec' = ec_hash_state ec"
    "ec_prev_time ec' = ec_prev_time ec"
    "ec_flags ec' = ec_flags ec"
    "ec_osr ec' = ec_osr ec"
    "ec_uuid ec' = ec_uuid ec"
    "ec_reinit_count ec' = ec_reinit_count ec"
    "ec_read_invocations ec' = ec_read_invocations ec"
    "ec_bytes_output ec' = ec_bytes_output ec"
    "ec_startup_state ec' = ec_startup_state ec"
    "ec_mem ec' = ec_mem ec"
    "ec_memmask ec' = ec_memmask ec"
    "ec_memlocation ec' = ec_memlocation ec"
    "ec_memaccessloops ec' = ec_memaccessloops ec"
    "ec_hashloopcnt ec' = ec_hashloopcnt ec"
    "ec_apt_observations ec' = ec_apt_observations ec"
    "ec_apt_count ec' = ec_apt_count ec"
    "ec_apt_base ec' = ec_apt_base ec"
    "ec_health_failure ec' = ec_health_failure ec"
    "ec_rct_mem_ctr ec' = ec_rct_mem_ctr ec"
    "ec_rct_mem_nosr ec' = ec_rct_mem_nosr ec"
    "ec_rct_mem_count ec' = ec_rct_mem_count ec"
    "ec_apt_base_set ec' = ec_apt_base_set ec"
    "ec_is_fips_enabled ec' = ec_is_fips_enabled ec"
    "ec_enable_notime ec' = ec_enable_notime ec"
    "ec_max_mem_set ec' = ec_max_mem_set ec"
    "ec_in_recovery ec' = ec_in_recovery ec"
    "ec_notime_interrupt ec' = ec_notime_interrupt ec"
    "ec_notime_timer ec' = ec_notime_timer ec"
    "ec_notime_prev_timer ec' = ec_notime_prev_timer ec"
    "ec_notime_thread_ctx ec' = ec_notime_thread_ctx ec"
    "ec_common_timer_gcd ec' = ec_common_timer_gcd ec"
    "ec_lag_prediction_success_count ec' = ec_lag_prediction_success_count ec"
    "ec_lag_prediction_success_run ec' = ec_lag_prediction_success_run ec"
    "ec_lag_best_predictor ec' = ec_lag_best_predictor ec"
    "ec_lag_observations ec' = ec_lag_observations ec"
    "ec_lag_delta_history ec' = ec_lag_delta_history ec"
    "ec_lag_scoreboard ec' = ec_lag_scoreboard ec"
  using assms by (cases ec; cases ec'; simp add: init_erase_def)+

lemma init_erase_init [simp]: "init_erase (jent_health_init ec t) = init_erase ec"
  by (cases t) (simp_all add: jent_health_init_def jent_lag_init_def jent_apt_init_def
      jent_apt_init_ntg1_def jent_rct_init_def jent_rct_mem_init_def jent_rct_mem_init_ntg1_def
      Let_def)

lemmas jent_health_init_frame [simp] = init_erase_frame [OF init_erase_init]

lemma jent_health_init_rct_count [simp]: "ec_rct_count (jent_health_init ec t) = 0"
  by (cases t) (simp_all add: jent_health_init_def jent_lag_init_def jent_apt_init_def
      jent_apt_init_ntg1_def jent_rct_init_def jent_rct_mem_init_def jent_rct_mem_init_ntg1_def
      Let_def)

lemma lag_holds_init [simp]: "lag_holds (jent_health_init ec t) xs = lag_holds ec xs"
  by (simp add: lag_holds_def)

lemma rct_init_cutoffs_ok:
  assumes "1 \<le> ec_osr ec" "ec_osr ec \<le> 20" "k = 0 \<or> k = 8"
  shows "0 < ec_rct_cutoff (jent_rct_init ec k)"
    "ec_rct_cutoff (jent_rct_init ec k) < ec_rct_cutoff_permanent (jent_rct_init ec k)"
  using assms(3) rct_init_cutoffs [OF assms(1,2)] osr_small_cutoff [OF assms(1,2)]
  by (auto simp: word_less_nat_alt)

lemma jent_rct_init_frame [simp]:
  "ec_osr (jent_rct_init ec k) = ec_osr ec"
  "ec_apt_cutoff (jent_rct_init ec k) = ec_apt_cutoff ec"
  "ec_apt_cutoff_permanent (jent_rct_init ec k) = ec_apt_cutoff_permanent ec"
  "ec_lag_global_cutoff (jent_rct_init ec k) = ec_lag_global_cutoff ec"
  "ec_lag_local_cutoff (jent_rct_init ec k) = ec_lag_local_cutoff ec"
  by (simp_all add: jent_rct_init_def Let_def)

lemma jent_health_init_cutoffs:
  assumes "1 \<le> ec_osr ec" "ec_osr ec \<le> 20"
  shows "health_cutoffs_ok (jent_health_init ec t)"
proof -
  let ?e0 = "ec\<lparr>ec_rct_count := 0\<rparr>"
  have o0: "1 \<le> ec_osr ?e0" using assms by simp
  obtain i where i: "i < 20" "jent_lag_init ?e0 (ec_osr ?e0) =
      ?e0\<lparr>ec_lag_global_cutoff := jent_lag_global_cutoff_lookup ! i,
         ec_lag_local_cutoff := jent_lag_local_cutoff_lookup ! i\<rparr>"
    using o0 by (rule lag_init_table)
  let ?e1 = "?e0\<lparr>ec_lag_global_cutoff := jent_lag_global_cutoff_lookup ! i,
         ec_lag_local_cutoff := jent_lag_local_cutoff_lookup ! i\<rparr>"
  have o1: "1 \<le> ec_osr ?e1" using assms by simp
  obtain j where j: "j < 15"
    "jent_apt_init ?e1 = ?e1\<lparr>ec_apt_cutoff := jent_apt_cutoff_lookup ! j,
       ec_apt_cutoff_permanent := jent_apt_cutoff_permanent_lookup ! j\<rparr>"
    "jent_apt_init_ntg1 ?e1 = ?e1\<lparr>ec_apt_cutoff := jent_apt_cutoff_lookup_ntg1 ! j,
       ec_apt_cutoff_permanent := jent_apt_cutoff_permanent_lookup_ntg1 ! j\<rparr>"
    using o1 by (rule apt_init_table)
  let ?e2 = "case t of jent_health_init_type_ntg1 \<Rightarrow> jent_rct_init (jent_apt_init_ntg1 ?e1) 8
     | jent_health_init_type_common \<Rightarrow> jent_rct_init (jent_apt_init ?e1) 0"
  have o2: "1 \<le> ec_osr ?e2" using assms j by (cases t) simp_all
  obtain k where k: "k < 20"
    "jent_rct_mem_init ?e2 = ?e2\<lparr>ec_rct_mem_cutoff := jent_rct_mem_cutoff_lookup ! k,
       ec_rct_mem_cutoff_permanent := jent_rct_mem_cutoff_permanent_lookup ! k\<rparr>"
    "jent_rct_mem_init_ntg1 ?e2 = ?e2\<lparr>ec_rct_mem_cutoff := jent_rct_mem_cutoff_lookup_ntg1 ! k,
       ec_rct_mem_cutoff_permanent := jent_rct_mem_cutoff_permanent_lookup_ntg1 ! k\<rparr>"
    using o2 by (rule rct_mem_init_table)
  have e: "jent_health_init ec t = (case t of
        jent_health_init_type_ntg1 \<Rightarrow> jent_rct_mem_init_ntg1 ?e2
      | jent_health_init_type_common \<Rightarrow> jent_rct_mem_init ?e2)"
    unfolding jent_health_init_def Let_def i(2) by (cases t) simp_all
  show ?thesis
    unfolding e
    using assms k lag_tables [OF i(1)] apt_tables [OF j(1)] rct_mem_osr_tables [OF k(1)] j(2,3)
      rct_init_cutoffs_ok [of "jent_apt_init ?e1" 0] rct_init_cutoffs_ok [of "jent_apt_init_ntg1 ?e1" 8]
    by (cases t) (simp_all add: health_cutoffs_ok_def apt_cutoffs_ok_def word_le_nat_alt word_less_nat_alt)
qed

section \<open>Properties\<close>

text \<open>
  The stuck test rejects a delta exactly when one of its first three derivatives vanishes:
  when the delta is zero, equal to the one before, or changes by as much as the one before changed
  (a history before the first delta of the lag window counts as zero). Its verdict does not depend
  on what the recovery loop of the RCT with memory does.
\<close>

theorem stuck_iff_derivative_zero:
  assumes "lag_holds ec xs" "jent_stuck rd w ec d = Some (stuck, w', ec')"
  shows "stuck \<longleftrightarrow> d = 0 \<or> d = lag_recent xs 0 \<or>
     d - lag_recent xs 0 = lag_recent xs 0 - lag_recent xs 1"
proof -
  have "stuck = is_stuck ec d"
    using assms(2) by (auto simp: jent_stuck_eq elim!: bind_SomeE)
  with is_stuck_holds [OF assms(1)] show ?thesis by simp
qed

theorem stuck_iff_derivative_zero_witness:
  "\<exists>ec'. jent_stuck (\<lambda>_ _. None) test_world (zalloc_rand_data\<lparr>ec_in_recovery := True\<rparr>) 7 =
     Some (False, test_world, ec')"
proof -
  let ?e = "zalloc_rand_data\<lparr>ec_in_recovery := True\<rparr>"
  have h: "lag_holds ?e []"
    by (rule lag_holds_empty) (simp_all add: zalloc_rand_data_def)
  obtain ec' where s: "jent_stuck (\<lambda>_ _. None) test_world ?e 7 =
      Some (is_stuck ?e 7, test_world, ec')"
    by (simp add: jent_stuck_eq rct_mem_insert_in_recovery)
  with stuck_iff_derivative_zero [OF h s] show ?thesis by (simp add: lag_recent_def)
qed



end
