(* ===== verification/Timer.thy ===== *)
theory Timer
  imports Jent_State
begin

unbundle bit_operations_syntax

text \<open>
  \<open>jitterentropy-timer.c\<close> and the thread back-end of \<open>arch/jitterentropy-arch-thread.c\<close>: the time
  source of the measurements. It is the hardware time stamp (\<open>w_clock\<close>), or, when the collector has
  \<open>enable_notime\<close>, a counter that a helper thread increments: what a read of the counter returns is
  the stream \<open>w_ticks\<close>, about which nothing is assumed, so that a read may spin forever (\<open>None\<close>).
\<close>

section \<open>The built-in thread handler\<close>

text \<open>\<open>jent_notime_init\<close>: the return code and the context it stores, if it stores one.\<close>

definition jent_notime_init :: "jent_world \<Rightarrow> int \<times> jent_notime_ctx option \<times> jent_world" where
  "jent_notime_init w =
     (let ncpu = w_ncpu w
      in if ncpu < 0 then (ncpu, None, w)
         else if ncpu < 2 then (- ENOENT, None, w)
         else let (ok, w) = jent_zalloc Blk_thread_ctx w
              in if \<not> ok then (- ENOMEM, None, w)
                 else (0, Some \<lparr>nc_notime_cpu = (if g_notime_cpu_configured w then g_notime_cpu w
                                                  else of_int (ncpu - 1)),
                                nc_notime_thread_started = False\<rparr>, w))"

definition jent_notime_fini :: "jent_notime_ctx option \<Rightarrow> jent_world \<Rightarrow> jent_world" where
  "jent_notime_fini ctx w = (if ctx \<noteq> None then jent_zfree Blk_thread_ctx w else w)"

text \<open>A call into the thread library: the non-negative error number it answers.\<close>

definition thread_call :: "jent_world \<Rightarrow> int \<times> jent_world" where
  "thread_call w = (w_thread_ret w (w_thread_pos w), w\<lparr>w_thread_pos := w_thread_pos w + 1\<rparr>)"

definition jent_notime_thread_create ::
  "jent_notime_ctx \<Rightarrow> jent_world \<Rightarrow> int \<times> jent_notime_ctx \<times> jent_world" where
  "jent_notime_thread_create ctx w =
     (let (e, w) = thread_call w; ret = - e
      in if ret \<noteq> 0 then (ret, ctx, w)
         else let (e, w) = thread_call w; ret = - e
              in if ret \<noteq> 0 then (ret, ctx, w)
                 else (0, ctx\<lparr>nc_notime_thread_started := True\<rparr>, w))"

definition jent_notime_thread_join :: "jent_notime_ctx \<Rightarrow> jent_notime_ctx" where
  "jent_notime_thread_join ctx =
     (if \<not> nc_notime_thread_started ctx then ctx else ctx\<lparr>nc_notime_thread_started := False\<rparr>)"

definition jent_notime_start ::
  "jent_notime_ctx option \<Rightarrow> jent_world \<Rightarrow> int \<times> jent_notime_ctx option \<times> jent_world" where
  "jent_notime_start ctx w =
     (case ctx of
        None \<Rightarrow> (- EINVAL, None, w)
      | Some c \<Rightarrow> let (ret, c, w) = jent_notime_thread_create c w in (ret, Some c, w))"

definition jent_notime_stop :: "jent_notime_ctx option \<Rightarrow> jent_notime_ctx option" where
  "jent_notime_stop ctx = map_option jent_notime_thread_join ctx"

section \<open>Calls through the handler\<close>

text \<open>
  A supplied function is the caller's code: it answers from the stream \<open>w_supplied_ret\<close> and keeps
  its context to itself. (A complete handler is what \<open>jent_notime_switch\<close> insists on.)
\<close>

definition supplied_call :: "jent_world \<Rightarrow> int \<times> jent_world" where
  "supplied_call w =
     (w_supplied_ret w (w_supplied_pos w), w\<lparr>w_supplied_pos := w_supplied_pos w + 1\<rparr>)"

definition call_init ::
  "handler_fn \<Rightarrow> jent_world \<Rightarrow> int \<times> jent_notime_ctx option \<times> jent_world" where
  "call_init f w =
     (case f of
        Builtin \<Rightarrow> jent_notime_init w
      | Supplied _ \<Rightarrow> let (r, w) = supplied_call w in (r, None, w))"

definition call_fini :: "handler_fn \<Rightarrow> jent_notime_ctx option \<Rightarrow> jent_world \<Rightarrow> jent_world" where
  "call_fini f ctx w =
     (case f of Builtin \<Rightarrow> jent_notime_fini ctx w | Supplied _ \<Rightarrow> snd (supplied_call w))"

definition call_start ::
  "handler_fn \<Rightarrow> jent_notime_ctx option \<Rightarrow> jent_world \<Rightarrow> int \<times> jent_notime_ctx option \<times> jent_world"
  where
  "call_start f ctx w =
     (case f of
        Builtin \<Rightarrow> jent_notime_start ctx w
      | Supplied _ \<Rightarrow> let (r, w) = supplied_call w in (r, ctx, w))"

definition call_stop ::
  "handler_fn \<Rightarrow> jent_notime_ctx option \<Rightarrow> jent_world \<Rightarrow> jent_notime_ctx option \<times> jent_world" where
  "call_stop f ctx w =
     (case f of
        Builtin \<Rightarrow> (jent_notime_stop ctx, w)
      | Supplied _ \<Rightarrow> (ctx, snd (supplied_call w)))"

section \<open>Configuration\<close>

definition jent_notime_block_switch :: "jent_world \<Rightarrow> jent_world" where
  "jent_notime_block_switch w = w\<lparr>g_notime_switch_blocked := True\<rparr>"

definition jent_notime_set_cpu :: "u64 \<Rightarrow> jent_world \<Rightarrow> int \<times> jent_world" where
  "jent_notime_set_cpu cpu w =
     (if g_notime_switch_blocked w then (- EAGAIN, w)
      else (0, w\<lparr>g_notime_cpu := cpu, g_notime_cpu_configured := True\<rparr>))"

definition jent_notime_switch ::
  "jent_notime_thread option \<Rightarrow> jent_world \<Rightarrow> int \<times> jent_world" where
  "jent_notime_switch new_thread w =
     (if g_notime_switch_blocked w then (- EAGAIN, w)
      else case new_thread of
        None \<Rightarrow> (- EINVAL, w)
      | Some t \<Rightarrow>
          if nt_init t = None \<or> nt_fini t = None \<or> nt_start t = None \<or> nt_stop t = None
          then (- EINVAL, w)
          else (0, w\<lparr>g_notime_thread := Some t\<rparr>))"

definition jent_notime_force :: "jent_world \<Rightarrow> jent_world" where
  "jent_notime_force w = w\<lparr>g_force_internal_timer := True\<rparr>"

definition jent_notime_forced :: "jent_world \<Rightarrow> bool" where
  "jent_notime_forced w = g_force_internal_timer w"

section \<open>The counter\<close>

definition jent_notime_settick ::
  "jent_world \<Rightarrow> rand_data \<Rightarrow> int \<times> jent_world \<times> rand_data" where
  "jent_notime_settick w ec =
     (if \<not> ec_enable_notime ec then (0, w, ec)
      else case g_notime_thread w of
        None \<Rightarrow> (0, w, ec)
      | Some t \<Rightarrow>
          let ec = ec\<lparr>ec_notime_interrupt := False, ec_notime_prev_timer := 0,
                      ec_notime_timer := 0\<rparr>;
              (ret, ctx, w) = call_start (the (nt_start t)) (ec_notime_thread_ctx ec) w
          in (ret, w, ec\<lparr>ec_notime_thread_ctx := ctx\<rparr>))"

definition jent_notime_unsettick :: "jent_world \<Rightarrow> rand_data \<Rightarrow> jent_world \<times> rand_data" where
  "jent_notime_unsettick w ec =
     (if \<not> ec_enable_notime ec then (w, ec)
      else case g_notime_thread w of
        None \<Rightarrow> (w, ec)
      | Some t \<Rightarrow>
          let ec = ec\<lparr>ec_notime_interrupt := True\<rparr>;
              (ctx, w) = call_stop (the (nt_stop t)) (ec_notime_thread_ctx ec) w
          in (w, ec\<lparr>ec_notime_thread_ctx := ctx\<rparr>))"

text \<open>A read of the volatile \<open>notime_timer\<close>, and the loop that waits until it has moved.\<close>

definition notime_timer_read :: "jent_world \<Rightarrow> u64 \<times> jent_world" where
  "notime_timer_read w = (w_ticks w (w_tick_pos w), w\<lparr>w_tick_pos := w_tick_pos w + 1\<rparr>)"

partial_function (option) notime_wait :: "u64 \<Rightarrow> jent_world \<Rightarrow> jent_world option" where
  "notime_wait prev w =
     (let (t, w) = notime_timer_read w in if t = prev then notime_wait prev w else Some w)"

definition jent_get_nstime_internal ::
  "jent_world \<Rightarrow> rand_data \<Rightarrow> (u64 \<times> jent_world \<times> rand_data) option" where
  "jent_get_nstime_internal w ec =
     (if ec_enable_notime ec
      then do {
        w \<leftarrow> notime_wait (ec_notime_prev_timer ec) w;
        let (t, w) = notime_timer_read w;
        Some (t, w, ec\<lparr>ec_notime_prev_timer := t\<rparr>)
      }
      else let (t, w) = jent_get_nstime w in Some (t, w, ec))"

definition jent_notime_enable_thread ::
  "jent_world \<Rightarrow> rand_data \<Rightarrow> int \<times> jent_world \<times> rand_data" where
  "jent_notime_enable_thread w ec =
     (case g_notime_thread w of
        None \<Rightarrow> (0, w, ec)
      | Some t \<Rightarrow>
          let (ret, ctx, w) = call_init (the (nt_init t)) w
          in (ret, w, if ctx = None then ec else ec\<lparr>ec_notime_thread_ctx := ctx\<rparr>))"

definition jent_notime_disable :: "jent_world \<Rightarrow> rand_data \<Rightarrow> jent_world" where
  "jent_notime_disable w ec =
     (case g_notime_thread w of
        None \<Rightarrow> w
      | Some t \<Rightarrow> call_fini (the (nt_fini t)) (ec_notime_thread_ctx ec) w)"

text \<open>\<open>jent_time_entropy_init\<close>, the power-on test of \<open>jitterentropy-base.c\<close>, is the argument \<open>te\<close>.\<close>

definition jent_notime_enable ::
  "(u32 \<Rightarrow> u32 \<Rightarrow> jent_world \<Rightarrow> (int \<times> jent_world) option) \<Rightarrow>
     jent_world \<Rightarrow> rand_data \<Rightarrow> u32 \<Rightarrow> (int \<times> jent_world \<times> rand_data) option" where
  "jent_notime_enable te w ec flags =
     (if g_force_internal_timer w \<or> flags AND JENT_FORCE_INTERNAL_TIMER \<noteq> 0
      then do {
        (ret, w) \<leftarrow> (if \<not> g_force_internal_timer w
                     then te (ec_osr ec) (flags OR JENT_FORCE_INTERNAL_TIMER) w
                     else Some (0, w));
        if ret \<noteq> 0 then Some (EHEALTH, w, ec)
        else Some (jent_notime_enable_thread w (ec\<lparr>ec_enable_notime := True\<rparr>))
      }
      else Some (0, w, ec))"

section \<open>The wait for a tick\<close>

lemma notime_wait_moved:
  "w_ticks w (w_tick_pos w) \<noteq> prev \<Longrightarrow>
     notime_wait prev w = Some (w\<lparr>w_tick_pos := w_tick_pos w + 1\<rparr>)"
  by (simp add: notime_wait.simps notime_timer_read_def)

lemma notime_wait_same:
  "w_ticks w (w_tick_pos w) = prev \<Longrightarrow>
     notime_wait prev w = notime_wait prev (w\<lparr>w_tick_pos := w_tick_pos w + 1\<rparr>)"
  by (subst notime_wait.simps) (simp add: notime_timer_read_def)

lemma notime_wait_returns:
  "w_ticks w (w_tick_pos w + n) \<noteq> prev \<Longrightarrow> \<forall>k < n. w_ticks w (w_tick_pos w + k) = prev \<Longrightarrow>
     notime_wait prev w = Some (w\<lparr>w_tick_pos := w_tick_pos w + n + 1\<rparr>)"
proof (induction n arbitrary: w)
  case 0
  then show ?case by (simp add: notime_wait_moved)
next
  case (Suc n)
  let ?w = "w\<lparr>w_tick_pos := w_tick_pos w + 1\<rparr>"
  have "w_ticks w (w_tick_pos w) = prev" using Suc.prems(2) by (auto dest: spec [of _ 0])
  moreover have "notime_wait prev ?w = Some (?w\<lparr>w_tick_pos := w_tick_pos ?w + n + 1\<rparr>)"
    using Suc.prems by (intro Suc.IH) auto
  ultimately show ?case by (simp add: notime_wait_same)
qed

lemma notime_wait_Some:
  assumes "notime_wait prev w = Some w'"
  shows "\<exists>n. w_ticks w (w_tick_pos w + n) \<noteq> prev \<and> (\<forall>k < n. w_ticks w (w_tick_pos w + k) = prev)"
proof (rule notime_wait.raw_induct [where P = "\<lambda>prev w w'.
    \<exists>n. w_ticks w (w_tick_pos w + n) \<noteq> prev \<and> (\<forall>k < n. w_ticks w (w_tick_pos w + k) = prev)",
    OF _ assms])
  fix wait :: "u64 \<Rightarrow> jent_world \<Rightarrow> jent_world option" and prev w w'
  assume IH: "\<And>prev w w'. wait prev w = Some w' \<Longrightarrow>
      \<exists>n. w_ticks w (w_tick_pos w + n) \<noteq> prev \<and> (\<forall>k < n. w_ticks w (w_tick_pos w + k) = prev)"
    and r: "(let (t, w) = notime_timer_read w in if t = prev then wait prev w else Some w) = Some w'"
  show "\<exists>n. w_ticks w (w_tick_pos w + n) \<noteq> prev \<and> (\<forall>k < n. w_ticks w (w_tick_pos w + k) = prev)"
  proof (cases "w_ticks w (w_tick_pos w) = prev")
    case True
    with r have "wait prev (w\<lparr>w_tick_pos := w_tick_pos w + 1\<rparr>) = Some w'"
      by (simp add: notime_timer_read_def)
    from IH [OF this] obtain n where n: "w_ticks w (w_tick_pos w + 1 + n) \<noteq> prev"
      "\<forall>k < n. w_ticks w (w_tick_pos w + 1 + k) = prev"
      by auto
    then have "\<forall>k < Suc n. w_ticks w (w_tick_pos w + k) = prev"
      using True by (simp add: All_less_Suc2)
    with n(1) show ?thesis by (intro exI [of _ "Suc n"]) simp
  next
    case False
    then show ?thesis by (intro exI [of _ 0]) simp
  qed
qed

lemma first_tick:
  assumes "w_ticks w (w_tick_pos w + m) \<noteq> prev"
  obtains n where "w_ticks w (w_tick_pos w + n) \<noteq> prev"
    "\<forall>k < n. w_ticks w (w_tick_pos w + k) = prev"
proof -
  let ?P = "\<lambda>n. w_ticks w (w_tick_pos w + n) \<noteq> prev"
  show ?thesis
    by (rule that [of "LEAST n. ?P n"])
      (use assms LeastI [of ?P m] not_less_Least [of _ ?P] in blast)+
qed

text \<open>With the hardware time stamp a read always returns.\<close>

lemma jent_get_nstime_internal_hw:
  "\<not> ec_enable_notime ec \<Longrightarrow> jent_get_nstime_internal w ec =
     Some (w_clock w (w_clock_pos w), w\<lparr>w_clock_pos := w_clock_pos w + 1\<rparr>, ec)"
  by (simp add: jent_get_nstime_internal_def jent_get_nstime_def)

text \<open>A time read touches two positions of the environment and \<open>notime_prev_timer\<close> only.\<close>

lemma jent_get_nstime_internal_frame:
  assumes "jent_get_nstime_internal w ec = Some (t, w', ec')"
  obtains p q u where "w' = w\<lparr>w_clock_pos := p, w_tick_pos := q\<rparr>"
    "ec' = ec\<lparr>ec_notime_prev_timer := u\<rparr>"
proof (cases "ec_enable_notime ec")
  case True
  then obtain w1 where w1: "notime_wait (ec_notime_prev_timer ec) w = Some w1"
    "w' = w1\<lparr>w_tick_pos := w_tick_pos w1 + 1\<rparr>" "ec' = ec\<lparr>ec_notime_prev_timer := t\<rparr>"
    using assms by (auto simp: jent_get_nstime_internal_def notime_timer_read_def elim!: bind_SomeE)
  obtain n where "w1 = w\<lparr>w_tick_pos := w_tick_pos w + n + 1\<rparr>"
    using notime_wait_Some [OF w1(1)] notime_wait_returns w1(1) by fastforce
  with w1 show ?thesis
    by (intro that [where p = "w_clock_pos w" and q = "w_tick_pos w + n + 2" and u = t]) simp_all
next
  case False
  then have "w' = w\<lparr>w_clock_pos := w_clock_pos w + 1\<rparr>" "ec' = ec"
    using assms by (simp_all add: jent_get_nstime_internal_hw)
  then show ?thesis
    by (intro that [where p = "w_clock_pos w + 1" and q = "w_tick_pos w" and
        u = "ec_notime_prev_timer ec"]) simp_all
qed

section \<open>The handler and the heap\<close>

lemma thread_calls_heap [simp]:
  "w_heap (snd (thread_call w)) = w_heap w" "w_heap (snd (supplied_call w)) = w_heap w"
  by (simp_all add: thread_call_def supplied_call_def)

text \<open>A complete handler.\<close>

definition handler_complete :: "jent_world \<Rightarrow> bool" where
  "handler_complete w \<longleftrightarrow>
     (\<exists>t. g_notime_thread w = Some t \<and> nt_init t \<noteq> None \<and> nt_fini t \<noteq> None \<and>
          nt_start t \<noteq> None \<and> nt_stop t \<noteq> None)"

section \<open>Properties\<close>

text \<open>
  C31. A read of the internal timer returns exactly when the counter moves on from the value read
  last: it hands out the value that follows the first change and remembers it. If no thread ever
  increments the counter it spins for ever, which is what the check of \<open>jent_notime_switch\<close> is for.
\<close>

theorem notime_read_returns_iff_tick:
  assumes "ec_enable_notime ec"
  shows "((\<exists>r. jent_get_nstime_internal w ec = Some r) \<longleftrightarrow>
      (\<exists>n. w_ticks w (w_tick_pos w + n) \<noteq> ec_notime_prev_timer ec)) \<and>
    (\<forall>n. w_ticks w (w_tick_pos w + n) \<noteq> ec_notime_prev_timer ec \<longrightarrow>
      (\<forall>k < n. w_ticks w (w_tick_pos w + k) = ec_notime_prev_timer ec) \<longrightarrow>
      jent_get_nstime_internal w ec =
        Some (w_ticks w (w_tick_pos w + n + 1), w\<lparr>w_tick_pos := w_tick_pos w + n + 2\<rparr>,
              ec\<lparr>ec_notime_prev_timer := w_ticks w (w_tick_pos w + n + 1)\<rparr>))"
proof -
  have step: "jent_get_nstime_internal w ec =
        Some (w_ticks w (w_tick_pos w + n + 1), w\<lparr>w_tick_pos := w_tick_pos w + n + 2\<rparr>,
              ec\<lparr>ec_notime_prev_timer := w_ticks w (w_tick_pos w + n + 1)\<rparr>)"
    if "w_ticks w (w_tick_pos w + n) \<noteq> ec_notime_prev_timer ec"
      "\<forall>k < n. w_ticks w (w_tick_pos w + k) = ec_notime_prev_timer ec" for n
    using assms that
    by (simp add: jent_get_nstime_internal_def notime_wait_returns notime_timer_read_def)
  have "(\<exists>r. jent_get_nstime_internal w ec = Some r) \<longleftrightarrow>
      (\<exists>n. w_ticks w (w_tick_pos w + n) \<noteq> ec_notime_prev_timer ec)"
  proof
    assume "\<exists>r. jent_get_nstime_internal w ec = Some r"
    then obtain w' where "notime_wait (ec_notime_prev_timer ec) w = Some w'"
      using assms by (auto simp: jent_get_nstime_internal_def elim!: bind_SomeE)
    from notime_wait_Some [OF this]
    show "\<exists>n. w_ticks w (w_tick_pos w + n) \<noteq> ec_notime_prev_timer ec" by blast
  next
    assume "\<exists>n. w_ticks w (w_tick_pos w + n) \<noteq> ec_notime_prev_timer ec"
    then show "\<exists>r. jent_get_nstime_internal w ec = Some r"
      using step by (metis first_tick)
  qed
  with step show ?thesis by blast
qed

theorem notime_read_returns_iff_tick_witness:
  "jent_get_nstime_internal test_world (zalloc_rand_data\<lparr>ec_enable_notime := True\<rparr>) =
     Some (2, test_world\<lparr>w_tick_pos := 3\<rparr>,
       zalloc_rand_data\<lparr>ec_enable_notime := True, ec_notime_prev_timer := 2\<rparr>)"
proof -
  let ?e = "zalloc_rand_data\<lparr>ec_enable_notime := True\<rparr>"
  have "ec_enable_notime ?e" "w_ticks test_world (w_tick_pos test_world + 1) \<noteq> ec_notime_prev_timer ?e"
    "\<forall>k < 1. w_ticks test_world (w_tick_pos test_world + k) = ec_notime_prev_timer ?e"
    by (simp_all add: test_world_def zalloc_rand_data_def)
  with conjunct2 [OF notime_read_returns_iff_tick [of ?e test_world], THEN spec, of 1]
  have "jent_get_nstime_internal test_world ?e =
      Some (w_ticks test_world (w_tick_pos test_world + 1 + 1),
        test_world\<lparr>w_tick_pos := w_tick_pos test_world + 1 + 2\<rparr>,
        ?e\<lparr>ec_notime_prev_timer := w_ticks test_world (w_tick_pos test_world + 1 + 1)\<rparr>)"
    by blast
  then show ?thesis by (simp add: test_world_def zalloc_rand_data_def)
qed

text \<open>
  The thread handler that the timer calls is always complete: replacing it is refused with
  \<open>-EAGAIN\<close> once the library is initialised and with \<open>-EINVAL\<close> when the handler or one of its four
  functions is missing, and changes nothing then; otherwise the new handler is installed. So the
  counter reads never wait for a thread that no handler could have started.
\<close>

theorem notime_switch_keeps_complete:
  assumes "jent_notime_switch t w = (r, w')"
  shows "(r = 0 \<longrightarrow> handler_complete w' \<and> g_notime_thread w' = t \<and> \<not> g_notime_switch_blocked w) \<and>
     (r \<noteq> 0 \<longrightarrow> w' = w) \<and> (handler_complete w \<longrightarrow> handler_complete w') \<and>
     (g_notime_switch_blocked w \<longrightarrow> r = - EAGAIN)"
  using assms
  by (auto simp: jent_notime_switch_def handler_complete_def split: if_splits option.splits)

theorem notime_switch_keeps_complete_witness:
  "handler_complete (test_world\<lparr>g_notime_thread := Some jent_notime_thread_builtin\<rparr>)"
proof -
  have "jent_notime_switch (Some jent_notime_thread_builtin) test_world =
      (0, test_world\<lparr>g_notime_thread := Some jent_notime_thread_builtin\<rparr>)"
    by (simp add: jent_notime_switch_def jent_notime_thread_builtin_def test_world_def)
  from notime_switch_keeps_complete [OF this] show ?thesis by simp
qed

end
