(* ===== verification/Noise.thy ===== *)
theory Noise
  imports Health Timer
begin

unbundle bit_operations_syntax

text \<open>
  \<open>jitterentropy-noise.c\<close>: the two noise sources (the hash loop and the memory accesses), the three
  measurements that time them, test the delta and insert it into the entropy pool, and the read of
  a block of output. The collection of a block of entropy is in theory \<open>Collect\<close>.

  \<open>None\<close> is a computation that has no result: a read of the internal timer that spins, or undefined
  behaviour (a \<open>NULL\<close> pointer dereferenced, an access outside the memory region, a division by
  zero).
\<close>

section \<open>The intermediary buffer\<close>

abbreviation (input) "JENT_OFFSET_TIMEDELTA \<equiv> 0 :: nat"
abbreviation (input) "JENT_OFFSET_DOMAINSEPARATOR \<equiv> 8 :: nat"
abbreviation (input) "JENT_OFFSET_HASH_BLOCK \<equiv> 9 :: nat"

definition JENT_SIZEOF_INTERMEDIARY :: nat where
  "JENT_SIZEOF_INTERMEDIARY = JENT_SHA3_256_SIZE_BLOCK"

text \<open>The bytes of an integer in memory (little-endian), and a division the C code performs.\<close>

definition word_bytes :: "'a::len word \<Rightarrow> u8 list" where
  "word_bytes v = map (\<lambda>k. ucast (drop_bit (8 * k) v)) [0..<LENGTH('a) div 8]"

definition udiv64 :: "u64 \<Rightarrow> u64 \<Rightarrow> u64 option" where
  "udiv64 a b = (if b = 0 then None else Some (a div b))"

definition jent_hash_insert ::
  "rand_data \<Rightarrow> u64 \<Rightarrow> u8 list \<Rightarrow> (rand_data \<times> u8 list) option" where
  "jent_hash_insert ec time_delta intermediary = do {
     let intermediary = memcpy_at intermediary JENT_OFFSET_TIMEDELTA (word_bytes time_delta);
     ctx \<leftarrow> ec_hash_state ec;
     let ec = ec\<lparr>ec_hash_state :=
                Some (jent_sha3_update ctx (take (unat (jent_sha3_rate ctx)) intermediary))\<rparr>;
     Some (ec, memset_at intermediary 0 0 JENT_SIZEOF_INTERMEDIARY)
   }"

section \<open>The hash loop\<close>

text \<open>One round; the digest lies in the intermediary buffer.\<close>

definition hash_loop_round ::
  "rand_data \<Rightarrow> jent_sha_ctx \<times> u8 list \<Rightarrow> u64 \<Rightarrow> jent_sha_ctx \<times> u8 list" where
  "hash_loop_round ec = (\<lambda>(ctx, intermediary) j.
     let ctx = jent_sha3_update ctx
                 (take JENT_SHA3_256_SIZE_DIGEST (drop JENT_OFFSET_HASH_BLOCK intermediary));
         ctx = jent_sha3_update ctx (word_bytes (ec_rct_count ec));
         ctx = jent_sha3_update ctx (word_bytes (ec_apt_cutoff ec));
         ctx = jent_sha3_update ctx (word_bytes (ec_apt_observations ec));
         ctx = jent_sha3_update ctx (word_bytes (ec_apt_count ec));
         ctx = jent_sha3_update ctx (word_bytes (ec_apt_base ec));
         ctx = jent_sha3_update ctx (word_bytes (ec_rct_mem_count ec));
         ctx = jent_sha3_update ctx (word_bytes j);
         (digest, ctx) = jent_sha3_final ctx
                 (take JENT_SHA3_256_SIZE_DIGEST (drop JENT_OFFSET_HASH_BLOCK intermediary))
     in (ctx, memcpy_at intermediary JENT_OFFSET_HASH_BLOCK digest))"

definition jent_hash_loop :: "jent_world \<Rightarrow> rand_data \<Rightarrow> u8 list \<Rightarrow> u64 \<Rightarrow> u8 list" where
  "jent_hash_loop w ec intermediary loop_cnt =
     (let hash_loop_cnt = (if loop_cnt \<noteq> 0 then loop_cnt else ucast (ec_hashloopcnt ec));
          ctx = jent_sha3_256_init (w_stack_ctx w);
          (ctx, intermediary) =
            foldl (\<lambda>s j. hash_loop_round ec s (of_nat j)) (ctx, intermediary)
              [0..<unat hash_loop_cnt]
      in intermediary)"

section \<open>The memory accesses\<close>

definition uint32rotl :: "u32 \<Rightarrow> nat \<Rightarrow> u32" where
  "uint32rotl x k = push_bit k x OR drop_bit (32 - k) x"

definition xoshiro128starstar :: "u32 list \<Rightarrow> u32 \<times> u32 list" where
  "xoshiro128starstar s =
     (let result = uint32rotl (s ! 1 * 5) 7 * 9;
          t = push_bit 9 (s ! 1);
          s = s[2 := s ! 2 XOR s ! 0];
          s = s[3 := s ! 3 XOR s ! 1];
          s = s[1 := s ! 1 XOR s ! 2];
          s = s[0 := s ! 0 XOR s ! 3];
          s = s[2 := s ! 2 XOR t];
          s = s[3 := uint32rotl (s ! 3) 11]
      in (result, s))"

text \<open>\<open>*tmpval = (*tmpval + 1) & 0xff\<close> at offset \<open>i\<close> of the memory.\<close>

definition touch_byte :: "u8 list \<Rightarrow> nat \<Rightarrow> u8 list option" where
  "touch_byte mem i = (if i < length mem then Some (mem[i := mem ! i + 1]) else None)"

text \<open>Byte \<open>i\<close> of the union \<open>prngState\<close> is mixed with a time stamp.\<close>

definition prng_mix :: "u32 list \<Rightarrow> nat \<Rightarrow> u64 \<Rightarrow> u32 list" where
  "prng_mix u i t =
     u[i div 4 := u ! (i div 4) XOR push_bit (8 * (i mod 4)) (ucast (ucast (t AND 0xff) :: u8))]"

fun prng_seed :: "nat list \<Rightarrow> jent_world \<Rightarrow> rand_data \<Rightarrow> u32 list \<Rightarrow>
    (jent_world \<times> rand_data \<times> u32 list) option" where
  "prng_seed [] w ec u = Some (w, ec, u)"
| "prng_seed (i # is) w ec u = do {
     (t, w, ec) \<leftarrow> jent_get_nstime_internal w ec;
     prng_seed is w ec (prng_mix u i t)
   }"

fun memaccess_pseudorandom_loop :: "nat \<Rightarrow> u32 \<Rightarrow> u32 list \<Rightarrow> u8 list \<Rightarrow> u8 list option" where
  "memaccess_pseudorandom_loop 0 addressMask u mem = Some mem"
| "memaccess_pseudorandom_loop (Suc n) addressMask u mem = do {
     let (r, u) = xoshiro128starstar u;
     mem \<leftarrow> touch_byte mem (unat (r AND addressMask));
     memaccess_pseudorandom_loop n addressMask u mem
   }"

text \<open>
  The time measurement around an access loop, made only when the caller passes a pointer for it
  (\<open>current_delta \<noteq> None\<close>, the value it points to): the start and the end of the measurement.
\<close>

definition measure_start ::
  "jent_world \<Rightarrow> rand_data \<Rightarrow> u64 option \<Rightarrow> u64 \<Rightarrow> (u64 \<times> jent_world \<times> rand_data) option" where
  "measure_start w ec current_delta t0 =
     (if current_delta \<noteq> None then jent_get_nstime_internal w ec else Some (t0, w, ec))"

definition measure_end ::
  "jent_world \<Rightarrow> rand_data \<Rightarrow> u64 option \<Rightarrow> u64 \<Rightarrow>
     (u64 option \<times> jent_world \<times> rand_data) option" where
  "measure_end w ec current_delta time_now_start =
     (if current_delta \<noteq> None
      then do {
        (time_now_end, w, ec) \<leftarrow> jent_get_nstime_internal w ec;
        q \<leftarrow> udiv64 (jent_delta time_now_start time_now_end) (ec_common_timer_gcd ec);
        Some (Some (0 + q), w, ec)
      }
      else Some (None, w, ec))"

definition jent_memaccess_pseudorandom ::
  "jent_world \<Rightarrow> rand_data \<Rightarrow> u64 \<Rightarrow> u64 option \<Rightarrow>
     (u64 option \<times> jent_world \<times> rand_data) option" where
  "jent_memaccess_pseudorandom w ec loop_cnt current_delta =
     (case ec_mem ec of
        None \<Rightarrow> Some (current_delta, w, ec)
      | Some mem \<Rightarrow> do {
          let mem_loop_cnt = (if loop_cnt \<noteq> 0 then loop_cnt else ucast (ec_memaccessloops ec));
          let addressMask = ec_memmask ec;
          (w, ec, u) \<leftarrow>
            prng_seed [0..<16] w ec [0x8e93eec0, 0xce65608a, 0xa8d46b46, 0xe83cef69];
          (t0, w, ec) \<leftarrow> measure_start w ec current_delta 0;
          mem \<leftarrow> memaccess_pseudorandom_loop (unat mem_loop_cnt) addressMask u mem;
          measure_end w (ec\<lparr>ec_mem := Some mem\<rparr>) current_delta t0
        })"

fun memaccess_deterministic_loop ::
  "nat \<Rightarrow> u32 \<Rightarrow> u32 \<Rightarrow> u8 list \<Rightarrow> (u32 \<times> u8 list) option" where
  "memaccess_deterministic_loop 0 wrap loc mem = Some (loc, mem)"
| "memaccess_deterministic_loop (Suc n) wrap loc mem = do {
     mem \<leftarrow> touch_byte mem (unat loc);
     let loc = loc + JENT_MEMORY_BLOCKSIZE - 1;
     loc \<leftarrow> (if wrap = 0 then None else Some (loc mod wrap));
     memaccess_deterministic_loop n wrap loc mem
   }"

definition jent_memaccess_deterministic ::
  "jent_world \<Rightarrow> rand_data \<Rightarrow> u64 \<Rightarrow> u64 option \<Rightarrow>
     (u64 option \<times> jent_world \<times> rand_data) option" where
  "jent_memaccess_deterministic w ec loop_cnt current_delta =
     (case ec_mem ec of
        None \<Rightarrow> Some (current_delta, w, ec)
      | Some mem \<Rightarrow> do {
          let mem_loop_cnt = (if loop_cnt \<noteq> 0 then loop_cnt else ucast (ec_memaccessloops ec));
          let wrap = ec_memmask ec + 1;
          (t0, w, ec) \<leftarrow> measure_start w ec current_delta 0;
          (loc, mem) \<leftarrow>
            memaccess_deterministic_loop (unat mem_loop_cnt) wrap (ec_memlocation ec) mem;
          measure_end w (ec\<lparr>ec_mem := Some mem, ec_memlocation := loc\<rparr>) current_delta t0
        })"

section \<open>The measurements\<close>

text \<open>The result is the verdict of the stuck test and the delta handed to a test interface.\<close>

type_synonym measurement =
  "jent_world \<Rightarrow> rand_data \<Rightarrow> u64 \<Rightarrow> (bool \<times> u64 \<times> jent_world \<times> rand_data) option"

definition zero_intermediary :: "u8 list" where
  "zero_intermediary = replicate JENT_SIZEOF_INTERMEDIARY 0"

definition jent_measure_jitter_ntg1_memaccess :: "collect \<Rightarrow> measurement" where
  "jent_measure_jitter_ntg1_memaccess rd w ec loop_cnt = do {
     let intermediary = zero_intermediary;
     (delta, w, ec) \<leftarrow> jent_memaccess_deterministic w ec
       (if loop_cnt \<noteq> 0 then loop_cnt
        else ucast (ec_memaccessloops ec * JENT_MEM_ACC_LOOP_INIT)) (Some 0);
     current_delta \<leftarrow> delta;
     (stuck, w, ec) \<leftarrow> jent_stuck rd w ec current_delta;
     let intermediary = intermediary[JENT_OFFSET_DOMAINSEPARATOR := 0x01];
     (ec, _) \<leftarrow> jent_hash_insert ec current_delta intermediary;
     Some (stuck, current_delta, w, ec)
   }"

definition jent_measure_jitter_ntg1_sha3 :: "collect \<Rightarrow> measurement" where
  "jent_measure_jitter_ntg1_sha3 rd w ec loop_cnt = do {
     let intermediary = zero_intermediary;
     (t, w, ec) \<leftarrow> jent_get_nstime_internal w ec;
     let ec = ec\<lparr>ec_prev_time := t\<rparr>;
     let intermediary = jent_hash_loop w ec intermediary
       (if loop_cnt \<noteq> 0 then loop_cnt else ucast (ec_hashloopcnt ec * JENT_HASH_LOOP_INIT));
     (time_now, w, ec) \<leftarrow> jent_get_nstime_internal w ec;
     current_delta \<leftarrow> udiv64 (jent_delta (ec_prev_time ec) time_now) (ec_common_timer_gcd ec);
     (stuck, w, ec) \<leftarrow> jent_stuck rd w ec current_delta;
     let intermediary = intermediary[JENT_OFFSET_DOMAINSEPARATOR := 0x02];
     (ec, _) \<leftarrow> jent_hash_insert ec current_delta intermediary;
     Some (stuck, current_delta, w, ec)
   }"

definition jent_measure_jitter :: "collect \<Rightarrow> measurement" where
  "jent_measure_jitter rd w ec loop_cnt = do {
     let intermediary = zero_intermediary;
     (_, w, ec) \<leftarrow> jent_memaccess_pseudorandom w ec loop_cnt None;
     (time_now, w, ec) \<leftarrow> jent_get_nstime_internal w ec;
     current_delta \<leftarrow> udiv64 (jent_delta (ec_prev_time ec) time_now) (ec_common_timer_gcd ec);
     let ec = ec\<lparr>ec_prev_time := time_now\<rparr>;
     (stuck, w, ec) \<leftarrow> jent_stuck rd w ec current_delta;
     let intermediary = jent_hash_loop w ec intermediary loop_cnt;
     let intermediary = intermediary[JENT_OFFSET_DOMAINSEPARATOR := 0x03];
     (ec, _) \<leftarrow> jent_hash_insert ec current_delta intermediary;
     Some (stuck, current_delta, w, ec)
   }"

section \<open>The output\<close>

definition jent_read_random_block ::
  "rand_data \<Rightarrow> u8 list \<Rightarrow> nat \<Rightarrow> nat \<Rightarrow> (u8 list \<times> rand_data) option" where
  "jent_read_random_block ec dst off dst_len = do {
     ctx \<leftarrow> ec_hash_state ec;
     let (dst, ctx) = jent_drbg_generate_block ctx dst off dst_len;
     Some (dst, ec\<lparr>ec_hash_state := Some ctx\<rparr>)
   }"

section \<open>The walk over the memory\<close>

lemma touch_byte_inside [simp]:
  "i < length mem \<Longrightarrow> touch_byte mem i = Some (mem[i := mem ! i + 1])"
  by (simp add: touch_byte_def)

lemma unat_and_le: "unat (r AND a) \<le> unat a" for a :: "'a::len word"
  using word_and_le1 [of r a] by (simp add: word_le_nat_alt)

lemma pseudorandom_loop_returns:
  assumes "unat a < length mem"
  shows "returns (memaccess_pseudorandom_loop n a u mem) (\<lambda>mem'. length mem' = length mem)"
  using assms
proof (induction n arbitrary: u mem)
  case (Suc n)
  obtain r u' where u: "xoshiro128starstar u = (r, u')" by (cases "xoshiro128starstar u")
  have "unat (r AND a) < length mem" using unat_and_le [of r a] Suc.prems by simp
  with Suc.prems u show ?case
    using Suc.IH [of "mem[unat (r AND a) := mem ! unat (r AND a) + 1]" u'] by simp
qed simp

lemma deterministic_loop_returns:
  assumes "wrap \<noteq> 0" "unat wrap \<le> length mem" "unat loc < unat wrap"
  shows "returns (memaccess_deterministic_loop n wrap loc mem)
     (\<lambda>(loc', mem'). length mem' = length mem \<and> unat loc' < unat wrap)"
  using assms
proof (induction n arbitrary: loc mem)
  case (Suc n)
  have "unat ((loc + JENT_MEMORY_BLOCKSIZE - 1) mod wrap) < unat wrap"
    using Suc.prems(1) by (simp add: unat_mod unat_gt_0)
  then show ?case
    using Suc.prems Suc.IH [of "mem[unat loc := mem ! unat loc + 1]"
        "(loc + JENT_MEMORY_BLOCKSIZE - 1) mod wrap"]
    by (simp add: Let_def)
qed simp

text \<open>Bumping the bytes at a list of distinct offsets.\<close>

definition bump_byte :: "u8 list \<Rightarrow> nat \<Rightarrow> u8 list" where
  "bump_byte mem i = mem[i := mem ! i + 1]"

lemma length_bump_byte [simp]: "length (bump_byte mem i) = length mem"
  by (simp add: bump_byte_def)

lemma bump_distinct:
  assumes "distinct is" "\<forall>i \<in> set is. i < length mem"
  shows "foldl bump_byte mem is =
     map (\<lambda>i. if i \<in> set is then mem ! i + 1 else mem ! i) [0..<length mem]"
  using assms
proof (induction "is" arbitrary: mem)
  case Nil
  show ?case by (simp add: map_nth)
next
  case (Cons j js)
  then have "foldl bump_byte mem (j # js) =
      map (\<lambda>i. if i \<in> set js then bump_byte mem j ! i + 1 else bump_byte mem j ! i)
        [0..<length mem]"
    by simp
  also have "\<dots> = map (\<lambda>i. if i \<in> set (j # js) then mem ! i + 1 else mem ! i) [0..<length mem]"
    using Cons.prems by (intro map_cong) (auto simp: bump_byte_def nth_list_update)
  finally show ?case .
qed

lemma deterministic_step:
  assumes "k \<le> 31" "l < 2 ^ k"
  shows "((of_nat l :: u32) + JENT_MEMORY_BLOCKSIZE - 1) mod 2 ^ k = of_nat ((l + 127) mod 2 ^ k)"
    "unat (of_nat l :: u32) = l"
proof -
  have p: "(2::nat) ^ k \<le> 2 ^ 31" using assms(1) by (rule power_increasing) simp
  with assms(2) show "unat (of_nat l :: u32) = l"
    by (intro unat_of_nat_small) simp
  have s: "unat (of_nat (l + 127) :: u32) = l + 127"
    using assms(2) p by (intro unat_of_nat_small) simp
  have q: "unat (2 ^ k :: u32) = 2 ^ k"
    using unat_of_nat_small [of "2 ^ k", where 'a = 32] p by simp
  have "unat (of_nat ((l + 127) mod 2 ^ k) :: u32) = (l + 127) mod 2 ^ k"
    using p mod_less_divisor [of "2 ^ k" "l + 127"]
    by (intro unat_of_nat_small) (simp del: mod_less_divisor)
  with s q have "(of_nat (l + 127) :: u32) mod 2 ^ k = of_nat ((l + 127) mod 2 ^ k)"
    by (simp add: word_unat_eq_iff unat_mod del: of_nat_add)
  then show "((of_nat l :: u32) + JENT_MEMORY_BLOCKSIZE - 1) mod 2 ^ k = of_nat ((l + 127) mod 2 ^ k)"
    by (simp add: ac_simps)
qed

lemma deterministic_loop_eq:
  assumes "k \<le> 31" "l < 2 ^ k" "length mem = 2 ^ k"
  shows "memaccess_deterministic_loop n (2 ^ k) (of_nat l) mem =
     Some (of_nat ((l + 127 * n) mod 2 ^ k),
           foldl bump_byte mem (map (\<lambda>j. (l + 127 * j) mod 2 ^ k) [0..<n]))"
  using assms(2,3)
proof (induction n arbitrary: l mem)
  case 0
  then show ?case by simp
next
  case (Suc n)
  note s = deterministic_step [OF assms(1) Suc.prems(1)]
  have nz: "(2 ^ k :: u32) \<noteq> 0" using assms(1) by simp
  have m: "map (\<lambda>j. (l + 127 * j) mod 2 ^ k) [0..<Suc n] =
      l # map (\<lambda>j. ((l + 127) mod 2 ^ k + 127 * j) mod 2 ^ k) [0..<n]"
    using Suc.prems(1) by (simp add: upt_conv_Cons map_Suc_upt [symmetric] mod_add_right_eq
      ac_simps del: upt_Suc)
  have "memaccess_deterministic_loop (Suc n) (2 ^ k) (of_nat l) mem =
      memaccess_deterministic_loop n (2 ^ k) (of_nat ((l + 127) mod 2 ^ k)) (bump_byte mem l)"
    using Suc.prems s nz by (simp add: Let_def bump_byte_def)
  also have "\<dots> = Some (of_nat (((l + 127) mod 2 ^ k + 127 * n) mod 2 ^ k),
      foldl bump_byte (bump_byte mem l)
        (map (\<lambda>j. ((l + 127) mod 2 ^ k + 127 * j) mod 2 ^ k) [0..<n]))"
    using Suc.prems by (intro Suc.IH) (simp_all add: bump_byte_def)
  finally show ?case
    unfolding m by (simp add: mod_add_right_eq ac_simps del: memaccess_deterministic_loop.simps)
qed

lemma walk_inj:
  assumes "i < 2 ^ k" "j < 2 ^ k" "(l + 127 * i) mod 2 ^ k = (l + 127 * j) mod (2 ^ k :: nat)"
  shows "i = j"
proof -
  have "i = j" if "i \<le> j" "j < 2 ^ k" "(l + 127 * i) mod 2 ^ k = (l + 127 * j) mod (2 ^ k :: nat)"
    for i j
  proof -
    have "2 ^ k dvd (l + 127 * j) - (l + 127 * i)"
      using that(1,3) by (intro mod_eq_dvd_iff_nat [THEN iffD1]) simp_all
    then have "2 ^ k dvd 127 * (j - i)" using that(1) by (simp add: diff_mult_distrib2)
    then have "2 ^ k dvd j - i" by (subst (asm) coprime_dvd_mult_right_iff) simp_all
    with that(1,2) show "i = j" by (metis diff_is_0_eq dvd_imp_le le_antisym less_imp_diff_less
      linorder_not_less zero_less_diff)
  qed
  from this [of i j] this [of j i] assms show ?thesis by (cases "i \<le> j") simp_all
qed

lemma walk_covers:
  assumes "l < 2 ^ k"
  shows "distinct (map (\<lambda>j. (l + 127 * j) mod 2 ^ k) [0..<2 ^ k])"
    "set (map (\<lambda>j. (l + 127 * j) mod 2 ^ k) [0..<2 ^ k]) = {0..<2 ^ k :: nat}"
proof -
  show d: "distinct (map (\<lambda>j. (l + 127 * j) mod 2 ^ k) [0..<2 ^ k])"
    by (auto simp: distinct_map inj_on_def dest: walk_inj)
  have "set (map (\<lambda>j. (l + 127 * j) mod 2 ^ k) [0..<2 ^ k]) \<subseteq> {0..<2 ^ k}" by auto
  moreover have "card (set (map (\<lambda>j. (l + 127 * j) mod 2 ^ k) [0..<2 ^ k])) = 2 ^ k"
    by (simp only: distinct_card [OF d]) simp
  ultimately show "set (map (\<lambda>j. (l + 127 * j) mod 2 ^ k) [0..<2 ^ k]) = {0..<2 ^ k :: nat}"
    by (intro card_subset_eq) simp_all
qed

section \<open>The generator\<close>

definition xoshiro_undo :: "u32 list \<Rightarrow> u32 list" where
  "xoshiro_undo s =
     (let d1 = uint32rotl (s ! 3) 21;
          a = s ! 0 XOR d1;
          y = s ! 1 XOR s ! 2;
          z = y XOR push_bit 9 y;
          b = z XOR push_bit 18 z
      in [a, b, s ! 1 XOR b XOR a, d1 XOR b])"

lemma uint32rotl_undo [simp]: "uint32rotl (uint32rotl x 11) 21 = x"
  unfolding uint32rotl_def by (rule bit_word_eqI) (auto simp: bit_simps)

lemma xor_shift_undo:
  "(let y = b XOR push_bit 9 b; z = y XOR push_bit 9 y in z XOR push_bit 18 z) = (b :: u32)"
proof -
  have "push_bit 36 b = 0" by (rule bit_word_eqI) (simp add: bit_simps)
  then show ?thesis
    by (simp add: Let_def push_bit_xor xor.assoc xor.left_commute)
qed

lemma xoshiro_undo_step:
  assumes "length s = 4"
  shows "xoshiro_undo (snd (xoshiro128starstar s)) = s" "length (snd (xoshiro128starstar s)) = 4"
proof -
  obtain a b c d where s: "s = [a, b, c, d]"
    using assms by (auto simp: eval_nat_numeral length_Suc_conv)
  have y: "(b XOR (c XOR a)) XOR ((c XOR a) XOR push_bit 9 b) = b XOR push_bit 9 b"
    by (simp add: xor.assoc xor.left_commute)
  show "length (snd (xoshiro128starstar s)) = 4"
    by (simp add: s xoshiro128starstar_def Let_def)
  have n: "snd (xoshiro128starstar s) =
      [a XOR (d XOR b), b XOR (c XOR a), (c XOR a) XOR push_bit 9 b, uint32rotl (d XOR b) 11]"
    by (simp add: s xoshiro128starstar_def Let_def)
  show "xoshiro_undo (snd (xoshiro128starstar s)) = s"
    unfolding s n [unfolded s] xoshiro_undo_def
    using xor_shift_undo [of b]
    by (simp add: Let_def y) (simp add: xor.assoc xor.left_commute xor.commute)
qed

lemma pseudorandom_loop_length:
  "if_returns (memaccess_pseudorandom_loop n a u mem) (\<lambda>mem'. length mem' = length mem)"
proof (induction n arbitrary: u mem)
  case (Suc n)
  obtain r u' where u: "xoshiro128starstar u = (r, u')" by (cases "xoshiro128starstar u")
  show ?case
    using Suc.IH [of u' "mem[unat (r AND a) := mem ! unat (r AND a) + 1]"]
    by (simp add: u touch_byte_def)
qed simp

lemma deterministic_loop_length:
  "if_returns (memaccess_deterministic_loop n wrap loc mem)
     (\<lambda>(loc', mem'). length mem' = length mem \<and> (loc' = loc \<or> unat loc' < unat wrap))"
proof (induction n arbitrary: loc mem)
  case (Suc n)
  show ?case
  proof (cases "unat loc < length mem \<and> wrap \<noteq> 0")
    case True
    then have "unat ((loc + JENT_MEMORY_BLOCKSIZE - 1) mod wrap) < unat wrap"
      by (simp add: unat_mod unat_gt_0)
    with True show ?thesis
      using Suc.IH [of "(loc + JENT_MEMORY_BLOCKSIZE - 1) mod wrap" "mem[unat loc := mem ! unat loc + 1]"]
      by (auto simp: touch_byte_def Let_def elim!: if_returns_conseq)
  next
    case False
    then show ?thesis by (auto simp: touch_byte_def Let_def)
  qed
qed simp

section \<open>What every step of a measurement preserves\<close>

text \<open>
  The laws of a property \<open>P\<close> of the world and the collector that the noise sources need: it survives
  a read of the time, an access to the memory and an insertion into the pool. Both walks over the
  memory then preserve it whenever they return.
\<close>

locale noise_invariant =
  fixes P :: "jent_world \<Rightarrow> rand_data \<Rightarrow> bool"
  assumes time_read: "P w ec \<Longrightarrow> P (w\<lparr>w_clock_pos := p, w_tick_pos := q\<rparr>) ec"
    and prev_timer: "P w ec \<Longrightarrow> P w (ec\<lparr>ec_notime_prev_timer := t\<rparr>)"
    and prev_time: "P w ec \<Longrightarrow> P w (ec\<lparr>ec_prev_time := t\<rparr>)"
    and memory: "P w ec \<Longrightarrow> ec_mem ec = Some m \<Longrightarrow> length m' = length m \<Longrightarrow>
      P w (ec\<lparr>ec_mem := Some m'\<rparr>)"
    and location: "P w ec \<Longrightarrow> unat l < unat (ec_memmask ec + 1) \<Longrightarrow>
      P w (ec\<lparr>ec_memlocation := l\<rparr>)"
    and absorb: "P w ec \<Longrightarrow> ec_hash_state ec = Some c \<Longrightarrow>
      P w (ec\<lparr>ec_hash_state := Some (jent_sha3_update c bs)\<rparr>)"
begin

definition time_only :: "jent_world \<Rightarrow> rand_data \<Rightarrow> rand_data \<Rightarrow> bool" where
  "time_only w ec ec' \<longleftrightarrow> P w ec' \<and> (\<exists>u. ec' = ec\<lparr>ec_notime_prev_timer := u\<rparr>)"

lemma time_onlyD:
  "time_only w ec ec' \<Longrightarrow> P w ec' \<and> ec_mem ec' = ec_mem ec \<and> ec_memmask ec' = ec_memmask ec"
  by (auto simp: time_only_def)

lemma time_only_refl: "P w ec \<Longrightarrow> time_only w ec ec"
  unfolding time_only_def by (intro conjI exI [of _ "ec_notime_prev_timer ec"]) simp_all

lemma time_only_trans: "time_only w1 ec ec1 \<Longrightarrow> time_only w2 ec1 ec2 \<Longrightarrow> time_only w2 ec ec2"
  by (auto simp: time_only_def)

lemma nstime:
  "jent_get_nstime_internal w ec = Some (t, w', ec') \<Longrightarrow> P w ec \<Longrightarrow> time_only w' ec ec'"
  by (erule jent_get_nstime_internal_frame) (auto simp: time_only_def intro!: prev_timer time_read)

lemma measure_starts:
  "measure_start w ec cd t0 = Some (t, w', ec') \<Longrightarrow> P w ec \<Longrightarrow> time_only w' ec ec'"
  by (auto simp: measure_start_def time_only_refl dest: nstime split: if_splits)

lemma measure_ends:
  "measure_end w ec cd t = Some (d, w', ec') \<Longrightarrow> P w ec \<Longrightarrow> P w' ec'"
  by (auto simp: measure_end_def dest!: nstime time_onlyD split: if_splits elim!: bind_SomeE)

lemma prng_seeds:
  "prng_seed is w ec u = Some (w', ec', u') \<Longrightarrow> P w ec \<Longrightarrow> time_only w' ec ec'"
proof (induction "is" arbitrary: w ec u)
  case (Cons i js)
  then obtain t w1 ec1 where t: "jent_get_nstime_internal w ec = Some (t, w1, ec1)"
    "prng_seed js w1 ec1 (prng_mix u i t) = Some (w', ec', u')"
    by (auto elim!: bind_SomeE)
  with nstime [OF t(1) Cons.prems(2)] Cons.IH [OF t(2)] show ?case
    by (auto dest: time_onlyD intro: time_only_trans)
qed (simp add: time_only_refl)

lemma memaccess_pseudorandom_keeps:
  assumes "jent_memaccess_pseudorandom w ec n cd = Some (d, w', ec')" "P w ec"
  shows "P w' ec'"
proof (cases "ec_mem ec")
  case (Some mem)
  then obtain w1 ec1 u t0 w2 ec2 k mem'
    where seed: "prng_seed [0..<16] w ec [0x8e93eec0, 0xce65608a, 0xa8d46b46, 0xe83cef69] =
        Some (w1, ec1, u)"
      and start: "measure_start w1 ec1 cd 0 = Some (t0, w2, ec2)"
      and loop: "memaccess_pseudorandom_loop k (ec_memmask ec) u mem = Some mem'"
      and stop: "measure_end w2 (ec2\<lparr>ec_mem := Some mem'\<rparr>) cd t0 = Some (d, w', ec')"
    using assms(1)
    by (auto simp: jent_memaccess_pseudorandom_def Let_def simp del: upt_Suc elim!: bind_SomeE)
  have "time_only w2 ec ec2"
    using prng_seeds [OF seed assms(2)] measure_starts [OF start] by (auto dest: time_onlyD
      intro: time_only_trans)
  then have "P w2 (ec2\<lparr>ec_mem := Some mem'\<rparr>)"
    using if_returnsD [OF pseudorandom_loop_length loop] Some memory [of w2 ec2 mem mem']
    by (auto dest: time_onlyD)
  with measure_ends [OF stop] show ?thesis by blast
qed (use assms in \<open>simp add: jent_memaccess_pseudorandom_def\<close>)

lemma memaccess_deterministic_keeps:
  assumes "jent_memaccess_deterministic w ec n cd = Some (d, w', ec')" "P w ec"
  shows "P w' ec'"
proof (cases "ec_mem ec")
  case (Some mem)
  then obtain t0 w2 ec2 k loc mem'
    where start: "measure_start w ec cd 0 = Some (t0, w2, ec2)"
      and loop: "memaccess_deterministic_loop k (ec_memmask ec + 1) (ec_memlocation ec2) mem =
        Some (loc, mem')"
      and stop: "measure_end w2 (ec2\<lparr>ec_mem := Some mem', ec_memlocation := loc\<rparr>) cd t0 =
        Some (d, w', ec')"
    using assms(1)
    by (auto simp: jent_memaccess_deterministic_def Let_def elim!: bind_SomeE)
  have t: "time_only w2 ec ec2" using measure_starts [OF start assms(2)] .
  have l: "length mem' = length mem"
    "loc = ec_memlocation ec2 \<or> unat loc < unat (ec_memmask ec2 + 1)"
    using if_returnsD [OF deterministic_loop_length loop] time_onlyD [OF t] by auto
  then have "P w2 (ec2\<lparr>ec_mem := Some mem'\<rparr>)"
    using time_onlyD [OF t] Some by (auto intro: memory)
  from location [OF this, of loc] this l(2)
  have "P w2 (ec2\<lparr>ec_mem := Some mem', ec_memlocation := loc\<rparr>)" by auto
  with measure_ends [OF stop] show ?thesis by blast
qed (use assms in \<open>simp add: jent_memaccess_deterministic_def\<close>)

lemma hash_insert_keeps:
  "jent_hash_insert ec d im = Some (ec', im') \<Longrightarrow> P w ec \<Longrightarrow> P w ec'"
  by (auto simp: jent_hash_insert_def Let_def intro: absorb elim!: bind_SomeE)

end


section \<open>Measurements return\<close>

text \<open>
  The memory region is as long as its mask says and the walk is inside it; a collector is ready when
  moreover its pool is allocated, the time stamps come from the hardware and the divisor of the
  deltas is not zero.
\<close>

definition mem_shape :: "rand_data \<Rightarrow> bool" where
  "mem_shape ec \<longleftrightarrow> (\<forall>m. ec_mem ec = Some m \<longrightarrow>
     length m = unat (ec_memmask ec) + 1 \<and> length m < 2 ^ 32 \<and>
     unat (ec_memlocation ec) < length m)"

definition ready :: "rand_data \<Rightarrow> bool" where
  "ready ec \<longleftrightarrow> mem_shape ec \<and> ec_hash_state ec \<noteq> None \<and> \<not> ec_enable_notime ec \<and>
     ec_common_timer_gcd ec \<noteq> 0"

lemma readyD:
  assumes "ready ec"
  shows "jent_get_nstime_internal w ec =
      Some (w_clock w (w_clock_pos w), w\<lparr>w_clock_pos := w_clock_pos w + 1\<rparr>, ec)"
    "udiv64 d (ec_common_timer_gcd ec) = Some (d div ec_common_timer_gcd ec)"
    "\<exists>c. ec_hash_state ec = Some c"
    "ec_mem ec = Some m \<Longrightarrow> unat (ec_memmask ec) < length m"
    "ec_mem ec = Some m \<Longrightarrow> unat (ec_memmask ec + 1) = length m"
    "ec_mem ec = Some m \<Longrightarrow> unat (ec_memlocation ec) < length m"
  using assms
  by (auto simp: ready_def jent_get_nstime_internal_hw udiv64_def mem_shape_def
      intro: trans [OF unat_Suc_below [of _ "2 ^ 32 - 1"]])

text \<open>The fields that a noise source and the insertion into the pool write.\<close>

definition touched :: "rand_data \<Rightarrow> rand_data \<Rightarrow> bool" where
  "touched ec ec' \<longleftrightarrow> ready ec' \<and> (\<exists>p h m l. ec' = ec
     \<lparr>ec_prev_time := p, ec_hash_state := h, ec_mem := m, ec_memlocation := l\<rparr>)"

lemma touched_refl: "ready ec \<Longrightarrow> touched ec ec"
  unfolding touched_def
  by (intro conjI exI [of _ "ec_prev_time ec"] exI [of _ "ec_hash_state ec"] exI [of _ "ec_mem ec"]
      exI [of _ "ec_memlocation ec"]) simp_all

lemma touched_trans: "touched ec ec1 \<Longrightarrow> touched ec1 ec2 \<Longrightarrow> touched ec ec2"
  unfolding touched_def by (elim conjE exE) (hypsubst, intro conjI, assumption, intro exI, simp)

lemma touched_ready: "touched ec ec' \<Longrightarrow> ready ec'"
  by (simp add: touched_def)

lemma touched_time: "ready ec \<Longrightarrow> touched ec (ec\<lparr>ec_prev_time := p\<rparr>)"
  unfolding touched_def
  by (intro conjI exI [of _ p] exI [of _ "ec_hash_state ec"] exI [of _ "ec_mem ec"]
      exI [of _ "ec_memlocation ec"]) (auto simp: ready_def mem_shape_def)

lemma touched_memory:
  "ready ec \<Longrightarrow> ec_mem ec = Some m \<Longrightarrow> length m' = length m \<Longrightarrow>
     unat l < length m \<Longrightarrow> touched ec (ec\<lparr>ec_mem := Some m', ec_memlocation := l\<rparr>)"
  unfolding touched_def
  by (intro conjI exI [of _ "ec_prev_time ec"] exI [of _ "ec_hash_state ec"] exI [of _ "Some m'"]
      exI [of _ l]) (simp_all add: ready_def mem_shape_def)

lemma touched_absorb:
  "ready ec \<Longrightarrow> touched ec (ec\<lparr>ec_hash_state := Some c\<rparr>)"
  unfolding touched_def
  by (intro conjI exI [of _ "ec_prev_time ec"] exI [of _ "Some c"] exI [of _ "ec_mem ec"]
      exI [of _ "ec_memlocation ec"]) (auto simp: ready_def mem_shape_def)

lemma prng_seed_returns:
  "ready ec \<Longrightarrow> returns (prng_seed is w ec u)
     (\<lambda>(w', ec', _). ec' = ec \<and> (\<exists>p. w' = w\<lparr>w_clock_pos := p\<rparr>))"
proof (induction "is" arbitrary: w u)
  case Nil
  then show ?case by (auto intro: exI [of _ "w_clock_pos w"])
next
  case (Cons i js)
  show ?case
    using Cons.IH [OF Cons.prems, of "w\<lparr>w_clock_pos := w_clock_pos w + 1\<rparr>"]
    by (auto simp: readyD(1) [OF Cons.prems] elim!: returns_conseq)
qed

lemma memaccess_pseudorandom_returns:
  assumes "ready ec"
  shows "returns (jent_memaccess_pseudorandom w ec n cd)
     (\<lambda>(d, w', ec'). touched ec ec' \<and> (d = None \<longleftrightarrow> cd = None) \<and> (\<exists>p. w' = w\<lparr>w_clock_pos := p\<rparr>))"
proof (cases "ec_mem ec")
  case None
  then show ?thesis
    using touched_refl [OF assms]
    by (auto simp: jent_memaccess_pseudorandom_def intro: exI [of _ "w_clock_pos w"])
next
  case (Some m)
  have loop: "returns (memaccess_pseudorandom_loop k (ec_memmask ec) u m)
      (\<lambda>m'. length m' = length m)" for k u
    using readyD(4) [OF assms Some] by (rule pseudorandom_loop_returns)
  have m: "touched ec (ec\<lparr>ec_mem := Some m'\<rparr>)" if "length m' = length m" for m'
    using touched_memory [OF assms Some that readyD(6) [OF assms Some]] by simp
  have stop: "returns (measure_end w1 (ec\<lparr>ec_mem := Some m'\<rparr>) cd t0)
      (\<lambda>(d, w', ec'). touched ec ec' \<and> (d = None \<longleftrightarrow> cd = None) \<and> (\<exists>p. w' = w\<lparr>w_clock_pos := p\<rparr>))"
    if "length m' = length m" "\<exists>p. w1 = w\<lparr>w_clock_pos := p\<rparr>" for m' t0 w1
    using m [OF that(1)] readyD(1,2) [OF touched_ready [OF m [OF that(1)]]] that(2)
    by (auto simp: measure_end_def)
  have "returns (measure_start w1 ec cd 0) (\<lambda>(t0, w2, ec2). ec2 = ec \<and> (\<exists>p. w2 = w\<lparr>w_clock_pos := p\<rparr>))"
    if "\<exists>p. w1 = w\<lparr>w_clock_pos := p\<rparr>" for w1
    using readyD(1) [OF assms] that by (auto simp: measure_start_def)
  then show ?thesis
    unfolding jent_memaccess_pseudorandom_def Let_def Some option.case returns_simps returns_prod
    by (intro returns_conseq [OF prng_seed_returns [OF assms]])
      (fastforce elim!: returns_conseq intro: returns_conseq [OF loop] stop)
qed

lemma memaccess_deterministic_returns:
  assumes "ready ec"
  shows "returns (jent_memaccess_deterministic w ec n cd)
     (\<lambda>(d, w', ec'). touched ec ec' \<and> (d = None \<longleftrightarrow> cd = None) \<and> (\<exists>p. w' = w\<lparr>w_clock_pos := p\<rparr>))"
proof (cases "ec_mem ec")
  case None
  then show ?thesis
    using touched_refl [OF assms]
    by (auto simp: jent_memaccess_deterministic_def intro: exI [of _ "w_clock_pos w"])
next
  case (Some m)
  have wrap: "unat (ec_memmask ec + 1) = length m" "unat (ec_memlocation ec) < length m"
    using readyD(5,6) [OF assms Some] by simp_all
  then have "ec_memmask ec + 1 \<noteq> 0" by (auto simp: word_unat_eq_iff)
  then have loop: "returns (memaccess_deterministic_loop k (ec_memmask ec + 1) (ec_memlocation ec) m)
      (\<lambda>(l, m'). length m' = length m \<and> unat l < length m)" for k
    using deterministic_loop_returns [of "ec_memmask ec + 1" m "ec_memlocation ec" k] wrap
    by simp
  have stop: "returns (measure_end w1 (ec\<lparr>ec_mem := Some m', ec_memlocation := l\<rparr>) cd t0)
      (\<lambda>(d, w', ec'). touched ec ec' \<and> (d = None \<longleftrightarrow> cd = None) \<and> (\<exists>p. w' = w\<lparr>w_clock_pos := p\<rparr>))"
    if "length m' = length m \<and> unat l < length m" "\<exists>p. w1 = w\<lparr>w_clock_pos := p\<rparr>" for m' l t0 w1
  proof -
    have t: "touched ec (ec\<lparr>ec_mem := Some m', ec_memlocation := l\<rparr>)"
      using that(1) touched_memory [OF assms Some] by blast
    show ?thesis
      using t readyD(1,2) [OF touched_ready [OF t]] that(2) by (auto simp: measure_end_def)
  qed
  have start: "returns (measure_start w ec cd 0)
      (\<lambda>(t0, w2, ec2). ec2 = ec \<and> (\<exists>p. w2 = w\<lparr>w_clock_pos := p\<rparr>))"
    using readyD(1) [OF assms] by (auto simp: measure_start_def intro: exI [of _ "w_clock_pos w"])
  show ?thesis
    unfolding jent_memaccess_deterministic_def Let_def Some option.case returns_simps returns_prod
    by (intro returns_conseq [OF start])
      (fastforce elim!: returns_conseq intro: returns_conseq [OF loop] stop)
qed

lemma hash_insert_returns:
  "ready ec \<Longrightarrow> returns (jent_hash_insert ec d im) (\<lambda>(ec', _). touched ec ec')"
  using readyD(3) [of ec] by (auto simp: jent_hash_insert_def Let_def touched_absorb)

section \<open>Properties\<close>

text \<open>
  C29. The walk of the deterministic memory access hits every location evenly: over a region of
  \<open>2 ^ k\<close> bytes (its mask is \<open>2 ^ k - 1\<close>) as many steps as there are bytes increment every byte
  exactly once, whatever the location to start from, and end where they began. This rests on the
  stride of 127 being coprime to the size.
\<close>

theorem deterministic_walk_visits_all:
  assumes "ec_mem ec = Some mem" "length mem = 2 ^ k" "k \<le> 31" "ec_memmask ec = 2 ^ k - 1"
    "unat (ec_memlocation ec) < 2 ^ k"
  shows "jent_memaccess_deterministic w ec (2 ^ k) None =
     Some (None, w, ec\<lparr>ec_mem := Some (map (\<lambda>b. b + 1) mem)\<rparr>)"
proof -
  let ?l = "unat (ec_memlocation ec)"
  have p: "(2::nat) ^ k \<le> 2 ^ 31" using assms(3) by (rule power_increasing) simp
  have n: "unat (2 ^ k :: u64) = 2 ^ k"
    using unat_of_nat_small [of "2 ^ k", where 'a = 64] p by simp
  then have nz: "(2 ^ k :: u64) \<noteq> 0" by (metis unat_0 power_not_zero zero_neq_numeral)
  have walk: "map (\<lambda>j. (?l + 127 * j) mod 2 ^ k) [0..<2 ^ k] =
      map (\<lambda>j. (?l + 127 * j) mod length mem) [0..<length mem]"
    using assms(2) by simp
  have "foldl bump_byte mem (map (\<lambda>j. (?l + 127 * j) mod 2 ^ k) [0..<2 ^ k]) =
      map (\<lambda>i. mem ! i + 1) [0..<length mem]"
    using walk_covers [OF assms(5)] assms(2)
    by (subst bump_distinct) (simp_all only: atLeast0LessThan lessThan_iff, simp_all cong: map_cong)
  also have "\<dots> = map (\<lambda>b. b + 1) mem"
    by (rule nth_equalityI) simp_all
  finally have b: "foldl bump_byte mem (map (\<lambda>j. (?l + 127 * j) mod 2 ^ k) [0..<2 ^ k]) =
      map (\<lambda>b. b + 1) mem" .
  have "memaccess_deterministic_loop (2 ^ k) (2 ^ k) (ec_memlocation ec) mem =
      Some (of_nat ?l, map (\<lambda>b. b + 1) mem)"
    using deterministic_loop_eq [OF assms(3,5,2), of "2 ^ k"] assms(5) b by simp
  then show ?thesis
    using nz n assms(1,4)
    by (simp add: jent_memaccess_deterministic_def measure_start_def measure_end_def Let_def)
qed

theorem deterministic_walk_visits_all_witness:
  "jent_memaccess_deterministic test_world
      (zalloc_rand_data\<lparr>ec_mem := Some [9, 8, 255, 6], ec_memmask := 3, ec_memlocation := 1\<rparr>) 4 None =
    Some (None, test_world,
      zalloc_rand_data\<lparr>ec_mem := Some [10, 9, 0, 7], ec_memmask := 3, ec_memlocation := 1\<rparr>)"
  using deterministic_walk_visits_all [of "zalloc_rand_data\<lparr>ec_mem := Some [9, 8, 255, 6],
      ec_memmask := 3, ec_memlocation := 1\<rparr>" "[9, 8, 255, 6]" 2 test_world]
  by simp

text \<open>
  C13. The noise sources stay inside the memory region and always return: in a ready collector both
  walks and the insertion into the pool have a result for every loop count, no access is out of
  bounds, no division is by zero, and the collector is ready again. A delta is returned exactly when
  the caller asks for one.
\<close>

theorem noise_sources_safe:
  assumes "ready ec"
  shows "(\<exists>d w' ec'. jent_memaccess_pseudorandom w ec n cd = Some (d, w', ec') \<and> ready ec' \<and>
      (d = None \<longleftrightarrow> cd = None)) \<and>
    (\<exists>d w' ec'. jent_memaccess_deterministic w ec n cd = Some (d, w', ec') \<and> ready ec' \<and>
      (d = None \<longleftrightarrow> cd = None)) \<and>
    (\<exists>ec' im'. jent_hash_insert ec delta im = Some (ec', im') \<and> ready ec')"
  using memaccess_pseudorandom_returns [OF assms, of w n cd]
    memaccess_deterministic_returns [OF assms, of w n cd] hash_insert_returns [OF assms, of delta im]
  by (auto simp: returns_def dest: touched_ready)

theorem noise_sources_safe_witness:
  "\<exists>d w' ec'. jent_memaccess_pseudorandom test_world (zalloc_rand_data
     \<lparr>ec_mem := Some [1, 2, 3, 4], ec_memmask := 3, ec_memlocation := 3, ec_common_timer_gcd := 1,
      ec_hash_state := Some zalloc_sha_ctx\<rparr>) 100 (Some 0) = Some (Some d, w', ec')"
proof -
  have "ready (zalloc_rand_data
     \<lparr>ec_mem := Some [1, 2, 3, 4], ec_memmask := 3, ec_memlocation := 3, ec_common_timer_gcd := 1,
      ec_hash_state := Some zalloc_sha_ctx\<rparr>)"
    by (simp add: ready_def mem_shape_def zalloc_rand_data_def)
  from noise_sources_safe [OF this, of test_world 100 "Some 0" 0 "[]"] show ?thesis by auto
qed

text \<open>
  The generator that picks the locations of the pseudorandom walk loses nothing of the time
  stamps mixed into its state: each step is undone by \<open>xoshiro_undo\<close>, so it is injective, and it
  never reaches the all-zero state, in which it would stay, from another one.
\<close>

theorem xoshiro_invertible:
  assumes "length s = 4"
  shows "xoshiro_undo (snd (xoshiro128starstar s)) = s \<and>
    length (snd (xoshiro128starstar s)) = 4 \<and>
    (s \<noteq> [0, 0, 0, 0] \<longrightarrow> snd (xoshiro128starstar s) \<noteq> [0, 0, 0, 0])"
proof -
  have "xoshiro_undo [0, 0, 0, 0] = [0, 0, 0, 0]"
    by (simp add: xoshiro_undo_def uint32rotl_def)
  then show ?thesis using xoshiro_undo_step [OF assms] by auto
qed

theorem xoshiro_invertible_witness:
  "snd (xoshiro128starstar [0x8e93eec0, 0xce65608a, 0xa8d46b46, 0xe83cef69]) \<noteq> [0, 0, 0, 0]"
  using xoshiro_invertible [of "[0x8e93eec0, 0xce65608a, 0xa8d46b46, 0xe83cef69]"] by simp

text \<open>
  A measurement inserts into the pool exactly one block of the sponge's rate: its time delta
  (little-endian) followed by the domain separator and the rest of the intermediary buffer, which is
  cleared. The message absorbed so far is extended by that block and by nothing else.
\<close>

theorem hash_insert_absorbs_block:
  assumes "ec_hash_state ec = Some ctx" "sha3_holds ctx m" "length m + 136 < 2 ^ 64"
    and "length im = 136"
  shows "\<exists>ctx'. jent_hash_insert ec delta im =
      Some (ec\<lparr>ec_hash_state := Some ctx'\<rparr>, replicate 136 0) \<and>
    sha3_holds ctx' (m @ word_bytes delta @ drop 8 im)"
proof -
  have l: "length (word_bytes delta) = 8" by (simp add: word_bytes_def)
  have r: "unat (jent_sha3_rate ctx) = 136"
    using assms(2) by (simp add: sha3_holds_def sha_wf_def jent_sha3_rate_def)
  have b: "memcpy_at im 0 (word_bytes delta) = word_bytes delta @ drop 8 im"
    using l by (simp add: memcpy_at_def)
  have "sha3_holds (jent_sha3_update ctx (word_bytes delta @ drop 8 im))
      (m @ word_bytes delta @ drop 8 im)"
    using sha3_update_holds [OF assms(2), of "word_bytes delta @ drop 8 im"] assms(3,4) l by simp
  then show ?thesis
    using assms(1,4) l r b
    by (intro exI [of _ "jent_sha3_update ctx (word_bytes delta @ drop 8 im)"])
      (simp add: jent_hash_insert_def Let_def JENT_SIZEOF_INTERMEDIARY_def memset_at_def
        memcpy_at_def)
qed

theorem hash_insert_absorbs_block_witness:
  "\<exists>ctx'. jent_hash_insert (zalloc_rand_data\<lparr>ec_hash_state := Some (jent_shake256_init zalloc_sha_ctx)\<rparr>)
      7 (replicate 136 3) =
    Some (zalloc_rand_data\<lparr>ec_hash_state := Some ctx'\<rparr>, replicate 136 0) \<and>
    sha3_holds ctx' (word_bytes (7 :: u64) @ replicate 128 3)"
proof -
  have h: "sha3_holds (jent_shake256_init zalloc_sha_ctx) []"
    by (rule shake256_init_holds) (simp add: zalloc_sha_ctx_def)
  show ?thesis
    using hash_insert_absorbs_block [of "zalloc_rand_data\<lparr>ec_hash_state :=
        Some (jent_shake256_init zalloc_sha_ctx)\<rparr>" _ "[]" "replicate 136 3" 7, OF _ h]
    by simp
qed

end
