(* ===== verification/Collect.thy ===== *)
theory Collect
  imports Noise
begin

unbundle bit_operations_syntax

text \<open>
  The collection of one 256-bit block in \<open>jitterentropy-noise.c\<close>: \<open>jent_random_data\<close> chooses the
  measurement by the startup state and \<open>jent_random_data_one\<close> repeats it until enough measurements
  were not stuck, or a health test failed.
\<close>

section \<open>The collection of a block\<close>

definition JENT_MEASURE_JITTER_LOOP_CTR :: "u32 \<Rightarrow> u32 \<Rightarrow> u32" where
  "JENT_MEASURE_JITTER_LOOP_CTR osr safety_factor = (DATA_SIZE_BITS + safety_factor) * osr"

definition JENT_ROUNDUP_TO_THREE :: "u32 \<Rightarrow> u32" where
  "JENT_ROUNDUP_TO_THREE x = (x + 2) div 3 * 3"

definition JENT_ADJUSTED_MEASURE_JITTER_LOOP_CTR :: "u32 \<Rightarrow> u32 \<Rightarrow> u32" where
  "JENT_ADJUSTED_MEASURE_JITTER_LOOP_CTR osr safety_factor =
     JENT_ROUNDUP_TO_THREE (JENT_MEASURE_JITTER_LOOP_CTR osr safety_factor)"

text \<open>The entropy collection loop, which repeats a stuck measurement without counting it.\<close>

partial_function (option) collection_loop ::
  "measurement \<Rightarrow> jent_world \<Rightarrow> rand_data \<Rightarrow> u32 \<Rightarrow> (jent_world \<times> rand_data) option" where
  "collection_loop measure_jitter w ec ctr =
     (let (failure, w) = jent_health_failure w ec
      in if failure \<noteq> 0 then Some (w, ec)
         else do {
           (stuck, _, w, ec) \<leftarrow> measure_jitter w ec 0;
           if stuck then collection_loop measure_jitter w ec ctr
           else let ctr = ctr + 1
                in if ctr \<ge> ucast (ec_rct_mem_nosr ec) then Some (w, ec)
                   else collection_loop measure_jitter w ec ctr
         })"

definition jent_random_data_one ::
  "measurement \<Rightarrow> jent_world \<Rightarrow> rand_data \<Rightarrow> (jent_world \<times> rand_data) option" where
  "jent_random_data_one measure_jitter w ec =
     (let safety_factor = (if ec_is_fips_enabled ec then ENTROPY_SAFETY_FACTOR else 0);
          ec = ec\<lparr>ec_rct_mem_ctr := 0\<rparr>;
          ec = ec\<lparr>ec_rct_mem_nosr :=
                    ucast (JENT_ADJUSTED_MEASURE_JITTER_LOOP_CTR (ec_osr ec) safety_factor)\<rparr>
      in if ucast (ec_rct_mem_nosr ec) < DATA_SIZE_BITS
         then Some (w, ec\<lparr>ec_health_failure :=
                           ec_health_failure ec OR JENT_RCT_MEM_FAILURE_PERMANENT\<rparr>)
         else collection_loop measure_jitter w ec 0)"

definition startup_health_init :: "rand_data \<Rightarrow> rand_data" where
  "startup_health_init ec =
     jent_health_init ec (if ec_flags ec AND JENT_NTG1 \<noteq> 0 then jent_health_init_type_ntg1
                          else jent_health_init_type_common)"

definition random_data_sha3 :: "collect \<Rightarrow> collect" where
  "random_data_sha3 rd w ec = do {
     (w, ec) \<leftarrow> jent_random_data_one (jent_measure_jitter_ntg1_sha3 rd) w ec;
     Some (w, startup_health_init (ec\<lparr>ec_startup_state := ec_startup_state ec - 1\<rparr>))
   }"

text \<open>
  The body of \<open>jent_random_data\<close>, with the recursive call that the recovery loop of the RCT with
  memory makes as its argument.
\<close>

definition random_data_body :: "collect \<Rightarrow> collect" where
  "random_data_body rd w ec =
     (if ec_startup_state ec = jent_startup_memory then do {
        (w, ec) \<leftarrow> jent_random_data_one (jent_measure_jitter_ntg1_memaccess rd) w ec;
        let ec = startup_health_init (ec\<lparr>ec_startup_state := ec_startup_state ec - 1\<rparr>);
        random_data_sha3 rd w ec
      }
      else if ec_startup_state ec = jent_startup_sha3 then random_data_sha3 rd w ec
      else do {
        (_, _, w, ec) \<leftarrow> jent_measure_jitter rd w ec 0;
        jent_random_data_one (jent_measure_jitter rd) w ec
      })"

text \<open>
  In recovery the argument is not called, so the C recursion is two bodies deep; that the
  definition satisfies the equation of the C function is \<open>random_data_recursion\<close> below.
\<close>

definition jent_random_data :: collect where
  "jent_random_data = random_data_body (random_data_body (\<lambda>_ _. None))"

text \<open>
  An induction rule for the results of the collection loop: \<open>I\<close> is the invariant, \<open>Q\<close> relates the
  state before to the result.
\<close>

lemma collection_loop_result:
  assumes "collection_loop m w ec ctr = Some r" "I w ec ctr"
    and failed: "\<And>w ec ctr f w1. I w ec ctr \<Longrightarrow> jent_health_failure w ec = (f, w1) \<Longrightarrow> f \<noteq> 0 \<Longrightarrow>
      Q w ec ctr (w1, ec)"
    and complete: "\<And>w ec ctr w1 d w2 ec2. I w ec ctr \<Longrightarrow> jent_health_failure w ec = (0, w1) \<Longrightarrow>
      m w1 ec 0 = Some (False, d, w2, ec2) \<Longrightarrow> ucast (ec_rct_mem_nosr ec2) \<le> ctr + 1 \<Longrightarrow>
      Q w ec ctr (w2, ec2)"
    and stuck: "\<And>w ec ctr w1 d w2 ec2 r. I w ec ctr \<Longrightarrow> jent_health_failure w ec = (0, w1) \<Longrightarrow>
      m w1 ec 0 = Some (True, d, w2, ec2) \<Longrightarrow>
      I w2 ec2 ctr \<and> (Q w2 ec2 ctr r \<longrightarrow> collection_loop m w2 ec2 ctr = Some r \<longrightarrow> Q w ec ctr r)"
    and good: "\<And>w ec ctr w1 d w2 ec2 r. I w ec ctr \<Longrightarrow> jent_health_failure w ec = (0, w1) \<Longrightarrow>
      m w1 ec 0 = Some (False, d, w2, ec2) \<Longrightarrow> \<not> ucast (ec_rct_mem_nosr ec2) \<le> ctr + 1 \<Longrightarrow>
      I w2 ec2 (ctr + 1) \<and>
      (Q w2 ec2 (ctr + 1) r \<longrightarrow> collection_loop m w2 ec2 (ctr + 1) = Some r \<longrightarrow> Q w ec ctr r)"
  shows "Q w ec ctr r"
proof -
  have "m = m \<longrightarrow> collection_loop m w ec ctr = Some r \<and> (I w ec ctr \<longrightarrow> Q w ec ctr r)"
  proof (rule collection_loop.raw_induct [where P = "\<lambda>n w ec ctr r. n = m \<longrightarrow>
      collection_loop m w ec ctr = Some r \<and> (I w ec ctr \<longrightarrow> Q w ec ctr r)", OF _ assms(1)])
    fix loop :: "measurement \<Rightarrow> jent_world \<Rightarrow> rand_data \<Rightarrow> u32 \<Rightarrow> (jent_world \<times> rand_data) option"
      and n w ec ctr r
    assume IH: "\<And>n w ec ctr r. loop n w ec ctr = Some r \<Longrightarrow>
        n = m \<longrightarrow> collection_loop m w ec ctr = Some r \<and> (I w ec ctr \<longrightarrow> Q w ec ctr r)"
      and r: "(let (failure, w) = jent_health_failure w ec
         in if failure \<noteq> 0 then Some (w, ec)
            else do {
              (stuck, _, w, ec) \<leftarrow> n w ec 0;
              if stuck then loop n w ec ctr
              else let ctr = ctr + 1
                   in if ctr \<ge> ucast (ec_rct_mem_nosr ec) then Some (w, ec)
                      else loop n w ec ctr
            }) = Some r"
    show "n = m \<longrightarrow> collection_loop m w ec ctr = Some r \<and> (I w ec ctr \<longrightarrow> Q w ec ctr r)"
    proof
      assume "n = m"
      obtain f w1 where f: "jent_health_failure w ec = (f, w1)" by fastforce
      show "collection_loop m w ec ctr = Some r \<and> (I w ec ctr \<longrightarrow> Q w ec ctr r)"
      proof (cases "f = 0")
        case True
        then obtain b d w2 ec2 where m2: "m w1 ec 0 = Some (b, d, w2, ec2)"
          and k: "(if b then loop m w2 ec2 ctr
              else if ctr + 1 \<ge> ucast (ec_rct_mem_nosr ec2) then Some (w2, ec2)
              else loop m w2 ec2 (ctr + 1)) = Some r"
          using r \<open>n = m\<close> unfolding f Let_def prod.case by (auto elim!: bind_SomeE)
        then have "(if b then collection_loop m w2 ec2 ctr
              else if ctr + 1 \<ge> ucast (ec_rct_mem_nosr ec2) then Some (w2, ec2)
              else collection_loop m w2 ec2 (ctr + 1)) = Some r"
          using IH [of m w2 ec2] by (auto split: if_splits)
        then have "collection_loop m w ec ctr = Some r"
          using True m2 by (subst collection_loop.simps) (simp add: f Let_def cong: if_cong)
        moreover have "Q w ec ctr r" if "I w ec ctr"
          using True f m2 k IH [of m w2 ec2] complete [OF that, of w1 d w2 ec2]
            stuck [OF that, of w1 d w2 ec2 r] good [OF that, of w1 d w2 ec2 r]
          by (auto split: if_splits)
        ultimately show ?thesis by simp
      next
        case False
        with r have "collection_loop m w ec ctr = Some r"
          by (subst collection_loop.simps) (auto simp: f)
        with False r f failed [of w ec ctr f w1] show ?thesis by auto
      qed
    qed
  qed
  with assms(2) show ?thesis by simp
qed

text \<open>The number of measurements that must not be stuck.\<close>

definition rct_mem_window :: "rand_data \<Rightarrow> u16" where
  "rct_mem_window ec = ucast (JENT_ADJUSTED_MEASURE_JITTER_LOOP_CTR (ec_osr ec)
     (if ec_is_fips_enabled ec then ENTROPY_SAFETY_FACTOR else 0))"

definition window_start :: "rand_data \<Rightarrow> rand_data" where
  "window_start ec = ec\<lparr>ec_rct_mem_ctr := 0, ec_rct_mem_nosr := rct_mem_window ec\<rparr>"

lemma u16_below: "((ucast (n :: u16) :: u32) < 256) = (n < 256)"
  using unat_u16_less [of n]
  by (simp add: word_less_nat_alt unsigned_ucast_eq take_bit_nat_eq_self)

lemma jent_random_data_one_eq:
  "jent_random_data_one m w ec =
     (if rct_mem_window ec < 256
      then Some (w, (window_start ec)\<lparr>ec_health_failure :=
                      ec_health_failure (window_start ec) OR JENT_RCT_MEM_FAILURE_PERMANENT\<rparr>)
      else collection_loop m w (window_start ec) 0)"
  by (simp add: jent_random_data_one_def rct_mem_window_def window_start_def Let_def
      u16_below [symmetric])

section \<open>What the collection of a block preserves\<close>

lemma jent_health_failure_world:
  "jent_health_failure w ec = (f, w') \<Longrightarrow>
     w' = w \<or> g_fips_cb w \<noteq> None \<and> (\<exists>log. w' = w\<lparr>g_fips_log := log\<rparr>)"
  by (auto simp: jent_health_failure_def Let_def split: if_splits option.splits)

text \<open>
  With the laws for the health tests, the recovery loop and the startup, the measurements and the
  collection of a block preserve \<open>P\<close> as well.
\<close>

locale step_invariant = noise_invariant +
  assumes failure_log: "P w ec \<Longrightarrow> g_fips_cb w \<noteq> None \<Longrightarrow> P (w\<lparr>g_fips_log := log\<rparr>) ec"
    and health_tests: "P w ec \<Longrightarrow> P w (stuck_tests ec d b)"
    and rct_mem: "P w ec \<Longrightarrow> P w (rct_mem_step ec b)"
    and recovery_starts: "P w ec \<Longrightarrow>
      P w ((rct_mem_counted ec b)\<lparr>ec_rct_mem_count := 0, ec_in_recovery := True\<rparr>)"
    and recovery_ends: "P w ec \<Longrightarrow> P w (rct_mem_advance (ec\<lparr>ec_in_recovery := False\<rparr>))"
    and window_starts: "P w ec \<Longrightarrow> P w (window_start ec)"
    and window_wraps: "P w ec \<Longrightarrow>
      P w (ec\<lparr>ec_health_failure := ec_health_failure ec OR JENT_RCT_MEM_FAILURE_PERMANENT\<rparr>)"
    and startup_advances: "P w ec \<Longrightarrow> P w (ec\<lparr>ec_startup_state := ec_startup_state ec - 1\<rparr>)"
    and health_starts: "P w ec \<Longrightarrow> P w (jent_health_init ec ty)"
begin

text \<open>The stuck test.\<close>

definition keeps :: "collect \<Rightarrow> bool" where
  "keeps rd \<longleftrightarrow> (\<forall>w ec w' ec'. rd w ec = Some (w', ec') \<longrightarrow> P w ec \<longrightarrow> P w' ec')"

lemma keepsD: "keeps rd \<Longrightarrow> rd w ec = Some (w', ec') \<Longrightarrow> P w ec \<Longrightarrow> P w' ec'"
  by (auto simp: keeps_def)

lemma recovery_keeps:
  "rct_mem_recovery rd n w ec = Some (w', ec') \<Longrightarrow> keeps rd \<Longrightarrow> P w ec \<Longrightarrow> P w' ec'"
  by (induction n arbitrary: w ec) (auto elim!: bind_SomeE dest: keepsD)

lemma rct_mem_insert_keeps:
  assumes "jent_rct_mem_insert rd w ec b = Some (w', ec')" "keeps rd" "P w ec"
  shows "P w' ec'"
  using assms recovery_starts [OF assms(3), of b]
  by (auto simp: rct_mem_insert_cases rct_mem recovery_ends split: if_splits elim!: bind_SomeE
      dest: recovery_keeps)

lemma stuck_keeps:
  assumes "jent_stuck rd w ec d = Some (b, w', ec')" "keeps rd" "P w ec"
  shows "P w' ec'"
  using assms health_tests [OF assms(3)]
  by (auto simp: jent_stuck_eq elim!: bind_SomeE dest: rct_mem_insert_keeps)

definition measures :: "measurement \<Rightarrow> bool" where
  "measures m \<longleftrightarrow> (\<forall>w ec n b d w' ec'. m w ec n = Some (b, d, w', ec') \<longrightarrow> P w ec \<longrightarrow> P w' ec')"

lemma measure_memaccess_keeps: "keeps rd \<Longrightarrow> measures (jent_measure_jitter_ntg1_memaccess rd)"
  unfolding measures_def jent_measure_jitter_ntg1_memaccess_def Let_def
  by (auto elim!: bind_SomeE dest!: memaccess_deterministic_keeps hash_insert_keeps
      dest: stuck_keeps)

lemma measure_sha3_keeps: "keeps rd \<Longrightarrow> measures (jent_measure_jitter_ntg1_sha3 rd)"
  unfolding measures_def jent_measure_jitter_ntg1_sha3_def Let_def
  by (auto elim!: bind_SomeE dest!: nstime time_onlyD hash_insert_keeps memaccess_pseudorandom_keeps
      dest: stuck_keeps [OF _ _ prev_time] stuck_keeps intro: prev_time)

lemma measure_jitter_keeps: "keeps rd \<Longrightarrow> measures (jent_measure_jitter rd)"
  unfolding measures_def jent_measure_jitter_def Let_def
  by (auto elim!: bind_SomeE dest!: nstime time_onlyD hash_insert_keeps memaccess_pseudorandom_keeps
      dest: stuck_keeps [OF _ _ prev_time] stuck_keeps intro: prev_time)

end

context step_invariant begin

lemma failure_keeps: "jent_health_failure w ec = (f, w') \<Longrightarrow> P w ec \<Longrightarrow> P w' ec"
  using jent_health_failure_world [of w ec f w'] by (auto intro: failure_log)

lemma collection_keeps:
  assumes "collection_loop m w ec ctr = Some r" "measures m" "P w ec"
  shows "P (fst r) (snd r)"
  using assms(1,3)
  by (rule collection_loop_result [where I = "\<lambda>w ec _. P w ec" and
        Q = "\<lambda>_ _ _ r. P (fst r) (snd r)"])
    (use assms(2) in \<open>auto simp: measures_def dest: failure_keeps\<close>)

lemma random_data_one_keeps:
  assumes "jent_random_data_one m w ec = Some (w', ec')" "measures m" "P w ec"
  shows "P w' ec'"
  using assms(1) window_starts [OF assms(3)] window_wraps [OF window_starts [OF assms(3)]]
    collection_keeps [OF _ assms(2)]
  by (cases "rct_mem_window ec < 256") (fastforce simp: jent_random_data_one_eq)+

lemma startup_keeps:
  "P w ec \<Longrightarrow> P w (startup_health_init (ec\<lparr>ec_startup_state := ec_startup_state ec - 1\<rparr>))"
  by (simp add: startup_health_init_def health_starts startup_advances)

lemma random_data_sha3_keeps:
  "random_data_sha3 rd w ec = Some (w', ec') \<Longrightarrow> keeps rd \<Longrightarrow> P w ec \<Longrightarrow> P w' ec'"
  by (auto simp: random_data_sha3_def elim!: bind_SomeE intro: startup_keeps
      dest: random_data_one_keeps [OF _ measure_sha3_keeps])

lemma random_data_body_keeps: "keeps rd \<Longrightarrow> keeps (random_data_body rd)"
  unfolding keeps_def [of "random_data_body rd"]
  by (auto simp: random_data_body_def Let_def split: if_splits elim!: bind_SomeE
      dest: random_data_sha3_keeps startup_keeps random_data_one_keeps [OF _ measure_memaccess_keeps]
        random_data_one_keeps [OF _ measure_jitter_keeps]
        measure_jitter_keeps [unfolded measures_def, rule_format])

lemma random_data_keeps: "keeps jent_random_data"
  unfolding jent_random_data_def
  by (intro random_data_body_keeps) (simp add: keeps_def)

end

section \<open>The outcome of a measurement\<close>

text \<open>
  What a measurement with the verdict \<open>b\<close> does to the two repetition count tests when it does not
  enter the recovery loop.
\<close>

definition measured :: "rand_data \<Rightarrow> bool \<Rightarrow> rand_data \<Rightarrow> bool" where
  "measured ec b ec' \<longleftrightarrow>
     ec_rct_count ec' = (if b then ec_rct_count ec + 1 else 0) \<and>
     (b \<and> ucast (ec_rct_cutoff_permanent ec) \<le> ec_rct_count ec + 1 \<longrightarrow> ec_health_failure ec' \<noteq> 0) \<and>
     (ec_health_failure ec \<noteq> 0 \<longrightarrow> ec_health_failure ec' \<noteq> 0) \<and>
     ec_rct_mem_ctr ec' = (if ec_rct_mem_ctr ec < ec_rct_mem_nosr ec then ec_rct_mem_ctr ec + 1
                           else ec_rct_mem_ctr ec) \<and>
     (ec_rct_mem_ctr ec < ec_rct_mem_nosr ec \<and> ec_rct_mem_count ec' = ec_rct_mem_cutoff ec \<longrightarrow>
       ec_health_failure ec' \<noteq> 0) \<and>
     (\<not> ec_rct_mem_ctr ec < ec_rct_mem_nosr ec \<and> ec_rct_mem_ctr ec \<noteq> 0 \<longrightarrow>
       ec_rct_mem_count ec' = ec_rct_mem_count ec)"

text \<open>What the tests are configured with.\<close>

definition test_config :: "rand_data \<Rightarrow> u32 \<times> bool \<times> u16 \<times> u16 \<times> u16 \<times> u32" where
  "test_config ec = (ec_osr ec, ec_is_fips_enabled ec, ec_rct_cutoff_permanent ec,
     ec_rct_mem_cutoff ec, ec_rct_mem_cutoff_permanent ec, ec_startup_state ec)"

lemma rct_mem_step_measured:
  assumes "\<not> rct_mem_recovers ec b"
  shows "ec_rct_mem_ctr (rct_mem_step ec b) =
      (if ec_rct_mem_ctr ec < ec_rct_mem_nosr ec then ec_rct_mem_ctr ec + 1 else ec_rct_mem_ctr ec)"
    "ec_rct_mem_ctr ec < ec_rct_mem_nosr ec \<Longrightarrow>
       ec_rct_mem_count (rct_mem_step ec b) = ec_rct_mem_cutoff ec \<Longrightarrow>
       ec_health_failure (rct_mem_step ec b) \<noteq> 0"
    "\<not> ec_rct_mem_ctr ec < ec_rct_mem_nosr ec \<Longrightarrow> ec_rct_mem_ctr ec \<noteq> 0 \<Longrightarrow>
       ec_rct_mem_count (rct_mem_step ec b) = ec_rct_mem_count ec"
proof -
  let ?e = "rct_mem_counted ec b"
  have n: "\<not> (ec_rct_mem_count ?e < ec_rct_mem_cutoff_permanent ec \<and>
      ec_rct_mem_count ?e = ec_rct_mem_cutoff ec \<and> \<not> ec_in_recovery ec)"
    using assms by (simp add: rct_mem_recovers_def Let_def)
  have c: "ec_rct_mem_ctr ?e = ec_rct_mem_ctr ec"
    by (simp add: rct_mem_counted_def Let_def)
  show "ec_rct_mem_ctr (rct_mem_step ec b) =
      (if ec_rct_mem_ctr ec < ec_rct_mem_nosr ec then ec_rct_mem_ctr ec + 1 else ec_rct_mem_ctr ec)"
    using c by (simp add: rct_mem_step_def rct_mem_advance_def JENT_RCT_MEM_IN_WINDOW_def Let_def)
  show "ec_health_failure (rct_mem_step ec b) \<noteq> 0"
    if "ec_rct_mem_ctr ec < ec_rct_mem_nosr ec"
      "ec_rct_mem_count (rct_mem_step ec b) = ec_rct_mem_cutoff ec"
    using c that
    by (auto simp: rct_mem_step_def rct_mem_advance_def JENT_RCT_MEM_IN_WINDOW_def Let_def
        or_eq_0_iff failure_defs split: if_splits)
  show "ec_rct_mem_count (rct_mem_step ec b) = ec_rct_mem_count ec"
    if "\<not> ec_rct_mem_ctr ec < ec_rct_mem_nosr ec" "ec_rct_mem_ctr ec \<noteq> 0"
    using that
    by (simp add: rct_mem_step_def rct_mem_counted_def rct_mem_advance_def
        JENT_RCT_MEM_IN_WINDOW_def Let_def)
qed

lemma failure_sticks:
  "ec_health_failure ec \<noteq> 0 \<Longrightarrow> ec_health_failure (stuck_tests ec d b) \<noteq> 0"
  "ec_health_failure ec \<noteq> 0 \<Longrightarrow> ec_health_failure (rct_mem_step ec b) \<noteq> 0"
  using stuck_tests_keeps [of ec _ d b] rct_mem_test.keeps_failures [where ec = ec and x = b]
  by (auto simp: bit_eq_iff [of _ 0])

lemma stuck_tests_rct:
  "ec_rct_count (stuck_tests ec d b) = (if b then ec_rct_count ec + 1 else 0)"
  "b \<Longrightarrow> ucast (ec_rct_cutoff_permanent ec) \<le> ec_rct_count ec + 1 \<Longrightarrow>
     ec_health_failure (stuck_tests ec d b) \<noteq> 0"
  by (simp_all add: stuck_tests_def jent_rct_insert_def Let_def or_eq_0_iff failure_defs)

lemma stuck_measured:
  assumes "\<not> rct_mem_recovers (stuck_tests ec d (is_stuck ec d)) (is_stuck ec d)"
  shows "jent_stuck rd w ec d =
      Some (is_stuck ec d, w, rct_mem_step (stuck_tests ec d (is_stuck ec d)) (is_stuck ec d))"
    "measured ec (is_stuck ec d) (rct_mem_step (stuck_tests ec d (is_stuck ec d)) (is_stuck ec d))"
  using rct_mem_step_measured [OF assms] failure_sticks stuck_tests_rct [where ec = ec and d = d and b = "is_stuck ec d"]
    assms
  by (simp_all add: jent_stuck_eq rct_mem_insert_cases measured_def)

lemma measured_touched:
  "touched ec ec1 \<Longrightarrow> measured ec1 b ec2 \<Longrightarrow> touched ec2 ec3 \<Longrightarrow> measured ec b ec3"
  unfolding touched_def by (elim conjE exE) (simp add: measured_def)

lemma touched_frame:
  "touched ec ec' \<Longrightarrow> test_config ec' = test_config ec"
  "touched ec ec' \<Longrightarrow> ec_in_recovery ec' = ec_in_recovery ec"
  "touched ec ec' \<Longrightarrow> ec_health_failure ec' = ec_health_failure ec"
  "touched ec ec' \<Longrightarrow> ec_rct_mem_nosr ec' = ec_rct_mem_nosr ec"
  "touched ec ec' \<Longrightarrow> ec_rct_mem_ctr ec' = ec_rct_mem_ctr ec"
  "touched ec ec' \<Longrightarrow> ec_rct_mem_count ec' = ec_rct_mem_count ec"
  unfolding touched_def by (elim conjE exE; simp add: test_config_def)+

section \<open>A collection returns\<close>

lemma test_configD:
  assumes "test_config ec' = test_config ec"
  shows "ec_osr ec' = ec_osr ec" "ec_is_fips_enabled ec' = ec_is_fips_enabled ec"
    "ec_rct_cutoff_permanent ec' = ec_rct_cutoff_permanent ec"
    "ec_rct_mem_cutoff ec' = ec_rct_mem_cutoff ec"
    "ec_rct_mem_cutoff_permanent ec' = ec_rct_mem_cutoff_permanent ec"
    "ec_startup_state ec' = ec_startup_state ec"
    "rct_mem_window ec' = rct_mem_window ec"
  using assms by (simp_all add: test_config_def rct_mem_window_def)

text \<open>
  The window of the RCT with memory is over and its counter is not at the cutoff: no measurement
  enters the recovery loop any more.
\<close>

definition settled :: "rand_data \<Rightarrow> bool" where
  "settled ec \<longleftrightarrow> ec_rct_mem_nosr ec \<le> ec_rct_mem_ctr ec \<and> ec_rct_mem_ctr ec \<noteq> 0 \<and>
     ec_rct_mem_count ec \<noteq> ec_rct_mem_cutoff ec"

definition settled_or_failed :: "rand_data \<Rightarrow> bool" where
  "settled_or_failed ec \<longleftrightarrow> ec_rct_mem_nosr ec = rct_mem_window ec \<and>
     (ec_health_failure ec \<noteq> 0 \<or> settled ec)"

definition same_setup :: "rand_data \<Rightarrow> rand_data \<Rightarrow> bool" where
  "same_setup ec ec' \<longleftrightarrow> ready ec' \<and> test_config ec' = test_config ec \<and>
     ec_in_recovery ec' = ec_in_recovery ec"

lemma same_setup_trans: "same_setup ec ec1 \<Longrightarrow> same_setup ec1 ec2 \<Longrightarrow> same_setup ec ec2"
  by (simp add: same_setup_def)

lemma touched_same_setup: "touched ec ec' \<Longrightarrow> same_setup ec ec'"
  by (simp add: same_setup_def touched_frame touched_ready)

text \<open>A recovery loop whose calls return.\<close>

definition recovery_fine :: "collect \<Rightarrow> bool" where
  "recovery_fine rd \<longleftrightarrow> (\<forall>w ec. ready ec \<longrightarrow> ec_in_recovery ec \<longrightarrow> ec_is_fips_enabled ec \<longrightarrow>
     ec_startup_state ec = jent_startup_completed \<longrightarrow>
     returns (rd w ec) (\<lambda>(_, ec'). same_setup ec ec' \<and> settled_or_failed ec'))"

lemma recovery_returns:
  assumes "recovery_fine rd"
  shows "ready ec \<Longrightarrow> ec_in_recovery ec \<Longrightarrow> ec_is_fips_enabled ec \<Longrightarrow>
     ec_startup_state ec = jent_startup_completed \<Longrightarrow>
     returns (rct_mem_recovery rd (Suc n) w ec)
       (\<lambda>(_, ec'). same_setup ec ec' \<and> settled_or_failed ec')"
proof (induction n arbitrary: w ec)
  case 0
  then show ?case
    using assms by (auto simp: recovery_fine_def elim!: returns_conseq)
next
  case (Suc n)
  have "returns (rct_mem_recovery rd (Suc n) w1 ec1)
      (\<lambda>(_, ec'). same_setup ec ec' \<and> settled_or_failed ec')" if s: "same_setup ec ec1" for w1 ec1
  proof -
    have "ready ec1" "ec_in_recovery ec1" "ec_is_fips_enabled ec1"
      "ec_startup_state ec1 = jent_startup_completed"
      using s Suc.prems test_configD [of ec1 ec] by (simp_all add: same_setup_def)
    from Suc.IH [OF this, of w1] show ?thesis
      by (rule returns_conseq) (use s in \<open>auto intro: same_setup_trans\<close>)
  qed
  moreover have "returns (rd w ec) (\<lambda>(_, ec1). same_setup ec ec1)"
    using assms [unfolded recovery_fine_def, rule_format, OF Suc.prems, of w]
    by (rule returns_conseq) auto
  ultimately show ?case
    unfolding rct_mem_recovery.simps(2) [of rd "Suc n"] returns_simps returns_prod
    by (elim returns_conseq) (simp add: case_prod_beta del: rct_mem_recovery.simps)
qed

text \<open>The outcome of a measurement.\<close>

definition outcome :: "rand_data \<Rightarrow> bool \<Rightarrow> rand_data \<Rightarrow> bool" where
  "outcome ec b ec' \<longleftrightarrow> same_setup ec ec' \<and>
     (measured ec b ec' \<and> ec_rct_mem_nosr ec' = ec_rct_mem_nosr ec \<or>
      \<not> ec_in_recovery ec \<and> \<not> settled ec \<and> settled_or_failed ec')"

lemma recovers_not_settled: "rct_mem_recovers ec b \<Longrightarrow> \<not> settled ec \<and> \<not> ec_in_recovery ec"
  by (auto simp: rct_mem_recovers_def settled_def rct_mem_counted_def Let_def
      JENT_RCT_MEM_IN_WINDOW_def split: if_splits)

lemma ready_update [simp]:
  "ready (ec\<lparr>ec_rct_mem_count := x\<rparr>) = ready ec"
  "ready (ec\<lparr>ec_rct_mem_ctr := y\<rparr>) = ready ec"
  "ready (ec\<lparr>ec_rct_mem_nosr := y\<rparr>) = ready ec"
  "ready (ec\<lparr>ec_in_recovery := b\<rparr>) = ready ec"
  "ready (ec\<lparr>ec_health_failure := h\<rparr>) = ready ec"
  by (simp_all add: ready_def mem_shape_def)

lemma test_config_update [simp]:
  "test_config (ec\<lparr>ec_rct_mem_count := x\<rparr>) = test_config ec"
  "test_config (ec\<lparr>ec_rct_mem_ctr := y\<rparr>) = test_config ec"
  "test_config (ec\<lparr>ec_rct_mem_nosr := y\<rparr>) = test_config ec"
  "test_config (ec\<lparr>ec_in_recovery := b\<rparr>) = test_config ec"
  "test_config (ec\<lparr>ec_health_failure := h\<rparr>) = test_config ec"
  by (simp_all add: test_config_def)

lemma ready_tests [simp]:
  "ready (stuck_tests ec d b) = ready ec" "ready (rct_mem_step ec b) = ready ec"
  "test_config (stuck_tests ec d b) = test_config ec"
  "test_config (rct_mem_step ec b) = test_config ec"
  "settled (stuck_tests ec d b) = settled ec"
  by (simp_all add: ready_def mem_shape_def test_config_def settled_def)

lemma rct_mem_counted_frame_all [simp]:
  "ready (rct_mem_counted ec b) = ready ec"
  "test_config (rct_mem_counted ec b) = test_config ec"
  using rct_mem_erase_frame [OF rct_mem_counted_frame(6) [of ec b]]
  by (simp_all add: ready_def mem_shape_def test_config_def)

lemma settled_or_failed_advance:
  assumes "settled_or_failed ec"
  shows "settled_or_failed (rct_mem_advance (ec\<lparr>ec_in_recovery := r\<rparr>))"
  using assms
  by (auto simp: settled_or_failed_def rct_mem_advance_def JENT_RCT_MEM_IN_WINDOW_def settled_def
      rct_mem_window_def)

lemma stuck_returns:
  assumes "ready ec" "ec_is_fips_enabled ec" "ec_startup_state ec = jent_startup_completed"
    and "\<not> ec_in_recovery ec \<longrightarrow> recovery_fine rd"
  shows "returns (jent_stuck rd w ec d) (\<lambda>(b, _, ec'). outcome ec b ec')"
proof (cases "rct_mem_recovers (stuck_tests ec d (is_stuck ec d)) (is_stuck ec d)")
  case False
  then show ?thesis
    using assms(1) by (simp add: stuck_measured outcome_def same_setup_def)
next
  case True
  let ?b = "is_stuck ec d"
  let ?e = "(rct_mem_counted (stuck_tests ec d ?b) ?b)\<lparr>ec_rct_mem_count := 0, ec_in_recovery := True\<rparr>"
  have n: "\<not> settled ec" "\<not> ec_in_recovery ec"
    using recovers_not_settled [OF True] by simp_all
  have e: "ready ?e" "test_config ?e = test_config ec"
    using assms(1) by simp_all
  have r: "returns (rct_mem_recovery rd 10 w ?e) (\<lambda>(_, ec'). same_setup ?e ec' \<and> settled_or_failed ec')"
    using recovery_returns [of rd ?e 9 w] e assms n test_configD [OF e(2)] by simp
  have "outcome ec ?b (rct_mem_advance (ec'\<lparr>ec_in_recovery := False\<rparr>))"
    if "same_setup ?e ec'" "settled_or_failed ec'" for ec'
    using that n e settled_or_failed_advance [OF that(2)]
    by (simp add: outcome_def same_setup_def rct_mem_advance_def)
  with r show ?thesis
    unfolding jent_stuck_eq rct_mem_insert_cases if_P [OF True]
    by (auto elim!: returns_conseq)
qed

lemma touched_settled:
  "touched ec ec' \<Longrightarrow> settled ec' = settled ec"
  "touched ec ec' \<Longrightarrow> settled_or_failed ec' = settled_or_failed ec"
  unfolding touched_def
  by (elim conjE exE; simp add: settled_or_failed_def settled_def rct_mem_window_def)+

lemma outcome_touched:
  assumes "touched ec ec1" "outcome ec1 b ec2" "touched ec2 ec3"
  shows "outcome ec b ec3"
proof -
  have s: "same_setup ec ec3"
    using assms touched_same_setup [OF assms(1)] touched_same_setup [OF assms(3)]
    by (auto simp: outcome_def intro: same_setup_trans)
  from assms(2) [unfolded outcome_def, THEN conjunct2] show ?thesis
  proof (elim disjE conjE)
    assume "measured ec1 b ec2" "ec_rct_mem_nosr ec2 = ec_rct_mem_nosr ec1"
    with s measured_touched [OF assms(1) _ assms(3)] show ?thesis
      by (simp add: outcome_def touched_frame(4) [OF assms(1)] touched_frame(4) [OF assms(3)])
  next
    assume "\<not> ec_in_recovery ec1" "\<not> settled ec1" "settled_or_failed ec2"
    with s show ?thesis
      by (simp add: outcome_def touched_frame(2) [OF assms(1)] touched_settled [OF assms(1)]
          touched_settled [OF assms(3)])
  qed
qed

text \<open>All three measurements return, with such an outcome.\<close>

definition measurement_fine :: "measurement \<Rightarrow> rand_data \<Rightarrow> bool" where
  "measurement_fine m ec \<longleftrightarrow> (\<forall>w n. returns (m w ec n) (\<lambda>(b, _, _, ec'). outcome ec b ec'))"

lemma stuck_then_insert_returns:
  assumes "touched ec ec1" "ec_is_fips_enabled ec" "ec_startup_state ec = jent_startup_completed"
    and "\<not> ec_in_recovery ec \<longrightarrow> recovery_fine rd"
  shows "returns (jent_stuck rd w ec1 d)
     (\<lambda>(b, w', ec'). \<forall>f. returns (jent_hash_insert ec' d (f ec')) (\<lambda>(ec3, _). outcome ec b ec3))"
proof -
  have s: "returns (jent_stuck rd w ec1 d) (\<lambda>(b, _, ec'). outcome ec1 b ec')"
    using assms(2-4) touched_ready [OF assms(1)] touched_frame(2) [OF assms(1)]
      test_configD [OF touched_frame(1) [OF assms(1)]]
    by (intro stuck_returns) simp_all
  have "returns (jent_hash_insert ec2 d im) (\<lambda>(ec3, _). outcome ec b ec3)"
    if "outcome ec1 b ec2" for b ec2 im
  proof -
    have "ready ec2" using that by (simp add: outcome_def same_setup_def)
    from hash_insert_returns [OF this, of d im] show ?thesis
      by (rule returns_conseq) (auto intro: outcome_touched [OF assms(1) that])
  qed
  then show ?thesis
    by (intro returns_conseq [OF s]) auto
qed

lemma measurements_return:
  assumes "ready ec" "ec_is_fips_enabled ec" "ec_startup_state ec = jent_startup_completed"
    and "\<not> ec_in_recovery ec \<longrightarrow> recovery_fine rd"
  shows "measurement_fine (jent_measure_jitter rd) ec"
  unfolding measurement_fine_def
proof (intro allI)
  fix w n
  have tail: "returns (do {
      (time_now, w, ec) \<leftarrow> jent_get_nstime_internal w1 ec1;
      current_delta \<leftarrow> udiv64 (jent_delta (ec_prev_time ec) time_now) (ec_common_timer_gcd ec);
      let ec = ec\<lparr>ec_prev_time := time_now\<rparr>;
      (stuck, w, ec) \<leftarrow> jent_stuck rd w ec current_delta;
      let intermediary = jent_hash_loop w ec im n;
      let intermediary = intermediary[JENT_OFFSET_DOMAINSEPARATOR := 0x03];
      (ec, _) \<leftarrow> jent_hash_insert ec current_delta intermediary;
      Some (stuck, current_delta, w, ec)
    }) (\<lambda>(b, _, _, ec'). outcome ec b ec')" if "touched ec ec1" for w1 ec1 im
  proof -
    note r = readyD(1,2) [OF touched_ready [OF that]]
    have t: "touched ec (ec1\<lparr>ec_prev_time := p\<rparr>)" for p
      using that touched_time [OF touched_ready [OF that]] by (rule touched_trans)
    show ?thesis
      unfolding r Let_def Option.bind.simps prod.case returns_simps returns_prod
      by (rule returns_conseq [OF stuck_then_insert_returns [OF t assms(2-4)]])
        (auto elim: returns_conseq)
  qed
  show "returns (jent_measure_jitter rd w ec n) (\<lambda>(b, _, _, ec'). outcome ec b ec')"
    unfolding jent_measure_jitter_def Let_def
    unfolding returns_simps(3) [of "jent_memaccess_pseudorandom w ec n None"]
    by (rule returns_conseq [OF memaccess_pseudorandom_returns [OF assms(1)]])
      (use tail [unfolded Let_def] in \<open>auto simp del: returns_simps(3)\<close>)
qed

text \<open>How many stuck values the repetition count test still accepts.\<close>

definition stuck_left :: "rand_data \<Rightarrow> nat" where
  "stuck_left ec =
     (let p = unat (ec_rct_cutoff_permanent ec); c = unat (ec_rct_count ec)
      in if c < p then p - c else p + 1)"

lemma stuck_left_decreases:
  assumes "ec_rct_count ec' = ec_rct_count ec + 1"
    "ec_rct_cutoff_permanent ec' = ec_rct_cutoff_permanent ec"
    and "\<not> ucast (ec_rct_cutoff_permanent ec) \<le> ec_rct_count ec + 1"
  shows "stuck_left ec' < stuck_left ec"
proof -
  let ?p = "unat (ec_rct_cutoff_permanent ec)"
  let ?c = "unat (ec_rct_count ec)"
  have p: "unat (ucast (ec_rct_cutoff_permanent ec) :: u32) = ?p"
    using unat_u16_less [of "ec_rct_cutoff_permanent ec"]
    by (simp add: unsigned_ucast_eq take_bit_nat_eq_self)
  have c': "unat (ec_rct_count ec + 1) < ?p"
    using assms(3) p by (simp add: word_le_nat_alt not_le)
  consider "unat (ec_rct_count ec + 1) = Suc ?c" | "unat (ec_rct_count ec + 1) = 0"
    "?c = 2 ^ 32 - 1"
  proof (cases "?c = 2 ^ 32 - 1")
    case True
    then have "unat (ec_rct_count ec + 1) = 0" by (subst unat_word_ariths) simp
    with True that(2) show ?thesis by blast
  next
    case False
    moreover have "?c < 2 ^ 32" using unsigned_less [of "ec_rct_count ec"] by simp
    ultimately have "?c < 2 ^ 32 - 1" by simp
    then have "unat (ec_rct_count ec + 1) = Suc ?c" by (rule unat_Suc_below) simp
    with that(1) show ?thesis by blast
  qed
  then show ?thesis
  proof cases
    case 1
    with c' assms(1,2) show ?thesis by (simp add: stuck_left_def)
  next
    case 2
    with c' assms(1,2) unat_u16_less [of "ec_rct_cutoff_permanent ec"] show ?thesis
      by (simp add: stuck_left_def)
  qed
qed

text \<open>The invariant of the collection loop, and what decreases in it.\<close>

definition collecting :: "rand_data \<Rightarrow> u32 \<Rightarrow> bool" where
  "collecting ec ctr \<longleftrightarrow> ready ec \<and> ec_is_fips_enabled ec \<and>
     ec_startup_state ec = jent_startup_completed \<and>
     ec_rct_mem_nosr ec = rct_mem_window ec \<and> unat ctr < unat (ec_rct_mem_nosr ec) \<and>
     (settled ec \<or> unat ctr \<le> unat (ec_rct_mem_ctr ec) \<and>
       (ec_rct_mem_ctr ec \<noteq> 0 \<longrightarrow> ec_rct_mem_count ec \<noteq> ec_rct_mem_cutoff ec))"

definition collection_measure :: "rand_data \<times> u32 \<Rightarrow> nat \<times> nat \<times> nat" where
  "collection_measure = (\<lambda>(ec, ctr).
     (of_bool (\<not> settled ec), unat (ec_rct_mem_nosr ec) - unat ctr, stuck_left ec))"

definition collection_order :: "((rand_data \<times> u32) \<times> (rand_data \<times> u32)) set" where
  "collection_order =
     inv_image (less_than <*lex*> less_than <*lex*> less_than) collection_measure"

lemma wf_collection_order: "wf collection_order"
  unfolding collection_order_def by (intro wf_inv_image wf_lex_prod wf_less_than)

lemma measured_settled:
  assumes "measured ec b ec'" "ec_rct_mem_nosr ec' = ec_rct_mem_nosr ec"
    "test_config ec' = test_config ec" "settled ec"
  shows "settled ec'"
  using assms test_configD [OF assms(3)] by (auto simp: measured_def settled_def not_less)

lemma measured_collecting:
  assumes "measured ec b ec'" "ec_rct_mem_nosr ec' = ec_rct_mem_nosr ec" "same_setup ec ec'"
    "collecting ec ctr" "ec_health_failure ec' = 0"
    "unat ctr' \<le> unat ctr + 1" "unat ctr' \<le> unat (ec_rct_mem_nosr ec)"
  shows "settled ec' \<or> unat ctr' \<le> unat (ec_rct_mem_ctr ec') \<and>
     (ec_rct_mem_ctr ec' \<noteq> 0 \<longrightarrow> ec_rct_mem_count ec' \<noteq> ec_rct_mem_cutoff ec')"
proof (cases "settled ec")
  case True
  with measured_settled [OF assms(1,2)] assms(3) show ?thesis by (simp add: same_setup_def)
next
  case False
  note c = test_configD [of ec' ec] assms(3) [unfolded same_setup_def]
  have l: "unat ctr \<le> unat (ec_rct_mem_ctr ec)"
    "ec_rct_mem_ctr ec \<noteq> 0 \<longrightarrow> ec_rct_mem_count ec \<noteq> ec_rct_mem_cutoff ec"
    using assms(4) False by (simp_all add: collecting_def)
  show ?thesis
  proof (cases "ec_rct_mem_ctr ec < ec_rct_mem_nosr ec")
    case True
    then have "unat (ec_rct_mem_ctr ec + 1) = Suc (unat (ec_rct_mem_ctr ec))"
      using unat_u16_less [of "ec_rct_mem_nosr ec"]
      by (intro unat_Suc_below [of _ "2 ^ 16 - 1"]) (simp_all add: word_less_nat_alt)
    with True l(1) assms(1,5,6) c show ?thesis by (auto simp: measured_def)
  next
    case outside: False
    have "ec_rct_mem_ctr ec \<noteq> 0"
      using outside assms(4) by (auto simp: collecting_def word_less_nat_alt)
    with outside l assms(1,7) c show ?thesis
      by (auto simp: measured_def word_less_nat_alt not_less)
  qed
qed

lemma collection_loop_failed:
  "ec_is_fips_enabled ec \<Longrightarrow> ec_health_failure ec \<noteq> 0 \<Longrightarrow>
     returns (collection_loop m w ec ctr) (\<lambda>(_, ec'). ec' = ec)"
  using jent_health_failure_result [of w ec]
  by (subst collection_loop.simps) (auto simp: Let_def split: prod.splits)

lemma same_setup_refl: "ready ec \<Longrightarrow> same_setup ec ec"
  by (simp add: same_setup_def)

text \<open>One round: the measurement is accepted, rejected, or ends the loop.\<close>

lemma collection_round:
  assumes "collecting ec ctr" "outcome ec b ec'" "ec_health_failure ec' = 0"
  shows "(b \<longrightarrow> collecting ec' ctr \<and> ((ec', ctr), (ec, ctr)) \<in> collection_order) \<and>
     (\<not> b \<longrightarrow> ucast (ec_rct_mem_nosr ec') \<le> ctr + 1 \<longrightarrow> settled_or_failed ec') \<and>
     (\<not> b \<longrightarrow> \<not> ucast (ec_rct_mem_nosr ec') \<le> ctr + 1 \<longrightarrow>
       collecting ec' (ctr + 1) \<and> ((ec', ctr + 1), (ec, ctr)) \<in> collection_order)"
proof -
  let ?n = "unat (ec_rct_mem_nosr ec)"
  have s: "ready ec'" "test_config ec' = test_config ec" "ec_in_recovery ec' = ec_in_recovery ec"
    using assms(2) by (simp_all add: outcome_def same_setup_def)
  note c = test_configD [OF s(2)]
  have ctr: "unat ctr < ?n" "ec_rct_mem_nosr ec = rct_mem_window ec"
    using assms(1) by (auto simp: collecting_def)
  then have next_ctr: "unat (ctr + 1) = Suc (unat ctr)"
    using unat_u16_less [of "ec_rct_mem_nosr ec"] by (intro unat_Suc_below [of _ "2 ^ 16 - 1"]) simp_all
  have n': "ec_rct_mem_nosr ec' = ec_rct_mem_nosr ec"
    using assms(2) ctr(2) c(7) by (auto simp: outcome_def settled_or_failed_def)
  have le: "(ucast (ec_rct_mem_nosr ec') \<le> ctr + 1) = (?n \<le> Suc (unat ctr))"
    using unat_u16_less [of "ec_rct_mem_nosr ec"]
    by (simp add: n' word_le_nat_alt next_ctr unsigned_ucast_eq take_bit_nat_eq_self)
  have keep: "collecting ec' k \<longleftrightarrow> unat k < ?n \<and>
      (settled ec' \<or> unat k \<le> unat (ec_rct_mem_ctr ec') \<and>
        (ec_rct_mem_ctr ec' \<noteq> 0 \<longrightarrow> ec_rct_mem_count ec' \<noteq> ec_rct_mem_cutoff ec'))" for k
    using assms(1) s c n' by (auto simp: collecting_def)
  from assms(2) [unfolded outcome_def, THEN conjunct2] show ?thesis
  proof (elim disjE conjE)
    assume m: "measured ec b ec'"
    have inv: "settled ec' \<or> unat k \<le> unat (ec_rct_mem_ctr ec') \<and>
        (ec_rct_mem_ctr ec' \<noteq> 0 \<longrightarrow> ec_rct_mem_count ec' \<noteq> ec_rct_mem_cutoff ec')"
      if "unat k \<le> unat ctr + 1" "unat k \<le> ?n" for k :: u32
      by (rule measured_collecting [OF m n' _ assms(1,3) that]) (use s in \<open>simp add: same_setup_def\<close>)
    have first: "of_bool (\<not> settled ec') \<le> (of_bool (\<not> settled ec) :: nat)"
      using measured_settled [OF m n' s(2)] by auto
    have "stuck_left ec' < stuck_left ec" if b
    proof (rule stuck_left_decreases)
      show "ec_rct_count ec' = ec_rct_count ec + 1" using m that by (simp add: measured_def)
      show "\<not> ucast (ec_rct_cutoff_permanent ec) \<le> ec_rct_count ec + 1"
        using m that assms(3) by (auto simp: measured_def)
    qed (use c in simp)
    then have stuck: "b \<Longrightarrow> ((ec', ctr), (ec, ctr)) \<in> collection_order"
      using first n' by (auto simp: collection_order_def collection_measure_def)
    have good: "Suc (unat ctr) < ?n \<Longrightarrow> ((ec', ctr + 1), (ec, ctr)) \<in> collection_order"
      using first n' next_ctr by (auto simp: collection_order_def collection_measure_def)
    have "?n \<le> Suc (unat ctr) \<Longrightarrow> settled ec'"
      using inv [of "ctr + 1"] next_ctr ctr(1) n' unat_u16_less [of "ec_rct_mem_nosr ec"]
      by (auto simp: settled_def word_le_nat_alt)
    moreover have "settled ec' \<Longrightarrow> settled_or_failed ec'"
      using n' ctr(2) c(7) by (simp add: settled_or_failed_def)
    ultimately show ?thesis
      using stuck good inv [of ctr] inv [of "ctr + 1"] ctr(1) next_ctr
      by (simp add: keep le not_le)
  next
    assume "\<not> settled ec" "settled_or_failed ec'"
    then have "settled ec'" using assms(3) by (simp add: settled_or_failed_def)
    with \<open>\<not> settled ec\<close> have "((ec', k), (ec, ctr)) \<in> collection_order" for k
      by (simp add: collection_order_def collection_measure_def)
    with \<open>settled ec'\<close> \<open>settled_or_failed ec'\<close> show ?thesis
      using ctr(1) next_ctr by (simp add: keep le not_le)
  qed
qed

lemma collection_returns:
  assumes "collecting ec ctr" "\<not> ec_in_recovery ec \<longrightarrow> recovery_fine rd"
  shows "returns (collection_loop (jent_measure_jitter rd) w ec ctr)
     (\<lambda>(_, ec'). same_setup ec ec' \<and> settled_or_failed ec')"
  using wf_collection_order assms
proof (induction "(ec, ctr)" arbitrary: ec ctr w rule: wf_induct_rule)
  case less
  let ?m = "jent_measure_jitter rd"
  let ?Q = "\<lambda>ec (_ :: jent_world, ec'). same_setup ec ec' \<and> settled_or_failed ec'"
  have c: "ready ec" "ec_is_fips_enabled ec" "ec_startup_state ec = jent_startup_completed"
    "ec_rct_mem_nosr ec = rct_mem_window ec"
    using less.prems(1) by (simp_all add: collecting_def)
  show ?case
  proof (cases "ec_health_failure ec = 0")
    case False
    from collection_loop_failed [OF c(2) False] show ?thesis
      by (rule returns_conseq) (use c False in \<open>auto simp: settled_or_failed_def same_setup_refl\<close>)
  next
    case True
    have fine: "returns (?m w ec 0) (\<lambda>(b, _, _, ec'). outcome ec b ec')"
      using measurements_return [OF c(1-3) less.prems(2)] by (simp add: measurement_fine_def)
    have rest: "returns (if b then collection_loop ?m w2 ec' ctr
        else if ctr + 1 \<ge> ucast (ec_rct_mem_nosr ec') then Some (w2, ec')
        else collection_loop ?m w2 ec' (ctr + 1)) (?Q ec)" if o: "outcome ec b ec'" for b w2 ec'
    proof -
      have s: "same_setup ec ec'" using o by (simp add: outcome_def)
      have rd: "\<not> ec_in_recovery ec' \<longrightarrow> recovery_fine rd"
        using less.prems(2) s by (simp add: same_setup_def)
      have fips: "ec_is_fips_enabled ec'"
        using c(2) test_configD [of ec' ec] s by (simp add: same_setup_def)
      have lift: "returns (collection_loop ?m w2 ec' k) (?Q ec)"
        if "returns (collection_loop ?m w2 ec' k) (?Q ec')" for k
        using that by (rule returns_conseq) (use s in \<open>auto intro: same_setup_trans\<close>)
      show ?thesis
      proof (cases "ec_health_failure ec' = 0")
        case True
        note r = collection_round [OF less.prems(1) o True]
        have "b \<Longrightarrow> returns (collection_loop ?m w2 ec' ctr) (?Q ec)"
          using r by (intro lift less.hyps rd) simp_all
        moreover have "\<not> b \<Longrightarrow> \<not> ucast (ec_rct_mem_nosr ec') \<le> ctr + 1 \<Longrightarrow>
            returns (collection_loop ?m w2 ec' (ctr + 1)) (?Q ec)"
          using r by (intro lift less.hyps rd) simp_all
        ultimately show ?thesis using r s by simp
      next
        case False
        have n: "ec_rct_mem_nosr ec' = rct_mem_window ec'"
          using o c(4) test_configD [of ec' ec] s
          by (auto simp: outcome_def same_setup_def settled_or_failed_def)
        have "returns (collection_loop ?m w2 ec' k) (?Q ec)" for k
          by (rule returns_conseq [OF collection_loop_failed [OF fips False]])
            (use s n False in \<open>auto simp: settled_or_failed_def\<close>)
        then show ?thesis using s n False by (simp add: settled_or_failed_def)
      qed
    qed
    have "collection_loop ?m w ec ctr = do {
        (b, _, w2, ec') \<leftarrow> ?m w ec 0;
        if b then collection_loop ?m w2 ec' ctr
        else if ctr + 1 \<ge> ucast (ec_rct_mem_nosr ec') then Some (w2, ec')
        else collection_loop ?m w2 ec' (ctr + 1)
      }"
      by (subst collection_loop.simps) (simp add: True Let_def cong: if_cong)
    then show ?thesis
      unfolding returns_simps returns_prod
      by (simp only: returns_simps returns_prod)
        (rule returns_conseq [OF fine], use rest in \<open>auto simp only: prod.case\<close>)
  qed
qed

section \<open>The recursion of the recovery loop\<close>

interpretation recovering: noise_invariant "\<lambda>_ ec. ec_in_recovery ec"
  by unfold_locales simp_all

text \<open>
  In recovery the measurements do not call the collection, and stay in recovery. \<open>agree_recovering\<close>
  says this of two measurements.
\<close>

definition agree_recovering :: "measurement \<Rightarrow> measurement \<Rightarrow> bool" where
  "agree_recovering m m' \<longleftrightarrow> (\<forall>w ec n. ec_in_recovery ec \<longrightarrow> m w ec n = m' w ec n \<and>
     (\<forall>b d w' ec'. m w ec n = Some (b, d, w', ec') \<longrightarrow> ec_in_recovery ec'))"

lemma stuck_recovering:
  "ec_in_recovery ec \<Longrightarrow> jent_stuck rd w ec d =
     Some (is_stuck ec d, w, rct_mem_step (stuck_tests ec d (is_stuck ec d)) (is_stuck ec d))"
  by (simp add: jent_stuck_eq rct_mem_insert_in_recovery)

lemma agree_memaccess:
  "agree_recovering (jent_measure_jitter_ntg1_memaccess rd) (jent_measure_jitter_ntg1_memaccess rd')"
proof -
  have "jent_measure_jitter_ntg1_memaccess rd w ec n = jent_measure_jitter_ntg1_memaccess rd' w ec n"
    if "ec_in_recovery ec" for w ec n
    unfolding jent_measure_jitter_ntg1_memaccess_def Let_def
    by (intro Option.bind_cong refl)
      (use that in \<open>auto simp: stuck_recovering dest!: recovering.memaccess_deterministic_keeps
        intro!: Option.bind_cong\<close>)
  moreover have "ec_in_recovery ec'"
    if "ec_in_recovery ec" "jent_measure_jitter_ntg1_memaccess rd w ec n = Some (b, d, w', ec')"
    for w ec n b d w' ec'
    using that unfolding jent_measure_jitter_ntg1_memaccess_def Let_def
    by (auto elim!: bind_SomeE simp: stuck_recovering dest!: recovering.hash_insert_keeps
        recovering.memaccess_deterministic_keeps)
  ultimately show ?thesis by (auto simp: agree_recovering_def)
qed

lemma agree_sha3:
  "agree_recovering (jent_measure_jitter_ntg1_sha3 rd) (jent_measure_jitter_ntg1_sha3 rd')"
proof -
  have "jent_measure_jitter_ntg1_sha3 rd w ec n = jent_measure_jitter_ntg1_sha3 rd' w ec n"
    if "ec_in_recovery ec" for w ec n
    unfolding jent_measure_jitter_ntg1_sha3_def Let_def
    by (intro Option.bind_cong refl)
      (use that in \<open>auto simp: stuck_recovering dest!: recovering.nstime recovering.time_onlyD
        intro!: Option.bind_cong\<close>)
  moreover have "ec_in_recovery ec'"
    if "ec_in_recovery ec" "jent_measure_jitter_ntg1_sha3 rd w ec n = Some (b, d, w', ec')"
    for w ec n b d w' ec'
    using that unfolding jent_measure_jitter_ntg1_sha3_def Let_def
    by (auto elim!: bind_SomeE simp: stuck_recovering dest!: recovering.hash_insert_keeps
        recovering.nstime recovering.time_onlyD)
  ultimately show ?thesis by (auto simp: agree_recovering_def)
qed

lemma agree_jitter: "agree_recovering (jent_measure_jitter rd) (jent_measure_jitter rd')"
proof -
  have "jent_measure_jitter rd w ec n = jent_measure_jitter rd' w ec n"
    if "ec_in_recovery ec" for w ec n
    unfolding jent_measure_jitter_def Let_def
    by (intro Option.bind_cong refl)
      (use that in \<open>auto simp: stuck_recovering dest!: recovering.nstime recovering.time_onlyD
        recovering.memaccess_pseudorandom_keeps intro!: Option.bind_cong\<close>)
  moreover have "ec_in_recovery ec'"
    if "ec_in_recovery ec" "jent_measure_jitter rd w ec n = Some (b, d, w', ec')"
    for w ec n b d w' ec'
    using that unfolding jent_measure_jitter_def Let_def
    by (auto elim!: bind_SomeE simp: stuck_recovering dest!: recovering.hash_insert_keeps
        recovering.nstime recovering.time_onlyD recovering.memaccess_pseudorandom_keeps)
  ultimately show ?thesis by (auto simp: agree_recovering_def)
qed

lemma agree_collection_half:
  assumes "collection_loop m w ec ctr = Some r" "ec_in_recovery ec" "agree_recovering m m'"
  shows "collection_loop m' w ec ctr = Some r \<and> ec_in_recovery (snd r)"
  using assms(1,2)
proof (rule collection_loop_result [where I = "\<lambda>_ ec _. ec_in_recovery ec" and
      Q = "\<lambda>w ec ctr r. collection_loop m' w ec ctr = Some r \<and> ec_in_recovery (snd r)"])
  have m: "m' w ec 0 = Some x \<and> ec_in_recovery (snd (snd (snd x)))"
    if "m w ec 0 = Some x" "ec_in_recovery ec" for w ec x
    using assms(3) that by (cases x) (auto simp: agree_recovering_def)
  fix w :: jent_world and ec :: rand_data and ctr f w1 d w2 ec2 r
  assume i: "ec_in_recovery ec"
  show "collection_loop m' w ec ctr = Some (w1, ec) \<and> ec_in_recovery (snd (w1, ec))"
    if "jent_health_failure w ec = (f, w1)" "f \<noteq> 0"
    using i that by (subst collection_loop.simps) simp
  assume f: "jent_health_failure w ec = (0, w1)"
  show "collection_loop m' w ec ctr = Some (w2, ec2) \<and> ec_in_recovery (snd (w2, ec2))"
    if "m w1 ec 0 = Some (False, d, w2, ec2)" "ucast (ec_rct_mem_nosr ec2) \<le> ctr + 1"
    using f m [OF that(1) i] that(2)
    by (subst collection_loop.simps) (simp add: Let_def cong: if_cong)
  show "ec_in_recovery ec2 \<and> (collection_loop m' w2 ec2 ctr = Some r \<and> ec_in_recovery (snd r) \<longrightarrow>
      collection_loop m w2 ec2 ctr = Some r \<longrightarrow>
      collection_loop m' w ec ctr = Some r \<and> ec_in_recovery (snd r))"
    if "m w1 ec 0 = Some (True, d, w2, ec2)"
    using f m [OF that i] by (auto simp: collection_loop.simps [of m' w])
  show "ec_in_recovery ec2 \<and> (collection_loop m' w2 ec2 (ctr + 1) = Some r \<and>
      ec_in_recovery (snd r) \<longrightarrow> collection_loop m w2 ec2 (ctr + 1) = Some r \<longrightarrow>
      collection_loop m' w ec ctr = Some r \<and> ec_in_recovery (snd r))"
    if "m w1 ec 0 = Some (False, d, w2, ec2)" "\<not> ucast (ec_rct_mem_nosr ec2) \<le> ctr + 1"
    using f m [OF that(1) i] that(2)
    by (auto simp: collection_loop.simps [of m' w] Let_def cong: if_cong)
qed

lemma agree_sym: "agree_recovering m m' \<Longrightarrow> agree_recovering m' m"
  by (auto simp: agree_recovering_def)

lemma agree_one:
  assumes "agree_recovering m m'" "ec_in_recovery ec"
  shows "jent_random_data_one m w ec = jent_random_data_one m' w ec \<and>
     if_returns (jent_random_data_one m w ec) (\<lambda>(_, ec'). ec_in_recovery ec')"
proof -
  have r: "ec_in_recovery (window_start ec)" using assms(2) by (simp add: window_start_def)
  have "collection_loop m w (window_start ec) 0 = collection_loop m' w (window_start ec) 0"
    using agree_collection_half [OF _ r assms(1)] agree_collection_half [OF _ r agree_sym [OF assms(1)]]
    by (metis option.exhaust)
  moreover have "if_returns (collection_loop m w (window_start ec) 0) (\<lambda>(_, ec'). ec_in_recovery ec')"
    using agree_collection_half [OF _ r assms(1)] by (auto simp: if_returns_def)
  ultimately show ?thesis using r by (simp add: jent_random_data_one_eq)
qed

lemma agree_random_data_sha3:
  assumes "ec_in_recovery ec"
  shows "random_data_sha3 rd w ec = random_data_sha3 rd' w ec \<and>
     if_returns (random_data_sha3 rd w ec) (\<lambda>(_, ec'). ec_in_recovery ec')"
  using agree_one [OF agree_sha3 [of rd rd'] assms, of w]
  by (auto simp: random_data_sha3_def if_returns_def startup_health_init_def elim!: bind_SomeE)

lemma agree_body:
  assumes "ec_in_recovery ec"
  shows "random_data_body rd w ec = random_data_body rd' w ec \<and>
     if_returns (random_data_body rd w ec) (\<lambda>(_, ec'). ec_in_recovery ec')"
proof -
  have s: "ec_in_recovery (startup_health_init (e\<lparr>ec_startup_state := x\<rparr>)) = ec_in_recovery e" for e x
    by (simp add: startup_health_init_def)
  consider "ec_startup_state ec = jent_startup_memory" | "ec_startup_state ec = jent_startup_sha3"
    | "ec_startup_state ec \<noteq> jent_startup_memory" "ec_startup_state ec \<noteq> jent_startup_sha3"
    by blast
  then show ?thesis
  proof cases
    case 1
    have a: "jent_random_data_one (jent_measure_jitter_ntg1_memaccess rd) w ec =
        jent_random_data_one (jent_measure_jitter_ntg1_memaccess rd') w ec"
      and r: "if_returns (jent_random_data_one (jent_measure_jitter_ntg1_memaccess rd') w ec)
        (\<lambda>(_, ec'). ec_in_recovery ec')"
      using agree_one [OF agree_memaccess [of rd rd'] assms, of w]
        agree_one [OF agree_memaccess [of rd' rd] assms, of w] by simp_all
    have "random_data_sha3 rd w1 (startup_health_init (e\<lparr>ec_startup_state := x\<rparr>)) =
        random_data_sha3 rd' w1 (startup_health_init (e\<lparr>ec_startup_state := x\<rparr>)) \<and>
      if_returns (random_data_sha3 rd' w1 (startup_health_init (e\<lparr>ec_startup_state := x\<rparr>)))
        (\<lambda>(_, ec'). ec_in_recovery ec')" if "ec_in_recovery e" for w1 e x
      using agree_random_data_sha3 [of "startup_health_init (e\<lparr>ec_startup_state := x\<rparr>)" rd w1 rd']
        agree_random_data_sha3 [of "startup_health_init (e\<lparr>ec_startup_state := x\<rparr>)" rd' w1 rd]
        that by (simp add: s)
    with r show ?thesis
      by (auto simp: random_data_body_def 1 a Let_def if_returns_def elim!: bind_SomeE
          intro!: Option.bind_cong)
  next
    case 2
    with agree_random_data_sha3 [OF assms, of rd w rd'] agree_random_data_sha3 [OF assms, of rd' w rd]
    show ?thesis
      by (simp add: random_data_body_def)
  next
    case 3
    have a: "jent_measure_jitter rd w ec 0 = jent_measure_jitter rd' w ec 0"
      and r: "jent_measure_jitter rd' w ec 0 = Some (b, d, w', ec') \<Longrightarrow> ec_in_recovery ec'"
      for b d w' ec'
      using assms agree_jitter [of rd rd'] by (auto simp: agree_recovering_def)
    have o: "jent_random_data_one (jent_measure_jitter rd) w1 ec1 =
        jent_random_data_one (jent_measure_jitter rd') w1 ec1 \<and>
      if_returns (jent_random_data_one (jent_measure_jitter rd') w1 ec1)
        (\<lambda>(_, ec'). ec_in_recovery ec')" if "ec_in_recovery ec1" for w1 ec1
      using agree_one [OF agree_jitter [of rd rd'] that, of w1]
        agree_one [OF agree_jitter [of rd' rd] that, of w1] by simp
    have body: "random_data_body rd w ec =
        do { (_, _, w, ec) \<leftarrow> jent_measure_jitter rd w ec 0;
             jent_random_data_one (jent_measure_jitter rd) w ec }" for rd
      using 3 by (simp add: random_data_body_def)
    show ?thesis
      unfolding body a
      using o r by (auto simp: if_returns_def elim!: bind_SomeE intro!: Option.bind_cong)
  qed
qed

lemma agree_recovery:
  "ec_in_recovery ec \<Longrightarrow> rct_mem_recovery (random_data_body rd) n w ec =
     rct_mem_recovery (random_data_body rd') n w ec"
proof (induction n arbitrary: w ec)
  case (Suc n)
  show ?case
    using agree_body [OF Suc.prems, of rd w rd'] Suc.IH
    by (auto intro!: Option.bind_cong dest: if_returnsD)
qed simp

lemma jent_stuck_recursion:
  "jent_stuck (random_data_body rd) = jent_stuck (random_data_body rd')"
proof -
  have "jent_rct_mem_insert (random_data_body rd) w ec b =
      jent_rct_mem_insert (random_data_body rd') w ec b" for w ec b
    using agree_recovery [of "(rct_mem_counted ec b)\<lparr>ec_rct_mem_count := 0, ec_in_recovery := True\<rparr>"
        rd 10 w rd']
    by (simp add: rct_mem_insert_cases)
  then show ?thesis by (intro ext) (simp add: jent_stuck_eq)
qed

text \<open>The equation of the C function.\<close>

lemma random_data_recursion_eq: "jent_random_data = random_data_body jent_random_data"
proof -
  have m: "jent_measure_jitter_ntg1_memaccess rd = jent_measure_jitter_ntg1_memaccess rd'"
    "jent_measure_jitter_ntg1_sha3 rd = jent_measure_jitter_ntg1_sha3 rd'"
    "jent_measure_jitter rd = jent_measure_jitter rd'" if "jent_stuck rd = jent_stuck rd'" for rd rd'
    unfolding jent_measure_jitter_ntg1_memaccess_def [abs_def] jent_measure_jitter_ntg1_sha3_def [abs_def]
      jent_measure_jitter_def [abs_def] that
    by (rule refl)+
  have "random_data_body rd = random_data_body rd'" if "jent_stuck rd = jent_stuck rd'" for rd rd'
    by (intro ext) (simp only: random_data_body_def random_data_sha3_def m [OF that])
  from this [OF jent_stuck_recursion] show ?thesis
    unfolding jent_random_data_def by blast
qed

section \<open>A collection returns\<close>

lemma body_returns:
  assumes "ready ec" "ec_is_fips_enabled ec" "ec_startup_state ec = jent_startup_completed"
    and "\<not> ec_in_recovery ec \<longrightarrow> recovery_fine rd"
  shows "returns (random_data_body rd w ec)
     (\<lambda>(_, ec'). same_setup ec ec' \<and> settled_or_failed ec')"
proof -
  let ?m = "jent_measure_jitter rd"
  have one: "returns (jent_random_data_one ?m w1 ec1)
      (\<lambda>(_, ec'). same_setup ec ec' \<and> settled_or_failed ec')" if s: "same_setup ec ec1" for w1 ec1
  proof -
    have c: "ready ec1" "test_config ec1 = test_config ec" "ec_in_recovery ec1 = ec_in_recovery ec"
      using s by (simp_all add: same_setup_def)
    note t = test_configD [OF c(2)]
    have w: "rct_mem_window (window_start ec1) = rct_mem_window ec1" "ready (window_start ec1)"
      "test_config (window_start ec1) = test_config ec1"
      "ec_in_recovery (window_start ec1) = ec_in_recovery ec1"
      "ec_rct_mem_nosr (window_start ec1) = rct_mem_window ec1"
      using c(1) by (simp_all add: window_start_def rct_mem_window_def)
    show ?thesis
    proof (cases "rct_mem_window ec1 < 256")
      case True
      with w c show ?thesis
        by (simp add: jent_random_data_one_eq same_setup_def settled_or_failed_def or_eq_0_iff
            failure_defs window_start_def rct_mem_window_def)
    next
      case False
      then have "collecting (window_start ec1) 0"
        using assms t c(1) w(1,2)
        by (auto simp: collecting_def window_start_def not_less word_le_nat_alt)
      moreover have "\<not> ec_in_recovery (window_start ec1) \<longrightarrow> recovery_fine rd"
        using assms(4) c(3) w(4) by simp
      ultimately have "returns (collection_loop ?m w1 (window_start ec1) 0)
          (\<lambda>(_, ec'). same_setup (window_start ec1) ec' \<and> settled_or_failed ec')"
        by (rule collection_returns)
      then have "returns (collection_loop ?m w1 (window_start ec1) 0)
          (\<lambda>(_, ec'). same_setup ec ec' \<and> settled_or_failed ec')"
        by (rule returns_conseq) (use c w in \<open>auto simp: same_setup_def\<close>)
      with False show ?thesis by (simp add: jent_random_data_one_eq)
    qed
  qed
  have "returns (?m w ec 0) (\<lambda>(b, _, _, ec'). outcome ec b ec')"
    using measurements_return [OF assms] by (simp add: measurement_fine_def)
  then have "returns (?m w ec 0) (\<lambda>(b, _, w1, ec1). returns (jent_random_data_one ?m w1 ec1)
      (\<lambda>(_, ec'). same_setup ec ec' \<and> settled_or_failed ec'))"
    by (rule returns_conseq) (auto simp: outcome_def intro: one)
  then show ?thesis
    using assms(3) by (simp add: random_data_body_def)
qed

lemma recovery_fine_body: "recovery_fine (random_data_body rd)"
  unfolding recovery_fine_def by (auto intro: body_returns)

lemma random_data_returns:
  assumes "ready ec" "ec_is_fips_enabled ec" "ec_startup_state ec = jent_startup_completed"
  shows "returns (jent_random_data w ec) (\<lambda>(_, ec'). same_setup ec ec' \<and> settled_or_failed ec')"
  unfolding jent_random_data_def
  by (rule body_returns [OF assms]) (simp add: recovery_fine_body)

section \<open>What a collection leaves alone\<close>

interpretation failures_kept: step_invariant "\<lambda>_ ec. bit (ec_health_failure ec) n" for n
  by unfold_locales
    (auto simp: bit_or_iff rct_mem_advance_def window_start_def rct_mem_test.keeps_failures stuck_tests_keeps)

text \<open>What the library, not the noise source, sets up in a collector.\<close>

definition collector_setup :: "rand_data \<Rightarrow> u32 \<times> u32 \<times> u8 list \<times> u32 \<times> u64 \<times> u64 \<times> u32 \<times> u32 \<times>
    u32 \<times> bool \<times> bool \<times> bool \<times> jent_notime_ctx option \<times> u64" where
  "collector_setup ec = (ec_flags ec, ec_osr ec, ec_uuid ec, ec_reinit_count ec,
     ec_read_invocations ec, ec_bytes_output ec, ec_memmask ec, ec_memaccessloops ec,
     ec_hashloopcnt ec, ec_is_fips_enabled ec, ec_enable_notime ec, ec_max_mem_set ec,
     ec_notime_thread_ctx ec, ec_common_timer_gcd ec)"

lemma rct_mem_counted_setup [simp]: "collector_setup (rct_mem_counted ec b) = collector_setup ec"
  using rct_mem_erase_frame [OF rct_mem_counted_frame(6) [of ec b]]
  by (simp add: collector_setup_def)

interpretation setup_kept: step_invariant "\<lambda>_ ec. collector_setup ec = c" for c
  by unfold_locales (simp_all add: collector_setup_def rct_mem_advance_def window_start_def
      rct_mem_erase_frame [OF rct_mem_counted_frame(6)])

text \<open>Of the world a collection changes the clocks and the log of the failure callback only.\<close>

definition world_erase :: "jent_world \<Rightarrow> jent_world" where
  "world_erase w = w\<lparr>w_clock_pos := 0, w_tick_pos := 0,
     g_fips_log := if g_fips_cb w = None then g_fips_log w else []\<rparr>"

interpretation world_kept: step_invariant "\<lambda>w _. world_erase w = v" for v
  by unfold_locales (auto simp: world_erase_def)

definition collector_shape :: "rand_data \<Rightarrow> bool" where
  "collector_shape ec \<longleftrightarrow> mem_shape ec \<and> ec_hash_state ec \<noteq> None"

lemma collector_shape_eq:
  "ec_mem ec' = ec_mem ec \<Longrightarrow> ec_memmask ec' = ec_memmask ec \<Longrightarrow>
   ec_memlocation ec' = ec_memlocation ec \<Longrightarrow> ec_hash_state ec' = ec_hash_state ec \<Longrightarrow>
     collector_shape ec' = collector_shape ec"
  by (simp add: collector_shape_def mem_shape_def)

interpretation shape_kept: step_invariant "\<lambda>_ ec. collector_shape ec"
proof unfold_locales
  fix w :: jent_world and ec :: rand_data and m m' :: "u8 list" and l c bs n ty b d
  assume s: "collector_shape ec"
  show "collector_shape (ec\<lparr>ec_mem := Some m'\<rparr>)" if "ec_mem ec = Some m" "length m' = length m"
    using s that by (auto simp: collector_shape_def mem_shape_def)
  show "collector_shape (ec\<lparr>ec_memlocation := l\<rparr>)" if "unat l < unat (ec_memmask ec + 1)"
  proof -
    have "unat l < length m" if "ec_mem ec = Some m" for m
    proof -
      have "length m = unat (ec_memmask ec) + 1" "length m < 2 ^ 32"
        using s that by (auto simp: collector_shape_def mem_shape_def)
      then have "unat (ec_memmask ec + 1) = length m"
        by (subst unat_Suc_below [of _ "2 ^ 32 - 1"]) simp_all
      with \<open>unat l < unat (ec_memmask ec + 1)\<close> show ?thesis by simp
    qed
    with s show ?thesis by (auto simp: collector_shape_def mem_shape_def)
  qed
  show "collector_shape (ec\<lparr>ec_hash_state := Some (jent_sha3_update c bs)\<rparr>)"
    using s by (auto simp: collector_shape_def mem_shape_def)
qed (auto simp: collector_shape_def mem_shape_def rct_mem_advance_def window_start_def
      rct_mem_erase_frame [OF rct_mem_counted_frame(6)])

text \<open>
  The runs of a measurement: \<open>collects m s k s'\<close> holds when the collection goes from \<open>s\<close> to \<open>s'\<close> by
  measurements of which exactly \<open>k\<close> were not stuck, none of them made after a failure is reported.
\<close>

inductive collects ::
  "measurement \<Rightarrow> jent_world \<times> rand_data \<Rightarrow> nat \<Rightarrow> jent_world \<times> rand_data \<Rightarrow> bool" for m where
  nothing: "collects m s 0 s"
| rejected: "jent_health_failure w ec = (0, w1) \<Longrightarrow> m w1 ec 0 = Some (True, d, w2, ec2) \<Longrightarrow>
    collects m (w2, ec2) k s \<Longrightarrow> collects m (w, ec) k s"
| accepted: "jent_health_failure w ec = (0, w1) \<Longrightarrow> m w1 ec 0 = Some (False, d, w2, ec2) \<Longrightarrow>
    collects m (w2, ec2) k s \<Longrightarrow> collects m (w, ec) (Suc k) s"

text \<open>The window is set from the oversampling rate; a recovery in between sets it to the same value.\<close>

interpretation window_kept: step_invariant
    "\<lambda>_ ec. ec_rct_mem_nosr ec = v \<and> rct_mem_window ec = v" for v
  by unfold_locales (simp_all add: rct_mem_window_def rct_mem_advance_def window_start_def
      rct_mem_erase_frame [OF rct_mem_counted_frame(6)])

text \<open>
  How a collection that must accept \<open>n\<close> measurements from \<open>s0\<close> ends in \<open>r\<close>: all of them were made, or
  a failure is found after fewer.
\<close>

definition collection_ends ::
  "measurement \<Rightarrow> jent_world \<times> rand_data \<Rightarrow> nat \<Rightarrow> jent_world \<times> rand_data \<Rightarrow> bool" where
  "collection_ends m s0 n r \<longleftrightarrow> (\<exists>k s. collects m s0 k s \<and> k \<le> n \<and>
     (if k = n then r = s
      else \<exists>f. f \<noteq> 0 \<and> jent_health_failure (fst s) (snd s) = (f, fst r) \<and> snd r = snd s))"

lemma collection_ends_rejected:
  "jent_health_failure w ec = (0, w1) \<Longrightarrow> m w1 ec 0 = Some (True, d, w2, ec2) \<Longrightarrow>
     collection_ends m (w2, ec2) n r \<Longrightarrow> collection_ends m (w, ec) n r"
  unfolding collection_ends_def by (blast intro: collects.rejected)

lemma collection_ends_accepted:
  assumes "jent_health_failure w ec = (0, w1)" "m w1 ec 0 = Some (False, d, w2, ec2)"
    "collection_ends m (w2, ec2) n r"
  shows "collection_ends m (w, ec) (Suc n) r"
proof -
  obtain k s where "collects m (w2, ec2) k s" "k \<le> n"
    "if k = n then r = s
     else \<exists>f. f \<noteq> 0 \<and> jent_health_failure (fst s) (snd s) = (f, fst r) \<and> snd r = snd s"
    using assms(3) unfolding collection_ends_def by blast
  with collects.accepted [where m = m, OF assms(1,2), of k s] show ?thesis
    unfolding collection_ends_def by (intro exI [of _ "Suc k"] exI [of _ s]) simp
qed

lemma collection_loop_counts:
  assumes "collection_loop m w ec ctr = Some r" "window_kept.measures v m"
    and "ec_rct_mem_nosr ec = v" "rct_mem_window ec = v" "unat ctr < unat v"
  shows "collection_ends m (w, ec) (unat v - unat ctr) r"
proof -
  let ?I = "\<lambda>(w :: jent_world) (ec :: rand_data) (ctr :: u32).
    ec_rct_mem_nosr ec = v \<and> rct_mem_window ec = v \<and> unat ctr < unat v"
  have v: "unat (ucast v :: u32) = unat v"
    using unat_u16_less [of v] by (simp add: unsigned_ucast_eq take_bit_nat_eq_self)
  have m: "ec_rct_mem_nosr ec2 = v \<and> rct_mem_window ec2 = v"
    if "m w1 ec 0 = Some (b, d, w2, ec2)" "ec_rct_mem_nosr ec = v \<and> rct_mem_window ec = v"
    for w1 ec b d w2 ec2
    using assms(2) that unfolding window_kept.measures_def by blast
  have s: "unat (ctr + 1) = Suc (unat ctr)" if "unat ctr < unat v" for ctr :: u32
    using that unat_u16_less [of v] by (intro unat_Suc_below [of _ "2 ^ 16 - 1"]) simp_all
  show ?thesis
    using assms(1) conjI [OF assms(3) conjI [OF assms(4,5)]]
  proof (rule collection_loop_result [where I = ?I and
      Q = "\<lambda>w ec ctr r. collection_ends m (w, ec) (unat v - unat ctr) r"])
    fix w ec ctr f w1 d w2 ec2 r
    assume i: "?I w ec ctr"
    show "collection_ends m (w, ec) (unat v - unat ctr) (w1, ec)"
      if "jent_health_failure w ec = (f, w1)" "f \<noteq> 0"
      unfolding collection_ends_def
      using i that by (intro exI [of _ 0] exI [of _ "(w, ec)"]) (simp add: collects.nothing)
    assume f: "jent_health_failure w ec = (0, w1)"
    show "collection_ends m (w, ec) (unat v - unat ctr) (w2, ec2)"
      if d: "m w1 ec 0 = Some (False, d, w2, ec2)" "ucast (ec_rct_mem_nosr ec2) \<le> ctr + 1"
    proof -
      have "unat v \<le> Suc (unat ctr)"
        using i m [OF d(1)] d(2) v s [of ctr] by (simp add: word_le_nat_alt)
      then have n: "unat v - unat ctr = Suc 0" using i by linarith
      have "collection_ends m (w2, ec2) 0 (w2, ec2)"
        unfolding collection_ends_def
        by (intro exI [of _ 0] exI [of _ "(w2, ec2)"]) (simp add: collects.nothing)
      from collection_ends_accepted [where m = m, OF f d(1) this] show ?thesis by (simp add: n)
    qed
    show "?I w2 ec2 ctr \<and> (collection_ends m (w2, ec2) (unat v - unat ctr) r \<longrightarrow>
        collection_loop m w2 ec2 ctr = Some r \<longrightarrow> collection_ends m (w, ec) (unat v - unat ctr) r)"
      if d: "m w1 ec 0 = Some (True, d, w2, ec2)"
      using i m [OF d] collection_ends_rejected [where m = m, OF f d] by blast
    show "?I w2 ec2 (ctr + 1) \<and> (collection_ends m (w2, ec2) (unat v - unat (ctr + 1)) r \<longrightarrow>
        collection_loop m w2 ec2 (ctr + 1) = Some r \<longrightarrow>
        collection_ends m (w, ec) (unat v - unat ctr) r)"
      if d: "m w1 ec 0 = Some (False, d, w2, ec2)" "\<not> ucast (ec_rct_mem_nosr ec2) \<le> ctr + 1"
    proof -
      have n: "Suc (unat ctr) < unat v"
        using i m [OF d(1)] d(2) v s [of ctr] by (simp add: word_le_nat_alt)
      then have "unat v - unat ctr = Suc (unat v - unat (ctr + 1))"
        using s [of ctr] by simp
      then show ?thesis
        using i m [OF d(1)] collection_ends_accepted [where m = m, OF f d(1)] n s [of ctr] by auto
    qed
  qed
qed

lemma osr_window:
  assumes "1 \<le> ec_osr ec" "ec_osr ec \<le> 20"
  shows "unat (rct_mem_window ec) =
     ((if ec_is_fips_enabled ec then 321 else 256) * unat (ec_osr ec) + 2) div 3 * 3"
proof -
  define n :: nat where "n = (if ec_is_fips_enabled ec then 321 else 256) * unat (ec_osr ec)"
  have "unat (ec_osr ec) \<le> 20" using assms by (simp add: word_le_nat_alt)
  then have le: "n \<le> 6420" by (simp add: n_def)
  have "(of_nat n :: u32) = (if ec_is_fips_enabled ec then 321 else 256) * ec_osr ec"
    by (simp add: n_def)
  then have "rct_mem_window ec = ucast ((of_nat (n + 2) :: u32) div 3 * 3)"
    by (simp add: rct_mem_window_def JENT_ADJUSTED_MEASURE_JITTER_LOOP_CTR_def
        JENT_ROUNDUP_TO_THREE_def JENT_MEASURE_JITTER_LOOP_CTR_def add.commute)
  moreover have "unat ((of_nat (n + 2) :: u32) div 3) = (n + 2) div 3"
    using unat_of_nat_small [of "n + 2", where 'a = 32] le
    by (simp add: unat_div del: of_nat_add)
  ultimately have "unat (rct_mem_window ec) = (n + 2) div 3 * 3"
    using le by (simp add: unsigned_ucast_eq take_bit_eq_mod unat_word_ariths del: of_nat_add)
  then show ?thesis by (simp add: n_def)
qed

section \<open>Properties\<close>

text \<open>
  C7. The collection of a block terminates: with the FIPS health tests enabled and the startup
  completed \<open>jent_random_data\<close> returns for every ready collector and every sequence of time stamps,
  the recovery loop and its recursion included, although a stuck measurement is repeated without
  being counted. Afterwards the collector is ready again and still in the same state of recovery,
  and either a health test has failed or the window of the RCT with memory is over.
\<close>

theorem random_data_terminates:
  assumes "ready ec" "ec_is_fips_enabled ec" "ec_startup_state ec = jent_startup_completed"
  shows "\<exists>w' ec'. jent_random_data w ec = Some (w', ec') \<and> ready ec' \<and>
     ec_in_recovery ec' = ec_in_recovery ec \<and> ec_startup_state ec' = jent_startup_completed \<and>
     (ec_health_failure ec' \<noteq> 0 \<or> ec_rct_mem_nosr ec' \<le> ec_rct_mem_ctr ec')"
proof -
  obtain w' ec' where r: "jent_random_data w ec = Some (w', ec')"
    "same_setup ec ec'" "settled_or_failed ec'"
    using random_data_returns [OF assms, of w] by (auto simp: returns_def)
  with assms(3) test_configD(6) [of ec' ec] show ?thesis
    by (auto simp: same_setup_def settled_or_failed_def settled_def)
qed

theorem random_data_terminates_witness:
  "\<exists>w' ec'. jent_random_data (test_world\<lparr>w_clock := \<lambda>_. 5\<rparr>) (zalloc_rand_data
     \<lparr>ec_mem := Some [1, 2, 3, 4], ec_memmask := 3, ec_memlocation := 3, ec_common_timer_gcd := 1,
      ec_hash_state := Some zalloc_sha_ctx, ec_is_fips_enabled := True, ec_osr := 3\<rparr>) =
    Some (w', ec') \<and> ready ec'"
proof -
  let ?e = "zalloc_rand_data
     \<lparr>ec_mem := Some [1, 2, 3, 4], ec_memmask := 3, ec_memlocation := 3, ec_common_timer_gcd := 1,
      ec_hash_state := Some zalloc_sha_ctx, ec_is_fips_enabled := True, ec_osr := 3\<rparr>"
  have "ready ?e" "ec_is_fips_enabled ?e" "ec_startup_state ?e = jent_startup_completed"
    by (simp_all add: ready_def mem_shape_def zalloc_rand_data_def)
  from random_data_terminates [OF this, of "test_world\<lparr>w_clock := \<lambda>_. 5\<rparr>"] show ?thesis by blast
qed

text \<open>
  C8. Whatever happens while a block is collected (stuck measurements, failing health tests, a
  recovery, the startup), a health failure is never lost, nothing the allocation set up changes (the
  flags, the oversampling rate, the sizes, the counters of the reads, the timer), nothing of the
  world changes but the clocks and the log of the failure callback (no allocation, no library
  variable), and the memory region keeps its size with the walk inside it.
\<close>

theorem random_data_preserves:
  assumes "jent_random_data w ec = Some (w', ec')"
  shows "(\<forall>n. bit (ec_health_failure ec) n \<longrightarrow> bit (ec_health_failure ec') n) \<and>
     collector_setup ec' = collector_setup ec \<and> world_erase w' = world_erase w \<and>
     (collector_shape ec \<longrightarrow> collector_shape ec')"
  using failures_kept.keepsD [OF failures_kept.random_data_keeps assms]
    setup_kept.keepsD [OF setup_kept.random_data_keeps assms refl]
    world_kept.keepsD [OF world_kept.random_data_keeps assms refl]
    shape_kept.keepsD [OF shape_kept.random_data_keeps assms] by blast

theorem random_data_preserves_witness:
  "\<exists>w' ec'. jent_random_data test_world (zalloc_rand_data
     \<lparr>ec_common_timer_gcd := 1, ec_hash_state := Some zalloc_sha_ctx, ec_is_fips_enabled := True,
      ec_health_failure := 2, ec_osr := 3\<rparr>) = Some (w', ec') \<and> bit (ec_health_failure ec') 1"
proof -
  let ?e = "zalloc_rand_data
     \<lparr>ec_common_timer_gcd := 1, ec_hash_state := Some zalloc_sha_ctx, ec_is_fips_enabled := True,
      ec_health_failure := 2, ec_osr := 3\<rparr>"
  have "ready ?e" "ec_is_fips_enabled ?e" "ec_startup_state ?e = jent_startup_completed"
    by (simp_all add: ready_def mem_shape_def zalloc_rand_data_def)
  then obtain w' ec' where r: "jent_random_data test_world ?e = Some (w', ec')"
    using random_data_returns [of ?e test_world] by (auto simp: returns_def)
  have "bit (2 :: u32) 1" by (simp add: bit_numeral_rec)
  with random_data_preserves [OF r] r show ?thesis by auto
qed

text \<open>
  \<open>jent_random_data\<close> satisfies the recursive equation of the C code, in which the recovery loop
  of the RCT with memory calls \<open>jent_random_data\<close> again: in recovery the test does not recurse
  further, so that two unrollings are as good as any number.
\<close>

theorem random_data_recursion: "jent_random_data w ec = random_data_body jent_random_data w ec"
  using fun_cong [OF fun_cong [OF random_data_recursion_eq]] .

text \<open>
  For the oversampling rates the library accepts the number of measurements of a block neither
  wraps nor is cut by the 16-bit field that holds it: it is the least multiple of three that is at
  least 256 (with the FIPS health tests 256 + 65) times the rate, so the safety measure never ends a
  collection.
\<close>

theorem collection_window:
  assumes "1 \<le> ec_osr ec" "ec_osr ec \<le> JENT_MAX_OSR"
  shows "let n = (if ec_is_fips_enabled ec then 256 + 65 else 256) * unat (ec_osr ec);
         k = unat (rct_mem_window ec)
     in n \<le> k \<and> k < n + 3 \<and> k mod 3 = 0 \<and> \<not> rct_mem_window ec < 256 \<and>
        jent_random_data_one m w ec = collection_loop m w (window_start ec) 0"
proof -
  let ?k = "unat (rct_mem_window ec)"
  define n :: nat where "n = (if ec_is_fips_enabled ec then 256 + 65 else 256) * unat (ec_osr ec)"
  have k: "?k = (n + 2) div 3 * 3"
    using osr_window [OF assms] by (simp add: n_def)
  have "256 \<le> n" using assms(1) by (simp add: n_def word_le_nat_alt)
  moreover have "(n + 2) div 3 * 3 + (n + 2) mod 3 = n + 2" by (rule div_mult_mod_eq)
  ultimately have b: "n \<le> ?k" "?k < n + 3" "256 \<le> ?k" "?k mod 3 = 0"
    unfolding k using mod_less_divisor [of 3 "n + 2"] by (linarith | simp)+
  then have "\<not> rct_mem_window ec < 256" by (simp add: word_less_nat_alt)
  with b(1,2,4) show ?thesis
    unfolding Let_def n_def [symmetric] by (simp add: jent_random_data_one_eq)
qed

theorem collection_window_witness:
  "unat (rct_mem_window (zalloc_rand_data\<lparr>ec_osr := 3, ec_is_fips_enabled := True\<rparr>)) = 963"
proof -
  let ?k = "unat (rct_mem_window (zalloc_rand_data\<lparr>ec_osr := 3, ec_is_fips_enabled := True\<rparr>))"
  have "963 \<le> ?k \<and> ?k < 966 \<and> ?k mod 3 = 0"
    using collection_window [of "zalloc_rand_data\<lparr>ec_osr := 3, ec_is_fips_enabled := True\<rparr>"
        "\<lambda>_ _ _. None" test_world] by (simp add: Let_def)
  then show ?thesis by presburger
qed



end
