(* ===== verification/Gcd.thy ===== *)
theory Gcd
  imports Jent_State
begin

unbundle bit_operations_syntax

text \<open>
  \<open>jitterentropy-gcd.c\<close>: the common divisor of the time deltas seen at start-up, by which every
  later delta is divided. The loop of \<open>jent_gcd64\<close> is related to \<open>gcd\<close>, the analysis of the
  history to \<open>Gcd\<close> of the set of its values.
\<close>

section \<open>Operations\<close>

definition jent_gcd_tested :: "jent_world \<Rightarrow> bool" where
  "jent_gcd_tested w = (g_common_timer_gcd w \<noteq> 0)"

function jent_gcd_loop :: "u64 \<Rightarrow> u64 \<Rightarrow> u64" where
  "jent_gcd_loop a b = (if b \<noteq> 0 then jent_gcd_loop b (a mod b) else a)"
  by pat_completeness auto
termination
proof (relation "measure (\<lambda>(a, b). unat b)")
  fix a b :: u64
  assume "b \<noteq> 0"
  then show "((b, a mod b), (a, b)) \<in> measure (\<lambda>(a, b). unat b)"
    by (simp add: word_mod_less_divisor word_greater_zero_iff unat_mono)
qed simp

declare jent_gcd_loop.simps [simp del]

definition jent_gcd64 :: "u64 \<Rightarrow> u64 \<Rightarrow> u64" where
  "jent_gcd64 a b = (if a < b then jent_gcd_loop b a else jent_gcd_loop a b)"

definition gcd_analyze_step :: "u64 list \<Rightarrow> u64 \<times> u64 \<Rightarrow> nat \<Rightarrow> u64 \<times> u64" where
  "gcd_analyze_step h = (\<lambda>(running_gcd, delta_sum) i.
     let delta_sum = (if h ! i \<ge> h ! (i - 1) then delta_sum + (h ! i - h ! (i - 1))
                      else delta_sum + (h ! (i - 1) - h ! i))
     in (jent_gcd64 (h ! i) running_gcd, delta_sum))"

definition jent_gcd_analyze_internal ::
  "u64 list option \<Rightarrow> nat \<Rightarrow> int + (u64 \<times> u64)" where
  "jent_gcd_analyze_internal delta_history nelem =
     (case delta_history of
        None \<Rightarrow> Inl (- EAGAIN)
      | Some h \<Rightarrow>
          if nelem = 0 then Inl (- EAGAIN)
          else Inr (foldl (gcd_analyze_step h) (h ! 0, 0) [1..<nelem]))"

definition jent_gcd_analyze ::
  "u64 list option \<Rightarrow> nat \<Rightarrow> u64 \<Rightarrow> jent_world \<Rightarrow> int \<times> jent_world" where
  "jent_gcd_analyze delta_history nelem osr w =
     (case jent_gcd_analyze_internal delta_history nelem of
        Inl _ \<Rightarrow> (0, w)
      | Inr (running_gcd, delta_sum) \<Rightarrow>
          if delta_sum * osr < of_nat nelem then (EMINVARVAR, w)
          else if running_gcd \<ge> 0xffffffff div 2 then (ECOARSETIME, w)
          else (0, if \<not> jent_gcd_tested w then w\<lparr>g_common_timer_gcd := running_gcd\<rparr> else w))"

definition jent_gcd_init :: "nat \<Rightarrow> jent_world \<Rightarrow> u64 list option \<times> jent_world" where
  "jent_gcd_init nelem w =
     (let (ok, w) = jent_zalloc (Blk_history (nelem * 8)) w
      in (if ok then Some (replicate nelem 0) else None, w))"

definition jent_gcd_fini :: "u64 list option \<Rightarrow> nat \<Rightarrow> jent_world \<Rightarrow> jent_world" where
  "jent_gcd_fini delta_history nelem w =
     (if delta_history \<noteq> None then jent_zfree (Blk_history (nelem * 8)) w else w)"

text \<open>\<open>Inl 1\<close> is the return code 1, \<open>Inr v\<close> the return code 0 with the value written.\<close>

definition jent_gcd_get :: "jent_world \<Rightarrow> int + u64" where
  "jent_gcd_get w = (if \<not> jent_gcd_tested w then Inl 1 else Inr (g_common_timer_gcd w))"

definition jent_gcd_add_value :: "u64 list \<Rightarrow> u64 \<Rightarrow> nat \<Rightarrow> u64 list" where
  "jent_gcd_add_value delta_history delta idx = delta_history[idx := delta]"

definition jent_gcd_selftest :: "jent_world \<Rightarrow> int \<times> jent_world" where
  "jent_gcd_selftest w =
     (let (gcd, w) = jent_gcd_init 10 w
      in case gcd of
           None \<Rightarrow> (EMEM, w)
         | Some h \<Rightarrow>
             let h = foldl (\<lambda>h i. jent_gcd_add_value h (of_nat i * 3) i) h [0..<10];
                 ret = (case jent_gcd_analyze_internal (Some h) 10 of
                          Inl _ \<Rightarrow> EGCD
                        | Inr (running_gcd, delta_sum) \<Rightarrow> if running_gcd \<noteq> 3 then EGCD else 0)
             in (ret, jent_gcd_fini (Some h) 10 w))"

section \<open>The loop computes the greatest common divisor\<close>

lemma jent_gcd_loop_gcd: "unat (jent_gcd_loop a b) = gcd (unat a) (unat b)"
proof (induction a b rule: jent_gcd_loop.induct)
  case (1 a b)
  then show ?case
    by (cases "b = 0")
      (simp_all add: jent_gcd_loop.simps [of a] unat_mod gcd_red_nat [of "unat a"])
qed

lemma jent_gcd64_gcd [simp]: "unat (jent_gcd64 a b) = gcd (unat a) (unat b)"
  by (simp add: jent_gcd64_def jent_gcd_loop_gcd gcd.commute)

lemma gcd_analyze_step_fst:
  "fst (gcd_analyze_step h p i) = jent_gcd64 (h ! i) (fst p)"
  by (cases p) (simp add: gcd_analyze_step_def Let_def)

lemma gcd_analyze_running:
  assumes "0 < n" "n \<le> length h"
  shows "unat (fst (foldl (gcd_analyze_step h) (h ! 0, 0) [1..<n])) = Gcd (unat ` set (take n h))"
  using assms
proof (induction n)
  case (Suc n)
  show ?case
  proof (cases "n = 0")
    case True
    with Suc.prems show ?thesis by (cases h) simp_all
  next
    case False
    with Suc show ?thesis
      by (simp add: gcd_analyze_step_fst take_Suc_conv_app_nth Gcd_insert)
  qed
qed simp

lemma gcd_analyze_step_snd:
  "snd (gcd_analyze_step h p i) =
     (if h ! i \<ge> h ! (i - 1) then snd p + (h ! i - h ! (i - 1))
      else snd p + (h ! (i - 1) - h ! i))"
  by (cases p) (simp add: gcd_analyze_step_def Let_def)

text \<open>The sum of the variations, while all deltas agree.\<close>

lemma gcd_analyze_constant:
  assumes "\<forall>x \<in> set h. x = c" "n \<le> length h"
  shows "snd (foldl (gcd_analyze_step h) (h ! 0, 0) [1..<n]) = 0"
  using assms
proof (induction n)
  case (Suc n)
  have "h ! n = c" "h ! (n - Suc 0) = c" using Suc.prems by auto
  moreover have "snd (foldl (gcd_analyze_step h) (h ! 0, 0) [1..<n]) = 0"
    using Suc by simp
  ultimately show ?case
    by (simp add: gcd_analyze_step_snd)
qed simp

lemma jent_gcd_analyze_internal_Inr:
  assumes "h \<noteq> []"
  obtains g s where "jent_gcd_analyze_internal (Some h) (length h) = Inr (g, s)"
    "unat g = Gcd (unat ` set h)" "(\<forall>x \<in> set h. x = 0) \<longrightarrow> s = 0"
  using assms gcd_analyze_running [of "length h" h] gcd_analyze_constant [of h 0 "length h"]
  by (cases "foldl (gcd_analyze_step h) (h ! 0, 0) [1..<length h]")
    (auto simp: jent_gcd_analyze_internal_def)

section \<open>Properties\<close>

text \<open>
  C30. The common divisor that the start-up analysis records is the greatest common divisor of the
  deltas measured, is not zero (every later time delta is divided by it) and is below the coarse
  timer limit; a divisor recorded before is kept.
\<close>

theorem gcd_analyze_common_divisor:
  assumes "jent_gcd_analyze (Some h) (length h) osr w = (0, w')" "h \<noteq> []" "length h < 2 ^ 64"
  shows "jent_gcd_tested w' \<and>
     g_common_timer_gcd w' = (if jent_gcd_tested w then g_common_timer_gcd w
                              else of_nat (Gcd (unat ` set h))) \<and>
     Gcd (unat ` set h) < 0x7fffffff"
proof -
  obtain g s where i: "jent_gcd_analyze_internal (Some h) (length h) = Inr (g, s)"
    and g: "unat g = Gcd (unat ` set h)" and s: "(\<forall>x \<in> set h. x = 0) \<longrightarrow> s = 0"
    using assms(2) by (rule jent_gcd_analyze_internal_Inr)
  have ok: "\<not> s * osr < of_nat (length h)" "\<not> 0xffffffff div 2 \<le> g"
    "w' = (if \<not> jent_gcd_tested w then w\<lparr>g_common_timer_gcd := g\<rparr> else w)"
    using assms(1) i by (auto simp: jent_gcd_analyze_def split: if_splits)
  have "unat (of_nat (length h) :: u64) = length h"
    using assms(3) by (simp add: unat_of_nat_small)
  then have "0 < (of_nat (length h) :: u64)"
    using assms(2) by (metis length_greater_0_conv unat_gt_0 word_greater_zero_iff)
  with ok(1) have "s \<noteq> 0" by auto
  with s have "\<exists>x \<in> set h. x \<noteq> 0" by blast
  then have "Gcd (unat ` set h) \<noteq> 0"
    by (metis Gcd_0_iff image_eqI singletonD subsetD unat_eq_zero)
  moreover from this have "g \<noteq> 0" by (simp flip: g add: unat_eq_0)
  moreover have "g = of_nat (Gcd (unat ` set h))"
    by (simp flip: g)
  moreover have "Gcd (unat ` set h) < 0x7fffffff"
    using ok(2) g by (simp add: word_le_nat_alt not_le)
  ultimately show ?thesis
    using ok(3) by (auto simp: jent_gcd_tested_def)
qed

theorem gcd_analyze_common_divisor_witness:
  "jent_gcd_analyze (Some [6, 9, 6]) (length [6, 9, 6 :: u64]) 3 test_world =
     (0, test_world\<lparr>g_common_timer_gcd := 3\<rparr>) \<and>
   jent_gcd_tested (test_world\<lparr>g_common_timer_gcd := 3\<rparr>)"
proof -
  have "jent_gcd_analyze_internal (Some [6, 9, 6]) (length [6, 9, 6 :: u64]) = Inr (3, 6)"
    by code_simp
  then have "jent_gcd_analyze (Some [6, 9, 6]) (length [6, 9, 6 :: u64]) 3 test_world =
     (0, test_world\<lparr>g_common_timer_gcd := 3\<rparr>)"
    by (simp add: jent_gcd_analyze_def jent_gcd_tested_def test_world_def)
  with gcd_analyze_common_divisor [OF this] show ?thesis by simp
qed

text \<open>
  The self test of the divisor analysis passes whenever the history can be allocated, reports
  \<open>EMEM\<close> otherwise, and leaks nothing in either case.
\<close>

theorem gcd_selftest_passes:
  "\<exists>w'. jent_gcd_selftest w = (if w_alloc_ok w (w_alloc_pos w) then 0 else EMEM, w') \<and>
     w_heap w' = w_heap w \<and> g_common_timer_gcd w' = g_common_timer_gcd w"
proof -
  let ?h = "[0, 3, 6, 9, 12, 15, 18, 21, 24, 27 :: u64]"
  have h: "foldl (\<lambda>h i. jent_gcd_add_value h (of_nat i * 3) i) (replicate 10 0) [0..<10] = ?h"
    unfolding jent_gcd_add_value_def by (subst foldl_fill) (simp_all add: upt_rec)
  obtain g s where i: "jent_gcd_analyze_internal (Some ?h) (length ?h) = Inr (g, s)"
    "unat g = Gcd (unat ` set ?h)"
    by (rule jent_gcd_analyze_internal_Inr [of ?h]) (rule list.discI [OF refl], blast)
  moreover have "Gcd (unat ` set ?h) = 3"
  proof (rule dvd_antisym)
    show "3 dvd Gcd (unat ` set ?h)" by (rule Gcd_greatest) auto
    have "3 \<in> unat ` set ?h" by simp
    then show "Gcd (unat ` set ?h) dvd 3" by (rule Gcd_dvd)
  qed
  ultimately have "unat g = 3" by metis
  then have "g = 3" using word_unat_eq_iff [of g 3] by simp
  with i(1) have a: "jent_gcd_analyze_internal (Some ?h) 10 = Inr (3, s)"
    by (simp add: numeral_eq_Suc)
  show ?thesis
    by (simp add: jent_gcd_selftest_def jent_gcd_init_def jent_gcd_fini_def jent_zalloc_def
        jent_zfree_def h a Let_def)
qed

end
