(* ===== verification/Lifecycle.thy ===== *)
theory Lifecycle
  imports Config Collect Gcd
begin

unbundle bit_operations_syntax

text \<open>
  The life cycle of a collector in \<open>jitterentropy-base.c\<close>: its allocation and release, the power-on
  test \<open>jent_time_entropy_init\<close> with its 1024 measurements, the initialisation of the library, the
  replacement of a collector after a health failure, and the startup of a new one; and the identifier
  of \<open>arch/jitterentropy-arch-uuid.c\<close>.

  The C functions are mutually recursive: an allocation runs the initialisation when the self test
  has not run, which allocates a collector for its test, and enabling the internal timer runs the
  test too. The recursion is at most two allocations deep, so each function is a body with the
  functions it calls as arguments, and the definitions tie them that often; that they satisfy the
  equations of the C functions is shown in theory \<open>Lifecycle_Proofs\<close>. \<open>None\<close> is no result.
\<close>

section \<open>Releasing a collector\<close>

definition jent_entropy_collector_free :: "jent_world \<Rightarrow> rand_data option \<Rightarrow> jent_world" where
  "jent_entropy_collector_free w entropy_collector =
     (case entropy_collector of
        None \<Rightarrow> w
      | Some ec \<Rightarrow>
          let (w, ec) = jent_notime_unsettick w ec;
              w = jent_notime_disable w ec;
              w = (if ec_hash_state ec \<noteq> None then jent_sha3_dealloc w else w);
              w = (if ec_mem ec \<noteq> None then jent_zfree (Blk_memory (unat (ec_memmask ec) + 1)) w
                   else w)
          in jent_zfree Blk_collector w)"

section \<open>Allocating a collector\<close>

type_synonym alloc_fun = "u32 \<Rightarrow> u32 \<Rightarrow> jent_world \<Rightarrow> (rand_data option \<times> jent_world) option"
type_synonym init_fun = "u32 \<Rightarrow> u32 \<Rightarrow> jent_world \<Rightarrow> (int \<times> jent_world) option"

text \<open>The memory region: \<open>None\<close> for the collector when its allocation fails.\<close>

definition collector_memory ::
  "u32 \<Rightarrow> jent_world \<Rightarrow> rand_data \<Rightarrow> (bool \<times> u32 \<times> jent_world \<times> rand_data) option" where
  "collector_memory flags w ec =
     (if flags AND JENT_DISABLE_MEMORY_ACCESS = 0
      then do {
        let flags = jent_update_memsize flags 0 w;
        memsize \<leftarrow> jent_memsize flags;
        let (ok, w) = jent_zalloc (Blk_memory (unat memsize)) w;
        if \<not> ok then Some (False, flags, w, ec)
        else Some (True, flags, w,
               ec\<lparr>ec_mem := Some (replicate (unat memsize) 0), ec_memmask := memsize - 1,
                  ec_memaccessloops := JENT_MEM_ACC_LOOP_DEFAULT\<rparr>)
      }
      else Some (True, flags, w, ec))"

text \<open>What follows the allocation of the hash state, up to the timer.\<close>

definition collector_configure ::
  "u32 \<Rightarrow> u32 \<Rightarrow> jent_world \<Rightarrow> jent_sha_ctx \<Rightarrow> rand_data \<Rightarrow> rand_data" where
  "collector_configure osr flags w ctx ec =
     (let ec = ec\<lparr>ec_hash_state := Some (jent_shake256_init ctx)\<rparr>;
          ec = (if flags AND JENT_FORCE_FIPS \<noteq> 0 \<or> w_fips_enabled w
                then ec\<lparr>ec_startup_state := jent_startup_memory, ec_is_fips_enabled := True\<rparr>
                else ec);
          ec = ec\<lparr>ec_osr := osr, ec_flags := flags\<rparr>;
          ec = (if flags AND JENT_NTG1 \<noteq> 0
                then ec\<lparr>ec_startup_state := jent_startup_memory, ec_is_fips_enabled := True\<rparr>
                else ec);
          ec = jent_health_init ec (if flags AND JENT_NTG1 \<noteq> 0 then jent_health_init_type_ntg1
                                    else jent_health_init_type_common)
      in case jent_gcd_get w of
           Inl _ \<Rightarrow> ec\<lparr>ec_common_timer_gcd := 1\<rparr>
         | Inr v \<Rightarrow> ec\<lparr>ec_common_timer_gcd := v\<rparr>)"

text \<open>The internal timer of the collector, the last step; a failure releases the collector.\<close>

definition collector_timer ::
  "init_fun \<Rightarrow> u32 \<Rightarrow> jent_world \<Rightarrow> rand_data \<Rightarrow> (rand_data option \<times> jent_world) option" where
  "collector_timer time_entropy_init flags w ec = do {
     (ret, w, ec) \<leftarrow> (if flags AND JENT_DISABLE_INTERNAL_TIMER = 0
                      then jent_notime_enable time_entropy_init w ec flags
                      else Some (0, w, ec));
     if ret \<noteq> 0 then Some (None, jent_entropy_collector_free w (Some ec))
     else Some (Some ec, w)
   }"

text \<open>From the hash loop count to the end.\<close>

definition collector_complete ::
  "init_fun \<Rightarrow> u32 \<Rightarrow> u32 \<Rightarrow> jent_world \<Rightarrow> rand_data \<Rightarrow> (rand_data option \<times> jent_world) option" where
  "collector_complete time_entropy_init osr flags w ec =
     (let flags = jent_update_hashloop flags 0;
          ec = ec\<lparr>ec_hashloopcnt := jent_hashloop_cnt flags\<rparr>
      in case jent_sha3_alloc w of
           (None, w) \<Rightarrow> Some (None, jent_entropy_collector_free w (Some ec))
         | (Some ctx, w) \<Rightarrow>
             collector_timer time_entropy_init flags w (collector_configure osr flags w ctx ec))"

text \<open>The part of the allocation after its checks.\<close>

definition collector_build :: "init_fun \<Rightarrow> alloc_fun" where
  "collector_build time_entropy_init osr flags w =
     (let (ok, w) = jent_zalloc Blk_collector w
      in if \<not> ok then Some (None, w)
         else do {
           let ec = zalloc_rand_data\<lparr>ec_max_mem_set := JENT_FLAGS_TO_MAX_MEMSIZE flags \<noteq> 0\<rparr>;
           (ok, flags, w, ec) \<leftarrow> collector_memory flags w ec;
           if \<not> ok then Some (None, jent_entropy_collector_free w (Some ec))
           else collector_complete time_entropy_init osr flags w ec
         })"

text \<open>An allocation that passes the checks of its arguments: the self test and the timer.\<close>

definition collector_alloc_checked :: "init_fun \<Rightarrow> init_fun \<Rightarrow> alloc_fun" where
  "collector_alloc_checked entropy_init_ex time_entropy_init osr flags w = do {
     (ret, w) \<leftarrow> (if \<not> g_selftest_run w then entropy_init_ex osr flags w else Some (0, w));
     if ret \<noteq> 0 then Some (None, w)
     else do {
       let flags = (if flags AND JENT_NTG1 \<noteq> 0 then flags OR JENT_DISABLE_INTERNAL_TIMER
                    else flags);
       if jent_notime_forced w \<and> flags AND JENT_DISABLE_INTERNAL_TIMER \<noteq> 0
       then Some (None, w)
       else collector_build time_entropy_init osr flags w
     }
   }"

definition collector_alloc_body :: "init_fun \<Rightarrow> init_fun \<Rightarrow> alloc_fun" where
  "collector_alloc_body entropy_init_ex time_entropy_init osr flags w =
     (if flags AND JENT_DISABLE_INTERNAL_TIMER \<noteq> 0 \<and> flags AND JENT_FORCE_INTERNAL_TIMER \<noteq> 0
      then Some (None, w)
      else if flags AND JENT_DISABLE_MEMORY_ACCESS \<noteq> 0 \<and>
              (flags AND (JENT_NTG1 OR JENT_FORCE_FIPS) \<noteq> 0 \<or> w_fips_enabled w)
      then Some (None, w)
      else
        let osr = ensure_osr_is_at_least_minimal osr
        in if osr > JENT_MAX_OSR then Some (None, w)
           else collector_alloc_checked entropy_init_ex time_entropy_init osr flags w)"

section \<open>The power-on test\<close>

abbreviation (input) "JENT_POWERUP_TESTLOOPCOUNT \<equiv> 1024 :: nat"

definition JENT_STUCK_INIT_THRES :: "int \<Rightarrow> int" where
  "JENT_STUCK_INIT_THRES x = x * 9 div 10"

record powerup =
  pu_world :: jent_world
  pu_ec :: rand_data
  pu_history :: "u64 list"
  pu_stuck :: int
  pu_backwards :: int

text \<open>The loop from -100 to 1023; a result other than 0 leaves it at once.\<close>

primrec powerup_loop :: "int list \<Rightarrow> powerup \<Rightarrow> (int \<times> powerup) option" where
  "powerup_loop [] p = Some (0, p)"
| "powerup_loop (i # is) p = do {
     (stuck, delta, w, ec) \<leftarrow> jent_measure_jitter jent_random_data (pu_world p) (pu_ec p) 0;
     let p = p\<lparr>pu_world := w, pu_ec := ec\<rparr>;
     let end_time = ec_prev_time ec;
     let start_time = ec_prev_time ec - delta;
     if start_time = 0 \<or> end_time = 0 then Some (ENOTIME, p)
     else if delta = 0 then Some (ECOARSETIME, p)
     else if i < 0 then powerup_loop is p
     else
       let p = (if stuck then p\<lparr>pu_stuck := pu_stuck p + 1\<rparr> else p);
           p = (if \<not> end_time > start_time then p\<lparr>pu_backwards := pu_backwards p + 1\<rparr> else p)
       in powerup_loop is (p\<lparr>pu_history := jent_gcd_add_value (pu_history p) delta (nat i)\<rparr>)
   }"

definition powerup_verdict :: "powerup \<Rightarrow> int \<times> jent_world" where
  "powerup_verdict p =
     (if pu_backwards p > 3 then (ENOMONOTONIC, pu_world p)
      else
        let (health_test_result, w) = jent_health_failure (pu_world p) (pu_ec p)
        in if health_test_result \<noteq> 0
           then (if health_test_result AND JENT_RCT_FAILURE \<noteq> 0 then ERCT else EHEALTH, w)
           else
             let (ret, w) = jent_gcd_analyze (Some (pu_history p)) JENT_POWERUP_TESTLOOPCOUNT
                              (ucast (ec_osr (pu_ec p))) w
             in if ret \<noteq> 0 then (ret, w)
                else if JENT_STUCK_INIT_THRES (int JENT_POWERUP_TESTLOOPCOUNT) < pu_stuck p
                then (ESTUCK, w)
                else (0, w))"

definition powerup_test ::
  "u64 list \<Rightarrow> jent_world \<Rightarrow> rand_data \<Rightarrow> (int \<times> jent_world \<times> rand_data) option" where
  "powerup_test delta_history w ec =
     (let (ret, w, ec) = jent_notime_settick w ec
      in if ret \<noteq> 0 then Some (EMEM, w, ec)
         else do {
           (_, _, w, ec) \<leftarrow> jent_measure_jitter jent_random_data w ec 0;
           (ret, p) \<leftarrow> powerup_loop [-100..int JENT_POWERUP_TESTLOOPCOUNT - 1]
             \<lparr>pu_world = w, pu_ec = ec, pu_history = delta_history, pu_stuck = 0,
              pu_backwards = 0\<rparr>;
           let (ret, w) = (if ret \<noteq> 0 then (ret, pu_world p) else powerup_verdict p);
           Some (ret, w, pu_ec p)
         })"

definition time_entropy_init_body :: "alloc_fun \<Rightarrow> init_fun" where
  "time_entropy_init_body alloc_internal osr flags w =
     (let (delta_history, w) = jent_gcd_init JENT_POWERUP_TESTLOOPCOUNT w
      in case delta_history of
           None \<Rightarrow> Some (EMEM, w)
         | Some h \<Rightarrow> do {
             let (w, flags) = (if flags AND JENT_FORCE_INTERNAL_TIMER \<noteq> 0
                               then (jent_notime_force w, flags)
                               else (w, flags OR JENT_DISABLE_INTERNAL_TIMER));
             let flags = flags OR JENT_FORCE_FIPS;
             (ec, w) \<leftarrow> alloc_internal osr flags w;
             case ec of
               None \<Rightarrow> Some (EMEM, jent_gcd_fini (Some h) JENT_POWERUP_TESTLOOPCOUNT w)
             | Some ec \<Rightarrow> do {
                 (ret, w, ec) \<leftarrow> powerup_test h w ec;
                 let w = jent_gcd_fini (Some h) JENT_POWERUP_TESTLOOPCOUNT w;
                 let (w, ec) = jent_notime_unsettick w ec;
                 Some (ret, jent_entropy_collector_free w (Some ec))
               }
           })"

section \<open>Initialising the library\<close>

definition jent_entropy_init_common_pre :: "jent_world \<Rightarrow> int \<times> jent_world" where
  "jent_entropy_init_common_pre w =
     (let w = jent_notime_block_switch w;
          w = jent_health_cb_block_switch w
      in if jent_sha3_tester (w_stack_ctx w) \<noteq> 0 then (EHASH, w)
         else let (ret, w) = jent_gcd_selftest w
              in (ret, w\<lparr>g_selftest_run := True\<rparr>))"

definition jent_entropy_init_common_post :: "int \<Rightarrow> jent_world \<Rightarrow> int \<times> jent_world" where
  "jent_entropy_init_common_post ret w =
     (ret, if ret \<noteq> 0 then w\<lparr>g_selftest_run := False\<rparr> else w)"

definition entropy_init_body :: "init_fun \<Rightarrow> jent_world \<Rightarrow> (int \<times> jent_world) option" where
  "entropy_init_body time_entropy_init w =
     (let (ret, w) = jent_entropy_init_common_pre w
      in if ret \<noteq> 0 then Some (ret, w)
         else do {
           (ret, w) \<leftarrow> time_entropy_init 0 JENT_DISABLE_INTERNAL_TIMER w;
           (ret, w) \<leftarrow> (if ret \<noteq> 0 then time_entropy_init 0 JENT_FORCE_INTERNAL_TIMER w
                        else Some (ret, w));
           Some (jent_entropy_init_common_post ret w)
         })"

definition entropy_init_ex_body :: "init_fun \<Rightarrow> init_fun" where
  "entropy_init_ex_body time_entropy_init osr flags w =
     (let (ret, w) = jent_entropy_init_common_pre w
      in if ret \<noteq> 0 then Some (ret, w)
         else do {
           (ret, w) \<leftarrow> (if flags AND JENT_FORCE_INTERNAL_TIMER = 0
                        then time_entropy_init osr (flags OR JENT_DISABLE_INTERNAL_TIMER) w
                        else Some (ENOTIME, w));
           (ret, w) \<leftarrow> (if ret \<noteq> 0 \<and> flags AND JENT_DISABLE_INTERNAL_TIMER = 0
                        then time_entropy_init osr (flags OR JENT_FORCE_INTERNAL_TIMER) w
                        else Some (ret, w));
           Some (jent_entropy_init_common_post ret w)
         })"

section \<open>Tying the functions\<close>

definition nested_alloc :: alloc_fun where
  "nested_alloc = collector_alloc_body (\<lambda>_ _ _. None) (\<lambda>_ _ _. None)"

definition nested_time_entropy_init :: init_fun where
  "nested_time_entropy_init = time_entropy_init_body nested_alloc"

definition jent_entropy_collector_alloc_internal :: alloc_fun where
  "jent_entropy_collector_alloc_internal =
     collector_alloc_body (entropy_init_ex_body nested_time_entropy_init) nested_time_entropy_init"

definition jent_time_entropy_init :: init_fun where
  "jent_time_entropy_init = time_entropy_init_body jent_entropy_collector_alloc_internal"

definition jent_entropy_init_ex :: init_fun where
  "jent_entropy_init_ex = entropy_init_ex_body jent_time_entropy_init"

definition jent_entropy_init :: "jent_world \<Rightarrow> (int \<times> jent_world) option" where
  "jent_entropy_init = entropy_init_body jent_time_entropy_init"

section \<open>Replacing a collector\<close>

text \<open>The loop that looks for an oversampling rate that passes the power-on test.\<close>

function reset_osr :: "u32 \<Rightarrow> u32 \<Rightarrow> jent_world \<Rightarrow> (u32 option \<times> jent_world) option" where
  "reset_osr osr flags w = do {
     (ret, w) \<leftarrow> jent_entropy_init_ex osr flags w;
     if ret = 0 then Some (Some osr, w)
     else let osr = osr + 1 in if osr > JENT_MAX_OSR then Some (None, w) else reset_osr osr flags w
   }"
  by pat_completeness auto
termination
proof (relation "measure (\<lambda>(osr, flags, w). if osr \<le> 20 then 20 - unat osr else 21)")
  fix osr flags w p r w' osr'
  assume "osr' = osr + (1 :: u32)" "\<not> JENT_MAX_OSR < osr'"
  then have "unat (osr + 1) \<le> 20" by (simp add: word_less_nat_alt)
  moreover have "unat (osr + 1) = Suc (unat osr)" if "unat osr \<le> 20"
    using that by (intro unat_Suc_below [of _ 30]) simp_all
  ultimately show "((osr', flags, w'), osr, flags, w) \<in>
      measure (\<lambda>(osr, flags, w). if osr \<le> 20 then 20 - unat osr else 21)"
    using \<open>osr' = osr + 1\<close> by (auto simp: word_le_nat_alt)
qed auto

declare reset_osr.simps [simp del]

text \<open>The state the replacement takes over from the failed collector.\<close>

definition collector_take_over :: "rand_data \<Rightarrow> rand_data \<Rightarrow> rand_data" where
  "collector_take_over new_ec ec =
     (let new_ec = new_ec\<lparr>ec_max_mem_set := ec_max_mem_set ec\<rparr>;
          new_ec = jent_apt_duplicate new_ec ec;
          new_ec = jent_rct_duplicate new_ec;
          new_ec = jent_lag_duplicate new_ec ec;
          new_ec = jent_rct_mem_duplicate new_ec ec;
          new_ec = new_ec\<lparr>ec_uuid := ec_uuid ec, ec_reinit_count := ec_reinit_count ec + 1\<rparr>
      in new_ec\<lparr>ec_read_invocations := ec_read_invocations ec,
                ec_bytes_output := ec_bytes_output ec\<rparr>)"

text \<open>More memory, unless the caller limited it, and more hash loops.\<close>

definition reset_flags :: "jent_world \<Rightarrow> rand_data \<Rightarrow> u32" where
  "reset_flags w ec =
     (let flags = ec_flags ec;
          flags = (if \<not> ec_max_mem_set ec then jent_update_memsize flags 1 w else flags)
      in jent_update_hashloop flags 1)"

definition jent_health_failure_reset ::
  "jent_world \<Rightarrow> rand_data \<Rightarrow> alloc_fun \<Rightarrow> (int \<times> jent_world \<times> rand_data) option" where
  "jent_health_failure_reset w ec alloc =
     (let osr = ec_osr ec + 1
      in if osr > JENT_MAX_OSR then Some (-1, w, ec)
         else do {
           let flags = reset_flags w ec;
           (osr, w) \<leftarrow> reset_osr osr flags w;
           case osr of
             None \<Rightarrow> Some (-1, w, ec)
           | Some osr \<Rightarrow> do {
               (new_ec, w) \<leftarrow> alloc osr flags w;
               Some (case new_ec of
                   None \<Rightarrow> (-1, w, ec)
                 | Some new_ec \<Rightarrow>
                     let new_ec = collector_take_over new_ec ec
                     in (0, jent_entropy_collector_free w (Some ec), new_ec))
             }
         })"

section \<open>The identifier\<close>

definition uuid_hex :: "nat \<Rightarrow> u8" where
  "uuid_hex i = [0x30, 0x31, 0x32, 0x33, 0x34, 0x35, 0x36, 0x37, 0x38, 0x39,
                 0x61, 0x62, 0x63, 0x64, 0x65, 0x66] ! i"

definition jent_uuid_format :: "u8 list \<Rightarrow> u8 list" where
  "jent_uuid_format b =
     foldl (\<lambda>out i. (if i = 4 \<or> i = 6 \<or> i = 8 \<or> i = 10 then out @ [0x2d] else out)
              @ [uuid_hex (unat (drop_bit 4 (b ! i))), uuid_hex (unat (b ! i AND 0x0f))])
       [] [0..<16] @ [0]"

definition jent_uuid_random_bytes :: "jent_world \<Rightarrow> u8 list option \<times> jent_world" where
  "jent_uuid_random_bytes w = (w_uuid_bytes w (w_uuid_pos w), w\<lparr>w_uuid_pos := w_uuid_pos w + 1\<rparr>)"

definition jent_uuid_generate :: "jent_world \<Rightarrow> u8 list \<times> jent_world" where
  "jent_uuid_generate w =
     (let (r, w) = jent_uuid_random_bytes w;
          b = (case r of
                 None \<Rightarrow> replicate 16 0
               | Some b \<Rightarrow> let b = b[6 := (b ! 6 AND 0x0f) OR 0x40]
                           in b[8 := (b ! 8 AND 0x3f) OR 0x80])
      in (jent_uuid_format b, w))"

section \<open>The startup of a collector\<close>

text \<open>The body of the do-while loop: whether the collector is still to be used.\<close>

definition startup_step :: "jent_world \<Rightarrow> rand_data \<Rightarrow> (bool \<times> jent_world \<times> rand_data) option" where
  "startup_step w ec = do {
     (w, ec) \<leftarrow> jent_random_data w ec;
     let (failure, w) = jent_health_failure w ec;
     if failure \<noteq> 0
     then do {
       (ret, w, ec) \<leftarrow> jent_health_failure_reset w ec jent_entropy_collector_alloc_internal;
       if ret \<noteq> 0 then Some (False, w, ec)
       else let (ret, w, ec) = jent_notime_settick w ec in Some (ret = 0, w, ec)
     }
     else Some (True, w, ec)
   }"

text \<open>A \<open>continue\<close> evaluates the condition of the loop too.\<close>

partial_function (option) startup_loop ::
  "jent_world \<Rightarrow> rand_data \<Rightarrow> (rand_data option \<times> jent_world) option" where
  "startup_loop w ec = do {
     (ok, w, ec) \<leftarrow> startup_step w ec;
     if \<not> ok then Some (None, jent_entropy_collector_free w (Some ec))
     else if ec_startup_state ec \<noteq> jent_startup_completed then startup_loop w ec
     else Some (Some ec, w)
   }"

text \<open>\<open>_jent_entropy_collector_alloc\<close>.\<close>

definition collector_alloc_startup :: alloc_fun where
  "collector_alloc_startup osr flags w = do {
     (ec, w) \<leftarrow> jent_entropy_collector_alloc_internal osr flags w;
     case ec of
       None \<Rightarrow> Some (None, w)
     | Some ec \<Rightarrow>
         let (ret, w, ec) = jent_notime_settick w ec
         in if ret \<noteq> 0 then Some (None, jent_entropy_collector_free w (Some ec))
            else do {
              (ec, w) \<leftarrow> startup_loop w ec;
              case ec of
                None \<Rightarrow> Some (None, w)
              | Some ec \<Rightarrow> do {
                  let (w, ec) = jent_notime_unsettick w ec;
                  let (uuid, w) = jent_uuid_generate w;
                  Some (Some (ec\<lparr>ec_uuid := uuid\<rparr>), w)
                }
            }
   }"

definition jent_entropy_collector_alloc :: alloc_fun where
  "jent_entropy_collector_alloc osr flags w = collector_alloc_startup osr flags w"

section \<open>Settings\<close>

definition jent_entropy_switch_notime_impl ::
  "jent_notime_thread option \<Rightarrow> jent_world \<Rightarrow> int \<times> jent_world" where
  "jent_entropy_switch_notime_impl = jent_notime_switch"

definition jent_entropy_set_notime_cpu :: "u64 \<Rightarrow> jent_world \<Rightarrow> int \<times> jent_world" where
  "jent_entropy_set_notime_cpu = jent_notime_set_cpu"

definition jent_set_fips_failure_callback :: "nat option \<Rightarrow> jent_world \<Rightarrow> int \<times> jent_world" where
  "jent_set_fips_failure_callback = jent_set_fips_failure_callback_internal"

end
