(* ===== verification/Ownership.thy ===== *)
theory Ownership
  imports Lifecycle
begin

unbundle bit_operations_syntax

text \<open>
  Who owns what on the heap: every operation of the life cycle of a collector obtains exactly the
  blocks of the collector it returns and gives back everything else, on every path, the failed
  allocations and failed tests included. The bookkeeping predicate is \<open>allocates\<close>; what each function
  of the life cycle does with it is \<open>alloc_fine\<close> and \<open>init_fine\<close>, shown for each body under the same
  for the functions it calls, and so for the tied functions.
\<close>

section \<open>The blocks a collector owns\<close>

definition collector_blocks :: "rand_data \<Rightarrow> heap_block multiset" where
  "collector_blocks ec = {#Blk_collector#}
     + (if ec_hash_state ec = None then {#} else {#Blk_sha_ctx#})
     + (if ec_mem ec = None then {#} else {#Blk_memory (unat (ec_memmask ec) + 1)#})
     + (if ec_notime_thread_ctx ec = None then {#} else {#Blk_thread_ctx#})"

text \<open>What the life cycle of collectors reads of the world and never writes.\<close>

definition lib_config ::
  "jent_world \<Rightarrow> jent_notime_thread option \<times> bool \<times> bool \<times> int \<times> (bool \<Rightarrow> u32) \<times> nat option"
  where
  "lib_config w =
     (g_notime_thread w, w_fips_enabled w, w_secure_memory w, w_ncpu w, w_cache_size w,
      g_fips_cb w)"

text \<open>
  From \<open>w\<close> to \<open>w'\<close> exactly the blocks \<open>b\<close> were obtained and kept, the library remains initialised,
  and its callback fixed, if it was, and no callback is called unless one is registered. (An initialisation that fails does not keep that; it is related to \<open>forget w\<close>.)
\<close>

definition allocates :: "jent_world \<Rightarrow> jent_world \<Rightarrow> heap_block multiset \<Rightarrow> bool" where
  "allocates w w' b \<longleftrightarrow> w_heap w' = w_heap w + b \<and> lib_config w' = lib_config w \<and>
     (g_selftest_run w \<longrightarrow> g_selftest_run w') \<and>
     (g_health_cb_switch_blocked w \<longrightarrow> g_health_cb_switch_blocked w') \<and>
     (g_fips_cb w = None \<longrightarrow> g_fips_log w' = g_fips_log w)"

definition forget :: "jent_world \<Rightarrow> jent_world" where
  "forget w = w\<lparr>g_selftest_run := False\<rparr>"

lemma allocates_forget: "allocates w w' b \<Longrightarrow> allocates (forget w) w' b"
  by (simp add: allocates_def lib_config_def forget_def)

lemma forget_not_run: "\<not> g_selftest_run w \<Longrightarrow> forget w = w"
  by (simp add: forget_def)

lemma forget_forget [simp]: "forget (forget w) = forget w"
  by (simp add: forget_def)

lemma allocates_refl: "allocates w w {#}"
  by (simp add: allocates_def)

lemma allocates_trans: "allocates w w1 a \<Longrightarrow> allocates w1 w2 b \<Longrightarrow> allocates w w2 (a + b)"
  by (simp add: allocates_def lib_config_def ac_simps)

lemma allocates_then: "allocates w w1 a \<Longrightarrow> allocates w1 w2 {#} \<Longrightarrow> allocates w w2 a"
  using allocates_trans by fastforce

lemma allocates_update [simp]:
  "allocates w w' b \<Longrightarrow> allocates w (w'\<lparr>g_selftest_run := True\<rparr>) b"
  "allocates (forget w) (w'\<lparr>g_selftest_run := x\<rparr>) b = allocates (forget w) w' b"
  "allocates w (w'\<lparr>g_force_internal_timer := x\<rparr>) b = allocates w w' b"
  "allocates w (w'\<lparr>g_common_timer_gcd := y\<rparr>) b = allocates w w' b"
  "allocates w w' b \<Longrightarrow> allocates w (w'\<lparr>g_health_cb_switch_blocked := True\<rparr>) b"
  "allocates w (w'\<lparr>g_notime_switch_blocked := x\<rparr>) b = allocates w w' b"
  "allocates w (w'\<lparr>w_thread_pos := n\<rparr>) b = allocates w w' b"
  "allocates w (w'\<lparr>w_supplied_pos := n\<rparr>) b = allocates w w' b"
  "allocates w (w'\<lparr>w_uuid_pos := n\<rparr>) b = allocates w w' b"
  "allocates (w\<lparr>g_notime_switch_blocked := x\<rparr>) w' b = allocates w w' b"
  by (simp_all add: allocates_def lib_config_def forget_def)

lemma allocates_block:
  "allocates (w\<lparr>g_health_cb_switch_blocked := True\<rparr>) w' b \<Longrightarrow> allocates w w' b"
  by (simp add: allocates_def lib_config_def)

lemma allocates_zalloc:
  "jent_zalloc b w = (ok, w') \<Longrightarrow> allocates w w' (if ok then {#b#} else {#})"
  by (auto simp: jent_zalloc_def allocates_def lib_config_def split: if_splits)

lemma allocates_zfree: "allocates w w' (add_mset x b) \<Longrightarrow> allocates w (jent_zfree x w') b"
  by (simp add: allocates_def jent_zfree_def lib_config_def)

lemma allocates_gcd_init:
  "jent_gcd_init n w = (h, w') \<Longrightarrow>
     allocates w w' (if h = None then {#} else {#Blk_history (n * 8)#})"
  by (auto simp: jent_gcd_init_def Let_def dest: allocates_zalloc split: prod.splits if_splits)

lemma allocates_gcd_fini:
  "allocates w w' (add_mset (Blk_history (n * 8)) b) \<Longrightarrow> allocates w (jent_gcd_fini (Some h) n w') b"
  by (simp add: jent_gcd_fini_def allocates_zfree)

lemma allocates_selftest: "jent_gcd_selftest w = (r, w') \<Longrightarrow> allocates w w' {#}"
proof -
  assume a: "jent_gcd_selftest w = (r, w')"
  obtain h w1 where h: "jent_gcd_init 10 w = (h, w1)" by fastforce
  note i = allocates_gcd_init [OF h]
  show ?thesis
  proof (cases h)
    case None
    with a h i show ?thesis by (simp add: jent_gcd_selftest_def)
  next
    case (Some g)
    then have "allocates w (jent_gcd_fini (Some g') 10 w1) {#}" for g'
      using i by (intro allocates_gcd_fini) simp
    with a h Some show ?thesis by (auto simp: jent_gcd_selftest_def Let_def)
  qed
qed

text \<open>
  A handler is matched when it is complete and what the built-in function obtains is given back by
  the built-in one; the context of a collector is then released by the handler.
\<close>

definition handler_matched :: "jent_world \<Rightarrow> bool" where
  "handler_matched w \<longleftrightarrow> (\<forall>t. g_notime_thread w = Some t \<longrightarrow>
     nt_init t \<noteq> None \<and> nt_fini t \<noteq> None \<and> nt_start t \<noteq> None \<and> nt_stop t \<noteq> None \<and>
     (nt_init t = Some Builtin \<longrightarrow> nt_fini t = Some Builtin))"

definition thread_released :: "jent_world \<Rightarrow> rand_data \<Rightarrow> bool" where
  "thread_released w ec \<longleftrightarrow> (ec_notime_thread_ctx ec \<noteq> None \<longrightarrow>
     (\<exists>t. g_notime_thread w = Some t \<and> nt_fini t = Some Builtin))"

lemma lib_config_thread:
  assumes "lib_config w' = lib_config w"
  shows "handler_matched w' = handler_matched w" "thread_released w' ec = thread_released w ec"
    "g_notime_thread w' = g_notime_thread w" "w_fips_enabled w' = w_fips_enabled w"
    "w_cache_size w' = w_cache_size w" "w_secure_memory w' = w_secure_memory w"
  using assms by (simp_all add: lib_config_def handler_matched_def thread_released_def)

lemma allocates_config: "allocates w w' b \<Longrightarrow> lib_config w' = lib_config w"
  by (simp add: allocates_def)

text \<open>What the timer functions write of a collector.\<close>

definition timer_only :: "rand_data \<Rightarrow> rand_data \<Rightarrow> bool" where
  "timer_only ec ec' \<longleftrightarrow> (\<exists>i p t c. ec' = ec\<lparr>ec_notime_interrupt := i, ec_notime_prev_timer := p,
     ec_notime_timer := t, ec_notime_thread_ctx := c\<rparr> \<and>
     (c = None \<longleftrightarrow> ec_notime_thread_ctx ec = None))"

lemma timer_onlyI:
  "ec' = ec\<lparr>ec_notime_interrupt := i, ec_notime_prev_timer := p, ec_notime_timer := t,
     ec_notime_thread_ctx := c\<rparr> \<Longrightarrow> (c = None \<longleftrightarrow> ec_notime_thread_ctx ec = None) \<Longrightarrow> timer_only ec ec'"
  unfolding timer_only_def by (intro exI conjI)

lemma timer_only_refl: "timer_only ec ec"
  by (rule timer_onlyI [where i = "ec_notime_interrupt ec" and p = "ec_notime_prev_timer ec" and
        t = "ec_notime_timer ec" and c = "ec_notime_thread_ctx ec"]) simp_all

lemma timer_only_blocks: "timer_only ec ec' \<Longrightarrow> collector_blocks ec' = collector_blocks ec"
  by (auto simp: timer_only_def collector_blocks_def)

lemma call_start_frame:
  "call_start f ctx w = (r, ctx', w') \<Longrightarrow> allocates w w' {#} \<and> (ctx' = None \<longleftrightarrow> ctx = None)"
  by (auto simp: call_start_def jent_notime_start_def jent_notime_thread_create_def Let_def
      thread_call_def supplied_call_def allocates_refl
      split: handler_fn.splits option.splits prod.splits if_splits)

lemma call_stop_frame:
  "call_stop f ctx w = (ctx', w') \<Longrightarrow> allocates w w' {#} \<and> (ctx' = None \<longleftrightarrow> ctx = None)"
  by (auto simp: call_stop_def jent_notime_stop_def supplied_call_def allocates_refl
      split: handler_fn.splits)

lemma settick_frame:
  assumes "jent_notime_settick w ec = (r, w', ec')"
  shows "allocates w w' {#} \<and> timer_only ec ec'"
proof (cases "ec_enable_notime ec \<and> g_notime_thread w \<noteq> None")
  case True
  then obtain t where t: "ec_enable_notime ec" "g_notime_thread w = Some t" by blast
  obtain ret ctx w1 where c: "call_start (the (nt_start t)) (ec_notime_thread_ctx ec) w =
      (ret, ctx, w1)" by (cases "call_start (the (nt_start t)) (ec_notime_thread_ctx ec) w")
  with t assms have "w' = w1" "ec' = ec\<lparr>ec_notime_interrupt := False, ec_notime_prev_timer := 0,
      ec_notime_timer := 0, ec_notime_thread_ctx := ctx\<rparr>"
    by (simp_all add: jent_notime_settick_def Let_def)
  then show ?thesis using call_start_frame [OF c] timer_onlyI [where ec' = ec' and ec = ec] by simp
next
  case False
  with assms have "w' = w" "ec' = ec"
    by (auto simp: jent_notime_settick_def split: if_splits)
  then show ?thesis by (simp add: allocates_refl timer_only_refl)
qed

lemma unsettick_frame:
  assumes "jent_notime_unsettick w ec = (w', ec')"
  shows "allocates w w' {#} \<and> timer_only ec ec'"
proof (cases "ec_enable_notime ec \<and> g_notime_thread w \<noteq> None")
  case True
  then obtain t where t: "ec_enable_notime ec" "g_notime_thread w = Some t" by blast
  obtain ctx w1 where c: "call_stop (the (nt_stop t)) (ec_notime_thread_ctx ec) w = (ctx, w1)"
    by (cases "call_stop (the (nt_stop t)) (ec_notime_thread_ctx ec) w")
  with t assms have "w' = w1" "ec' = ec\<lparr>ec_notime_interrupt := True,
      ec_notime_prev_timer := ec_notime_prev_timer ec, ec_notime_timer := ec_notime_timer ec,
      ec_notime_thread_ctx := ctx\<rparr>"
    by (simp_all add: jent_notime_unsettick_def Let_def)
  then show ?thesis using call_stop_frame [OF c]
      timer_onlyI [where ec' = ec' and ec = ec and i = True and p = "ec_notime_prev_timer ec" and
        t = "ec_notime_timer ec" and c = ctx] by simp
next
  case False
  with assms have "w' = w" "ec' = ec"
    by (auto simp: jent_notime_unsettick_def split: if_splits)
  then show ?thesis by (simp add: allocates_refl timer_only_refl)
qed

lemma allocates_disable:
  assumes "allocates w w' ((if ec_notime_thread_ctx ec = None then {#} else {#Blk_thread_ctx#}) + b)"
    and "thread_released w' ec"
  shows "allocates w (jent_notime_disable w' ec) b"
proof (cases "ec_notime_thread_ctx ec")
  case None
  with assms(1) show ?thesis
    by (auto simp: jent_notime_disable_def call_fini_def jent_notime_fini_def supplied_call_def
        split: option.splits handler_fn.splits)
next
  case (Some c)
  then obtain t where "g_notime_thread w' = Some t" "nt_fini t = Some Builtin"
    using assms(2) by (auto simp: thread_released_def)
  with Some assms(1) show ?thesis
    by (simp add: jent_notime_disable_def call_fini_def jent_notime_fini_def allocates_zfree)
qed

lemma allocates_free:
  assumes "allocates w w' (collector_blocks ec + b)" "thread_released w' ec"
  shows "allocates w (jent_entropy_collector_free w' (Some ec)) b"
proof -
  obtain w1 ec1 where u: "jent_notime_unsettick w' ec = (w1, ec1)" by fastforce
  note f = unsettick_frame [OF u]
  have fields: "ec_hash_state ec1 = ec_hash_state ec" "ec_mem ec1 = ec_mem ec"
    "ec_memmask ec1 = ec_memmask ec" "ec_notime_thread_ctx ec1 = None \<longleftrightarrow> ec_notime_thread_ctx ec = None"
    using f by (auto simp: timer_only_def)
  have "allocates w w1 (collector_blocks ec + b)" using allocates_then [OF assms(1)] f by blast
  moreover have "thread_released w1 ec1"
    using assms(2) lib_config_thread(2) [OF allocates_config, of w' w1 "{#}" ec] f fields(4)
    by (auto simp: thread_released_def)
  ultimately have "allocates w (jent_notime_disable w1 ec1) ({#Blk_collector#}
      + (if ec_hash_state ec = None then {#} else {#Blk_sha_ctx#})
      + (if ec_mem ec = None then {#} else {#Blk_memory (unat (ec_memmask ec) + 1)#}) + b)"
    by (intro allocates_disable) (simp_all add: collector_blocks_def fields ac_simps)
  then show ?thesis
    by (cases "ec_hash_state ec"; cases "ec_mem ec")
      (simp_all add: jent_entropy_collector_free_def u Let_def fields jent_sha3_dealloc_def
        allocates_zfree add_mset_commute)
qed


section \<open>Measurements and the power-on test\<close>

lemma collector_blocks_cong:
  "collector_blocks ec = v \<Longrightarrow> (ec_hash_state ec' = None \<longleftrightarrow> ec_hash_state ec = None) \<Longrightarrow>
     (ec_mem ec' = None \<longleftrightarrow> ec_mem ec = None) \<Longrightarrow> ec_memmask ec' = ec_memmask ec \<Longrightarrow>
     (ec_notime_thread_ctx ec' = None \<longleftrightarrow> ec_notime_thread_ctx ec = None) \<Longrightarrow>
     collector_blocks ec' = v"
  by (simp only: collector_blocks_def)

interpretation blocks_kept: step_invariant "\<lambda>_ ec. collector_blocks ec = v" for v
  by unfold_locales
    (erule collector_blocks_cong; simp add: rct_mem_advance_def window_start_def
      rct_mem_erase_frame [OF rct_mem_counted_frame(6)])+

lemma allocates_erase: "world_erase w' = world_erase w \<Longrightarrow> allocates w w' {#}"
  by (cases w; cases w') (auto simp: world_erase_def allocates_def lib_config_def)

lemma random_data_frame:
  "jent_random_data w ec = Some (w', ec') \<Longrightarrow>
     allocates w w' {#} \<and> collector_blocks ec' = collector_blocks ec"
  using world_kept.keepsD [OF world_kept.random_data_keeps _ refl]
    blocks_kept.keepsD [OF blocks_kept.random_data_keeps _ refl] allocates_erase by blast

lemma measure_frame:
  assumes "jent_measure_jitter jent_random_data w ec n = Some (b, d, w', ec')"
  shows "allocates w w' {#} \<and> collector_blocks ec' = collector_blocks ec"
proof -
  have "world_erase w' = world_erase w"
    using world_kept.measure_jitter_keeps [OF world_kept.random_data_keeps] assms
    unfolding world_kept.measures_def by blast
  moreover have "collector_blocks ec' = collector_blocks ec"
    using blocks_kept.measure_jitter_keeps [OF blocks_kept.random_data_keeps] assms
    unfolding blocks_kept.measures_def by blast
  ultimately show ?thesis by (simp add: allocates_erase)
qed

lemma health_failure_frame: "jent_health_failure w ec = (f, w') \<Longrightarrow> allocates w w' {#}"
  by (auto simp: jent_health_failure_def Let_def allocates_def lib_config_def
      split: if_splits option.splits)

lemma gcd_analyze_frame: "jent_gcd_analyze h n osr w = (r, w') \<Longrightarrow> allocates w w' {#}"
  by (auto simp: jent_gcd_analyze_def allocates_refl split: if_splits sum.splits)

lemma powerup_loop_frame:
  "powerup_loop is p = Some (r, p') \<Longrightarrow> allocates (pu_world p) (pu_world p') {#} \<and>
     collector_blocks (pu_ec p') = collector_blocks (pu_ec p)"
proof (induction "is" arbitrary: p)
  case Nil
  then show ?case by (simp add: allocates_refl)
next
  case (Cons i "is")
  from Cons.prems obtain b d w ec where
    m: "jent_measure_jitter jent_random_data (pu_world p) (pu_ec p) 0 = Some (b, d, w, ec)"
    by (auto elim!: bind_SomeE)
  note f = measure_frame [OF m]
  have rest: "pu_world q = w \<longrightarrow> pu_ec q = ec \<longrightarrow> allocates (pu_world p) (pu_world p') {#} \<and>
      collector_blocks (pu_ec p') = collector_blocks (pu_ec p)"
    if "powerup_loop is q = Some (r, p')" for q
    using Cons.IH [OF that] f allocates_then by auto
  show ?case
    using Cons.prems f
    by (auto simp: m Let_def split: if_splits dest!: rest)
qed

lemma powerup_verdict_frame:
  "powerup_verdict p = (r, w') \<Longrightarrow> allocates (pu_world p) w' {#}"
  by (auto simp: powerup_verdict_def Let_def allocates_refl split: if_splits prod.splits
      dest!: health_failure_frame gcd_analyze_frame intro: allocates_then)

lemma powerup_test_frame:
  assumes "powerup_test h w ec = Some (r, w', ec')"
  shows "allocates w w' {#} \<and> collector_blocks ec' = collector_blocks ec"
proof -
  obtain r1 w1 ec1 where s: "jent_notime_settick w ec = (r1, w1, ec1)" by (metis prod_cases3)
  have f: "allocates w w1 {#}" "collector_blocks ec1 = collector_blocks ec"
    using settick_frame [OF s] timer_only_blocks by auto
  show ?thesis
  proof (cases "r1 = 0")
    case True
    with assms s obtain b d w2 ec2 r2 p where
      m: "jent_measure_jitter jent_random_data w1 ec1 0 = Some (b, d, w2, ec2)" and
      l: "powerup_loop [-100..int 1024 - 1] \<lparr>pu_world = w2, pu_ec = ec2, pu_history = h,
        pu_stuck = 0, pu_backwards = 0\<rparr> = Some (r2, p)" and
      e: "(r, w') = (if r2 \<noteq> 0 then (r2, pu_world p) else powerup_verdict p)" "ec' = pu_ec p"
      by (auto simp: powerup_test_def split: prod.splits elim!: bind_SomeE)
    have "allocates (pu_world p) w' {#}"
      using e powerup_verdict_frame [of p, OF sym] by (auto simp: allocates_refl split: if_splits)
    moreover have "allocates w2 (pu_world p) {#}" using powerup_loop_frame [OF l] by simp
    ultimately have "allocates w w' {#}"
      using allocates_then [OF f(1)] measure_frame [OF m] allocates_then by blast
    with f measure_frame [OF m] powerup_loop_frame [OF l] e show ?thesis by simp
  next
    case False
    with assms s f show ?thesis by (simp add: powerup_test_def)
  qed
qed


section \<open>Allocation and initialisation leak nothing\<close>

definition result_blocks :: "rand_data option \<Rightarrow> heap_block multiset" where
  "result_blocks r = (case r of None \<Rightarrow> {#} | Some ec \<Rightarrow> collector_blocks ec)"

text \<open>What an allocation and an initialisation are to do with the heap.\<close>

definition alloc_fine :: "alloc_fun \<Rightarrow> bool" where
  "alloc_fine A \<longleftrightarrow> (\<forall>osr flags w r w'. A osr flags w = Some (r, w') \<longrightarrow> handler_matched w \<longrightarrow>
     allocates w w' (result_blocks r) \<and> (\<forall>ec. r = Some ec \<longrightarrow> thread_released w' ec))"

definition init_fine :: "init_fun \<Rightarrow> bool" where
  "init_fine I \<longleftrightarrow> (\<forall>osr flags w r w'. I osr flags w = Some (r, w') \<longrightarrow> handler_matched w \<longrightarrow>
     allocates w w' {#})"

text \<open>The same for operations that may leave the library without its self test.\<close>

definition alloc_loose :: "alloc_fun \<Rightarrow> bool" where
  "alloc_loose A \<longleftrightarrow> (\<forall>osr flags w r w'. A osr flags w = Some (r, w') \<longrightarrow> handler_matched w \<longrightarrow>
     allocates (forget w) w' (result_blocks r) \<and> (\<forall>ec. r = Some ec \<longrightarrow> thread_released w' ec))"

definition init_loose :: "init_fun \<Rightarrow> bool" where
  "init_loose I \<longleftrightarrow> (\<forall>osr flags w r w'. I osr flags w = Some (r, w') \<longrightarrow> handler_matched w \<longrightarrow>
     allocates (forget w) w' {#})"

lemma init_looseD:
  "init_loose I \<Longrightarrow> I osr flags w = Some (r, w') \<Longrightarrow> handler_matched w \<Longrightarrow>
     allocates (forget w) w' {#}"
  unfolding init_loose_def by blast

lemma alloc_looseD:
  "alloc_loose A \<Longrightarrow> A osr flags w = Some (r, w') \<Longrightarrow> handler_matched w \<Longrightarrow>
     allocates (forget w) w' (result_blocks r) \<and> (\<forall>ec. r = Some ec \<longrightarrow> thread_released w' ec)"
  unfolding alloc_loose_def by blast

lemma alloc_fine_loose: "alloc_fine A \<Longrightarrow> alloc_loose A"
  using allocates_forget unfolding alloc_fine_def alloc_loose_def by blast

lemma allocates_loose: "allocates (forget w) w' b \<Longrightarrow> handler_matched w \<Longrightarrow> handler_matched w'"
  using lib_config_thread(1) [OF allocates_config, of "forget w" w' b]
  by (simp add: forget_def handler_matched_def)

lemma allocates_loose_then:
  "allocates (forget w) w1 a \<Longrightarrow> allocates (forget w1) w2 b \<Longrightarrow> allocates (forget w) w2 (a + b)"
  by (simp add: allocates_def forget_def lib_config_def ac_simps)

lemma alloc_fineD:
  "alloc_fine A \<Longrightarrow> A osr flags w = Some (r, w') \<Longrightarrow> handler_matched w \<Longrightarrow>
     allocates w w' (result_blocks r) \<and> (\<forall>ec. r = Some ec \<longrightarrow> thread_released w' ec)"
  unfolding alloc_fine_def by blast

lemma init_fineD:
  "init_fine I \<Longrightarrow> I osr flags w = Some (r, w') \<Longrightarrow> handler_matched w \<Longrightarrow> allocates w w' {#}"
  unfolding init_fine_def by blast

lemma allocates_matched: "allocates w w' b \<Longrightarrow> handler_matched w \<Longrightarrow> handler_matched w'"
  using lib_config_thread(1) [OF allocates_config] by blast

lemma allocates_released: "allocates w w' b \<Longrightarrow> thread_released w' ec = thread_released w ec"
  using lib_config_thread(2) [OF allocates_config] .

lemma timer_only_released: "timer_only ec ec' \<Longrightarrow> thread_released w ec' = thread_released w ec"
  by (auto simp: timer_only_def thread_released_def)

text \<open>Enabling the timer obtains the context of the thread handler, if it obtains anything.\<close>

lemma notime_init_frame:
  "jent_notime_init w = (r, ctx, w') \<Longrightarrow>
     allocates w w' (if ctx = None then {#} else {#Blk_thread_ctx#})"
  by (auto simp: jent_notime_init_def Let_def allocates_refl dest: allocates_zalloc
      split: if_splits prod.splits)

lemma enable_thread_frame:
  assumes "jent_notime_enable_thread w ec = (r, w', ec')" "handler_matched w"
    "ec_notime_thread_ctx ec = None"
  shows "allocates w w' (if ec_notime_thread_ctx ec' = None then {#} else {#Blk_thread_ctx#}) \<and>
    (\<exists>ctx. ec' = ec\<lparr>ec_notime_thread_ctx := ctx\<rparr>) \<and> thread_released w' ec'"
proof (cases "g_notime_thread w")
  case None
  with assms show ?thesis
    by (auto simp: jent_notime_enable_thread_def allocates_refl thread_released_def
        intro: exI [of _ None])
next
  case (Some t)
  obtain r1 ctx w1 where c: "call_init (the (nt_init t)) w = (r1, ctx, w1)" by (metis prod_cases3)
  have e: "w' = w1" "ec' = ec\<lparr>ec_notime_thread_ctx := ctx\<rparr>"
    using assms Some c by (auto simp: jent_notime_enable_thread_def split: if_splits)
  have m: "nt_init t \<noteq> None" "nt_init t = Some Builtin \<longrightarrow> nt_fini t = Some Builtin"
    using assms(2) Some by (auto simp: handler_matched_def)
  have a: "allocates w w1 (if ctx = None then {#} else {#Blk_thread_ctx#})"
    using c
    by (auto simp: call_init_def supplied_call_def allocates_refl dest: notime_init_frame
        split: handler_fn.splits)
  have "ctx \<noteq> None \<Longrightarrow> nt_init t = Some Builtin"
    using c m by (auto simp: call_init_def supplied_call_def split: handler_fn.splits)
  moreover have "g_notime_thread w1 = Some t"
    using lib_config_thread(3) [OF allocates_config [OF a]] Some by simp
  ultimately show ?thesis using a e m by (auto simp: thread_released_def)
qed

lemma same_timer:
  "\<exists>b ctx. ec = ec\<lparr>ec_enable_notime := b, ec_notime_thread_ctx := ctx\<rparr>" for ec :: rand_data
  by (intro exI [of _ "ec_enable_notime ec"] exI [of _ "ec_notime_thread_ctx ec"]) simp

lemma enable_frame:
  assumes "jent_notime_enable te w ec flags = Some (r, w', ec')" "init_fine te" "handler_matched w"
    "ec_notime_thread_ctx ec = None"
  shows "allocates w w' (if ec_notime_thread_ctx ec' = None then {#} else {#Blk_thread_ctx#}) \<and>
    (\<exists>b ctx. ec' = ec\<lparr>ec_enable_notime := b, ec_notime_thread_ctx := ctx\<rparr>) \<and> thread_released w' ec'"
proof (cases "g_force_internal_timer w \<or> flags AND JENT_FORCE_INTERNAL_TIMER \<noteq> 0")
  case True
  then obtain r1 w1 where i: "(if \<not> g_force_internal_timer w
      then te (ec_osr ec) (flags OR JENT_FORCE_INTERNAL_TIMER) w else Some (0, w)) = Some (r1, w1)"
    and e: "(if r1 \<noteq> 0 then Some (EHEALTH, w1, ec)
      else Some (jent_notime_enable_thread w1 (ec\<lparr>ec_enable_notime := True\<rparr>))) = Some (r, w', ec')"
    using assms(1) by (auto simp: jent_notime_enable_def elim!: bind_SomeE)
  have a: "allocates w w1 {#}"
    using i init_fineD [OF assms(2) _ assms(3)] by (auto simp: allocates_refl split: if_splits)
  show ?thesis
  proof (cases "r1 = 0")
    case True
    with e have "jent_notime_enable_thread w1 (ec\<lparr>ec_enable_notime := True\<rparr>) = (r, w', ec')" by simp
    from enable_thread_frame [OF this allocates_matched [OF a assms(3)]] assms(4)
    have f: "allocates w1 w' (if ec_notime_thread_ctx ec' = None then {#} else {#Blk_thread_ctx#})"
      "\<exists>ctx. ec' = ec\<lparr>ec_enable_notime := True, ec_notime_thread_ctx := ctx\<rparr>" "thread_released w' ec'"
      by simp_all
    then show ?thesis using allocates_trans [OF a f(1)] by auto
  next
    case False
    with e a assms(4) show ?thesis
      by (auto simp: thread_released_def intro: same_timer)
  qed
next
  case False
  with assms show ?thesis
    by (auto simp: jent_notime_enable_def allocates_refl thread_released_def intro: same_timer)
qed


text \<open>The exponent of the memory size that an allocation uses.\<close>

definition alloc_exponent :: "u32 \<Rightarrow> jent_world \<Rightarrow> nat" where
  "alloc_exponent flags w = memsize_bits (JENT_FLAGS_TO_MAX_MEMSIZE (jent_update_memsize flags 0 w))"

definition with_memory :: "nat \<Rightarrow> rand_data \<Rightarrow> rand_data" where
  "with_memory k ec = ec\<lparr>ec_mem := Some (replicate (2 ^ k) 0), ec_memmask := 2 ^ k - 1,
     ec_memaccessloops := JENT_MEM_ACC_LOOP_DEFAULT\<rparr>"

lemma alloc_exponent_range: "10 \<le> alloc_exponent flags w" "alloc_exponent flags w \<le> 29"
  using jent_memsize_bits [of "jent_update_memsize flags 0 w"]
  by (simp_all add: alloc_exponent_def update_memsize_field memsize_exponent_le)

lemma unat_exponent: "k \<le> 29 \<Longrightarrow> unat (2 ^ k :: u32) = 2 ^ k"
  using unat_push_bit_1 [of k, where 'a = 32] by (simp add: push_bit_eq_mult)

lemma memmask_exponent: "k \<le> 29 \<Longrightarrow> unat (2 ^ k - 1 :: u32) + 1 = 2 ^ k"
  using unat_exponent [of k] unat_minus_one [of "2 ^ k :: u32"] by (cases "(2 ^ k :: u32) = 0") auto

lemma collector_memory_eq:
  "collector_memory flags w ec =
     (if bit flags 2 then Some (True, flags, w, ec)
      else let (ok, w') = jent_zalloc (Blk_memory (2 ^ alloc_exponent flags w)) w
        in Some (ok, jent_update_memsize flags 0 w, w',
             if ok then with_memory (alloc_exponent flags w) ec else ec))"
proof -
  let ?f = "jent_update_memsize flags 0 w" and ?k = "alloc_exponent flags w"
  have m: "jent_memsize ?f = Some (push_bit ?k 1)"
    using jent_memsize_bits [of ?f]
    by (simp add: alloc_exponent_def update_memsize_field memsize_exponent_le)
  then have m: "jent_memsize ?f = Some (2 ^ ?k)" by (simp add: push_bit_eq_mult)
  have u: "unat (2 ^ ?k :: u32) = 2 ^ ?k" by (rule unat_exponent [OF alloc_exponent_range(2)])
  show ?thesis
    by (cases "jent_zalloc (Blk_memory (2 ^ ?k)) w")
      (simp add: collector_memory_def flag_bits Let_def m u with_memory_def)
qed

text \<open>A new collector owns its block and its memory; it has no thread yet.\<close>

lemma collector_memory_frame:
  assumes "collector_memory flags w (zalloc_rand_data\<lparr>ec_max_mem_set := b\<rparr>) = Some (ok, flags', w', ec)"
  shows "(\<forall>w0. allocates w0 w {#Blk_collector#} \<longrightarrow> allocates w0 w' (collector_blocks ec)) \<and>
    ec_hash_state ec = None \<and> ec_notime_thread_ctx ec = None \<and> lib_config w' = lib_config w"
proof (cases "bit flags 2")
  case True
  with assms show ?thesis by (auto simp: collector_memory_eq collector_blocks_def zalloc_rand_data_def)
next
  case False
  let ?k = "alloc_exponent flags w"
  have z: "jent_zalloc (Blk_memory (2 ^ ?k)) w = (ok, w')"
    and e: "ec = (if ok then with_memory ?k (zalloc_rand_data\<lparr>ec_max_mem_set := b\<rparr>)
       else zalloc_rand_data\<lparr>ec_max_mem_set := b\<rparr>)"
    using assms False by (auto simp: collector_memory_eq split: prod.splits)
  have "collector_blocks ec = {#Blk_collector#} + (if ok then {#Blk_memory (2 ^ ?k)#} else {#})"
    using memmask_exponent [OF alloc_exponent_range(2) [of flags w]]
    by (simp add: e collector_blocks_def with_memory_def zalloc_rand_data_def)
  with allocates_zalloc [OF z] e show ?thesis
    using allocates_trans [of _ w "{#Blk_collector#}" w'] allocates_config
    by (auto simp: with_memory_def zalloc_rand_data_def)
qed

lemma collector_configure_frame [simp]:
  "ec_hash_state (collector_configure osr flags w ctx ec) = Some (jent_shake256_init ctx)"
  "ec_mem (collector_configure osr flags w ctx ec) = ec_mem ec"
  "ec_memmask (collector_configure osr flags w ctx ec) = ec_memmask ec"
  "ec_notime_thread_ctx (collector_configure osr flags w ctx ec) = ec_notime_thread_ctx ec"
  by (simp_all add: collector_configure_def Let_def split: sum.splits)


lemma thread_released_None [simp]: "ec_notime_thread_ctx ec = None \<Longrightarrow> thread_released w ec"
  by (simp add: thread_released_def)

lemma result_blocks_simps [simp]:
  "result_blocks None = {#}" "result_blocks (Some ec) = collector_blocks ec"
  by (simp_all add: result_blocks_def)

lemma collector_timer_fine:
  assumes r: "collector_timer te flags w1 ec = Some (r, w')" and te: "init_fine te"
    and a: "allocates w w1 (collector_blocks ec)" and m: "handler_matched w"
    and n: "ec_notime_thread_ctx ec = None"
  shows "allocates w w' (result_blocks r) \<and> (\<forall>ec. r = Some ec \<longrightarrow> thread_released w' ec)"
proof -
  obtain ret w2 e2 where
    t: "(if flags AND JENT_DISABLE_INTERNAL_TIMER = 0 then jent_notime_enable te w1 ec flags
         else Some (0, w1, ec)) = Some (ret, w2, e2)"
    and e: "(if ret \<noteq> 0 then Some (None, jent_entropy_collector_free w2 (Some e2))
      else Some (Some e2, w2)) = Some (r, w')"
    using r unfolding collector_timer_def by (auto elim!: bind_SomeE)
  have "allocates w w2 (collector_blocks e2) \<and> thread_released w2 e2"
  proof (cases "flags AND JENT_DISABLE_INTERNAL_TIMER = 0")
    case True
    with t have en: "jent_notime_enable te w1 ec flags = Some (ret, w2, e2)" by simp
    note f = enable_frame [OF en te allocates_matched [OF a m] n]
    then have "collector_blocks e2 = collector_blocks ec +
        (if ec_notime_thread_ctx e2 = None then {#} else {#Blk_thread_ctx#})"
      using n by (auto simp: collector_blocks_def)
    with allocates_trans [OF a conjunct1 [OF f]] f show ?thesis by simp
  next
    case False
    with t a n show ?thesis by auto
  qed
  with e allocates_free [of w w2 e2 "{#}"] show ?thesis by (auto split: if_splits)
qed

lemma collector_complete_fine:
  assumes r: "collector_complete te osr flags w1 ec = Some (r, w')" and te: "init_fine te"
    and a: "allocates w w1 (collector_blocks ec)" and m: "handler_matched w"
    and n: "ec_notime_thread_ctx ec = None" "ec_hash_state ec = None"
  shows "allocates w w' (result_blocks r) \<and> (\<forall>ec. r = Some ec \<longrightarrow> thread_released w' ec)"
proof -
  let ?f = "jent_update_hashloop flags 0"
  let ?e = "ec\<lparr>ec_hashloopcnt := jent_hashloop_cnt ?f\<rparr>"
  have be: "collector_blocks ?e = collector_blocks ec" by (simp add: collector_blocks_def)
  obtain c w2 where h: "jent_sha3_alloc w1 = (c, w2)" by fastforce
  have "allocates w1 w2 (if c = None then {#} else {#Blk_sha_ctx#})"
    using h by (auto simp: jent_sha3_alloc_def dest: allocates_zalloc split: prod.splits if_splits)
  note a2 = allocates_trans [OF a this]
  show ?thesis
  proof (cases c)
    case None
    with r h n a2 be allocates_free [of w w2 ?e "{#}"] show ?thesis
      by (auto simp: collector_complete_def Let_def)
  next
    case (Some ctx)
    let ?c = "collector_configure osr ?f w2 ctx ?e"
    have "collector_blocks ?c = add_mset Blk_sha_ctx (collector_blocks ec)"
      using n by (simp add: collector_blocks_def)
    with a2 Some have "allocates w w2 (collector_blocks ?c)" by simp
    moreover have "collector_timer te ?f w2 ?c = Some (r, w')"
      using r h Some by (simp add: collector_complete_def Let_def)
    ultimately show ?thesis
      using te m n collector_timer_fine [of te ?f w2 ?c r w' w] by simp
  qed
qed

lemma collector_build_fine:
  assumes te: "init_fine te" and m: "handler_matched w"
    and r: "collector_build te osr flags w = Some (r, w')"
  shows "allocates w w' (result_blocks r) \<and> (\<forall>ec. r = Some ec \<longrightarrow> thread_released w' ec)"
proof -
  let ?z = "zalloc_rand_data\<lparr>ec_max_mem_set := JENT_FLAGS_TO_MAX_MEMSIZE flags \<noteq> 0\<rparr>"
  obtain ok1 w1 where z: "jent_zalloc Blk_collector w = (ok1, w1)" by fastforce
  note a1 = allocates_zalloc [OF z]
  show ?thesis
  proof (cases ok1)
    case False
    with r z a1 show ?thesis by (simp add: collector_build_def)
  next
    case True
    with r z obtain ok2 f2 w2 e2 where
      mem: "collector_memory flags w1 ?z = Some (ok2, f2, w2, e2)" and
      r2: "(if \<not> ok2 then Some (None, jent_entropy_collector_free w2 (Some e2))
        else collector_complete te osr f2 w2 e2) = Some (r, w')"
      unfolding collector_build_def Let_def by (auto elim!: bind_SomeE)
    have b2: "allocates w w2 (collector_blocks e2)" "ec_hash_state e2 = None"
      "ec_notime_thread_ctx e2 = None"
      using collector_memory_frame [OF mem] a1 True by auto
    with r2 te m allocates_free [of w w2 e2 "{#}"] collector_complete_fine [of te osr f2 w2 e2 r w' w]
    show ?thesis by (auto split: if_splits)
  qed
qed

lemma collector_alloc_checked_fine:
  assumes i: "init_loose I" and te: "init_fine te" and m: "handler_matched w"
    and r: "collector_alloc_checked I te osr flags w = Some (r, w')"
  shows "allocates w w' (result_blocks r) \<and> (\<forall>ec. r = Some ec \<longrightarrow> thread_released w' ec)"
proof -
  define f where "f = (if flags AND JENT_NTG1 \<noteq> 0 then flags OR JENT_DISABLE_INTERNAL_TIMER else flags)"
  obtain ret w1 where
    s: "(if \<not> g_selftest_run w then I osr flags w else Some (0, w)) = Some (ret, w1)" and
    r1: "(if ret \<noteq> 0 then Some (None, w1)
      else if jent_notime_forced w1 \<and> f AND JENT_DISABLE_INTERNAL_TIMER \<noteq> 0 then Some (None, w1)
      else collector_build te osr f w1) = Some (r, w')"
    using r unfolding collector_alloc_checked_def Let_def f_def by (auto elim!: bind_SomeE)
  have a: "allocates w w1 {#}"
    using s init_looseD [OF i _ m]
    by (auto simp: allocates_refl forget_not_run split: if_splits)
  show ?thesis
  proof (cases "collector_build te osr f w1 = Some (r, w')")
    case True
    from collector_build_fine [OF te allocates_matched [OF a m] this] allocates_trans [OF a]
    show ?thesis by fastforce
  next
    case False
    with r1 a show ?thesis by (auto split: if_splits)
  qed
qed

lemma collector_alloc_body_fine:
  assumes "init_loose I" "init_fine te"
  shows "alloc_fine (collector_alloc_body I te)"
  using collector_alloc_checked_fine [OF assms]
  unfolding alloc_fine_def collector_alloc_body_def Let_def
  by (auto simp: allocates_refl)

lemma blocks_thread: "Blk_thread_ctx \<in># collector_blocks ec \<longleftrightarrow> ec_notime_thread_ctx ec \<noteq> None"
  by (simp add: collector_blocks_def)

lemma blocks_released:
  "collector_blocks ec' = collector_blocks ec \<Longrightarrow> thread_released w ec' = thread_released w ec"
  using blocks_thread [of ec] blocks_thread [of ec'] by (simp add: thread_released_def)

lemma time_entropy_init_body_fine:
  assumes A: "alloc_fine A"
  shows "init_fine (time_entropy_init_body A)"
  unfolding init_fine_def
proof (intro allI impI)
  fix osr flags w r w'
  assume r: "time_entropy_init_body A osr flags w = Some (r, w')" and m: "handler_matched w"
  obtain h w1 where g: "jent_gcd_init 1024 w = (h, w1)" by fastforce
  note a1 = allocates_gcd_init [OF g]
  show "allocates w w' {#}"
  proof (cases h)
    case None
    with r g a1 show ?thesis by (simp add: time_entropy_init_body_def)
  next
    case (Some hist)
    define w2 where "w2 = (if flags AND JENT_FORCE_INTERNAL_TIMER \<noteq> 0 then jent_notime_force w1 else w1)"
    define f where "f = (if flags AND JENT_FORCE_INTERNAL_TIMER \<noteq> 0 then flags
      else flags OR JENT_DISABLE_INTERNAL_TIMER) OR JENT_FORCE_FIPS"
    from r g Some obtain e w3 where al: "A osr f w2 = Some (e, w3)" and
      e: "(case e of None \<Rightarrow> Some (EMEM, jent_gcd_fini (Some hist) 1024 w3)
        | Some ec \<Rightarrow> do {
            (ret, w, ec) \<leftarrow> powerup_test hist w3 ec;
            let w = jent_gcd_fini (Some hist) 1024 w;
            let (w, ec) = jent_notime_unsettick w ec;
            Some (ret, jent_entropy_collector_free w (Some ec))
          }) = Some (r, w')"
      unfolding time_entropy_init_body_def Let_def w2_def f_def
      by (auto elim!: bind_SomeE split: if_splits)
    have a2: "allocates w w2 {#Blk_history (1024 * 8)#}"
      using a1 Some by (simp add: w2_def jent_notime_force_def)
    from alloc_fineD [OF A al allocates_matched [OF a2 m]] allocates_trans [OF a2]
    have a3: "allocates w w3 (add_mset (Blk_history (1024 * 8)) (result_blocks e))"
      and t3: "\<forall>ec. e = Some ec \<longrightarrow> thread_released w3 ec" by auto
    show ?thesis
    proof (cases e)
      case None
      with e a3 allocates_gcd_fini [of w w3 1024 "{#}" hist] show ?thesis by auto
    next
      case (Some ec)
      with e obtain ret w4 ec4 w5 ec5 where
        p: "powerup_test hist w3 ec = Some (ret, w4, ec4)" and
        u: "jent_notime_unsettick (jent_gcd_fini (Some hist) 1024 w4) ec4 = (w5, ec5)" and
        w': "w' = jent_entropy_collector_free w5 (Some ec5)"
        by (auto simp: Let_def split: prod.splits elim!: bind_SomeE)
      note fp = powerup_test_frame [OF p] and fu = unsettick_frame [OF u]
      have "allocates w (jent_gcd_fini (Some hist) 1024 w4) (collector_blocks ec5)"
        using allocates_then [OF a3 conjunct1 [OF fp]] Some fp timer_only_blocks [OF conjunct2 [OF fu]]
        by (intro allocates_gcd_fini) simp
      from allocates_then [OF this conjunct1 [OF fu]] have "allocates w w5 (collector_blocks ec5)" .
      moreover have "thread_released w5 ec5"
        using t3 Some a3 allocates_released [OF \<open>allocates w w5 (collector_blocks ec5)\<close>, of ec5]
          allocates_released [OF a3, of ec] blocks_released [of ec5 ec w] fp
          timer_only_blocks [OF conjunct2 [OF fu]] blocks_released [of ec5 ec w3]
        by simp
      ultimately show ?thesis using allocates_free [of w w5 ec5 "{#}"] w' by simp
    qed
  qed
qed


lemma init_pre_frame: "jent_entropy_init_common_pre w = (r, w') \<Longrightarrow> allocates w w' {#}"
  by (auto simp: jent_entropy_init_common_pre_def Let_def jent_notime_block_switch_def
      jent_health_cb_block_switch_def allocates_refl split: if_splits prod.splits
      dest!: allocates_selftest allocates_block)

lemma init_post_frame:
  "jent_entropy_init_common_post r w1 = (r', w') \<Longrightarrow> allocates w w1 {#} \<Longrightarrow> allocates (forget w) w' {#}"
  by (auto simp: jent_entropy_init_common_post_def allocates_forget split: if_splits)

lemma entropy_init_ex_body_fine:
  assumes te: "init_fine te"
  shows "init_loose (entropy_init_ex_body te)"
  unfolding init_loose_def
proof (intro allI impI)
  fix osr flags w r w'
  assume r: "entropy_init_ex_body te osr flags w = Some (r, w')" and m: "handler_matched w"
  obtain r1 w1 where p: "jent_entropy_init_common_pre w = (r1, w1)" by fastforce
  note a1 = init_pre_frame [OF p]
  show "allocates (forget w) w' {#}"
  proof (cases "r1 = 0")
    case True
    with r p obtain r2 w2 r3 w3 where
      t2: "(if flags AND JENT_FORCE_INTERNAL_TIMER = 0
        then te osr (flags OR JENT_DISABLE_INTERNAL_TIMER) w1 else Some (ENOTIME, w1)) = Some (r2, w2)" and
      t3: "(if r2 \<noteq> 0 \<and> flags AND JENT_DISABLE_INTERNAL_TIMER = 0
        then te osr (flags OR JENT_FORCE_INTERNAL_TIMER) w2 else Some (r2, w2)) = Some (r3, w3)" and
      e: "jent_entropy_init_common_post r3 w3 = (r, w')"
      unfolding entropy_init_ex_body_def by (auto elim!: bind_SomeE)
    have a2: "allocates w w2 {#}"
      using t2 a1 init_fineD [OF te _ allocates_matched [OF a1 m]]
      by (auto split: if_splits intro: allocates_then)
    have "allocates w w3 {#}"
      using t3 a2 init_fineD [OF te _ allocates_matched [OF a2 m]]
      by (auto split: if_splits intro: allocates_then)
    then show ?thesis by (rule init_post_frame [OF e])
  next
    case False
    with r p allocates_forget [OF a1] show ?thesis by (simp add: entropy_init_ex_body_def)
  qed
qed

lemma entropy_init_body_fine:
  assumes te: "init_fine te" and m: "handler_matched w"
    and r: "entropy_init_body te w = Some (r, w')"
  shows "allocates (forget w) w' {#}"
proof -
  obtain r1 w1 where p: "jent_entropy_init_common_pre w = (r1, w1)" by fastforce
  note a1 = init_pre_frame [OF p]
  show ?thesis
  proof (cases "r1 = 0")
    case True
    with r p obtain r2 w2 r3 w3 where
      t2: "te 0 JENT_DISABLE_INTERNAL_TIMER w1 = Some (r2, w2)" and
      t3: "(if r2 \<noteq> 0 then te 0 JENT_FORCE_INTERNAL_TIMER w2 else Some (r2, w2)) = Some (r3, w3)" and
      e: "jent_entropy_init_common_post r3 w3 = (r, w')"
      unfolding entropy_init_body_def by (auto elim!: bind_SomeE)
    have a2: "allocates w w2 {#}"
      using t2 a1 init_fineD [OF te _ allocates_matched [OF a1 m]] allocates_then by blast
    have "allocates w w3 {#}"
      using t3 a2 init_fineD [OF te _ allocates_matched [OF a2 m]]
      by (auto split: if_splits intro: allocates_then)
    then show ?thesis by (rule init_post_frame [OF e])
  next
    case False
    with r p allocates_forget [OF a1] show ?thesis by (simp add: entropy_init_body_def)
  qed
qed

lemma nothing_fine: "init_loose (\<lambda>_ _ _. None)" "init_fine (\<lambda>_ _ _. None)"
  by (simp_all add: init_fine_def init_loose_def)

lemmas library_fine =
  collector_alloc_body_fine [OF nothing_fine, folded nested_alloc_def]

lemma nested_init_fine: "init_fine nested_time_entropy_init"
  unfolding nested_time_entropy_init_def by (rule time_entropy_init_body_fine [OF library_fine])

lemma alloc_internal_fine: "alloc_fine jent_entropy_collector_alloc_internal"
  unfolding jent_entropy_collector_alloc_internal_def
  by (intro collector_alloc_body_fine entropy_init_ex_body_fine nested_init_fine)

lemma time_entropy_init_fine: "init_fine jent_time_entropy_init"
  unfolding jent_time_entropy_init_def by (rule time_entropy_init_body_fine [OF alloc_internal_fine])

lemma entropy_init_ex_fine: "init_loose jent_entropy_init_ex"
  unfolding jent_entropy_init_ex_def by (rule entropy_init_ex_body_fine [OF time_entropy_init_fine])

text \<open>The callback is fixed from the first initialisation on.\<close>

lemma init_pre_blocked:
  "jent_entropy_init_common_pre (w\<lparr>g_health_cb_switch_blocked := True\<rparr>) = jent_entropy_init_common_pre w"
  by (simp add: jent_entropy_init_common_pre_def jent_notime_block_switch_def
      jent_health_cb_block_switch_def)

lemma entropy_init_ex_blocks:
  assumes "jent_entropy_init_ex osr flags w = Some (r, w')" "handler_matched w"
  shows "g_health_cb_switch_blocked w'"
proof -
  let ?w = "w\<lparr>g_health_cb_switch_blocked := True\<rparr>"
  have "jent_entropy_init_ex osr flags ?w = Some (r, w')"
    using assms(1) by (simp add: jent_entropy_init_ex_def entropy_init_ex_body_def init_pre_blocked)
  moreover have "handler_matched ?w" using assms(2) by (simp add: handler_matched_def)
  ultimately have "allocates (forget ?w) w' {#}" using init_looseD [OF entropy_init_ex_fine] by blast
  then show ?thesis by (simp add: allocates_def forget_def)
qed


section \<open>Replacement and startup\<close>

lemma reset_osr_frame:
  "reset_osr osr flags w = Some (r, w') \<Longrightarrow> handler_matched w \<Longrightarrow> allocates (forget w) w' {#}"
proof (induction osr flags w rule: reset_osr.induct)
  case (1 osr flags w)
  from 1(2) obtain ret w1 where i: "jent_entropy_init_ex osr flags w = Some (ret, w1)"
    by (subst (asm) reset_osr.simps) (auto elim!: bind_SomeE)
  note a = init_looseD [OF entropy_init_ex_fine i 1(3)]
  have "ret = 0 \<or> osr + 1 > JENT_MAX_OSR \<Longrightarrow> w' = w1" "\<not> (ret = 0 \<or> osr + 1 > JENT_MAX_OSR) \<Longrightarrow>
      reset_osr (osr + 1) flags w1 = Some (r, w')"
    using 1(2) i by (auto simp: reset_osr.simps [of osr] Let_def split: if_splits)
  with 1(1) [OF i refl] a allocates_loose [OF a 1(3)] allocates_loose_then [OF a] show ?case
    by (cases "ret = 0 \<or> osr + 1 > JENT_MAX_OSR") auto
qed

lemma collector_blocks_update [simp]:
  "collector_blocks (ec\<lparr>ec_uuid := u\<rparr>) = collector_blocks ec"
  "collector_blocks (ec\<lparr>ec_read_invocations := n\<rparr>) = collector_blocks ec"
  "collector_blocks (ec\<lparr>ec_bytes_output := n\<rparr>) = collector_blocks ec"
  by (simp_all only: collector_blocks_def) simp_all

lemma take_over_blocks [simp]:
  "collector_blocks (collector_take_over new_ec ec) = collector_blocks new_ec"
  by (rule collector_blocks_cong [OF refl])
    (simp_all add: collector_take_over_def jent_rct_mem_duplicate_def Let_def
      lag_erase_frame [OF lag_erase_duplicate] rct_erase_frame [OF rct_erase_duplicate]
      apt_erase_frame [OF apt_erase_duplicate])

text \<open>A collector held in \<open>w\<close>, of the blocks obtained since \<open>w0\<close>.\<close>

definition holds_collector :: "jent_world \<Rightarrow> jent_world \<Rightarrow> rand_data \<Rightarrow> bool" where
  "holds_collector w0 w ec \<longleftrightarrow> handler_matched w0 \<and>
     allocates (forget w0) w (collector_blocks ec) \<and> thread_released w ec"

lemma holds_matched: "holds_collector w0 w ec \<Longrightarrow> handler_matched w"
  using allocates_loose by (auto simp: holds_collector_def)

lemma thread_released_config:
  "allocates (forget w) w' b \<Longrightarrow> thread_released w' ec = thread_released w ec"
  using lib_config_thread(2) [OF allocates_config, of "forget w" w' b ec]
  by (simp add: thread_released_def forget_def)

lemma holds_loose:
  "holds_collector w0 w ec \<Longrightarrow> allocates (forget w) w' {#} \<Longrightarrow> collector_blocks ec' = collector_blocks ec \<Longrightarrow>
     holds_collector w0 w' ec'"
  using allocates_loose_then [of w0 w "collector_blocks ec" w' "{#}"]
    thread_released_config [of w w' "{#}" ec'] blocks_released [of ec' ec w]
  by (simp add: holds_collector_def)

lemma holds_then:
  "holds_collector w0 w ec \<Longrightarrow> allocates w w' {#} \<Longrightarrow> collector_blocks ec' = collector_blocks ec \<Longrightarrow>
     holds_collector w0 w' ec'"
  using holds_loose allocates_forget by blast

lemma holds_free:
  "holds_collector w0 w ec \<Longrightarrow> allocates (forget w0) (jent_entropy_collector_free w (Some ec)) {#}"
  using allocates_free [of "forget w0" w ec "{#}"] by (simp add: holds_collector_def)

lemma holds_settick:
  "jent_notime_settick w ec = (r, w', ec') \<Longrightarrow> holds_collector w0 w ec \<Longrightarrow> holds_collector w0 w' ec'"
  using settick_frame timer_only_blocks holds_then by metis

lemma holds_unsettick:
  "jent_notime_unsettick w ec = (w', ec') \<Longrightarrow> holds_collector w0 w ec \<Longrightarrow> holds_collector w0 w' ec'"
  using unsettick_frame timer_only_blocks holds_then by metis

lemma holds_reset:
  assumes r: "jent_health_failure_reset w ec A = Some (r, w', ec')" and A: "alloc_loose A"
    and h: "holds_collector w0 w ec"
  shows "holds_collector w0 w' ec'"
proof (cases "ec_osr ec + 1 > JENT_MAX_OSR")
  case True
  with r h show ?thesis by (simp add: jent_health_failure_reset_def)
next
  case False
  with r obtain osr w1 where o: "reset_osr (ec_osr ec + 1) (reset_flags w ec) w = Some (osr, w1)"
    unfolding jent_health_failure_reset_def Let_def by (auto elim!: bind_SomeE)
  have h1: "holds_collector w0 w1 ec"
    by (rule holds_loose [OF h reset_osr_frame [OF o holds_matched [OF h]] refl])
  show ?thesis
  proof (cases osr)
    case None
    with r False o h1 show ?thesis by (simp add: jent_health_failure_reset_def)
  next
    case (Some osr')
    with r False o obtain n w2 where al: "A osr' (reset_flags w ec) w1 = Some (n, w2)" and
      e: "(r, w', ec') = (case n of None \<Rightarrow> (-1, w2, ec)
        | Some n \<Rightarrow> (0, jent_entropy_collector_free w2 (Some ec), collector_take_over n ec))"
      unfolding jent_health_failure_reset_def Let_def by (auto elim!: bind_SomeE)
    note f2 = alloc_looseD [OF A al holds_matched [OF h1]]
    have c2: "allocates (forget w0) w2 (collector_blocks ec + result_blocks n)" "thread_released w2 ec"
      using allocates_loose_then [OF _ conjunct1 [OF f2]] h1
      by (simp_all add: holds_collector_def thread_released_config [OF conjunct1 [OF f2]])
    note a3 = allocates_free [OF c2]
    show ?thesis
    proof (cases n)
      case None
      with e c2 h show ?thesis by (simp add: holds_collector_def)
    next
      case (Some n')
      with f2 have "thread_released w2 (collector_take_over n' ec)"
        by (simp add: blocks_released [OF take_over_blocks])
      with e Some a3 h show ?thesis
        by (simp add: holds_collector_def thread_released_config [OF a3] thread_released_config [OF c2(1)])
    qed
  qed
qed

lemma startup_step_frame:
  assumes r: "startup_step w ec = Some (ok, w', ec')" and h: "holds_collector w0 w ec"
  shows "holds_collector w0 w' ec'"
proof -
  from r obtain w1 e1 where d: "jent_random_data w ec = Some (w1, e1)"
    by (auto simp: startup_step_def elim!: bind_SomeE)
  obtain f w2 where f: "jent_health_failure w1 e1 = (f, w2)" by fastforce
  have h2: "holds_collector w0 w2 e1"
    using random_data_frame [OF d] health_failure_frame [OF f] holds_then h by blast
  show ?thesis
  proof (cases "f = 0")
    case True
    with r d f h2 show ?thesis by (simp add: startup_step_def)
  next
    case False
    with r d f obtain ret w3 e3 where
      s: "jent_health_failure_reset w2 e1 jent_entropy_collector_alloc_internal = Some (ret, w3, e3)"
      and e: "(if ret \<noteq> 0 then (False, w3, e3)
        else let (ret, w, ec) = jent_notime_settick w3 e3 in (ret = 0, w, ec)) = (ok, w', ec')"
      by (auto simp: startup_step_def split: if_splits prod.splits elim!: bind_SomeE)
    note h3 = holds_reset [OF s alloc_fine_loose [OF alloc_internal_fine] h2]
    with e holds_settick show ?thesis by (auto split: if_splits prod.splits)
  qed
qed

lemma startup_loop_frame:
  assumes "startup_loop w ec = Some (r, w')" "holds_collector w0 w ec"
  shows "allocates (forget w0) w' (result_blocks r) \<and> (\<forall>ec. r = Some ec \<longrightarrow> thread_released w' ec)"
proof -
  have "holds_collector w0 w ec \<longrightarrow> allocates (forget w0) (snd (r, w')) (result_blocks (fst (r, w'))) \<and>
    (\<forall>ec. fst (r, w') = Some ec \<longrightarrow> thread_released (snd (r, w')) ec)"
  proof (rule startup_loop.raw_induct [where P = "\<lambda>w ec x. holds_collector w0 w ec \<longrightarrow>
      allocates (forget w0) (snd x) (result_blocks (fst x)) \<and>
      (\<forall>ec. fst x = Some ec \<longrightarrow> thread_released (snd x) ec)", OF _ assms(1)], intro impI)
    fix loop :: "jent_world \<Rightarrow> rand_data \<Rightarrow> (rand_data option \<times> jent_world) option" and w ec x
    assume IH: "\<And>w ec x. loop w ec = Some x \<Longrightarrow> holds_collector w0 w ec \<longrightarrow>
        allocates (forget w0) (snd x) (result_blocks (fst x)) \<and>
        (\<forall>ec. fst x = Some ec \<longrightarrow> thread_released (snd x) ec)"
      and r: "Option.bind (startup_step w ec) (\<lambda>(ok, w, ec).
        if \<not> ok then Some (None, jent_entropy_collector_free w (Some ec))
        else if ec_startup_state ec \<noteq> jent_startup_completed then loop w ec
        else Some (Some ec, w)) = Some x"
      and h: "holds_collector w0 w ec"
    from r obtain ok w1 e1 where s: "startup_step w ec = Some (ok, w1, e1)" and
      e: "(if \<not> ok then Some (None, jent_entropy_collector_free w1 (Some e1))
        else if ec_startup_state e1 \<noteq> jent_startup_completed then loop w1 e1
        else Some (Some e1, w1)) = Some x"
      by (auto elim!: bind_SomeE)
    note h1 = startup_step_frame [OF s h]
    with e IH [of w1 e1 x] holds_free [OF h1]
    show "allocates (forget w0) (snd x) (result_blocks (fst x)) \<and>
      (\<forall>ec. fst x = Some ec \<longrightarrow> thread_released (snd x) ec)"
      by (auto simp: holds_collector_def split: if_splits)
  qed
  with assms show ?thesis by simp
qed

lemma alloc_startup_loose: "alloc_loose collector_alloc_startup"
  unfolding alloc_loose_def
proof (intro allI impI)
  fix osr flags w r w'
  assume r: "collector_alloc_startup osr flags w = Some (r, w')" and m: "handler_matched w"
  then obtain e w1 where al: "jent_entropy_collector_alloc_internal osr flags w = Some (e, w1)"
    by (auto simp: collector_alloc_startup_def elim!: bind_SomeE)
  note f = alloc_fineD [OF alloc_internal_fine al m]
  show "allocates (forget w) w' (result_blocks r) \<and> (\<forall>ec. r = Some ec \<longrightarrow> thread_released w' ec)"
  proof (cases e)
    case None
    with r al f show ?thesis by (simp add: collector_alloc_startup_def allocates_forget)
  next
    case (Some ec)
    obtain ret w2 ec2 where s: "jent_notime_settick w1 ec = (ret, w2, ec2)" by (metis prod_cases3)
    have "holds_collector w w1 ec"
      using f Some m by (simp add: holds_collector_def allocates_forget)
    note h2 = holds_settick [OF s this]
    show ?thesis
    proof (cases "ret = 0")
      case True
      with r al Some s obtain e3 w3 where l: "startup_loop w2 ec2 = Some (e3, w3)" and
        e: "(case e3 of None \<Rightarrow> Some (None, w3)
          | Some ec \<Rightarrow> do {
              let (w, ec) = jent_notime_unsettick w3 ec;
              let (uuid, w) = jent_uuid_generate w;
              Some (Some (ec\<lparr>ec_uuid := uuid\<rparr>), w)
            }) = Some (r, w')"
        by (auto simp: collector_alloc_startup_def elim!: bind_SomeE)
      note fl = startup_loop_frame [OF l h2]
      show ?thesis
      proof (cases e3)
        case None
        with e fl show ?thesis by simp
      next
        case (Some ec3)
        obtain w4 ec4 where u: "jent_notime_unsettick w3 ec3 = (w4, ec4)" by fastforce
        from fl Some m have "holds_collector w w3 ec3" by (simp add: holds_collector_def)
        note h4 = holds_unsettick [OF u this]
        from e Some u have "r = Some (ec4\<lparr>ec_uuid := fst (jent_uuid_generate w4)\<rparr>)"
          "w' = w4\<lparr>w_uuid_pos := w_uuid_pos w4 + 1\<rparr>"
          by (auto simp: jent_uuid_generate_def jent_uuid_random_bytes_def Let_def)
        with h4 show ?thesis by (simp add: holds_collector_def thread_released_def)
      qed
    next
      case False
      with r al Some s holds_free [OF h2] show ?thesis
        by (simp add: collector_alloc_startup_def)
    qed
  qed
qed

end
