(* ===== verification/Lifecycle_Proofs.thy ===== *)
theory Lifecycle_Proofs
  imports Ownership
begin

unbundle bit_operations_syntax

text \<open>
  What the life cycle of collectors guarantees: the tied definitions of theory \<open>Lifecycle\<close> satisfy
  the recursive equations of the C functions; the collector that an allocation builds, the invariant
  \<open>collector_ok\<close> that the library's operations keep on it, what a replacement takes over; and, with
  theory \<open>Ownership\<close>, that no path leaks memory.
\<close>

section \<open>The recursion of the C functions\<close>

text \<open>
  An allocation that runs after the self test, with the timer forced or disabled, calls neither
  function it is given: both recursions end there.
\<close>

lemma alloc_flag_bit:
  "bit (jent_update_hashloop (jent_update_memsize flags 0 w) 0) 4 = bit flags 4"
  "bit (jent_update_hashloop flags 0) 4 = bit flags 4"
  by (simp_all add: update_hashloop_flags update_memsize_flags)

lemma enable_forced:
  "g_force_internal_timer w \<Longrightarrow> jent_notime_enable te w ec flags = jent_notime_enable te' w ec flags"
  by (simp add: jent_notime_enable_def)

lemma collector_timer_agree:
  "bit flags 4 \<or> g_force_internal_timer w \<Longrightarrow>
     collector_timer te flags w ec = collector_timer te' flags w ec"
  by (auto simp: collector_timer_def flag_bits enable_forced [of w te ec flags te'])

lemma zalloc_globals [simp]:
  "jent_zalloc b w = (ok, w') \<Longrightarrow> g_force_internal_timer w' = g_force_internal_timer w"
  "jent_zalloc b w = (ok, w') \<Longrightarrow> g_selftest_run w' = g_selftest_run w"
  by (auto simp: jent_zalloc_def split: if_splits)

lemma sha3_alloc_globals:
  "jent_sha3_alloc w = (c, w') \<Longrightarrow> g_force_internal_timer w' = g_force_internal_timer w"
  by (auto simp: jent_sha3_alloc_def Let_def split: prod.splits)

lemma collector_complete_agree:
  assumes "bit flags 4 \<or> g_force_internal_timer w"
  shows "collector_complete te osr flags w ec = collector_complete te' osr flags w ec"
proof -
  obtain c w1 where c: "jent_sha3_alloc w = (c, w1)" by fastforce
  have "bit (jent_update_hashloop flags 0) 4 \<or> g_force_internal_timer w1"
    using assms sha3_alloc_globals [OF c] alloc_flag_bit(2) by auto
  from collector_timer_agree [OF this] c show ?thesis
    by (simp add: collector_complete_def Let_def split: option.splits)
qed

lemma collector_memory_keeps:
  "collector_memory flags w ec = Some (ok, flags', w', ec') \<Longrightarrow>
     bit flags' 4 = bit flags 4 \<and> g_force_internal_timer w' = g_force_internal_timer w"
  by (auto simp: collector_memory_eq update_memsize_flags split: if_splits prod.splits)

lemma collector_build_agree:
  assumes "bit flags 4 \<or> g_force_internal_timer w"
  shows "collector_build te osr flags w = collector_build te' osr flags w"
proof -
  obtain ok w1 where z: "jent_zalloc Blk_collector w = (ok, w1)" by fastforce
  have "bit flags 4 \<or> g_force_internal_timer w1" using assms zalloc_globals [OF z] by simp
  then have "collector_complete te osr f w2 e = collector_complete te' osr f w2 e"
    if "collector_memory flags w1 ec = Some (b, f, w2, e)" for b f w2 e ec
    using collector_memory_keeps [OF that] by (intro collector_complete_agree) simp
  then show ?thesis
    by (auto simp: collector_build_def z Let_def intro!: Option.bind_cong split: prod.splits)
qed

lemma collector_alloc_body_agree:
  assumes "g_selftest_run w" "bit flags 4 \<or> g_force_internal_timer w"
  shows "collector_alloc_body I te osr flags w = collector_alloc_body I' te' osr flags w"
  using assms
  by (auto simp: collector_alloc_body_def collector_alloc_checked_def Let_def flag_bits bit_simps
      flag_defs intro!: collector_build_agree [of _ _ te _ te'])

lemma gcd_init_globals:
  "jent_gcd_init n w = (h, w') \<Longrightarrow> g_selftest_run w' = g_selftest_run w"
  by (auto simp: jent_gcd_init_def Let_def split: prod.splits if_splits)

lemma time_entropy_init_agree:
  assumes "g_selftest_run w"
  shows "time_entropy_init_body (collector_alloc_body I te) osr flags w =
    time_entropy_init_body (collector_alloc_body I' te') osr flags w"
proof -
  obtain h w1 where h: "jent_gcd_init 1024 w = (h, w1)" by fastforce
  have s: "g_selftest_run w1" using gcd_init_globals [OF h] assms by simp
  have "collector_alloc_body I te osr (flags OR JENT_FORCE_FIPS) (jent_notime_force w1) =
      collector_alloc_body I' te' osr (flags OR JENT_FORCE_FIPS) (jent_notime_force w1)"
    "collector_alloc_body I te osr (flags OR JENT_DISABLE_INTERNAL_TIMER OR JENT_FORCE_FIPS) w1 =
      collector_alloc_body I' te' osr (flags OR JENT_DISABLE_INTERNAL_TIMER OR JENT_FORCE_FIPS) w1"
    using s by (auto intro!: collector_alloc_body_agree simp: jent_notime_force_def bit_simps flag_defs)
  with h show ?thesis
    by (simp add: time_entropy_init_body_def Let_def or.assoc split: option.splits)
qed

lemma nested_time_entropy_init_eq:
  "g_selftest_run w \<Longrightarrow> nested_time_entropy_init osr flags w = jent_time_entropy_init osr flags w"
  unfolding nested_time_entropy_init_def nested_alloc_def jent_time_entropy_init_def
    jent_entropy_collector_alloc_internal_def
  by (rule time_entropy_init_agree)


text \<open>A successful first part has run the self test, and a power-on test leaves that so.\<close>

lemma init_pre_run: "jent_entropy_init_common_pre w = (0, w') \<Longrightarrow> g_selftest_run w'"
  by (auto simp: jent_entropy_init_common_pre_def Let_def split: if_splits prod.splits)

lemma time_entropy_init_run:
  "jent_time_entropy_init osr flags w = Some (r, w') \<Longrightarrow> handler_matched w \<Longrightarrow> g_selftest_run w \<Longrightarrow>
     g_selftest_run w'"
  using init_fineD [OF time_entropy_init_fine] by (simp add: allocates_def)

lemma time_entropy_init_matched:
  "jent_time_entropy_init osr flags w = Some (r, w') \<Longrightarrow> handler_matched w \<Longrightarrow> handler_matched w'"
  using init_fineD [OF time_entropy_init_fine] allocates_matched by blast

lemma entropy_init_ex_nested:
  assumes "handler_matched w"
  shows "entropy_init_ex_body nested_time_entropy_init osr flags w = jent_entropy_init_ex osr flags w"
proof -
  obtain r w1 where p: "jent_entropy_init_common_pre w = (r, w1)" by fastforce
  show ?thesis
  proof (cases "r = 0")
    case True
    with p have s: "g_selftest_run w1" by (simp add: init_pre_run)
    have m: "handler_matched w1" by (rule allocates_matched [OF init_pre_frame [OF p] assms])
    have "nested_time_entropy_init osr f w2 = jent_time_entropy_init osr f w2"
      if "jent_time_entropy_init osr f' w1 = Some (r2, w2)" for f f' r2 w2
      by (rule nested_time_entropy_init_eq [OF time_entropy_init_run [OF that m s]])
    then show ?thesis
      using True p nested_time_entropy_init_eq [OF s]
      by (auto simp: entropy_init_ex_body_def jent_entropy_init_ex_def Let_def
          intro!: Option.bind_cong split: if_splits)
  next
    case False
    with p show ?thesis by (simp add: entropy_init_ex_body_def jent_entropy_init_ex_def)
  qed
qed

lemma entropy_init_ex_run:
  assumes "jent_entropy_init_ex osr flags w = Some (0, w')" "handler_matched w"
  shows "g_selftest_run w'"
proof -
  obtain r w1 where p: "jent_entropy_init_common_pre w = (r, w1)" by fastforce
  with assms(1) have r: "r = 0" by (auto simp: jent_entropy_init_ex_def entropy_init_ex_body_def split: if_splits)
  with p have s: "g_selftest_run w1" by (simp add: init_pre_run)
  have m: "handler_matched w1" by (rule allocates_matched [OF init_pre_frame [OF p] assms(2)])
  from assms(1) p r obtain r2 w2 r3 w3 where
    t2: "(if flags AND JENT_FORCE_INTERNAL_TIMER = 0
      then jent_time_entropy_init osr (flags OR JENT_DISABLE_INTERNAL_TIMER) w1
      else Some (ENOTIME, w1)) = Some (r2, w2)" and
    t3: "(if r2 \<noteq> 0 \<and> flags AND JENT_DISABLE_INTERNAL_TIMER = 0
      then jent_time_entropy_init osr (flags OR JENT_FORCE_INTERNAL_TIMER) w2
      else Some (r2, w2)) = Some (r3, w3)" and
    e: "jent_entropy_init_common_post r3 w3 = (0, w')"
    unfolding jent_entropy_init_ex_def entropy_init_ex_body_def by (auto elim!: bind_SomeE)
  have "g_selftest_run w2 \<and> handler_matched w2"
    using t2 s m time_entropy_init_run time_entropy_init_matched
    by (auto split: if_splits)
  with t3 have "g_selftest_run w3" using time_entropy_init_run by (auto split: if_splits)
  with e show ?thesis by (auto simp: jent_entropy_init_common_post_def split: if_splits)
qed

lemma collector_timer_cong:
  "g_selftest_run w \<Longrightarrow> (\<And>osr f v. g_selftest_run v \<Longrightarrow> te osr f v = te' osr f v) \<Longrightarrow>
     collector_timer te flags w ec = collector_timer te' flags w ec"
  by (simp add: collector_timer_def jent_notime_enable_def)

lemma collector_complete_cong:
  assumes "g_selftest_run w" "\<And>osr f v. g_selftest_run v \<Longrightarrow> te osr f v = te' osr f v"
  shows "collector_complete te osr flags w ec = collector_complete te' osr flags w ec"
proof -
  obtain c w1 where c: "jent_sha3_alloc w = (c, w1)" by fastforce
  then have "g_selftest_run w1" using assms(1) by (auto simp: jent_sha3_alloc_def split: prod.splits)
  with c assms(2) show ?thesis
    by (simp add: collector_complete_def Let_def collector_timer_cong [OF _ assms(2)]
        split: option.splits)
qed

lemma collector_memory_run:
  "collector_memory flags w ec = Some (ok, flags', w', ec') \<Longrightarrow> g_selftest_run w' = g_selftest_run w"
  by (auto simp: collector_memory_eq split: if_splits prod.splits)

lemma collector_build_cong:
  assumes "g_selftest_run w" "\<And>osr f v. g_selftest_run v \<Longrightarrow> te osr f v = te' osr f v"
  shows "collector_build te osr flags w = collector_build te' osr flags w"
proof -
  obtain ok w1 where z: "jent_zalloc Blk_collector w = (ok, w1)" by fastforce
  have "collector_complete te osr f w2 e = collector_complete te' osr f w2 e"
    if "collector_memory flags w1 ec = Some (b, f, w2, e)" for b f w2 e ec
    using collector_memory_run [OF that] zalloc_globals(2) [OF z] assms
    by (intro collector_complete_cong) simp_all
  then show ?thesis
    by (auto simp: collector_build_def z Let_def intro!: Option.bind_cong split: prod.splits)
qed

lemma collector_alloc_checked_nested:
  assumes "handler_matched w"
  shows "collector_alloc_checked (entropy_init_ex_body nested_time_entropy_init)
      nested_time_entropy_init osr flags w =
    collector_alloc_checked jent_entropy_init_ex jent_time_entropy_init osr flags w"
proof -
  have b: "collector_build nested_time_entropy_init osr f v = collector_build jent_time_entropy_init osr f v"
    if "g_selftest_run v" for f v
    by (rule collector_build_cong [OF that nested_time_entropy_init_eq])
  have s: "g_selftest_run v"
    if "(if \<not> g_selftest_run w then jent_entropy_init_ex osr flags w else Some (0, w)) = Some (0, v)" for v
    using that entropy_init_ex_run assms by (auto split: if_splits)
  show ?thesis
    unfolding collector_alloc_checked_def entropy_init_ex_nested [OF assms]
  proof (rule Option.bind_cong [OF refl], clarify)
    fix ret v
    assume "(if \<not> g_selftest_run w then jent_entropy_init_ex osr flags w else Some (0, w)) =
      Some (ret, v)"
    then have "ret = 0 \<longrightarrow> g_selftest_run v" using s [of v] by blast
    then show "(if ret \<noteq> 0 then Some (None, v)
      else let flags = if flags AND JENT_NTG1 \<noteq> 0 then flags OR JENT_DISABLE_INTERNAL_TIMER else flags
        in if jent_notime_forced v \<and> flags AND JENT_DISABLE_INTERNAL_TIMER \<noteq> 0 then Some (None, v)
           else collector_build nested_time_entropy_init osr flags v) =
      (if ret \<noteq> 0 then Some (None, v)
      else let flags = if flags AND JENT_NTG1 \<noteq> 0 then flags OR JENT_DISABLE_INTERNAL_TIMER else flags
        in if jent_notime_forced v \<and> flags AND JENT_DISABLE_INTERNAL_TIMER \<noteq> 0 then Some (None, v)
           else collector_build jent_time_entropy_init osr flags v)"
      using b [of v] by (cases "ret = 0") (simp_all only: simp_thms if_True if_False Let_def)
  qed
qed

section \<open>What an allocation returns\<close>

definition new_memory :: "u32 \<Rightarrow> jent_world \<Rightarrow> rand_data \<Rightarrow> rand_data" where
  "new_memory flags w ec = (if bit flags 2 then ec else with_memory (alloc_exponent flags w) ec)"

text \<open>The collector that an allocation builds, but for its timer.\<close>

definition new_collector :: "u32 \<Rightarrow> u32 \<Rightarrow> jent_world \<Rightarrow> jent_world \<Rightarrow> rand_data" where
  "new_collector osr flags w w2 =
     (let f = jent_update_hashloop (if bit flags 2 then flags else jent_update_memsize flags 0 w) 0
      in collector_configure osr f w2 zalloc_sha_ctx
           ((new_memory flags w (zalloc_rand_data\<lparr>ec_max_mem_set := JENT_FLAGS_TO_MAX_MEMSIZE flags \<noteq> 0\<rparr>))
              \<lparr>ec_hashloopcnt := jent_hashloop_cnt f\<rparr>))"

lemma enable_fields:
  assumes "jent_notime_enable te w ec flags = Some (r, w', ec')"
  shows "\<exists>b ctx. ec' = ec\<lparr>ec_enable_notime := b, ec_notime_thread_ctx := ctx\<rparr>"
proof -
  have "\<exists>ctx. e = e0\<lparr>ec_notime_thread_ctx := ctx\<rparr>"
    if "jent_notime_enable_thread w0 e0 = (r0, w1, e)" for w0 r0 w1 and e0 e :: rand_data
    using that
    by (auto simp: jent_notime_enable_thread_def split: option.splits prod.splits if_splits
        intro: exI [of _ "ec_notime_thread_ctx e0"])
  with assms show ?thesis
    by (auto simp: jent_notime_enable_def same_timer split: if_splits elim!: bind_SomeE) fastforce+
qed

lemma collector_timer_result:
  assumes "collector_timer te flags w e = Some (Some ec, w')"
  shows "\<exists>b ctx. ec = e\<lparr>ec_enable_notime := b, ec_notime_thread_ctx := ctx\<rparr> \<and>
    (bit flags 4 \<longrightarrow> b = ec_enable_notime e \<and> ctx = ec_notime_thread_ctx e)"
proof (cases "bit flags 4")
  case True
  with assms have "ec = e\<lparr>ec_enable_notime := ec_enable_notime e,
      ec_notime_thread_ctx := ec_notime_thread_ctx e\<rparr>"
    by (simp add: collector_timer_def flag_bits)
  then show ?thesis by blast
next
  case False
  with assms obtain w1 r where "jent_notime_enable te w e flags = Some (r, w1, ec)"
    by (auto simp: collector_timer_def flag_bits split: if_splits elim!: bind_SomeE)
  with False show ?thesis using enable_fields by blast
qed

lemma collector_memory_result:
  assumes "collector_memory flags w ec = Some (True, f, w', e)"
  shows "f = (if bit flags 2 then flags else jent_update_memsize flags 0 w) \<and>
    e = new_memory flags w ec \<and> lib_config w' = lib_config w"
  using assms allocates_config [OF allocates_zalloc]
  by (auto simp: collector_memory_eq new_memory_def split: if_splits prod.splits)

lemma sha3_alloc_result:
  "jent_sha3_alloc w = (Some c, w') \<Longrightarrow> c = zalloc_sha_ctx \<and> lib_config w' = lib_config w"
  using allocates_config [OF allocates_zalloc]
  by (auto simp: jent_sha3_alloc_def split: if_splits prod.splits)

lemma health_cutoffs_cong:
  "health_cutoffs_ok (ec\<lparr>ec_common_timer_gcd := g\<rparr>) = health_cutoffs_ok ec"
  "health_cutoffs_ok (ec\<lparr>ec_enable_notime := b, ec_notime_thread_ctx := c\<rparr>) = health_cutoffs_ok ec"
  by (simp_all add: health_cutoffs_ok_def apt_cutoffs_ok_def)

text \<open>The fields of a configured collector.\<close>

lemma collector_configure_fields:
  "ec_osr (collector_configure osr f w c e) = osr"
  "ec_flags (collector_configure osr f w c e) = f"
  "ec_memlocation (collector_configure osr f w c e) = ec_memlocation e"
  "ec_hashloopcnt (collector_configure osr f w c e) = ec_hashloopcnt e"
  "ec_enable_notime (collector_configure osr f w c e) = ec_enable_notime e"
  "ec_health_failure (collector_configure osr f w c e) = ec_health_failure e"
  "ec_is_fips_enabled (collector_configure osr f w c e) =
     (bit f 5 \<or> bit f 6 \<or> w_fips_enabled w \<or> ec_is_fips_enabled e)"
  "ec_startup_state (collector_configure osr f w c e) =
     (if bit f 5 \<or> bit f 6 \<or> w_fips_enabled w then jent_startup_memory else ec_startup_state e)"
  by (simp_all add: collector_configure_def Let_def flag_bits split: sum.splits)

lemma collector_configure_gcd: "ec_common_timer_gcd (collector_configure osr f w c e) \<noteq> 0"
  by (auto simp: collector_configure_def Let_def jent_gcd_get_def jent_gcd_tested_def split: sum.splits)

lemma collector_configure_cutoffs:
  assumes "1 \<le> osr" "osr \<le> 20"
  shows "health_cutoffs_ok (collector_configure osr f w c e)"
  unfolding collector_configure_def Let_def
  by (simp add: health_cutoffs_cong jent_health_init_cutoffs assms split: sum.splits)

lemma collector_build_result:
  assumes "collector_build te osr flags w = Some (Some ec, w')"
  shows "\<exists>w1 w2 b ctx. lib_config w1 = lib_config w \<and> lib_config w2 = lib_config w \<and>
    ec = (new_collector osr flags w1 w2)\<lparr>ec_enable_notime := b, ec_notime_thread_ctx := ctx\<rparr> \<and>
    (bit flags 4 \<longrightarrow> \<not> b \<and> ctx = None)"
proof -
  let ?z = "zalloc_rand_data\<lparr>ec_max_mem_set := JENT_FLAGS_TO_MAX_MEMSIZE flags \<noteq> 0\<rparr>"
  obtain ok w1 where z: "jent_zalloc Blk_collector w = (ok, w1)" by fastforce
  note c1 = allocates_config [OF allocates_zalloc [OF z]]
  from assms z obtain f w2 e where m: "collector_memory flags w1 ?z = Some (True, f, w2, e)" and
    c: "collector_complete te osr f w2 e = Some (Some ec, w')"
    by (auto simp: collector_build_def Let_def split: if_splits elim!: bind_SomeE)
  note r = collector_memory_result [OF m]
  from c obtain w3 where h: "jent_sha3_alloc w2 = (Some zalloc_sha_ctx, w3)"
    and t: "collector_timer te (jent_update_hashloop f 0) w3
      (collector_configure osr (jent_update_hashloop f 0) w3 zalloc_sha_ctx
        (e\<lparr>ec_hashloopcnt := jent_hashloop_cnt (jent_update_hashloop f 0)\<rparr>)) = Some (Some ec, w')"
    by (auto simp: collector_complete_def Let_def split: prod.splits option.splits
        dest: sha3_alloc_result)
  have n: "collector_configure osr (jent_update_hashloop f 0) w3 zalloc_sha_ctx
        (e\<lparr>ec_hashloopcnt := jent_hashloop_cnt (jent_update_hashloop f 0)\<rparr>) =
      new_collector osr flags w1 w3"
    using r by (simp add: new_collector_def Let_def)
  have b: "bit (jent_update_hashloop f 0) 4 = bit flags 4"
    using r by (simp add: update_hashloop_flags update_memsize_flags)
  have "\<not> ec_enable_notime (new_collector osr flags w1 w3) \<and>
      ec_notime_thread_ctx (new_collector osr flags w1 w3) = None"
    by (simp add: new_collector_def Let_def collector_configure_fields new_memory_def with_memory_def
        zalloc_rand_data_def)
  with collector_timer_result [OF t] n b obtain en ctx where
    "ec = (new_collector osr flags w1 w3)\<lparr>ec_enable_notime := en, ec_notime_thread_ctx := ctx\<rparr>"
    "bit flags 4 \<longrightarrow> \<not> en \<and> ctx = None" by auto
  moreover have "lib_config w3 = lib_config w" using c1 r sha3_alloc_result [OF h] by simp
  ultimately show ?thesis using c1 by blast
qed

definition collector_ok :: "rand_data \<Rightarrow> bool" where
  "collector_ok ec \<longleftrightarrow>
     JENT_MIN_OSR \<le> ec_osr ec \<and> ec_osr ec \<le> JENT_MAX_OSR \<and> health_cutoffs_ok ec \<and>
     collector_shape ec \<and> ec_common_timer_gcd ec \<noteq> 0 \<and>
     (\<exists>k \<le> 7. unat (ec_hashloopcnt ec) = 2 ^ k) \<and>
     (ec_mem ec = None \<or> (\<exists>k. 10 \<le> k \<and> k \<le> 29 \<and> unat (ec_memmask ec) + 1 = 2 ^ k)) \<and>
     (ec_is_fips_enabled ec \<longrightarrow> ec_mem ec \<noteq> None)"


text \<open>The flags that a collector keeps: all but the two sizes.\<close>

lemma new_flags_bit:
  "n < 24 \<Longrightarrow> bit (jent_update_hashloop (if bit flags 2 then flags
     else jent_update_memsize flags 0 w) 0) n = bit flags n"
  by (simp add: update_hashloop_flags update_memsize_flags)

lemma new_collector_fields:
  "ec_osr (new_collector osr flags w w2) = osr"
  "n < 24 \<Longrightarrow> bit (ec_flags (new_collector osr flags w w2)) n = bit flags n"
  "ec_is_fips_enabled (new_collector osr flags w w2) =
     (bit flags 5 \<or> bit flags 6 \<or> w_fips_enabled w2)"
  "ec_startup_state (new_collector osr flags w w2) =
     (if bit flags 5 \<or> bit flags 6 \<or> w_fips_enabled w2 then jent_startup_memory
      else jent_startup_completed)"
  "ec_health_failure (new_collector osr flags w w2) = 0"
  "ec_mem (new_collector osr flags w w2) =
     (if bit flags 2 then None else Some (replicate (2 ^ alloc_exponent flags w) 0))"
  "ec_memmask (new_collector osr flags w w2) =
     (if bit flags 2 then 0 else 2 ^ alloc_exponent flags w - 1)"
  "ec_memlocation (new_collector osr flags w w2) = 0"
  "ec_hash_state (new_collector osr flags w w2) = Some (jent_shake256_init zalloc_sha_ctx)"
  "ec_hashloopcnt (new_collector osr flags w w2) = jent_hashloop_cnt (ec_flags (new_collector osr flags w w2))"
  unfolding new_collector_def Let_def
  by (simp_all add: collector_configure_fields new_flags_bit del: if_split)
    (simp_all add: new_memory_def with_memory_def zalloc_rand_data_def)

lemma new_collector_ok:
  assumes "JENT_MIN_OSR \<le> osr" "osr \<le> JENT_MAX_OSR"
    "bit flags 2 \<longrightarrow> \<not> bit flags 5 \<and> \<not> bit flags 6 \<and> \<not> w_fips_enabled w2"
  shows "collector_ok ((new_collector osr flags w w2)\<lparr>ec_enable_notime := b, ec_notime_thread_ctx := c\<rparr>)"
proof -
  let ?e = "new_collector osr flags w w2"
  let ?k = "alloc_exponent flags w"
  have k: "10 \<le> ?k" "?k \<le> 29" by (rule alloc_exponent_range)+
  have "1 \<le> osr" using assms(1) by (simp add: word_le_nat_alt)
  then have "health_cutoffs_ok ?e" "ec_common_timer_gcd ?e \<noteq> 0"
    unfolding new_collector_def Let_def
    using assms collector_configure_cutoffs [of osr] collector_configure_gcd by simp_all
  moreover have "\<exists>k \<le> 7. unat (ec_hashloopcnt ?e) = 2 ^ k"
    unfolding new_collector_def Let_def by (simp add: collector_configure_fields hashloop_cnt_power)
  moreover have "collector_shape ?e"
    using memmask_exponent [OF k(2)] power_strict_increasing [of ?k 32 "2 :: nat"] k
    by (simp add: collector_shape_def mem_shape_def new_collector_fields)
  moreover have "ec_mem ?e = None \<or> unat (ec_memmask ?e) + 1 = 2 ^ ?k"
    using memmask_exponent [OF k(2)] by (simp add: new_collector_fields)
  ultimately show ?thesis
    using assms k by (auto simp: collector_ok_def health_cutoffs_cong new_collector_fields
        collector_shape_def mem_shape_def)
qed


lemma collector_alloc_checked_result:
  assumes "collector_alloc_checked I te osr flags w = Some (Some ec, w')" "init_loose I"
    "handler_matched w"
  shows "\<exists>w1 w2 b ctx. w_fips_enabled w2 = w_fips_enabled w \<and>
    ec = (new_collector osr (if bit flags 6 then flags OR JENT_DISABLE_INTERNAL_TIMER else flags) w1 w2)
      \<lparr>ec_enable_notime := b, ec_notime_thread_ctx := ctx\<rparr> \<and>
    (bit flags 4 \<or> bit flags 6 \<longrightarrow> \<not> b \<and> ctx = None)"
proof -
  define f where "f = (if bit flags 6 then flags OR JENT_DISABLE_INTERNAL_TIMER else flags)"
  from assms(1) obtain ret w1 where
    s: "(if \<not> g_selftest_run w then I osr flags w else Some (0, w)) = Some (ret, w1)" and
    b: "collector_build te osr f w1 = Some (Some ec, w')"
    unfolding collector_alloc_checked_def f_def
    by (auto simp: Let_def flag_bits split: if_splits elim!: bind_SomeE)
  have "allocates w w1 {#}"
    using s init_looseD [OF assms(2) _ assms(3)]
    by (auto simp: allocates_refl forget_not_run split: if_splits)
  then have c: "w_fips_enabled w1 = w_fips_enabled w"
    by (rule lib_config_thread(4) [OF allocates_config])
  have "bit f 4 = (bit flags 4 \<or> bit flags 6)" by (auto simp: f_def bit_simps flag_defs)
  with collector_build_result [OF b] c show ?thesis
    unfolding f_def [symmetric] by (metis lib_config_thread(4))
qed

lemma fips_flag_bits: "w AND (JENT_NTG1 OR JENT_FORCE_FIPS) = 0 \<longleftrightarrow> \<not> bit w 6 \<and> \<not> bit w 5"
  by (simp add: bit.conj_disj_distrib or_eq_0_iff flag_bits)

text \<open>The requests that an allocation refuses, without any effect.\<close>

definition refused :: "u32 \<Rightarrow> u32 \<Rightarrow> jent_world \<Rightarrow> bool" where
  "refused osr flags w \<longleftrightarrow> bit flags 4 \<and> bit flags 3 \<or>
     bit flags 2 \<and> (bit flags 5 \<or> bit flags 6 \<or> w_fips_enabled w) \<or>
     max JENT_MIN_OSR osr > JENT_MAX_OSR"

lemma ensure_osr_max: "ensure_osr_is_at_least_minimal osr = max JENT_MIN_OSR osr"
  by (auto simp: ensure_osr_is_at_least_minimal_def max_def)

lemma collector_alloc_body_eq:
  "collector_alloc_body I te osr flags w =
     (if refused osr flags w then Some (None, w)
      else collector_alloc_checked I te (max JENT_MIN_OSR osr) flags w)"
  by (auto simp: collector_alloc_body_def refused_def flag_bits fips_flag_bits ensure_osr_max Let_def)

lemma alloc_internal_ok:
  assumes a: "jent_entropy_collector_alloc_internal osr flags w = Some (Some ec, w')"
    and m: "handler_matched w"
  shows "\<not> refused osr flags w" "collector_ok ec"
    "ec_osr ec = max JENT_MIN_OSR osr"
    "ec_health_failure ec = 0"
    "ec_is_fips_enabled ec = (bit flags 5 \<or> bit flags 6 \<or> w_fips_enabled w)"
    "ec_startup_state ec = (if ec_is_fips_enabled ec then jent_startup_memory else jent_startup_completed)"
    "bit flags 4 \<or> bit flags 6 \<longrightarrow> \<not> ec_enable_notime ec"
    "ec_mem ec = None \<longleftrightarrow> bit flags 2"
proof -
  let ?f = "if bit flags 6 then flags OR JENT_DISABLE_INTERNAL_TIMER else flags"
  from a show r: "\<not> refused osr flags w"
    by (auto simp: jent_entropy_collector_alloc_internal_def collector_alloc_body_eq split: if_splits)
  with a have "collector_alloc_checked (entropy_init_ex_body nested_time_entropy_init)
      nested_time_entropy_init (max JENT_MIN_OSR osr) flags w = Some (Some ec, w')"
    by (simp add: jent_entropy_collector_alloc_internal_def collector_alloc_body_eq)
  from collector_alloc_checked_result [OF this entropy_init_ex_body_fine [OF nested_init_fine] m]
  obtain w1 w2 b ctx where c: "w_fips_enabled w2 = w_fips_enabled w"
    "ec = (new_collector (max JENT_MIN_OSR osr) ?f w1 w2)
      \<lparr>ec_enable_notime := b, ec_notime_thread_ctx := ctx\<rparr>"
    "bit flags 4 \<or> bit flags 6 \<longrightarrow> \<not> b \<and> ctx = None" by blast
  have f: "bit ?f 2 = bit flags 2" "bit ?f 5 = bit flags 5" "bit ?f 6 = bit flags 6"
    by (auto simp: bit_simps flag_defs)
  show "collector_ok ec"
    unfolding c(2) using r f c(1)
    by (intro new_collector_ok) (auto simp: refused_def not_less)
  show "ec_osr ec = max JENT_MIN_OSR osr" "ec_health_failure ec = 0"
    "ec_is_fips_enabled ec = (bit flags 5 \<or> bit flags 6 \<or> w_fips_enabled w)"
    "ec_startup_state ec = (if ec_is_fips_enabled ec then jent_startup_memory else jent_startup_completed)"
    "bit flags 4 \<or> bit flags 6 \<longrightarrow> \<not> ec_enable_notime ec"
    "ec_mem ec = None \<longleftrightarrow> bit flags 2"
    using f c by (simp_all add: new_collector_fields)
qed

section \<open>A usable collector stays usable\<close>

lemma collector_ok_osr: "collector_ok ec \<Longrightarrow> ec_osr ec \<le> JENT_MAX_OSR"
  by (simp add: collector_ok_def)

lemma collector_ok_cong:
  assumes "collector_ok ec" "ec_osr ec' = ec_osr ec" "ec_common_timer_gcd ec' = ec_common_timer_gcd ec"
    "ec_hashloopcnt ec' = ec_hashloopcnt ec" "ec_memmask ec' = ec_memmask ec"
    "ec_is_fips_enabled ec' = ec_is_fips_enabled ec" "ec_mem ec' = None \<longleftrightarrow> ec_mem ec = None"
    "collector_shape ec \<Longrightarrow> collector_shape ec'" "health_cutoffs_ok ec \<Longrightarrow> health_cutoffs_ok ec'"
  shows "collector_ok ec'"
  using assms by (simp add: collector_ok_def)


definition cutoffs_of :: "rand_data \<Rightarrow> u32 \<times> u32 \<times> u16 \<times> u16 \<times> u16 \<times> u16 \<times> u32 \<times> u32" where
  "cutoffs_of ec = (ec_apt_cutoff ec, ec_apt_cutoff_permanent ec, ec_rct_cutoff ec,
     ec_rct_cutoff_permanent ec, ec_rct_mem_cutoff ec, ec_rct_mem_cutoff_permanent ec,
     ec_lag_local_cutoff ec, ec_lag_global_cutoff ec)"

lemma cutoffs_of_ok:
  "cutoffs_of ec' = cutoffs_of ec \<Longrightarrow> health_cutoffs_ok ec' = health_cutoffs_ok ec"
  by (simp add: cutoffs_of_def health_cutoffs_ok_def apt_cutoffs_ok_def)

definition tests_ok :: "rand_data \<Rightarrow> bool" where
  "tests_ok ec \<longleftrightarrow> 1 \<le> ec_osr ec \<and> ec_osr ec \<le> JENT_MAX_OSR \<and> health_cutoffs_ok ec"

lemma tests_ok_cong:
  "tests_ok ec \<Longrightarrow> ec_osr ec' = ec_osr ec \<Longrightarrow> cutoffs_of ec' = cutoffs_of ec \<Longrightarrow> tests_ok ec'"
  using cutoffs_of_ok [of ec' ec] by (simp add: tests_ok_def)

interpretation tests_kept: step_invariant "\<lambda>_ ec. tests_ok ec"
  by unfold_locales
    ((erule tests_ok_cong; (simp add: cutoffs_of_def rct_mem_advance_def window_start_def
      rct_mem_erase_frame [OF rct_mem_counted_frame(6)]; fail)) |
     simp add: tests_ok_def jent_health_init_cutoffs)+

lemma blocks_memory: "ec_mem ec \<noteq> None \<longleftrightarrow> (\<exists>n. Blk_memory n \<in># collector_blocks ec)"
  by (simp add: collector_blocks_def)

lemma random_data_ok:
  assumes d: "jent_random_data w ec = Some (w', ec')" and ok: "collector_ok ec"
  shows "collector_ok ec'"
proof -
  have "1 \<le> ec_osr ec" using ok by (simp add: collector_ok_def word_le_nat_alt)
  then have "tests_ok ec" using ok by (simp add: collector_ok_def tests_ok_def)
  from tests_kept.keepsD [OF tests_kept.random_data_keeps d this]
  have t: "health_cutoffs_ok ec'" by (simp add: tests_ok_def)
  have s: "collector_setup ec' = collector_setup ec"
    by (rule setup_kept.keepsD [OF setup_kept.random_data_keeps d refl])
  have "collector_blocks ec' = collector_blocks ec" using random_data_frame [OF d] by simp
  then have "ec_mem ec' = None \<longleftrightarrow> ec_mem ec = None" using blocks_memory by metis
  moreover have "collector_shape ec'"
    using shape_kept.keepsD [OF shape_kept.random_data_keeps d] ok by (simp add: collector_ok_def)
  ultimately show ?thesis
    using t s by (intro collector_ok_cong [OF ok]) (simp_all add: collector_setup_def)
qed


lemma collector_ok_update [simp]:
  "collector_ok (ec\<lparr>ec_uuid := u\<rparr>) = collector_ok ec"
  "collector_ok (ec\<lparr>ec_read_invocations := n\<rparr>) = collector_ok ec"
  "collector_ok (ec\<lparr>ec_bytes_output := n\<rparr>) = collector_ok ec"
  by (simp_all add: collector_ok_def collector_shape_def mem_shape_def health_cutoffs_ok_def
      apt_cutoffs_ok_def)

lemma timer_only_ok: "collector_ok ec \<Longrightarrow> timer_only ec ec' \<Longrightarrow> collector_ok ec'"
  by (erule collector_ok_cong)
    (auto simp: timer_only_def collector_shape_def mem_shape_def health_cutoffs_ok_def apt_cutoffs_ok_def)

lemma settick_ok:
  assumes "jent_notime_settick w ec = (r, w', ec')"
  shows "(collector_ok ec \<longrightarrow> collector_ok ec') \<and> ec_osr ec' = ec_osr ec \<and>
    ec_startup_state ec' = ec_startup_state ec"
  using settick_frame [OF assms] timer_only_ok [of ec ec'] by (auto simp: timer_only_def)

lemma unsettick_ok:
  assumes "jent_notime_unsettick w ec = (w', ec')"
  shows "(collector_ok ec \<longrightarrow> collector_ok ec') \<and> ec_osr ec' = ec_osr ec \<and>
    ec_startup_state ec' = ec_startup_state ec"
  using unsettick_frame [OF assms] timer_only_ok [of ec ec'] by (auto simp: timer_only_def)

lemma take_over_fields:
  "ec_osr (collector_take_over n e) = ec_osr n"
  "ec_common_timer_gcd (collector_take_over n e) = ec_common_timer_gcd n"
  "ec_hashloopcnt (collector_take_over n e) = ec_hashloopcnt n"
  "ec_memmask (collector_take_over n e) = ec_memmask n"
  "ec_memlocation (collector_take_over n e) = ec_memlocation n"
  "ec_hash_state (collector_take_over n e) = ec_hash_state n"
  "ec_is_fips_enabled (collector_take_over n e) = ec_is_fips_enabled n"
  "ec_mem (collector_take_over n e) = ec_mem n"
  "ec_startup_state (collector_take_over n e) = ec_startup_state n"
  "ec_enable_notime (collector_take_over n e) = ec_enable_notime n"
  "ec_flags (collector_take_over n e) = ec_flags n"
  "ec_uuid (collector_take_over n e) = ec_uuid e"
  "ec_max_mem_set (collector_take_over n e) = ec_max_mem_set e"
  "ec_reinit_count (collector_take_over n e) = ec_reinit_count e + 1"
  "ec_read_invocations (collector_take_over n e) = ec_read_invocations e"
  "ec_bytes_output (collector_take_over n e) = ec_bytes_output e"
  "cutoffs_of (collector_take_over n e) = cutoffs_of n"
  by (simp_all add: collector_take_over_def jent_rct_mem_duplicate_def Let_def cutoffs_of_def
      lag_erase_frame [OF lag_erase_duplicate] rct_erase_frame [OF rct_erase_duplicate]
      apt_erase_frame [OF apt_erase_duplicate])

lemma take_over_ok: "collector_ok n \<Longrightarrow> collector_ok (collector_take_over n e)"
  by (erule collector_ok_cong)
    (simp_all add: take_over_fields
      cutoffs_of_ok [OF take_over_fields(17)]
      collector_shape_eq [OF take_over_fields(8) take_over_fields(4,5,6)])

text \<open>
  An allocation from the outside: what it must give to its caller, for the internal one and for the
  one that includes the startup.
\<close>

definition alloc_sound :: "alloc_fun \<Rightarrow> bool" where
  "alloc_sound A \<longleftrightarrow> (\<forall>osr flags w ec w'. A osr flags w = Some (Some ec, w') \<longrightarrow> handler_matched w \<longrightarrow>
     collector_ok ec \<and> osr \<le> ec_osr ec)"

lemma alloc_internal_sound: "alloc_sound jent_entropy_collector_alloc_internal"
  using alloc_internal_ok(2,3) by (auto simp: alloc_sound_def)

text \<open>A replacement has a larger oversampling rate and carries the history of the old collector.\<close>

lemma reset_osr_increases:
  "reset_osr osr flags w = Some (Some osr', w') \<Longrightarrow> osr \<le> JENT_MAX_OSR \<Longrightarrow>
     osr \<le> osr' \<and> osr' \<le> JENT_MAX_OSR"
proof (induction osr flags w rule: reset_osr.induct)
  case (1 osr flags w)
  from 1(2) obtain ret w1 where i: "jent_entropy_init_ex osr flags w = Some (ret, w1)"
    by (subst (asm) reset_osr.simps) (auto elim!: bind_SomeE)
  show ?case
  proof (cases "ret = 0")
    case True
    with 1 i show ?thesis by (simp add: reset_osr.simps [of osr])
  next
    case False
    with 1(2) i have n: "\<not> osr + 1 > JENT_MAX_OSR" "reset_osr (osr + 1) flags w1 = Some (Some osr', w')"
      by (auto simp: reset_osr.simps [of osr] Let_def split: if_splits)
    have "unat osr \<le> 20" using 1(3) by (simp add: word_le_nat_alt)
    then have "unat (osr + 1) = unat osr + 1" by (subst unat_Suc_below [of _ 30]) simp_all
    then have "osr \<le> osr + 1" by (simp add: word_le_nat_alt)
    moreover have "osr + 1 \<le> osr' \<and> osr' \<le> JENT_MAX_OSR"
      using n(1) by (intro 1(1) [OF i refl False refl n]) simp
    ultimately show ?thesis by (blast intro: order_trans)
  qed
qed

lemma reset_osr_loose:
  "reset_osr osr flags w = Some (r, w') \<Longrightarrow> handler_matched w \<Longrightarrow> handler_matched w'"
  using reset_osr_frame allocates_loose by blast

lemma health_failure_reset_result:
  assumes r: "jent_health_failure_reset w ec A = Some (0, w', ec')" and A: "alloc_sound A"
    and m: "handler_matched w" and l: "ec_osr ec \<le> JENT_MAX_OSR"
  shows "collector_ok ec' \<and> ec_osr ec < ec_osr ec' \<and> ec_uuid ec' = ec_uuid ec \<and>
    ec_max_mem_set ec' = ec_max_mem_set ec \<and> ec_reinit_count ec' = ec_reinit_count ec + 1 \<and>
    ec_read_invocations ec' = ec_read_invocations ec \<and> ec_bytes_output ec' = ec_bytes_output ec"
proof -
  from r obtain osr w1 n w2 where o: "\<not> ec_osr ec + 1 > JENT_MAX_OSR"
    "reset_osr (ec_osr ec + 1) (reset_flags w ec) w = Some (Some osr, w1)"
    and a: "A osr (reset_flags w ec) w1 = Some (Some n, w2)" and e: "ec' = collector_take_over n ec"
    unfolding jent_health_failure_reset_def Let_def
    by (auto split: if_splits option.splits elim!: bind_SomeE)
  have "unat (ec_osr ec) \<le> 20" using l by (simp add: word_le_nat_alt)
  then have "unat (ec_osr ec + 1) = unat (ec_osr ec) + 1" by (subst unat_Suc_below [of _ 30]) simp_all
  then have "ec_osr ec < ec_osr ec + 1" by (simp add: word_less_nat_alt)
  also have "ec_osr ec + 1 \<le> osr" using reset_osr_increases [OF o(2)] o(1) by simp
  also have "osr \<le> ec_osr n" using A a reset_osr_loose [OF o(2) m] unfolding alloc_sound_def by blast
  finally have "ec_osr ec < ec_osr n" .
  moreover have "collector_ok n" using A a reset_osr_loose [OF o(2) m] unfolding alloc_sound_def by blast
  ultimately show ?thesis by (simp add: e take_over_ok take_over_fields)
qed

lemma health_failure_reset_refused:
  assumes "jent_health_failure_reset w ec A = Some (r, w', ec')" "r \<noteq> 0"
  shows "r = -1 \<and> ec' = ec"
  using assms unfolding jent_health_failure_reset_def Let_def
  by (auto split: if_splits option.splits elim!: bind_SomeE)

section \<open>The startup\<close>

lemma startup_step_result:
  assumes s: "startup_step w ec = Some (ok, w', ec')" and e: "collector_ok ec" and h: "holds_collector w0 w ec"
  shows "collector_ok ec' \<and> ec_osr ec \<le> ec_osr ec'"
proof -
  from s obtain w1 e1 where d: "jent_random_data w ec = Some (w1, e1)"
    by (auto simp: startup_step_def elim!: bind_SomeE)
  obtain f w2 where f: "jent_health_failure w1 e1 = (f, w2)" by fastforce
  have c: "collector_ok e1" "ec_osr e1 = ec_osr ec"
    using random_data_ok [OF d e] setup_kept.keepsD [OF setup_kept.random_data_keeps d refl]
    by (simp_all add: collector_setup_def)
  have "holds_collector w0 w2 e1"
    using random_data_frame [OF d] health_failure_frame [OF f] holds_then h by blast
  note m = holds_matched [OF this]
  show ?thesis
  proof (cases "f = 0")
    case True
    with s d f c show ?thesis by (simp add: startup_step_def)
  next
    case False
    with s d f obtain ret w3 e3 where
      r: "jent_health_failure_reset w2 e1 jent_entropy_collector_alloc_internal = Some (ret, w3, e3)"
      and x: "(if ret \<noteq> 0 then (False, w3, e3)
        else let (ret, w, ec) = jent_notime_settick w3 e3 in (ret = 0, w, ec)) = (ok, w', ec')"
      by (auto simp: startup_step_def split: if_splits prod.splits elim!: bind_SomeE)
    have "collector_ok e3 \<and> ec_osr e1 \<le> ec_osr e3"
    proof (cases "ret = 0")
      case True
      with r health_failure_reset_result [OF _ alloc_internal_sound m collector_ok_osr [OF c(1)]]
      show ?thesis by (blast intro: less_imp_le)
    next
      case False
      with health_failure_reset_refused [OF r] c(1) show ?thesis by simp
    qed
    then show ?thesis
      using x c(2) settick_ok [of w3 e3] by (auto split: if_splits prod.splits)
  qed
qed


lemma startup_loop_result:
  assumes "startup_loop w ec = Some (Some ec', w')" "collector_ok ec" "holds_collector w0 w ec"
  shows "collector_ok ec' \<and> ec_osr ec \<le> ec_osr ec' \<and> ec_startup_state ec' = jent_startup_completed"
proof -
  let ?P = "\<lambda>w ec x :: rand_data option \<times> jent_world. collector_ok ec \<longrightarrow> holds_collector w0 w ec \<longrightarrow>
    (\<forall>ec'. fst x = Some ec' \<longrightarrow> collector_ok ec' \<and> ec_osr ec \<le> ec_osr ec' \<and>
      ec_startup_state ec' = jent_startup_completed)"
  have "?P w ec (Some ec', w')"
  proof (rule startup_loop.raw_induct [where P = ?P, OF _ assms(1)], intro impI)
    fix loop :: "jent_world \<Rightarrow> rand_data \<Rightarrow> (rand_data option \<times> jent_world) option" and w ec x
    assume IH: "\<And>w ec x. loop w ec = Some x \<Longrightarrow> ?P w ec x"
      and r: "Option.bind (startup_step w ec) (\<lambda>(ok, w, ec).
        if \<not> ok then Some (None, jent_entropy_collector_free w (Some ec))
        else if ec_startup_state ec \<noteq> jent_startup_completed then loop w ec
        else Some (Some ec, w)) = Some x"
      and e: "collector_ok ec" and h: "holds_collector w0 w ec"
    from r obtain ok w1 e1 where s: "startup_step w ec = Some (ok, w1, e1)" and
      x: "(if \<not> ok then Some (None, jent_entropy_collector_free w1 (Some e1))
        else if ec_startup_state e1 \<noteq> jent_startup_completed then loop w1 e1
        else Some (Some e1, w1)) = Some x"
      by (auto elim!: bind_SomeE)
    note e1 = startup_step_result [OF s e h] and h1 = startup_step_frame [OF s h]
    show "\<forall>ec'. fst x = Some ec' \<longrightarrow> collector_ok ec' \<and> ec_osr ec \<le> ec_osr ec' \<and>
      ec_startup_state ec' = jent_startup_completed"
    proof (cases "ok \<and> ec_startup_state e1 \<noteq> jent_startup_completed")
      case True
      with IH [of w1 e1 x] x e1 h1 show ?thesis by auto
    next
      case False
      with x e1 show ?thesis by (auto split: if_splits)
    qed
  qed
  with assms show ?thesis by simp
qed

lemma alloc_startup_result:
  assumes r: "collector_alloc_startup osr flags w = Some (Some ec, w')" and m: "handler_matched w"
  shows "collector_ok ec \<and> osr \<le> ec_osr ec \<and> ec_startup_state ec = jent_startup_completed \<and>
    \<not> refused osr flags w"
proof -
  from r obtain e1 w1 w2 e2 e3 w3 w4 e4 where
    a: "jent_entropy_collector_alloc_internal osr flags w = Some (Some e1, w1)" and
    s: "jent_notime_settick w1 e1 = (0, w2, e2)" and l: "startup_loop w2 e2 = Some (Some e3, w3)" and
    u: "jent_notime_unsettick w3 e3 = (w4, e4)" and e: "ec = e4\<lparr>ec_uuid := fst (jent_uuid_generate w4)\<rparr>"
    unfolding collector_alloc_startup_def
    by (auto simp: Let_def split: prod.splits if_splits option.splits elim!: bind_SomeE)
  have "holds_collector w w1 e1"
    using alloc_fineD [OF alloc_internal_fine a m] m
    by (simp add: holds_collector_def allocates_forget)
  from holds_settick [OF s this] have h: "holds_collector w w2 e2" .
  note ok = alloc_internal_ok [OF a m]
  have "collector_ok e3 \<and> ec_osr e2 \<le> ec_osr e3 \<and> ec_startup_state e3 = jent_startup_completed"
    using settick_ok [OF s] ok(2) by (intro startup_loop_result [OF l _ h]) simp
  then have "collector_ok e4 \<and> ec_osr e2 \<le> ec_osr e4 \<and> ec_startup_state e4 = jent_startup_completed"
    using unsettick_ok [OF u] by simp
  moreover have "osr \<le> ec_osr e2" using settick_ok [OF s] ok(3) by simp
  ultimately show ?thesis using ok(1) e by auto
qed


section \<open>Properties\<close>


lemma test_world_matched:
  "handler_matched (test_world\<lparr>w_alloc_ok := f, g_selftest_run := b\<rparr>)" "handler_matched test_world"
  by (simp_all add: handler_matched_def test_world_def jent_notime_thread_builtin_def)



text \<open>A collector without memory access and timer, in a library that is initialised.\<close>

lemma small_collector:
  fixes f
  defines "w \<equiv> test_world\<lparr>w_alloc_ok := f, g_selftest_run := True\<rparr>"
  assumes "f 0"
  shows "jent_entropy_collector_alloc_internal 5 20 w = (if f 1
    then Some (Some (collector_configure 5 (jent_update_hashloop 20 0)
        (w\<lparr>w_alloc_pos := 2, w_heap := {#Blk_sha_ctx, Blk_collector#}\<rparr>) zalloc_sha_ctx
        (zalloc_rand_data\<lparr>ec_hashloopcnt := jent_hashloop_cnt (jent_update_hashloop 20 0)\<rparr>)),
      w\<lparr>w_alloc_pos := 2, w_heap := {#Blk_sha_ctx, Blk_collector#}\<rparr>)
    else Some (None, w\<lparr>w_alloc_pos := 2, w_heap := {#}\<rparr>))"
proof -
  have b: "bit (20 :: u32) 2" "bit (20 :: u32) 4" "\<not> bit (20 :: u32) 3" "\<not> bit (20 :: u32) 5"
    "\<not> bit (20 :: u32) 6" by (simp_all add: bit_numeral_rec)
  have m: "JENT_FLAGS_TO_MAX_MEMSIZE (20 :: u32) = 0" by (simp add: JENT_FLAGS_TO_MAX_MEMSIZE_def)
  have u: "bit (jent_update_hashloop 20 0) 4" using b by (simp add: update_hashloop_flags)
  have n: "\<not> refused 5 20 w" using b by (simp add: refused_def w_def test_world_def)
  have y: "zalloc_rand_data\<lparr>ec_max_mem_set := False\<rparr> = zalloc_rand_data"
    by (simp add: zalloc_rand_data_def)
  define w1 where "w1 = w\<lparr>w_alloc_pos := 1, w_heap := {#Blk_collector#}\<rparr>"
  have z: "jent_zalloc Blk_collector w = (True, w1)"
    using assms(2) by (simp add: jent_zalloc_def w_def w1_def test_world_def)
  have h: "jent_sha3_alloc w1 = (if f 1 then (Some zalloc_sha_ctx,
        w\<lparr>w_alloc_pos := 2, w_heap := {#Blk_sha_ctx, Blk_collector#}\<rparr>)
      else (None, w\<lparr>w_alloc_pos := 2, w_heap := {#Blk_collector#}\<rparr>))"
    by (simp add: jent_sha3_alloc_def jent_zalloc_def w_def w1_def test_world_def)
  let ?e = "zalloc_rand_data\<lparr>ec_hashloopcnt := jent_hashloop_cnt (jent_update_hashloop 20 0)\<rparr>"
  have r: "jent_entropy_collector_free (w\<lparr>w_alloc_pos := 2, w_heap := {#Blk_collector#}\<rparr>) (Some ?e) =
      w\<lparr>w_alloc_pos := 2, w_heap := {#}\<rparr>"
    by (simp add: jent_entropy_collector_free_def jent_notime_unsettick_def jent_notime_disable_def
        zalloc_rand_data_def jent_zfree_def w_def test_world_def jent_notime_thread_builtin_def
        call_fini_def jent_notime_fini_def)
  have "collector_build te 5 20 w = (if f 1
    then Some (Some (collector_configure 5 (jent_update_hashloop 20 0)
        (w\<lparr>w_alloc_pos := 2, w_heap := {#Blk_sha_ctx, Blk_collector#}\<rparr>) zalloc_sha_ctx ?e),
      w\<lparr>w_alloc_pos := 2, w_heap := {#Blk_sha_ctx, Blk_collector#}\<rparr>)
    else Some (None, w\<lparr>w_alloc_pos := 2, w_heap := {#}\<rparr>))" for te
    using b(1) u by (simp add: collector_build_def z m y collector_memory_eq collector_complete_def h
        Let_def r collector_timer_def flag_bits)
  moreover have "g_selftest_run w" "\<not> jent_notime_forced w"
    by (simp_all add: w_def jent_notime_forced_def test_world_def)
  ultimately show ?thesis
    using n b(5) by (simp add: jent_entropy_collector_alloc_internal_def collector_alloc_body_eq
        collector_alloc_checked_def flag_bits max_def)
qed



text \<open>
  C6. An allocation with its startup leaks nothing: on every path, whichever allocation, test or
  measurement fails, and however often the startup replaces the collector, the heap grows by exactly
  the blocks of the collector that is returned, and releasing that collector restores the heap as it
  was. A returned collector is well-formed, has completed its startup and at least the requested
  oversampling rate.
\<close>

theorem collector_alloc_result:
  assumes "handler_matched w" "jent_entropy_collector_alloc osr flags w = Some (r, w')"
  shows "(r = None \<longrightarrow> w_heap w' = w_heap w) \<and>
    (\<forall>ec. r = Some ec \<longrightarrow> w_heap w' = w_heap w + collector_blocks ec \<and>
       w_heap (jent_entropy_collector_free w' r) = w_heap w \<and>
       collector_ok ec \<and> osr \<le> ec_osr ec \<and> ec_startup_state ec = jent_startup_completed \<and>
       \<not> refused osr flags w)"
proof -
  have s: "collector_alloc_startup osr flags w = Some (r, w')"
    using assms(2) by (simp add: jent_entropy_collector_alloc_def)
  note l = alloc_looseD [OF alloc_startup_loose s assms(1)]
  have "w_heap (jent_entropy_collector_free w' r) = w_heap w" if "r = Some ec" for ec
    using l that allocates_free [of "forget w" w' ec "{#}"] by (simp add: allocates_def forget_def)
  with l alloc_startup_result [OF _ assms(1)] s show ?thesis
    by (auto simp: allocates_def forget_def)
qed

theorem collector_alloc_result_witness:
  "let w = test_world\<lparr>w_alloc_ok := \<lambda>n. n < 1, g_selftest_run := True\<rparr>;
       w' = w\<lparr>w_alloc_pos := 2, w_heap := {#}\<rparr>
   in jent_entropy_collector_alloc 5 20 w = Some (None, w') \<and> w_heap w' = w_heap w"
proof -
  let ?w = "test_world\<lparr>w_alloc_ok := \<lambda>n. n < 1, g_selftest_run := True\<rparr>"
  have "jent_entropy_collector_alloc 5 20 ?w = Some (None, ?w\<lparr>w_alloc_pos := 2, w_heap := {#}\<rparr>)"
    by (simp add: jent_entropy_collector_alloc_def collector_alloc_startup_def small_collector)
  from collector_alloc_result [OF test_world_matched(1) this] this show ?thesis
    unfolding Let_def by blast
qed

text \<open>
  C14. Replacing a collector after a health failure: the old collector is released exactly when a
  new one takes its place, which has a larger oversampling rate of at most 20, is well-formed, and
  keeps the identifier and the statistics of the old one; a refusal returns the old collector
  unchanged, and nothing is leaked in either case.
\<close>

theorem health_failure_reset_replaces:
  assumes "handler_matched w" "jent_health_failure_reset w ec collector_alloc_startup = Some (r, w', ec')"
    "w_heap w = h + collector_blocks ec" "thread_released w ec" "collector_ok ec"
  shows "w_heap w' = h + collector_blocks ec' \<and> thread_released w' ec' \<and> collector_ok ec' \<and>
    (r \<noteq> 0 \<longrightarrow> r = -1 \<and> ec' = ec) \<and>
    (r = 0 \<longrightarrow> ec_osr ec < ec_osr ec' \<and> ec_uuid ec' = ec_uuid ec \<and>
       ec_max_mem_set ec' = ec_max_mem_set ec \<and> ec_reinit_count ec' = ec_reinit_count ec + 1 \<and>
       ec_read_invocations ec' = ec_read_invocations ec \<and> ec_bytes_output ec' = ec_bytes_output ec)"
proof -
  have "holds_collector (w\<lparr>w_heap := h\<rparr>) w ec"
    using assms(1,3,4) by (simp add: holds_collector_def allocates_def forget_def lib_config_def
        handler_matched_def)
  note h = holds_reset [OF assms(2) alloc_startup_loose this]
  have snd: "alloc_sound collector_alloc_startup"
    using alloc_startup_result by (auto simp: alloc_sound_def)
  have "w_heap w' = h + collector_blocks ec' \<and> thread_released w' ec'"
    using h by (simp add: holds_collector_def allocates_def forget_def)
  moreover have "r \<noteq> 0 \<longrightarrow> r = -1 \<and> ec' = ec" using health_failure_reset_refused assms(2) by blast
  moreover note health_failure_reset_result [OF _ snd assms(1) collector_ok_osr [OF assms(5)], of w' ec']
  ultimately show ?thesis using assms(2,5) by (cases "r = 0") auto
qed

theorem health_failure_reset_replaces_witness:
  "let ec = (new_collector 20 0 test_world test_world)
         \<lparr>ec_enable_notime := False, ec_notime_thread_ctx := None\<rparr>;
       w = test_world\<lparr>w_heap := collector_blocks ec\<rparr>
   in jent_health_failure_reset w ec collector_alloc_startup = Some (-1, w, ec) \<and>
      w_heap w = collector_blocks ec"
proof -
  let ?e = "(new_collector 20 0 test_world test_world)
    \<lparr>ec_enable_notime := False, ec_notime_thread_ctx := None\<rparr>"
  let ?w = "test_world\<lparr>w_heap := collector_blocks ?e\<rparr>"
  have e: "collector_ok ?e" by (rule new_collector_ok) simp_all
  have "jent_health_failure_reset ?w ?e collector_alloc_startup = Some (-1, ?w, ?e)"
    by (simp add: jent_health_failure_reset_def new_collector_fields)
  moreover have "handler_matched ?w" using test_world_matched(2) by (simp add: handler_matched_def)
  ultimately show ?thesis
    using health_failure_reset_replaces [of ?w ?e "-1" ?w ?e "{#}"] e by (simp add: Let_def)
qed

lemma entropy_init_fine:
  "jent_entropy_init w = Some (r, w') \<Longrightarrow> handler_matched w \<Longrightarrow> allocates (forget w) w' {#}"
  unfolding jent_entropy_init_def using entropy_init_body_fine [OF time_entropy_init_fine] by blast

text \<open>
  Initialising the library, in both variants, leaves the heap as it was, whatever the self
  tests and power-on tests find and whichever allocation fails; and it is successful only with the
  self test recorded as run.
\<close>

theorem init_leaks_nothing:
  assumes "handler_matched w"
  shows "(jent_entropy_init w = Some (r, w') \<longrightarrow> w_heap w' = w_heap w) \<and>
    (jent_entropy_init_ex osr flags w = Some (r, w') \<longrightarrow> w_heap w' = w_heap w \<and>
       (r = 0 \<longrightarrow> g_selftest_run w'))"
  using entropy_init_fine [OF _ assms] init_looseD [OF entropy_init_ex_fine _ assms]
    entropy_init_ex_run [OF _ assms]
  by (auto simp: allocates_def forget_def)

text \<open>The initialisation when no memory can be obtained.\<close>

definition no_memory :: "jent_world \<Rightarrow> jent_world" where
  "no_memory w = w\<lparr>g_selftest_run := False, w_alloc_ok := \<lambda>_. False\<rparr>"

lemma init_no_memory:
  "jent_entropy_init_ex osr flags (no_memory w) =
     Some (if jent_sha3_tester (w_stack_ctx w) = 0 then EMEM else EHASH,
       if jent_sha3_tester (w_stack_ctx w) = 0
       then (no_memory w)\<lparr>g_notime_switch_blocked := True, g_health_cb_switch_blocked := True,
          w_alloc_pos := w_alloc_pos w + 1, g_selftest_run := True\<rparr>
       else (no_memory w)\<lparr>g_notime_switch_blocked := True, g_health_cb_switch_blocked := True\<rparr>)"
  by (simp add: jent_entropy_init_ex_def entropy_init_ex_body_def jent_entropy_init_common_pre_def
      jent_gcd_selftest_def jent_gcd_init_def jent_zalloc_def no_memory_def Let_def
      jent_notime_block_switch_def jent_health_cb_block_switch_def)

theorem init_leaks_nothing_witness:
  "\<exists>r w'. jent_entropy_init_ex 3 0 (no_memory test_world) = Some (r, w') \<and> w_heap w' = {#}"
proof -
  have "handler_matched (no_memory test_world)" "w_heap (no_memory test_world) = {#}"
    using test_world_matched(2) by (simp_all add: handler_matched_def no_memory_def test_world_def)
  with init_leaks_nothing [OF this(1)] init_no_memory [of 3 0 test_world] show ?thesis by metis
qed

text \<open>
  An initialisation whose divisor self test fails because no memory can be obtained reports the
  failure and yet leaves the self tests recorded as run: the first part sets the mark whatever the
  test says, and both callers return before the part that would remove it. The next allocation then
  runs no self test. (When the hash self test fails the mark is not set.)
\<close>

theorem failed_selftest_marked_run:
  "\<exists>r w'. jent_entropy_init_ex osr flags (no_memory w) = Some (r, w') \<and> r \<noteq> 0 \<and>
     g_selftest_run w' = (jent_sha3_tester (w_stack_ctx w) = 0)"
  using init_no_memory [of osr flags w]
  by (intro exI conjI) (assumption, simp_all add: no_memory_def)

end
