(* ===== verification/Read.thy ===== *)
theory Read
  imports Lifecycle_Proofs
begin

unbundle bit_operations_syntax

text \<open>
  Delivering entropy in \<open>jitterentropy-base.c\<close>: \<open>jent_read_entropy\<close>, which collects a block for
  every 32 bytes and maps a health failure to an error code, and \<open>jent_read_entropy_safe\<close>, which
  replaces the collector after an intermittent failure and tries again.
\<close>

section \<open>Reading\<close>

text \<open>The error code for a failure word; a permanent failure comes first.\<close>

definition read_error :: "u32 \<Rightarrow> int" where
  "read_error health_test_result =
     (if health_test_result AND JENT_RCT_FAILURE_PERMANENT \<noteq> 0 then -6
      else if health_test_result AND JENT_APT_FAILURE_PERMANENT \<noteq> 0 then -7
      else if health_test_result AND JENT_LAG_FAILURE_PERMANENT \<noteq> 0 then -8
      else if health_test_result AND JENT_RCT_MEM_FAILURE_PERMANENT \<noteq> 0 then -10
      else if health_test_result AND JENT_RCT_FAILURE \<noteq> 0 then -2
      else if health_test_result AND JENT_APT_FAILURE \<noteq> 0 then -3
      else if health_test_result AND JENT_RCT_MEM_FAILURE \<noteq> 0 then -9
      else -5)"

text \<open>
  The loop over the buffer \<open>data\<close>, of which \<open>len\<close> bytes at offset \<open>p\<close> are still to be filled.
  (\<open>len\<close> is at most \<open>ssize_max\<close>, so that it is a natural number here.)
\<close>

function read_loop :: "jent_world \<Rightarrow> rand_data \<Rightarrow> u8 list \<Rightarrow> nat \<Rightarrow> nat \<Rightarrow>
    (int \<times> u8 list \<times> jent_world \<times> rand_data) option" where
  "read_loop w ec data p len =
     (if len > 0
      then do {
        (w, ec) \<leftarrow> jent_random_data w ec;
        let (health_test_result, w) = jent_health_failure w ec;
        if health_test_result \<noteq> 0 then Some (read_error health_test_result, data, w, ec)
        else do {
          let tocopy = (if unat DATA_SIZE_BITS div 8 < len then unat DATA_SIZE_BITS div 8 else len);
          (data, ec) \<leftarrow> jent_read_random_block ec data p tocopy;
          read_loop w ec data (p + tocopy) (len - tocopy)
        }
      }
      else Some (0, data, w, ec))"
  by pat_completeness auto
termination
  by (relation "measure (\<lambda>(w, ec, data, p, len). len)") auto

declare read_loop.simps [simp del]

abbreviation (input) "ssize_max \<equiv> 0x7fffffffffffffff :: u64"

text \<open>\<open>data\<close> is \<open>None\<close> for a \<open>NULL\<close> pointer.\<close>

definition jent_read_entropy :: "jent_world \<Rightarrow> rand_data option \<Rightarrow> u8 list option \<Rightarrow> u64 \<Rightarrow>
    (int \<times> u8 list option \<times> jent_world \<times> rand_data option) option" where
  "jent_read_entropy w ec data len =
     (if ec = None \<or> data = None \<and> len > 0 then Some (-1, data, w, ec)
      else
        let ec = the ec;
            len = (if len > ssize_max then ssize_max else len);
            orig_len = len;
            (ret, w, ec) = jent_notime_settick w ec
        in if ret \<noteq> 0 then Some (-4, data, w, Some ec)
           else do {
             (ret, buf, w, ec) \<leftarrow>
               read_loop w ec (case data of Some buf \<Rightarrow> buf | None \<Rightarrow> []) 0 (unat len);
             (_, ec) \<leftarrow> (if ret = 0 \<and> \<not> w_secure_memory w
                         then jent_read_random_block ec [] 0 0
                         else Some ([], ec));
             let (w, ec) = jent_notime_unsettick w ec;
             let ec = (if ret = 0
                       then ec\<lparr>ec_read_invocations := ec_read_invocations ec + 1,
                               ec_bytes_output := ec_bytes_output ec + orig_len\<rparr>
                       else ec);
             Some (if ret \<noteq> 0 then ret else int (unat orig_len), map_option (\<lambda>_. buf) data, w,
                   Some ec)
           })"

text \<open>
  A round of the loop of \<open>jent_read_entropy_safe\<close>: \<open>jent_read_entropy\<close> fills the buffer from offset
  \<open>p\<close> on. \<open>Inl\<close> leaves the loop with the error or, when \<open>len\<close> is zero, without one; \<open>Inr\<close> is the state
  of the next round.
\<close>

type_synonym safe_state = "jent_world \<times> rand_data option \<times> u8 list option \<times> nat \<times> u64"
type_synonym safe_exit = "(int + unit) \<times> u8 list option \<times> jent_world \<times> rand_data option"

definition read_safe_step ::
  "jent_world \<Rightarrow> rand_data option \<Rightarrow> u8 list option \<Rightarrow> nat \<Rightarrow> u64 \<Rightarrow> (safe_exit + safe_state) option" where
  "read_safe_step w ec data p len =
     (if len > 0
      then do {
        (ret, data', w, ec) \<leftarrow> jent_read_entropy w ec (map_option (drop p) data) len;
        let data = map_option (\<lambda>buf. take p buf @ (case data' of Some b \<Rightarrow> b | None \<Rightarrow> [])) data;
        if ret \<in> {-1, -4, -6, -7, -8, -10} then Some (Inl (Inl ret, data, w, ec))
        else if ret \<in> {-2, -3, -5, -9} then do {
          e \<leftarrow> ec;
          (r, w, e) \<leftarrow> jent_health_failure_reset w e collector_alloc_startup;
          Some (if r \<noteq> 0 then Inl (Inl ret, data, w, Some e) else Inr (w, Some e, data, p, len))
        }
        else if ret \<ge> 0 then Some (Inr (w, ec, data, p + nat ret, len - of_int ret))
        else Some (Inl (Inl (-1), data, w, ec))
      }
      else Some (Inl (Inr (), data, w, ec)))"

partial_function (option) read_safe_loop ::
  "jent_world \<Rightarrow> rand_data option \<Rightarrow> u8 list option \<Rightarrow> nat \<Rightarrow> u64 \<Rightarrow> safe_exit option" where
  "read_safe_loop w ec data p len = do {
     s \<leftarrow> read_safe_step w ec data p len;
     case s of
       Inl x \<Rightarrow> Some x
     | Inr (w, ec, data, p, len) \<Rightarrow> read_safe_loop w ec data p len
   }"

text \<open>\<open>ec\<close> is \<open>None\<close> for a \<open>NULL\<close> double pointer, \<open>Some None\<close> for a pointer to \<open>NULL\<close>.\<close>

definition jent_read_entropy_safe ::
  "jent_world \<Rightarrow> rand_data option option \<Rightarrow> u8 list option \<Rightarrow> u64 \<Rightarrow>
    (int \<times> u8 list option \<times> jent_world \<times> rand_data option option) option" where
  "jent_read_entropy_safe w ec data len =
     (if ec = None \<or> data = None \<and> len > 0 then Some (-1, data, w, ec)
      else
        let len = (if len > ssize_max then ssize_max else len);
            orig_len = len
        in do {
          (r, data, w, ec) \<leftarrow> read_safe_loop w (the ec) data 0 len;
          Some (case r of Inl ret \<Rightarrow> ret | Inr _ \<Rightarrow> int (unat orig_len), data, w, Some ec)
        })"

end
