(* ===== verification/Read_Proofs.thy ===== *)
theory Read_Proofs
  imports Read
begin

unbundle bit_operations_syntax

text \<open>
  What a read delivers. \<open>deliver\<close> is the specification: the outputs of the conditioner, block by
  block, without a buffer; \<open>read_loop\<close> refines it, and \<open>jent_read_entropy\<close> and its recovering variant
  are related to it, to the ownership of the heap (theory \<open>Ownership\<close>) and to the invariant of the
  collector (theory \<open>Lifecycle_Proofs\<close>).
\<close>

section \<open>The output of a block\<close>

lemma fold_le64_length:
  "8 * n \<le> length d \<Longrightarrow> length (foldl (\<lambda>d i. le64_to_ptr d (8 * i) (f i)) d [0..<n]) = length d"
  by (induction n) (simp_all add: le64_to_ptr_def le32_to_ptr_def)

lemma transform_digestsize [simp]: "sha_digestsize (sha3_transform ctx b) = sha_digestsize ctx"
  by (simp add: sha3_transform_def jent_sha3_fill_state_def Let_def)

lemma sha3_final_length:
  assumes "8 * (unat (sha_digestsize ctx) div 8) \<le> length d"
  shows "length (fst (jent_sha3_final ctx d)) = length d"
  unfolding jent_sha3_final_def Let_def prod.sel
  by (rule fold_le64_length) (use assms in simp)

lemma set_digestsize [simp]:
  "unat (sha_digestsize (jent_shake256_set_digestsize c 64)) = 64"
  "unat (sha_digestsize (jent_shake256_set_digestsize c 96)) = 96"
  by (simp_all add: jent_shake256_set_digestsize_def)

definition drbg_output :: "jent_sha_ctx \<Rightarrow> u8 list" where
  "drbg_output ctx = fst (jent_drbg_generate_block ctx (replicate 32 0) 0 32)"

definition drbg_next :: "jent_sha_ctx \<Rightarrow> jent_sha_ctx" where
  "drbg_next ctx = snd (jent_drbg_generate_block ctx (replicate 32 0) 0 32)"

lemma drbg_generate_block_eq:
  "length (drbg_output ctx) = 32"
  "n \<le> 32 \<Longrightarrow> jent_drbg_generate_block ctx dst off n =
     (if n = 0 then dst else memcpy_at dst off (take n (drbg_output ctx)), drbg_next ctx)"
proof -
  let ?c0 = "jent_shake256_set_digestsize (jent_sha3_update (ctx\<lparr>sha_initially_seeded := True\<rparr>)
    [JENT_XDRBG_DRNG_ENCODE_N (of_bool (sha_initially_seeded ctx))]) (of_nat 64)"
  obtain n1 c1 where f1: "jent_sha3_final ?c0 (replicate 96 0) = (n1, c1)" by fastforce
  let ?c2 = "jent_shake256_set_digestsize (jent_sha3_update (jent_sha3_update c1 (take 64 n1))
    [JENT_XDRBG_DRNG_ENCODE_N 2]) (of_nat 96)"
  obtain n2 c3 where f2: "jent_sha3_final ?c2 n1 = (n2, c3)" by fastforce
  have "length n1 = 96" using sha3_final_length [of ?c0 "replicate 96 0"] f1 by simp
  then have l: "length n2 = 96" using sha3_final_length [of ?c2 n1] f2 by simp
  have g: "jent_drbg_generate_block ctx dst off n = (if n = 0 then dst
      else memcpy_at dst off (take (if n > 32 then 32 else n) (drop 64 n2)),
      jent_sha3_update c3 (take 64 n2))" for dst off n
    using f1 f2 by (simp add: jent_drbg_generate_block_def jent_xdrbg256_generate_block_def Let_def)
  have o: "drbg_output ctx = drop 64 n2" "drbg_next ctx = jent_sha3_update c3 (take 64 n2)"
    using l by (simp_all add: drbg_output_def drbg_next_def g)
  then show "length (drbg_output ctx) = 32" using l by simp
  show "jent_drbg_generate_block ctx dst off n =
     (if n = 0 then dst else memcpy_at dst off (take n (drbg_output ctx)), drbg_next ctx)" if "n \<le> 32"
    using that by (simp add: g o)
qed


lemma read_random_block_eq:
  "n \<le> 32 \<Longrightarrow> jent_read_random_block ec dst off n = map_option (\<lambda>c.
     (if n = 0 then dst else memcpy_at dst off (take n (drbg_output c)),
      ec\<lparr>ec_hash_state := Some (drbg_next c)\<rparr>)) (ec_hash_state ec)"
  by (cases "ec_hash_state ec") (simp_all add: jent_read_random_block_def drbg_generate_block_eq(2))

section \<open>Delivery without a buffer\<close>

text \<open>
  The specification of a read: \<open>n\<close> blocks are collected, each after its health check, and their
  outputs are the bytes to deliver; a failure ends the delivery with the error and the bytes so far.
\<close>

primrec deliver ::
  "nat \<Rightarrow> jent_world \<Rightarrow> rand_data \<Rightarrow> (int \<times> u8 list \<times> jent_world \<times> rand_data) option" where
  "deliver 0 w ec = Some (0, [], w, ec)"
| "deliver (Suc n) w ec = do {
     (w, ec) \<leftarrow> jent_random_data w ec;
     let (failure, w) = jent_health_failure w ec;
     if failure \<noteq> 0 then Some (read_error failure, [], w, ec)
     else do {
       c \<leftarrow> ec_hash_state ec;
       (r, bs, w, ec) \<leftarrow> deliver n w (ec\<lparr>ec_hash_state := Some (drbg_next c)\<rparr>);
       Some (r, drbg_output c @ bs, w, ec)
     }
   }"

abbreviation blocks_of :: "nat \<Rightarrow> nat" where
  "blocks_of len \<equiv> (len + 31) div 32"

lemma blocks_of_step: "0 < len \<Longrightarrow> blocks_of len = Suc (blocks_of (len - min 32 len))"
proof (cases "len \<le> 32")
  case True
  assume "0 < len"
  with True have "blocks_of len = 1" by (intro div_nat_eqI) simp_all
  with True show ?thesis by simp
next
  case False
  then have "len + 31 = 32 + (len - 32 + 31)" by simp
  then have "blocks_of len = Suc (blocks_of (len - 32))"
    using div_add_self1 [of 32 "len - 32 + 31"] by simp
  with False show ?thesis by simp
qed

lemma deliver_length:
  "deliver n w ec = Some (r, bs, w', ec') \<Longrightarrow> length bs \<le> 32 * n \<and> (r = 0 \<longrightarrow> length bs = 32 * n)"
proof (induction n arbitrary: w ec bs)
  case (Suc n)
  then show ?case
    by (auto simp: drbg_generate_block_eq(1) read_error_def split: if_splits prod.splits elim!: bind_SomeE)
qed simp

lemma memcpy_at_append:
  "off + length a + length b \<le> length buf \<Longrightarrow>
     memcpy_at (memcpy_at buf off a) (off + length a) b = memcpy_at buf off (a @ b)"
  by (simp add: memcpy_at_def ac_simps)

lemma read_loop_deliver:
  "read_loop w ec data p len = map_option
     (\<lambda>(r, bs, w, ec). (r, memcpy_at data p (take len bs), w, ec)) (deliver (blocks_of len) w ec)"
  if "p + len \<le> length data"
  using that
proof (induction len arbitrary: w ec data p rule: less_induct)
  case (less len)
  show ?case
  proof (cases "0 < len")
    case True
    define k where "k = min 32 len"
    have k: "(if unat DATA_SIZE_BITS div 8 < len then unat DATA_SIZE_BITS div 8 else len) = k"
      by (simp add: k_def min_def)
    have kl: "k \<le> 32" "0 < k" "k \<le> len" using True by (simp_all add: k_def)
    have b: "blocks_of len = Suc (blocks_of (len - k))"
      unfolding k_def by (rule blocks_of_step [OF True])
    show ?thesis
    proof (cases "jent_random_data w ec")
      case None
      with True show ?thesis unfolding b by (simp add: read_loop.simps [of w])
    next
      case (Some x)
      obtain w1 e1 where d: "jent_random_data w ec = Some (w1, e1)" using Some by (cases x) simp
      obtain f w2 where f: "jent_health_failure w1 e1 = (f, w2)" by fastforce
      show ?thesis
      proof (cases "f = 0 \<and> ec_hash_state e1 \<noteq> None")
        case True
        then obtain c where c: "f = 0" "ec_hash_state e1 = Some c" by blast
        let ?e = "e1\<lparr>ec_hash_state := Some (drbg_next c)\<rparr>"
        let ?d = "memcpy_at data p (take k (drbg_output c))"
        have ld: "length ?d = length data"
          using less(2) kl by (simp add: drbg_generate_block_eq(1))
        have ih: "read_loop w2 ?e ?d (p + k) (len - k) = map_option
           (\<lambda>(r, bs, w, ec). (r, memcpy_at ?d (p + k) (take (len - k) bs), w, ec))
           (deliver (blocks_of (len - k)) w2 ?e)"
          using less(2) kl ld by (intro less.IH) simp_all
        have app: "memcpy_at ?d (p + k) (take (len - k) bs) =
            memcpy_at data p (take len (drbg_output c @ bs))" for bs
        proof -
          have l: "length (take k (drbg_output c)) = k"
            using kl by (simp add: drbg_generate_block_eq(1))
          have "take len (drbg_output c @ bs) = take k (drbg_output c) @ take (len - k) bs"
            by (simp add: k_def drbg_generate_block_eq(1) min_def)
          then show ?thesis
            using memcpy_at_append [of p "take k (drbg_output c)" "take (len - k) bs" data] less(2) kl
            unfolding l by simp
        qed
        have s: "read_loop w ec data p len = read_loop w2 ?e ?d (p + k) (len - k)"
          using \<open>0 < len\<close> d f c
          by (subst read_loop.simps) (simp add: read_random_block_eq k_def min_def)
        have "deliver (Suc m) w ec = map_option (\<lambda>(r, bs, w, ec). (r, drbg_output c @ bs, w, ec))
            (deliver m w2 ?e)" for m
          using d f c by (cases "deliver m w2 ?e") auto
        then show ?thesis
          unfolding s ih b
          by (cases "deliver (blocks_of (len - k)) w2 ?e") (auto simp: app simp del: take_append)
      next
        case False
        with \<open>0 < len\<close> d f kl show ?thesis
          unfolding b by (subst read_loop.simps) (auto simp: k read_random_block_eq)
      qed
    qed
  next
    case False
    then show ?thesis by (simp add: read_loop.simps [of w])
  qed
qed


section \<open>What a delivery leaves alone\<close>

definition intermittent :: "int set" where
  "intermittent = {-2, -3, -5, -9}"

definition permanent :: "int set" where
  "permanent = {-6, -7, -8, -10}"

lemma read_error_code: "read_error f \<in> intermittent \<union> permanent"
  by (simp add: read_error_def intermittent_def permanent_def)

lemma health_failure_shape:
  assumes "jent_health_failure w ec = (f, w')"
  shows "world_erase w' = world_erase w"
  by (rule world_kept.failure_keeps [OF assms refl])

lemma collector_ok_hash: "collector_ok ec \<Longrightarrow> collector_ok (ec\<lparr>ec_hash_state := Some c\<rparr>)"
  by (auto simp: collector_ok_def collector_shape_def mem_shape_def health_cutoffs_ok_def apt_cutoffs_ok_def)

lemma setup_hash [simp]: "collector_setup (ec\<lparr>ec_hash_state := x\<rparr>) = collector_setup ec"
  by (simp add: collector_setup_def)

lemma collector_blocks_hash:
  "ec_hash_state ec \<noteq> None \<Longrightarrow> collector_blocks (ec\<lparr>ec_hash_state := Some c\<rparr>) = collector_blocks ec"
  by (rule collector_blocks_cong [OF refl]) simp_all

lemma blocks_hash: "ec_hash_state ec \<noteq> None \<longleftrightarrow> Blk_sha_ctx \<in># collector_blocks ec"
  by (simp add: collector_blocks_def)

lemma deliver_frame:
  "deliver n w ec = Some (r, bs, w', ec') \<Longrightarrow>
     r \<in> insert 0 (intermittent \<union> permanent) \<and> allocates w w' {#} \<and>
     collector_blocks ec' = collector_blocks ec \<and> collector_setup ec' = collector_setup ec \<and>
     (collector_ok ec \<longrightarrow> collector_ok ec') \<and> (ec_hash_state ec \<noteq> None \<longrightarrow> ec_hash_state ec' \<noteq> None)"
proof (induction n arbitrary: w ec bs)
  case 0
  then show ?case by (simp add: allocates_refl)
next
  case (Suc n)
  from Suc.prems obtain w1 e1 where d: "jent_random_data w ec = Some (w1, e1)"
    by (auto elim!: bind_SomeE)
  obtain f w2 where f: "jent_health_failure w1 e1 = (f, w2)" by fastforce
  have a: "allocates w w2 {#}"
    using allocates_then random_data_frame [OF d] health_failure_frame [OF f] by blast
  have s: "collector_setup e1 = collector_setup ec"
    by (rule setup_kept.keepsD [OF setup_kept.random_data_keeps d refl])
  have o: "collector_ok ec \<longrightarrow> collector_ok e1" using random_data_ok [OF d] by blast
  have b: "collector_blocks e1 = collector_blocks ec" using random_data_frame [OF d] by simp
  have h: "ec_hash_state ec \<noteq> None \<longrightarrow> ec_hash_state e1 \<noteq> None" using b blocks_hash by metis
  show ?case
  proof (cases "f = 0")
    case True
    with Suc.prems d f obtain c bs' where c: "ec_hash_state e1 = Some c"
      "deliver n w2 (e1\<lparr>ec_hash_state := Some (drbg_next c)\<rparr>) = Some (r, bs', w', ec')"
      by (auto elim!: bind_SomeE)
    from Suc.IH [OF c(2)] c(1) a s o b show ?thesis
      by (auto simp: collector_ok_hash collector_blocks_hash intro: allocates_then)
  next
    case False
    with Suc.prems d f a s o b h read_error_code [of f] show ?thesis by auto
  qed
qed


section \<open>Reading\<close>

text \<open>The number of bytes of a request, which the code limits to \<open>ssize_max\<close>.\<close>

definition request :: "u64 \<Rightarrow> nat" where
  "request len = unat (min len ssize_max)"

lemma request_bounds: "request len \<le> unat len" "request len < 2 ^ 63"
  by (auto simp: request_def min_def word_le_nat_alt)

lemma clamp_request: "unat (if len > ssize_max then ssize_max else len) = request len"
  by (auto simp: request_def min_def word_less_nat_alt word_le_nat_alt)

text \<open>The collector after a read, from the state in which the delivery left it.\<close>

definition counted :: "nat \<Rightarrow> rand_data \<Rightarrow> rand_data" where
  "counted n ec = ec\<lparr>ec_read_invocations := ec_read_invocations ec + 1,
     ec_bytes_output := ec_bytes_output ec + of_nat n\<rparr>"

lemma read_entropy_started:
  assumes r: "jent_read_entropy w (Some ec) (Some buf) len = Some (ret, data', w', x)"
    and n: "unat len \<le> length buf" and s: "jent_notime_settick w ec = (0, w1, e1)"
  obtains r bs w2 e2 e3 e4 where "deliver (blocks_of (request len)) w1 e1 = Some (r, bs, w2, e2)"
    "e3 = e2 \<or> (\<exists>c. ec_hash_state e2 \<noteq> None \<and> e3 = e2\<lparr>ec_hash_state := Some c\<rparr>)"
    "jent_notime_unsettick w2 e3 = (w', e4)" "ret = (if r \<noteq> 0 then r else int (request len))"
    "data' = Some (memcpy_at buf 0 (take (request len) bs))"
    "x = Some (if r = 0 then counted (request len) e4 else e4)"
proof -
  let ?l = "if len > ssize_max then ssize_max else len"
  have l: "0 + unat ?l \<le> length buf" using n by (auto simp: word_less_nat_alt)
  from r s obtain r bs w2 e2 d3 e3 where
    d: "deliver (blocks_of (unat ?l)) w1 e1 = Some (r, bs, w2, e2)" and
    e3: "(if r = 0 \<and> \<not> w_secure_memory w2 then jent_read_random_block e2 [] 0 0
      else Some ([], e2)) = Some (d3, e3)" and
    e: "(let (w, ec) = jent_notime_unsettick w2 e3;
         ec = (if r = 0 then ec\<lparr>ec_read_invocations := ec_read_invocations ec + 1,
                 ec_bytes_output := ec_bytes_output ec + ?l\<rparr> else ec)
      in (if r \<noteq> 0 then r else int (unat ?l), Some (memcpy_at buf 0 (take (unat ?l) bs)), w, Some ec)) =
      (ret, data', w', x)"
    unfolding jent_read_entropy_def
    by (auto simp: Let_def read_loop_deliver [OF l] split: prod.splits elim!: bind_SomeE)
  obtain w4 e4 where u: "jent_notime_unsettick w2 e3 = (w4, e4)" by fastforce
  have o: "of_nat (request len) = ?l" by (simp flip: clamp_request)
  have e3': "e3 = e2 \<or> (\<exists>c. ec_hash_state e2 \<noteq> None \<and> e3 = e2\<lparr>ec_hash_state := Some c\<rparr>)"
    using e3 by (auto simp: read_random_block_eq split: if_splits)
  note E = e [unfolded u clamp_request Let_def prod.case]
  show ?thesis
    by (rule that [OF d [unfolded clamp_request] e3' u [THEN trans]])
      (use E o in \<open>auto simp: counted_def\<close>)
qed


lemma blocks_of_enough: "len \<le> 32 * blocks_of len"
  using div_mult_mod_eq [of "len + 31" 32] mod_less_divisor [of 32 "len + 31"] by linarith

lemma settick_setup:
  assumes "jent_notime_settick w ec = (r, w', ec')"
  shows "ec_read_invocations ec' = ec_read_invocations ec \<and> ec_bytes_output ec' = ec_bytes_output ec"
  using settick_frame [OF assms] by (auto simp: timer_only_def)

lemma unsettick_setup:
  assumes "jent_notime_unsettick w ec = (w', ec')"
  shows "ec_read_invocations ec' = ec_read_invocations ec \<and> ec_bytes_output ec' = ec_bytes_output ec"
  using unsettick_frame [OF assms] by (auto simp: timer_only_def)

lemma read_entropy_not_started:
  assumes "jent_read_entropy w (Some ec) (Some buf) len = Some (ret, data', w', x)"
    "jent_notime_settick w ec = (r, w1, e1)" "r \<noteq> 0"
  shows "ret = -4 \<and> data' = Some buf \<and> w' = w1 \<and> x = Some e1"
  using assms by (auto simp: jent_read_entropy_def Let_def)

text \<open>The bytes before and after those of a delivery.\<close>

lemma memcpy_front:
  "length a \<le> n \<Longrightarrow> n \<le> length buf \<Longrightarrow>
     length (memcpy_at buf 0 a) = length buf \<and> drop n (memcpy_at buf 0 a) = drop n buf \<and>
     take (length a) (memcpy_at buf 0 a) = a"
  by (simp add: memcpy_at_def)

lemma read_entropy_bytes:
  assumes "jent_read_entropy w (Some ec) (Some buf) len = Some (ret, data', w', Some ec')"
    and "unat len \<le> length buf"
  shows "(\<exists>buf'. data' = Some buf' \<and> length buf' = length buf \<and>
       drop (unat len) buf' = drop (unat len) buf \<and>
       (ret \<ge> 0 \<longrightarrow> ret = int (request len) \<and> (\<exists>w1 e1 bs w2 e2.
         jent_notime_settick w ec = (0, w1, e1) \<and>
         deliver (blocks_of (request len)) w1 e1 = Some (0, bs, w2, e2) \<and>
         request len \<le> length bs \<and> take (request len) buf' = take (request len) bs))) \<and>
     (if ret \<ge> 0 then ec_read_invocations ec' = ec_read_invocations ec + 1 \<and>
        ec_bytes_output ec' = ec_bytes_output ec + of_nat (request len)
      else ret \<in> {-4} \<union> intermittent \<union> permanent \<and>
        ec_read_invocations ec' = ec_read_invocations ec \<and> ec_bytes_output ec' = ec_bytes_output ec)"
proof -
  obtain r0 w1 e1 where s: "jent_notime_settick w ec = (r0, w1, e1)" by (metis prod_cases3)
  show ?thesis
  proof (cases "r0 = 0")
    case False
    with read_entropy_not_started [OF assms(1) s] settick_setup [OF s] show ?thesis by simp
  next
    case True
    with s have s0: "jent_notime_settick w ec = (0, w1, e1)" by simp
    let ?n = "request len"
    from read_entropy_started [OF assms s0] obtain r bs w2 e2 e3 e4 where
      d: "deliver (blocks_of ?n) w1 e1 = Some (r, bs, w2, e2)" and
      e3: "e3 = e2 \<or> (\<exists>c. ec_hash_state e2 \<noteq> None \<and> e3 = e2\<lparr>ec_hash_state := Some c\<rparr>)" and
      u: "jent_notime_unsettick w2 e3 = (w', e4)" and ret: "ret = (if r \<noteq> 0 then r else int ?n)" and
      data: "data' = Some (memcpy_at buf 0 (take ?n bs))" and
      x: "Some ec' = Some (if r = 0 then counted ?n e4 else e4)" .
    note f = deliver_frame [OF d]
    have c: "ec_read_invocations e4 = ec_read_invocations ec" "ec_bytes_output e4 = ec_bytes_output ec"
      using unsettick_setup [OF u] settick_setup [OF s0] f e3 by (auto simp: collector_setup_def)
    let ?b = "memcpy_at buf 0 (take ?n bs)"
    have b: "length ?b = length buf \<and> drop (unat len) ?b = drop (unat len) buf \<and>
        take (length (take ?n bs)) ?b = take ?n bs"
      by (rule memcpy_front) (use request_bounds(1) [of len] assms(2) in auto)
    show ?thesis
    proof (cases "r = 0")
      case True
      have l: "?n \<le> length bs"
        using deliver_length [OF d] blocks_of_enough [of ?n] True by simp
      then have "length (take ?n bs) = ?n" by simp
      with b have "take ?n ?b = take ?n bs" by (simp only:)
      moreover have "deliver (blocks_of ?n) w1 e1 = Some (0, bs, w2, e2)" using d True by simp
      ultimately have "\<exists>w1 e1 bs w2 e2. jent_notime_settick w ec = (0, w1, e1) \<and>
          deliver (blocks_of ?n) w1 e1 = Some (0, bs, w2, e2) \<and> ?n \<le> length bs \<and>
          take ?n ?b = take ?n bs"
        using s0 l by blast
      moreover have "ret = int ?n" "ec' = counted ?n e4" using ret x True by simp_all
      ultimately show ?thesis using b c by (simp add: data counted_def)
    next
      case False
      then have "ret = r" "ec' = e4" "r < 0" "r \<in> {-4} \<union> intermittent \<union> permanent"
        using ret x f by (auto simp: intermittent_def permanent_def)
      with b c show ?thesis by (simp add: data)
    qed
  qed
qed


text \<open>
  What a read leaves of the collector and the world: it obtains no block and gives none back, and a
  well-formed collector stays well-formed with its configuration.
\<close>

lemma timer_only_setup:
  "timer_only ec ec' \<Longrightarrow> ec_osr ec' = ec_osr ec \<and> ec_flags ec' = ec_flags ec \<and>
     ec_is_fips_enabled ec' = ec_is_fips_enabled ec \<and> ec_max_mem_set ec' = ec_max_mem_set ec \<and>
     ec_uuid ec' = ec_uuid ec \<and> ec_reinit_count ec' = ec_reinit_count ec"
  by (auto simp: timer_only_def)

lemma counted_blocks [simp]:
  "collector_blocks (counted n ec) = collector_blocks ec" "collector_ok (counted n ec) = collector_ok ec"
  "ec_osr (counted n ec) = ec_osr ec" "ec_uuid (counted n ec) = ec_uuid ec"
  by (simp_all add: counted_def)

lemma read_entropy_frame:
  assumes r: "jent_read_entropy w (Some ec) (Some buf) len = Some (ret, data', w', x)"
    and n: "unat len \<le> length buf"
  obtains ec' buf' where "x = Some ec'" "data' = Some buf'" "length buf' = length buf"
    "allocates w w' {#}" "collector_blocks ec' = collector_blocks ec"
    "collector_ok ec \<longrightarrow> collector_ok ec'" "ec_osr ec' = ec_osr ec" "ec_uuid ec' = ec_uuid ec"
    "ret \<in> {int (request len), -4} \<union> intermittent \<union> permanent"
proof -
  obtain r0 w1 e1 where s: "jent_notime_settick w ec = (r0, w1, e1)" by (metis prod_cases3)
  note fs = settick_frame [OF s]
  show ?thesis
  proof (cases "r0 = 0")
    case False
    from read_entropy_not_started [OF r s False] fs timer_only_blocks timer_only_setup
      timer_only_ok show ?thesis by (intro that [of e1 buf]) auto
  next
    case True
    with s have s0: "jent_notime_settick w ec = (0, w1, e1)" by simp
    let ?n = "request len"
    from read_entropy_started [OF r n s0] obtain r bs w2 e2 e3 e4 where
      d: "deliver (blocks_of ?n) w1 e1 = Some (r, bs, w2, e2)" and
      e3: "e3 = e2 \<or> (\<exists>c. ec_hash_state e2 \<noteq> None \<and> e3 = e2\<lparr>ec_hash_state := Some c\<rparr>)" and
      u: "jent_notime_unsettick w2 e3 = (w', e4)" and ret: "ret = (if r \<noteq> 0 then r else int ?n)" and
      data: "data' = Some (memcpy_at buf 0 (take ?n bs))" and
      x: "x = Some (if r = 0 then counted ?n e4 else e4)" .
    note f = deliver_frame [OF d] and fu = unsettick_frame [OF u]
    have a: "allocates w w' {#}" using fs f fu allocates_then by blast
    have b: "collector_blocks e3 = collector_blocks e2" "collector_setup e3 = collector_setup e2"
      "collector_ok e2 \<longrightarrow> collector_ok e3"
      using e3 by (auto simp: collector_blocks_hash collector_ok_hash)
    have "collector_blocks e4 = collector_blocks ec"
      using b f fs fu timer_only_blocks by metis
    moreover have "collector_ok ec \<longrightarrow> collector_ok e4"
      using settick_ok [OF s] f b unsettick_ok [OF u] by blast
    moreover have "ec_osr e4 = ec_osr ec \<and> ec_uuid e4 = ec_uuid ec"
      using timer_only_setup [OF conjunct2 [OF fs]] timer_only_setup [OF conjunct2 [OF fu]] f b
      by (simp add: collector_setup_def)
    moreover have "length (memcpy_at buf 0 (take ?n bs)) = length buf"
      by (rule length_memcpy_at) (use request_bounds(1) [of len] n in auto)
    ultimately show ?thesis
      using x data a ret f by (intro that [of "if r = 0 then counted ?n e4 else e4"
        "memcpy_at buf 0 (take ?n bs)"]) auto
  qed
qed


section \<open>Reading with recovery\<close>

lemma request_small: "len \<le> ssize_max \<Longrightarrow> request len = unat len"
  by (simp add: request_def)

text \<open>What the loop of \<open>jent_read_entropy_safe\<close> makes of \<open>n\<close> bytes at the start of the buffer.\<close>

definition safe_result ::
  "jent_world \<Rightarrow> u8 list \<Rightarrow> nat \<Rightarrow> u32 \<Rightarrow>
     (int + unit) \<times> u8 list option \<times> jent_world \<times> rand_data option \<Rightarrow> bool" where
  "safe_result w0 buf n osr = (\<lambda>(r, data, w, ec). \<exists>buf' ec'.
     data = Some buf' \<and> ec = Some ec' \<and> length buf' = length buf \<and> drop n buf' = drop n buf \<and>
     holds_collector w0 w ec' \<and> collector_ok ec' \<and> osr \<le> ec_osr ec' \<and>
     (case r of
        Inl e \<Rightarrow> e \<in> {-4} \<union> intermittent \<union> permanent
      | Inr _ \<Rightarrow> n = 0 \<or> (\<exists>w1 e1 bs w2 e2. deliver (blocks_of n) w1 e1 = Some (0, bs, w2, e2) \<and>
          n \<le> length bs \<and> take n buf' = take n bs)))"

lemma alloc_startup_sound: "alloc_sound collector_alloc_startup"
  using alloc_startup_result by (auto simp: alloc_sound_def)

lemma safe_error:
  "length buf' = length buf \<Longrightarrow> drop n buf' = drop n buf \<Longrightarrow> holds_collector w0 w ec' \<Longrightarrow>
   collector_ok ec' \<Longrightarrow> osr \<le> ec_osr ec' \<Longrightarrow> e \<in> {-4} \<union> intermittent \<union> permanent \<Longrightarrow>
     safe_result w0 buf n osr (Inl e, Some buf', w, Some ec')"
  by (auto simp: safe_result_def)

lemma safe_success:
  "length buf' = length buf \<Longrightarrow> drop n buf' = drop n buf \<Longrightarrow> holds_collector w0 w ec' \<Longrightarrow>
   collector_ok ec' \<Longrightarrow> osr \<le> ec_osr ec' \<Longrightarrow>
   \<exists>w1 e1 bs w2 e2. deliver (blocks_of n) w1 e1 = Some (0, bs, w2, e2) \<and> n \<le> length bs \<and>
     take n buf' = take n bs \<Longrightarrow>
     safe_result w0 buf n osr (Inr (), Some buf', w, Some ec')"
  by (simp add: safe_result_def)

text \<open>A round of the loop with \<open>len\<close> bytes left, all of them at the start of the buffer.\<close>

lemma read_safe_step_result:
  assumes s: "read_safe_step w (Some ec) (Some buf) 0 len = Some s" and len: "len \<le> ssize_max"
    "0 < len" "unat len \<le> length buf" and h: "holds_collector w0 w ec" and ok: "collector_ok ec"
  shows "case s of
      Inl x \<Rightarrow> safe_result w0 buf (unat len) (ec_osr ec) x
    | Inr (w', ec', data, p, len') \<Rightarrow>
        p = 0 \<and> len' = len \<and> (\<exists>e buf'. ec' = Some e \<and> data = Some buf' \<and> length buf' = length buf \<and>
          drop (unat len) buf' = drop (unat len) buf \<and> holds_collector w0 w' e \<and> collector_ok e \<and>
          ec_osr ec \<le> ec_osr e) \<or>
        len' = 0 \<and> safe_result w0 buf (unat len) (ec_osr ec) (Inr (), data, w', ec')"
proof -
  from s len(2) obtain ret data' w1 x where
    r: "jent_read_entropy w (Some ec) (Some buf) len = Some (ret, data', w1, x)"
    by (auto simp: read_safe_step_def elim!: bind_SomeE)
  obtain e1 b1 where f: "x = Some e1" "data' = Some b1" "length b1 = length buf" "allocates w w1 {#}"
    "collector_blocks e1 = collector_blocks ec" "collector_ok ec \<longrightarrow> collector_ok e1"
    "ec_osr e1 = ec_osr ec" "ec_uuid e1 = ec_uuid ec"
    "ret \<in> {int (request len), -4} \<union> intermittent \<union> permanent"
    using read_entropy_frame [OF r len(3)] by metis
  note y = read_entropy_bytes [OF r [unfolded f(1)] len(3)]
  have d: "drop (unat len) b1 = drop (unat len) buf" using y f(2) by auto
  note h1 = holds_then [OF h f(4,5)]
  consider (good) "ret = int (unat len)" | (final) "ret \<in> {-4} \<union> permanent" | (again) "ret \<in> intermittent"
    using f(9) request_small [OF len(1)] by auto
  then show ?thesis
  proof cases
    case good
    have "0 \<le> ret" "nat ret = unat len" "of_int ret = len" using good by simp_all
    moreover from \<open>0 \<le> ret\<close> have "ret \<notin> {-1, -4, -6, -7, -8, -10}" "ret \<notin> {-2, -3, -5, -9}" by auto
    ultimately have "s = Inr (w1, Some e1, Some b1, unat len, 0)"
      using s r f(1,2) len(2) by (simp add: read_safe_step_def Let_def)
    moreover have "safe_result w0 buf (unat len) (ec_osr ec) (Inr (), Some b1, w1, Some e1)"
    proof (rule safe_success)
      show "\<exists>w1 e1 bs w2 e2. deliver (blocks_of (unat len)) w1 e1 = Some (0, bs, w2, e2) \<and>
          unat len \<le> length bs \<and> take (unat len) b1 = take (unat len) bs"
      proof -
        from y f(2) good request_small [OF len(1)] obtain w1 e1 bs w2 e2 where
          "deliver (blocks_of (unat len)) w1 e1 = Some (0, bs, w2, e2)" "unat len \<le> length bs"
          "take (unat len) b1 = take (unat len) bs" by auto
        then show ?thesis by blast
      qed
    qed (use f(3,6,7) d h1 ok in auto)
    ultimately show ?thesis by simp
  next
    case final
    then have "s = Inl (Inl ret, Some b1, w1, Some e1)"
      using s r f(1,2) len(2) by (auto simp: read_safe_step_def permanent_def Let_def)
    then show ?thesis
      using final f(3,6,7) d h1 ok by (auto intro!: safe_error)
  next
    case again
    with s r f(1,2) len(2) obtain rr w2 e2 where
      rs: "jent_health_failure_reset w1 e1 collector_alloc_startup = Some (rr, w2, e2)" and
      e: "s = (if rr \<noteq> 0 then Inl (Inl ret, Some b1, w2, Some e2) else Inr (w2, Some e2, Some b1, 0, len))"
      by (auto simp: read_safe_step_def intermittent_def Let_def elim!: bind_SomeE)
    note h2 = holds_reset [OF rs alloc_startup_loose h1]
    have o2: "collector_ok e2 \<and> ec_osr ec \<le> ec_osr e2"
    proof (cases "rr = 0")
      case True
      with rs have r0: "jent_health_failure_reset w1 e1 collector_alloc_startup = Some (0, w2, e2)" by simp
      have "collector_ok e1" using f(6) ok by blast
      from health_failure_reset_result [OF r0 alloc_startup_sound holds_matched [OF h1]
          collector_ok_osr [OF this]] f(7)
      show ?thesis by (simp add: less_imp_le)
    next
      case False
      with health_failure_reset_refused [OF rs] f(6,7) ok show ?thesis by simp
    qed
    show ?thesis
    proof (cases "rr = 0")
      case True
      with e o2 h2 f(3) d show ?thesis by simp
    next
      case False
      with e o2 h2 f(3) d again show ?thesis by (auto intro!: safe_error)
    qed
  qed
qed

lemma safe_result_mono:
  "safe_result w0 buf' n osr' x \<Longrightarrow> length buf' = length buf \<Longrightarrow> drop n buf' = drop n buf \<Longrightarrow>
     osr \<le> osr' \<Longrightarrow> safe_result w0 buf n osr x"
  by (auto simp: safe_result_def split: prod.splits intro: order_trans)

lemma read_safe_loop_result:
  assumes "read_safe_loop w (Some ec) (Some buf) 0 len = Some x" "0 < len" "len \<le> ssize_max"
    "unat len \<le> length buf" "holds_collector w0 w ec" "collector_ok ec"
  shows "safe_result w0 buf (unat len) (ec_osr ec) x"
proof -
  let ?Q = "\<lambda>w ec data (p :: nat) (len :: u64) (x :: safe_exit). \<forall>e buf. ec = Some e \<longrightarrow> data = Some buf \<longrightarrow> p = 0 \<longrightarrow> 0 < len \<longrightarrow>
    len \<le> ssize_max \<longrightarrow> unat len \<le> length buf \<longrightarrow> holds_collector w0 w e \<longrightarrow> collector_ok e \<longrightarrow>
    safe_result w0 buf (unat len) (ec_osr e) x"
  let ?P = "\<lambda>w ec data (p :: nat) (len :: u64) (x :: safe_exit). (len = 0 \<longrightarrow> x = (Inr (), data, w, ec)) \<and> ?Q w ec data p len x"
  have "?P w (Some ec) (Some buf) 0 len x"
  proof (rule read_safe_loop.raw_induct [where P = ?P, OF _ assms(1)])
    fix loop :: "jent_world \<Rightarrow> rand_data option \<Rightarrow> u8 list option \<Rightarrow> nat \<Rightarrow> u64 \<Rightarrow> safe_exit option"
      and w ec data p len x
    assume IH: "\<And>w ec data p len x. loop w ec data p len = Some x \<Longrightarrow> ?P w ec data p len x"
      and r: "Option.bind (read_safe_step w ec data p len) (\<lambda>s. case s of Inl x \<Rightarrow> Some x
        | Inr (w, ec, data, p, len) \<Rightarrow> loop w ec data p len) = Some x"
    from r obtain s where s: "read_safe_step w ec data p len = Some s" and
      x: "(case s of Inl x \<Rightarrow> Some x | Inr (w, ec, data, p, len) \<Rightarrow> loop w ec data p len) = Some x"
      by (auto elim!: bind_SomeE)
    have "x = (Inr (), data, w, ec)" if "len = 0"
      using s x that by (auto simp: read_safe_step_def)
    moreover have "?Q w ec data p len x"
    proof (intro allI impI)
      fix e buf
      assume a: "ec = Some e" "data = Some buf" "p = 0" "0 < len" "len \<le> ssize_max"
        "unat len \<le> length buf" "holds_collector w0 w e" "collector_ok e"
      note st = read_safe_step_result [OF s [unfolded a(1-3)] a(5,4,6-8)]
      show "safe_result w0 buf (unat len) (ec_osr e) x"
      proof (cases s)
        case (Inl y)
        with x st show ?thesis by simp
      next
        case (Inr y)
        obtain w' ec' data' p' len' where y: "s = Inr (w', ec', data', p', len')"
          using Inr by (cases y) simp
        from IH [of w' ec' data' p' len' x] x y have
          ih: "?P w' ec' data' p' len' x" by simp
        from st y ih a(4-6) show ?thesis
          by (auto intro: safe_result_mono)
      qed
    qed
    ultimately show "?P w ec data p len x" by blast
  qed
  with assms show ?thesis by simp
qed

text \<open>A delivery returns for a collector of the FIPS mode that uses the hardware time stamp.\<close>

definition serving :: "rand_data \<Rightarrow> bool" where
  "serving ec \<longleftrightarrow> ready ec \<and> ec_is_fips_enabled ec \<and> ec_startup_state ec = jent_startup_completed"

lemma ready_hash: "ready ec \<Longrightarrow> ready (ec\<lparr>ec_hash_state := Some c\<rparr>)"
  unfolding ready_def mem_shape_def by auto

lemma deliver_returns:
  "serving ec \<Longrightarrow> \<exists>r bs w' ec'. deliver n w ec = Some (r, bs, w', ec') \<and> serving ec'"
proof (induction n arbitrary: w ec)
  case 0
  then show ?case by simp
next
  case (Suc n)
  obtain w1 e1 where d: "jent_random_data w ec = Some (w1, e1)" "same_setup ec e1"
    using random_data_returns [of ec w] Suc.prems by (auto simp: serving_def returns_def)
  then have s: "serving e1"
    using Suc.prems test_configD [of e1 ec] by (auto simp: serving_def same_setup_def)
  then obtain c where c: "ec_hash_state e1 = Some c" by (auto simp: serving_def ready_def)
  obtain f w2 where f: "jent_health_failure w1 e1 = (f, w2)" by fastforce
  have "serving (e1\<lparr>ec_hash_state := Some (drbg_next c)\<rparr>)"
    using s by (simp add: serving_def ready_hash)
  from Suc.IH [OF this, of w2] obtain r bs w' ec' where
    "deliver n w2 (e1\<lparr>ec_hash_state := Some (drbg_next c)\<rparr>) = Some (r, bs, w', ec')" "serving ec'"
    by blast
  with d f c s show ?case by (cases "f = 0") auto
qed

lemma settick_hw: "\<not> ec_enable_notime ec \<Longrightarrow> jent_notime_settick w ec = (0, w, ec)"
  by (simp add: jent_notime_settick_def)

lemma read_entropy_returns:
  assumes "serving ec" "unat len \<le> length buf"
  shows "\<exists>ret data' w' ec'. jent_read_entropy w (Some ec) (Some buf) len =
    Some (ret, data', w', Some ec') \<and> serving ec'"
proof -
  let ?l = "if len > ssize_max then ssize_max else len"
  have l: "0 + unat ?l \<le> length buf" using assms(2) by (auto simp: word_less_nat_alt)
  have t: "jent_notime_settick w ec = (0, w, ec)"
    using assms(1) by (simp add: settick_hw serving_def ready_def)
  obtain r bs w2 e2 where d: "deliver (blocks_of (unat ?l)) w ec = Some (r, bs, w2, e2)" "serving e2"
    using deliver_returns [OF assms(1)] by blast
  then obtain c where c: "ec_hash_state e2 = Some c" by (auto simp: serving_def ready_def)
  let ?e3 = "if r = 0 \<and> \<not> w_secure_memory w2 then e2\<lparr>ec_hash_state := Some (drbg_next c)\<rparr> else e2"
  have e3: "serving ?e3" using d(2) by (simp add: serving_def ready_hash)
  then have u: "jent_notime_unsettick w2 ?e3 = (w2, ?e3)"
    by (auto simp: jent_notime_unsettick_def serving_def ready_def)
  have n: "serving (e\<lparr>ec_read_invocations := i, ec_bytes_output := b\<rparr>) = serving e" for e i b
    unfolding serving_def ready_def mem_shape_def by simp
  have "jent_read_entropy w (Some ec) (Some buf) len =
      Some (if r \<noteq> 0 then r else int (unat ?l), Some (memcpy_at buf 0 (take (unat ?l) bs)), w2,
        Some (if r = 0 then ?e3\<lparr>ec_read_invocations := ec_read_invocations ?e3 + 1,
           ec_bytes_output := ec_bytes_output ?e3 + ?l\<rparr> else ?e3))"
    unfolding jent_read_entropy_def
    by (cases "r = 0"; cases "w_secure_memory w2")
      (use t d(1) c u in \<open>simp_all add: Let_def read_loop_deliver [OF l] read_random_block_eq\<close>)
  with e3 n show ?thesis by (cases "r = 0") simp_all
qed


lemma read_safe_result:
  assumes "jent_read_entropy_safe w (Some (Some ec)) (Some buf) len = Some (ret, data', w', x)"
    "unat len \<le> length buf" "holds_collector w0 w ec" "collector_ok ec"
  shows "\<exists>buf' ec'. data' = Some buf' \<and> x = Some (Some ec') \<and> length buf' = length buf \<and>
    drop (request len) buf' = drop (request len) buf \<and> holds_collector w0 w' ec' \<and>
    collector_ok ec' \<and> ec_osr ec \<le> ec_osr ec' \<and>
    (ret = int (request len) \<and> (len = 0 \<or> (\<exists>w1 e1 bs w2 e2.
         deliver (blocks_of (request len)) w1 e1 = Some (0, bs, w2, e2) \<and> request len \<le> length bs \<and>
         take (request len) buf' = take (request len) bs)) \<or>
     ret \<in> {-4} \<union> intermittent \<union> permanent)"
proof -
  let ?l = "if len > ssize_max then ssize_max else len"
  from assms(1) obtain r x' where
    l: "read_safe_loop w (Some ec) (Some buf) 0 ?l = Some (r, data', w', x')" and
    e: "ret = (case r of Inl ret \<Rightarrow> ret | Inr _ \<Rightarrow> int (unat ?l))" "x = Some x'"
    unfolding jent_read_entropy_safe_def Let_def by (auto elim!: bind_SomeE)
  show ?thesis
  proof (cases "len = 0")
    case True
    with l have "r = Inr () \<and> data' = Some buf \<and> w' = w \<and> x' = Some ec"
      by (subst (asm) read_safe_loop.simps) (simp add: read_safe_step_def)
    with True e assms(3,4) show ?thesis by (simp add: request_def)
  next
    case False
    have b: "0 < ?l" "?l \<le> ssize_max" "unat ?l \<le> length buf"
      using False assms(2) by (auto simp: word_less_nat_alt word_le_nat_alt unat_gt_0)
    have n: "request len \<noteq> 0" using b(1) by (simp add: unat_gt_0 flip: clamp_request)
    from read_safe_loop_result [OF l b assms(3,4)] obtain buf' ec' where
      c: "data' = Some buf'" "x' = Some ec'" "length buf' = length buf"
      "drop (request len) buf' = drop (request len) buf" "holds_collector w0 w' ec'" "collector_ok ec'"
      "ec_osr ec \<le> ec_osr ec'" and
      r: "case r of Inl e \<Rightarrow> e \<in> {-4} \<union> intermittent \<union> permanent
        | Inr _ \<Rightarrow> request len = 0 \<or> (\<exists>w1 e1 bs w2 e2.
            deliver (blocks_of (request len)) w1 e1 = Some (0, bs, w2, e2) \<and>
            request len \<le> length bs \<and> take (request len) buf' = take (request len) bs)"
      unfolding clamp_request safe_result_def by auto
    show ?thesis
    proof (cases r)
      case (Inl i)
      with r c e show ?thesis by auto
    next
      case (Inr u)
      with r n have "\<exists>w1 e1 bs w2 e2. deliver (blocks_of (request len)) w1 e1 = Some (0, bs, w2, e2) \<and>
            request len \<le> length bs \<and> take (request len) buf' = take (request len) bs" by simp
      moreover have "ret = int (request len)" using e(1) Inr by (simp only: clamp_request sum.case)
      ultimately show ?thesis using c e(2) by blast
    qed
  qed
qed

text \<open>Bytes that one read of the library supplied: the output of the conditioner, in order.\<close>

definition supplied :: "u8 list \<Rightarrow> bool" where
  "supplied bytes \<longleftrightarrow> (\<exists>w1 e1 bs w2 e2.
     deliver (blocks_of (length bytes)) w1 e1 = Some (0, bs, w2, e2) \<and> bytes = take (length bytes) bs)"

section \<open>Properties\<close>



text \<open>
  C20. A read terminates: for every well-formed collector of the FIPS mode that has completed its
  startup and uses the hardware time stamp, every sequence of time stamps and every length,
  \<open>jent_read_entropy\<close> returns, and the collector can serve the next request.
\<close>

theorem read_entropy_terminates:
  assumes "serving ec" "unat len \<le> length buf"
  shows "\<exists>ret data' w' ec'. jent_read_entropy w (Some ec) (Some buf) len =
    Some (ret, data', w', Some ec') \<and> serving ec'"
  using read_entropy_returns [OF assms] .

theorem read_entropy_terminates_witness:
  "\<exists>ret data' w' ec'. jent_read_entropy test_world (Some (zalloc_rand_data
     \<lparr>ec_common_timer_gcd := 1, ec_hash_state := Some zalloc_sha_ctx, ec_is_fips_enabled := True,
      ec_osr := 3\<rparr>)) (Some (replicate 100 0)) 100 = Some (ret, data', w', Some ec')"
proof -
  have "serving (zalloc_rand_data \<lparr>ec_common_timer_gcd := 1, ec_hash_state := Some zalloc_sha_ctx,
      ec_is_fips_enabled := True, ec_osr := 3\<rparr>)"
    by (simp add: serving_def ready_def mem_shape_def zalloc_rand_data_def)
  from read_entropy_terminates [OF this, of 100 "replicate 100 0" test_world] show ?thesis by auto
qed



end
