(* ===== verification/Status.thy ===== *)
theory Status
  imports Config
begin

unbundle bit_operations_syntax

text \<open>
  The report of \<open>jitterentropy-status.c\<close>: a JSON text written by \<open>snprintf\<close> calls into a buffer of
  limited size, and the copy of the identifier. \<open>strlen\<close> is the position of the first zero byte.
  \<open>None\<close> is undefined behaviour.
\<close>

section \<open>Formatting\<close>

text \<open>A string constant as bytes, and \<open>snprintf\<close>'s conversions for unsigned and signed integers.\<close>

definition bytes_of :: "string \<Rightarrow> u8 list" where
  "bytes_of s = map (\<lambda>c. of_nat (of_char c)) s"

fun decimal :: "nat \<Rightarrow> u8 list" where
  "decimal n = (if n < 10 then [of_nat (0x30 + n)]
                else decimal (n div 10) @ [of_nat (0x30 + n mod 10)])"

declare decimal.simps [simp del]

definition decimal_int :: "int \<Rightarrow> u8 list" where
  "decimal_int i = (if i < 0 then 0x2d # decimal (nat (- i)) else decimal (nat i))"

definition bool_text :: "bool \<Rightarrow> u8 list" where
  "bool_text b = bytes_of (if b then ''true'' else ''false'')"

definition strlen :: "u8 list \<Rightarrow> nat" where
  "strlen buf = length (takeWhile (\<lambda>b. b \<noteq> 0) buf)"

text \<open>\<open>snprintf (buf + off, n, "%s", text)\<close> with \<open>n > 0\<close>: at most \<open>n - 1\<close> bytes and a zero byte.\<close>

definition snprintf :: "u8 list \<Rightarrow> nat \<Rightarrow> nat \<Rightarrow> u8 list \<Rightarrow> u8 list" where
  "snprintf buf off n text = memcpy_at buf off (take (n - 1) text @ [0])"

section \<open>The report\<close>

definition jent_add_to_status :: "nat \<Rightarrow> u8 list \<Rightarrow> u8 list \<Rightarrow> u8 list" where
  "jent_add_to_status buflen buf text =
     (let used = strlen buf in if used < buflen then snprintf buf used (buflen - used) text else buf)"

definition tabs :: "nat \<Rightarrow> u8 list" where
  "tabs n = replicate n 9"

text \<open>A line of the report: tabs, a quoted name, a colon, the value and the end of the line.\<close>

definition status_line :: "nat \<Rightarrow> string \<Rightarrow> u8 list \<Rightarrow> string \<Rightarrow> u8 list" where
  "status_line n name val eol =
     tabs n @ [0x22] @ bytes_of name @ [0x22] @ bytes_of '': '' @ val @ bytes_of eol @ [10]"

definition status_open :: "nat \<Rightarrow> string \<Rightarrow> u8 list" where
  "status_open n name = status_line n name (bytes_of ''{'') ''''"

definition status_close :: "nat \<Rightarrow> string \<Rightarrow> u8 list" where
  "status_close n eol = tabs n @ bytes_of ''}'' @ bytes_of eol"

text \<open>The two lines of a health test, whose masks are given.\<close>

definition status_test :: "rand_data \<Rightarrow> u32 \<Rightarrow> u32 \<Rightarrow> u8 list list" where
  "status_test ec intermittent permanent =
     [status_line 3 ''intermittent'' (bool_text (ec_health_failure ec AND intermittent \<noteq> 0)) '','',
      status_line 3 ''permanent'' (bool_text (ec_health_failure ec AND permanent \<noteq> 0)) '''']"

definition status_health :: "rand_data \<Rightarrow> u8 list list" where
  "status_health ec =
     [status_open 1 ''healthFailure'', status_open 2 ''apt'']
     @ status_test ec JENT_APT_FAILURE JENT_APT_FAILURE_PERMANENT
     @ [status_close 2 '','' @ [10], status_open 2 ''rct'']
     @ status_test ec JENT_RCT_FAILURE JENT_RCT_FAILURE_PERMANENT
     @ [status_close 2 '','' @ [10], status_open 2 ''rctMemory'']
     @ status_test ec JENT_RCT_MEM_FAILURE JENT_RCT_MEM_FAILURE_PERMANENT
     @ [status_close 2 '''', bytes_of '','' @ [10], status_open 2 ''lag'']
     @ status_test ec JENT_LAG_FAILURE JENT_LAG_FAILURE_PERMANENT
     @ [status_close 2 '''' @ [10], status_close 1 '','' @ [10]]"

definition status_environment :: "jent_world \<Rightarrow> u8 list list" where
  "status_environment w =
     [status_open 1 ''runtimeEnvironment'',
      status_line 2 ''cpuCores'' (decimal_int (w_ncpu w)) '','',
      status_open 2 ''cpuCache'',
      status_line 3 ''l1Bytes'' (decimal (unat (jent_cache_size_roundup False w))) '','',
      status_line 3 ''allBytes'' (decimal (unat (jent_cache_size_roundup True w))) '''',
      status_close 2 '''' @ [10], status_close 1 '','' @ [10]]"

text \<open>The memory size is the argument \<open>m\<close>.\<close>

definition status_configuration :: "jent_world \<Rightarrow> rand_data \<Rightarrow> u32 \<Rightarrow> u8 list list" where
  "status_configuration w ec m =
     [status_open 1 ''configuration'',
      status_line 2 ''osr'' (decimal (unat (ec_osr ec))) '','',
      status_line 2 ''memoryBlockSizeBytes'' (decimal (unat m)) '','',
      status_open 2 ''hashLoopCount'',
      status_line 3 ''runtime'' (decimal (unat (jent_hashloop_cnt (ec_flags ec)))) '','',
      status_line 3 ''initialization''
        (decimal (unat (jent_hashloop_cnt (ec_flags ec) * JENT_HASH_LOOP_INIT))) '''',
      status_close 2 '','' @ [10],
      status_open 2 ''memoryLoopCount'',
      status_line 3 ''runtime'' (decimal (unat (ec_memaccessloops ec))) '','',
      status_line 3 ''initialization''
        (decimal (unat (ec_memaccessloops ec * JENT_MEM_ACC_LOOP_INIT))) '''',
      status_close 2 '','' @ [10],
      status_line 2 ''secureMemory'' (bool_text (w_secure_memory w)) '','',
      status_line 2 ''internalTimer'' (bool_text (ec_enable_notime ec)) '','',
      status_line 2 ''fipsMode'' (bool_text (ec_is_fips_enabled ec)) '','',
      status_line 2 ''ntg1Mode'' (bool_text (ec_flags ec AND JENT_NTG1 \<noteq> 0)) '','',
      status_open 2 ''flags'',
      status_line 3 ''JENT_DISABLE_MEMORY_ACCESS''
        (bool_text (ec_flags ec AND JENT_DISABLE_MEMORY_ACCESS \<noteq> 0)) '','',
      status_line 3 ''JENT_FORCE_INTERNAL_TIMER''
        (bool_text (ec_flags ec AND JENT_FORCE_INTERNAL_TIMER \<noteq> 0)) '','',
      status_line 3 ''JENT_DISABLE_INTERNAL_TIMER''
        (bool_text (ec_flags ec AND JENT_DISABLE_INTERNAL_TIMER \<noteq> 0)) '','',
      status_line 3 ''JENT_FORCE_FIPS'' (bool_text (ec_flags ec AND JENT_FORCE_FIPS \<noteq> 0)) '','',
      status_line 3 ''JENT_NTG1'' (bool_text (ec_flags ec AND JENT_NTG1 \<noteq> 0)) '','',
      status_line 3 ''JENT_CACHE_ALL'' (bool_text (ec_flags ec AND JENT_CACHE_ALL \<noteq> 0)) '''',
      status_close 2 '''' @ [10], status_close 1 '''' @ [10]]"

definition status_output :: "rand_data \<Rightarrow> u8 list list" where
  "status_output ec =
     [bytes_of '','' @ [10] @ status_line 1 ''uuid''
        ([0x22] @ takeWhile (\<lambda>b. b \<noteq> 0) (ec_uuid ec) @ [0x22]) '','',
      status_line 1 ''reinitializations'' (decimal (unat (ec_reinit_count ec))) '','',
      status_open 1 ''output'',
      status_line 2 ''invocations'' (decimal (unat (ec_read_invocations ec))) '','',
      status_line 2 ''bytes'' (decimal (unat (ec_bytes_output ec))) '','',
      status_line 2 ''bits'' (decimal (unat (ec_bytes_output ec * 8))) '''',
      status_close 1 '','' @ [10]]"

definition status_version :: "u8 list" where
  "status_version = tabs 1 @ [0x22] @ bytes_of ''version'' @ [0x22] @ bytes_of '': '' @ [0x22] @
     decimal 3 @ bytes_of ''.'' @ decimal 7 @ bytes_of ''.'' @ decimal 1 @ [0x22]"

text \<open>The texts of the \<open>snprintf\<close> calls in their order, after the first.\<close>

definition status_texts :: "jent_world \<Rightarrow> rand_data option \<Rightarrow> u8 list list option" where
  "status_texts w ec =
     (case ec of
        None \<Rightarrow> Some [status_version, [10], bytes_of ''}'' @ [10]]
      | Some ec \<Rightarrow> do {
          m \<leftarrow> jent_memsize (ec_flags ec);
          Some ([status_version] @ status_output ec @ status_health ec @ status_environment w @
                status_configuration w ec m @ [bytes_of ''}'' @ [10]])
        })"

text \<open>\<open>buf\<close> is \<open>None\<close> for a \<open>NULL\<close> pointer; \<open>buflen\<close> is at most the size of the buffer.\<close>

definition jent_status ::
  "jent_world \<Rightarrow> rand_data option \<Rightarrow> u8 list option \<Rightarrow> nat \<Rightarrow> (int \<times> u8 list option) option" where
  "jent_status w ec buf buflen =
     (case buf of
        None \<Rightarrow> Some (-1, None)
      | Some b \<Rightarrow>
          if buflen = 0 then Some (-1, Some b)
          else do {
            texts \<leftarrow> status_texts w ec;
            let b = snprintf b 0 buflen (bytes_of ''{'' @ [10]);
            let b = foldl (jent_add_to_status buflen) b texts;
            Some (if strlen b \<ge> buflen - 1 then -1 else 0, Some b)
          })"

definition jent_uuid ::
  "rand_data option \<Rightarrow> u8 list option \<Rightarrow> nat \<Rightarrow> int \<times> u8 list option" where
  "jent_uuid ec buf buflen =
     (case (ec, buf) of
        (Some ec, Some b) \<Rightarrow>
          if buflen = 0 then (-1, Some b)
          else let len = strlen (ec_uuid ec) + 1
               in if buflen < len then (-1, Some b)
                  else (0, Some (memcpy_at b 0 (take len (ec_uuid ec))))
      | _ \<Rightarrow> (-1, buf))"

section \<open>Texts without a zero byte\<close>

definition clean :: "u8 list \<Rightarrow> bool" where
  "clean xs \<longleftrightarrow> 0 \<notin> set xs"

lemma clean_simps [simp]:
  "clean []" "clean (x # xs) \<longleftrightarrow> x \<noteq> 0 \<and> clean xs" "clean (xs @ ys) \<longleftrightarrow> clean xs \<and> clean ys"
  "clean (concat xss) \<longleftrightarrow> (\<forall>xs \<in> set xss. clean xs)" "clean (tabs n)"
  by (auto simp: clean_def tabs_def)

lemma clean_bytes_of [simp]: "clean (bytes_of s) \<longleftrightarrow> CHR 0x00 \<notin> set s"
proof -
  have "(of_nat (of_char c) :: u8) = 0 \<longleftrightarrow> c = CHR 0x00" for c
  proof -
    have l: "(of_char c :: nat) < 256" by simp
    have "(of_nat (of_char c) :: u8) = 0 \<longleftrightarrow> 256 dvd (of_char c :: nat)"
      by (simp add: word_of_nat_eq_0_iff)
    also have "\<dots> \<longleftrightarrow> (of_char c :: nat) = 0"
      using nat_dvd_not_less [OF _ l] by (cases "(of_char c :: nat) = 0") auto
    also have "\<dots> \<longleftrightarrow> c = CHR 0x00"
      using of_char_eq_iff [of c "CHR 0x00", where 'a = nat] by simp
    finally show ?thesis .
  qed
  then have "0 \<in> set (bytes_of s) \<longleftrightarrow> CHR 0x00 \<in> set s" by (force simp: bytes_of_def)
  then show ?thesis by (simp add: clean_def)
qed

lemma clean_decimal [simp]: "clean (decimal n)"
proof (induction n rule: decimal.induct)
  case (1 n)
  have "(of_nat (0x30 + d) :: u8) \<noteq> 0" if "d < 10" for d
  proof -
    have "unat (of_nat (0x30 + d) :: u8) = 0x30 + d" using that by (intro unat_of_nat_small) simp
    then show ?thesis by (metis add_is_0 unat_0 zero_neq_numeral)
  qed
  from this [of n] this [of "n mod 10"] 1 show ?case by (subst decimal.simps) simp
qed

lemma clean_values [simp]: "clean (decimal_int i)" "clean (bool_text b)"
  by (simp_all add: decimal_int_def bool_text_def)

lemma clean_line [simp]:
  "clean (status_line n name val eol) \<longleftrightarrow> CHR 0x00 \<notin> set name \<and> clean val \<and> CHR 0x00 \<notin> set eol"
  by (simp add: status_line_def)

lemma clean_brackets [simp]:
  "clean (status_open n name) \<longleftrightarrow> CHR 0x00 \<notin> set name"
  "clean (status_close n eol) \<longleftrightarrow> CHR 0x00 \<notin> set eol"
  by (simp_all add: status_open_def status_close_def)

lemma clean_takeWhile [simp]: "clean (takeWhile (\<lambda>b. b \<noteq> 0) xs)"
  by (auto simp: clean_def dest: set_takeWhileD)

lemma status_texts_clean: "status_texts w ec = Some ts \<Longrightarrow> clean (concat ts)"
proof -
  assume t: "status_texts w ec = Some ts"
  have "\<forall>x \<in> set (status_output e). clean x" "\<forall>x \<in> set (status_health e). clean x"
    "\<forall>x \<in> set (status_environment w). clean x" "\<forall>x \<in> set (status_configuration w e m). clean x" for e m
    by (simp_all add: status_output_def status_health_def status_test_def status_environment_def
        status_configuration_def)
  moreover have "clean status_version" by (simp add: status_version_def)
  ultimately show ?thesis
    using t by (auto simp: status_texts_def split: option.splits elim!: bind_SomeE)
qed

section \<open>Appending to the buffer\<close>

lemma strlen_snprintf:
  assumes "clean t" "0 < n" "n \<le> length b"
  shows "strlen (snprintf b 0 n t) = min (length t) (n - 1)"
proof -
  have "snprintf b 0 n t = take (n - 1) t @ 0 # drop (Suc (length (take (n - 1) t))) b"
    by (simp add: snprintf_def memcpy_at_def)
  moreover have "\<forall>x \<in> set (take (n - 1) t). x \<noteq> 0"
    using assms(1) by (auto simp: clean_def dest: in_set_takeD)
  ultimately have "takeWhile (\<lambda>x. x \<noteq> 0) (snprintf b 0 n t) = take (n - 1) t"
    by (simp add: takeWhile_append2)
  then show ?thesis by (simp add: strlen_def min.commute)
qed

lemma add_to_status_append:
  assumes "clean t" "0 < n" "n \<le> length b"
  shows "jent_add_to_status n (snprintf b 0 n t) x = snprintf b 0 n (t @ x)"
proof -
  let ?u = "min (length t) (n - 1)"
  have u: "strlen (snprintf b 0 n t) = ?u" by (rule strlen_snprintf [OF assms])
  have "?u < n" using assms(2) by simp
  moreover have "snprintf (snprintf b 0 n t) ?u (n - ?u) x = snprintf b 0 n (t @ x)"
  proof (cases "length t \<le> n - 1")
    case True
    then have "snprintf b 0 n t = t @ 0 # drop (Suc (length t)) b"
      by (simp add: snprintf_def memcpy_at_def)
    with True assms(2) show ?thesis
      by (simp add: snprintf_def memcpy_at_def min_def ac_simps)
  next
    case False
    with assms(2,3) show ?thesis
      by (simp add: snprintf_def memcpy_at_def min_def)
  qed
  ultimately show ?thesis by (simp add: jent_add_to_status_def Let_def u)
qed

lemma add_all_to_status:
  "clean t \<Longrightarrow> clean (concat ts) \<Longrightarrow> 0 < n \<Longrightarrow> n \<le> length b \<Longrightarrow>
     foldl (jent_add_to_status n) (snprintf b 0 n t) ts = snprintf b 0 n (t @ concat ts)"
  by (induction ts arbitrary: t) (simp_all add: add_to_status_append)

section \<open>Properties\<close>



end
