(* ===== verification/Rng_Wrapper.thy ===== *)
theory Rng_Wrapper
  imports Health_Monitor Read_Proofs Status
begin

unbundle bit_operations_syntax

text \<open>
  The dashboard's wrapper around the library (\<open>src/app/rng_wrapper.c\<close>): one collector for the
  process, allocated, read and released under one lock, every attempt reported to the monitor.
  Each function is one step on the state of the process; what the library writes is \<open>library\<close>, what
  the monitor writes \<open>monitor\<close>. The readings of \<open>QueryPerformanceCounter\<close> are a stream.
\<close>

section \<open>State\<close>

abbreviation (input) RNG_ERR_SELF_TEST_FAILED :: int where "RNG_ERR_SELF_TEST_FAILED \<equiv> -1001"
abbreviation (input) RNG_ERR_ALLOC_FAILED :: int where "RNG_ERR_ALLOC_FAILED \<equiv> -1002"
abbreviation (input) RNG_ERR_NOT_INITIALIZED :: int where "RNG_ERR_NOT_INITIALIZED \<equiv> -1003"
abbreviation (input) RNG_ERR_SHORT_READ :: int where "RNG_ERR_SHORT_READ \<equiv> -1004"
abbreviation (input) RNG_ERR_INVALID_ARGUMENT :: int where "RNG_ERR_INVALID_ARGUMENT \<equiv> -1005"
abbreviation (input) RNG_ERR_GENERATION_FAILED :: int where "RNG_ERR_GENERATION_FAILED \<equiv> -1006"
abbreviation (input) RNG_ERR_ALREADY_RUNNING :: int where "RNG_ERR_ALREADY_RUNNING \<equiv> -1008"

record rng_settings =
  rs_osr :: u32
  rs_force_fips :: bool
  rs_ntg1 :: bool
  rs_disable_memory_access :: bool

record 'd rng_state =
  rng_collector :: "rand_data option"
  entropy_self_test_complete :: bool
  current_settings :: rng_settings
  library :: jent_world
  monitor :: "'d monitor"
  qpc :: "nat \<Rightarrow> int"
  qpc_pos :: nat
  qpc_frequency :: int

definition QueryPerformanceCounter :: "'d rng_state \<Rightarrow> int \<times> 'd rng_state" where
  "QueryPerformanceCounter s = (qpc s (qpc_pos s), s\<lparr>qpc_pos := qpc_pos s + 1\<rparr>)"

definition qpc_elapsed_seconds :: "'d float_ops \<Rightarrow> 'd rng_state \<Rightarrow> int \<Rightarrow> int \<Rightarrow> 'd" where
  "qpc_elapsed_seconds fl s start end_time =
     fl_div fl (fl_of_int fl (end_time - start)) (fl_of_int fl (qpc_frequency s))"

definition rng_settings_defaults :: rng_settings where
  "rng_settings_defaults = \<lparr>rs_osr = 0, rs_force_fips = False, rs_ntg1 = False,
     rs_disable_memory_access = False\<rparr>"

section \<open>Operations\<close>

definition rng_configure :: "rng_settings option \<Rightarrow> 'd rng_state \<Rightarrow> int \<times> 'd rng_state" where
  "rng_configure settings s =
     (if rng_collector s \<noteq> None then (RNG_ERR_ALREADY_RUNNING, s)
      else (0, s\<lparr>current_settings := (case settings of Some new \<Rightarrow> new | None \<Rightarrow> rng_settings_defaults),
                 entropy_self_test_complete := False\<rparr>))"

definition rng_get_settings :: "'d rng_state \<Rightarrow> rng_settings" where
  "rng_get_settings s = current_settings s"

definition settings_to_flags :: "rng_settings \<Rightarrow> u32" where
  "settings_to_flags s =
     (let flags = 0;
          flags = (if rs_force_fips s then flags OR JENT_FORCE_FIPS else flags);
          flags = (if rs_ntg1 s then flags OR JENT_NTG1 else flags)
      in if rs_disable_memory_access s then flags OR JENT_DISABLE_MEMORY_ACCESS else flags)"

text \<open>
  The callback and the number that stands for its address in the library's state. The calls that
  the library made while it ran are run on the monitor when it returns: nothing else changes the
  monitor in between.
\<close>

definition fips_failure_handler :: "u32 \<Rightarrow> 'd monitor \<Rightarrow> 'd monitor" where
  "fips_failure_handler health_failure m = health_monitor_record_fips_failure health_failure m"

definition fips_failure_handler_address :: nat where
  "fips_failure_handler_address = 0"

definition library_returns :: "jent_world \<Rightarrow> 'd rng_state \<Rightarrow> 'd rng_state" where
  "library_returns w s = s\<lparr>library := w, monitor :=
     foldl (\<lambda>m (cb, health_failure).
         if cb = fips_failure_handler_address then fips_failure_handler health_failure m else m)
       (monitor s) (drop (length (g_fips_log (library s))) (g_fips_log w))\<rparr>"

definition init_self_test :: "u32 \<Rightarrow> 'd rng_state \<Rightarrow> (int \<times> 'd rng_state) option" where
  "init_self_test flags s =
     (if entropy_self_test_complete s then Some (0, s)
      else do {
        (ret, w) \<leftarrow> jent_entropy_init_ex (rs_osr (current_settings s)) flags (library s);
        let s = library_returns w s;
        Some (if ret \<noteq> 0
              then (RNG_ERR_SELF_TEST_FAILED,
                    s\<lparr>monitor := health_monitor_record_failure RNG_ERR_SELF_TEST_FAILED
                        (health_monitor_set_initialized False (monitor s))\<rparr>)
              else (0, s\<lparr>entropy_self_test_complete := True\<rparr>))
      })"

definition init_collector :: "u32 \<Rightarrow> 'd rng_state \<Rightarrow> (int \<times> 'd rng_state) option" where
  "init_collector flags s = do {
     let (_, w) = jent_set_fips_failure_callback (Some fips_failure_handler_address) (library s);
     (ec, w) \<leftarrow> jent_entropy_collector_alloc (rs_osr (current_settings s)) flags w;
     let s = (library_returns w s)\<lparr>rng_collector := ec\<rparr>;
     Some (case ec of
         None \<Rightarrow> (RNG_ERR_ALLOC_FAILED,
                  s\<lparr>monitor := health_monitor_record_failure RNG_ERR_ALLOC_FAILED
                      (health_monitor_set_initialized False (monitor s))\<rparr>)
       | Some _ \<Rightarrow> (0, s\<lparr>monitor := health_monitor_set_initialized True (monitor s)\<rparr>))
   }"

definition init_rng :: "'d rng_state \<Rightarrow> (int \<times> 'd rng_state) option" where
  "init_rng s =
     (if rng_collector s \<noteq> None then Some (0, s)
      else do {
        let flags = settings_to_flags (current_settings s);
        (ret, s) \<leftarrow> init_self_test flags s;
        if ret \<noteq> 0 then Some (ret, s) else init_collector flags s
      })"

definition rng_get_library_version :: u32 where
  "rng_get_library_version = jent_version"

text \<open>\<open>lock_free\<close>: whether the lock could be taken without waiting.\<close>

definition rng_get_status_json ::
  "bool \<Rightarrow> u8 list option \<Rightarrow> nat \<Rightarrow> 'd rng_state \<Rightarrow> (int \<times> u8 list option) option" where
  "rng_get_status_json lock_free buf buflen s =
     (if buf = None \<or> buflen = 0 then Some (-1, buf)
      else if \<not> lock_free then Some (-1, buf)
      else case rng_collector s of
             Some ec \<Rightarrow> jent_status (library s) (Some ec) buf buflen
           | None \<Rightarrow> Some (-1, buf))"

text \<open>One call of the library with its latency sample.\<close>

definition generate_call ::
  "'d float_ops \<Rightarrow> u8 list \<Rightarrow> u64 \<Rightarrow> 'd rng_state \<Rightarrow> (int \<times> u8 list \<times> 'd rng_state) option" where
  "generate_call fl buf len s = do {
     let (call_start, s) = QueryPerformanceCounter s;
     (ret, data, w, ec) \<leftarrow> jent_read_entropy_safe (library s) (Some (rng_collector s)) (Some buf) len;
     let s = (library_returns w s)\<lparr>rng_collector := the ec\<rparr>;
     let (call_end, s) = QueryPerformanceCounter s;
     let latency = fl_mul fl (qpc_elapsed_seconds fl s call_start call_end) (fl_of_int fl 1000000);
     Some (ret, the data, s\<lparr>monitor := health_monitor_record_jitter_sample latency (monitor s)\<rparr>)
   }"

partial_function (option) generate_loop ::
  "'d float_ops \<Rightarrow> u64 \<Rightarrow> u64 \<Rightarrow> int \<Rightarrow> u8 list \<Rightarrow> 'd rng_state \<Rightarrow>
     (int \<times> u64 \<times> u8 list \<times> 'd rng_state) option" where
  "generate_loop fl len bytes_generated ret buffer s =
     (if bytes_generated < len
      then do {
        (ret, rest, s) \<leftarrow>
          generate_call fl (drop (unat bytes_generated) buffer) (len - bytes_generated) s;
        let buffer = take (unat bytes_generated) buffer @ rest;
        if ret \<le> 0 then Some (ret, bytes_generated, buffer, s)
        else generate_loop fl len (bytes_generated + of_int ret) ret buffer s
      }
      else Some (ret, bytes_generated, buffer, s))"

definition record_attempt ::
  "'d float_ops \<Rightarrow> bool \<Rightarrow> u64 \<Rightarrow> 'd \<Rightarrow> int \<Rightarrow> 'd rng_state \<Rightarrow> 'd rng_state" where
  "record_attempt fl success byte_count duration error_code s =
     (let (now, s) = QueryPerformanceCounter s
      in s\<lparr>monitor := health_monitor_record_generation_attempt fl now success byte_count duration
             error_code (monitor s)\<rparr>)"

definition get_random_bytes ::
  "'d float_ops \<Rightarrow> u8 list option \<Rightarrow> u64 \<Rightarrow> 'd rng_state \<Rightarrow> (int \<times> u8 list option \<times> 'd rng_state) option"
  where
  "get_random_bytes fl buffer len s =
     (case buffer of
        None \<Rightarrow>
          if len \<noteq> 0
          then Some (RNG_ERR_INVALID_ARGUMENT, None,
                     record_attempt fl False 0 (fl_zero fl) RNG_ERR_INVALID_ARGUMENT s)
          else if rng_collector s = None
          then Some (RNG_ERR_NOT_INITIALIZED, None,
                     record_attempt fl False 0 (fl_zero fl) RNG_ERR_NOT_INITIALIZED s)
          else Some (0, None, s)
      | Some buf \<Rightarrow>
          if rng_collector s = None
          then Some (RNG_ERR_NOT_INITIALIZED, Some buf,
                     record_attempt fl False 0 (fl_zero fl) RNG_ERR_NOT_INITIALIZED s)
          else if len = 0 then Some (0, Some buf, s)
          else do {
            let (start, s) = QueryPerformanceCounter s;
            (ret, bytes_generated, buf, s) \<leftarrow> generate_loop fl len 0 0 buf s;
            let (end_time, s) = QueryPerformanceCounter s;
            let duration = qpc_elapsed_seconds fl s start end_time;
            Some (if ret < 0
                  then (RNG_ERR_GENERATION_FAILED, Some buf,
                        record_attempt fl False bytes_generated duration RNG_ERR_GENERATION_FAILED s)
                  else if bytes_generated \<noteq> len
                  then (RNG_ERR_SHORT_READ, Some buf,
                        record_attempt fl False bytes_generated duration RNG_ERR_SHORT_READ s)
                  else (0, Some buf, record_attempt fl True bytes_generated duration 0 s))
          })"

definition shutdown_rng :: "'d rng_state \<Rightarrow> 'd rng_state" where
  "shutdown_rng s =
     (let s = (library_returns (jent_entropy_collector_free (library s) (rng_collector s)) s)
                \<lparr>rng_collector := None\<rparr>
      in s\<lparr>monitor := health_monitor_set_initialized False (monitor s)\<rparr>)"


section \<open>The process keeps exactly the blocks of its collector\<close>

text \<open>
  \<open>h\<close> is the heap of the process without a collector. The collector is well formed and owns the
  rest of the heap; the monitor says whether there is one; no callback is registered, nor can one be
  once the library was initialised.
\<close>

definition library_ok :: "heap_block multiset \<Rightarrow> 'd rng_state \<Rightarrow> bool" where
  "library_ok h s \<longleftrightarrow> handler_matched (library s) \<and> g_fips_cb (library s) = None \<and>
     (entropy_self_test_complete s \<longrightarrow> g_health_cb_switch_blocked (library s)) \<and>
     (rng_collector s \<noteq> None \<longrightarrow> entropy_self_test_complete s) \<and>
     (case rng_collector s of
        None \<Rightarrow> w_heap (library s) = h
      | Some ec \<Rightarrow> w_heap (library s) = h + collector_blocks ec \<and> thread_released (library s) ec \<and>
          collector_ok ec)"

definition monitor_ok :: "'d rng_state \<Rightarrow> bool" where
  "monitor_ok s \<longleftrightarrow> (st_initialized (current_stats (monitor s)) \<longleftrightarrow> rng_collector s \<noteq> None) \<and>
     st_fips_failure_count (current_stats (monitor s)) = 0 \<and>
     st_last_fips_failure_mask (current_stats (monitor s)) = 0"

lemma allocates_lib:
  assumes "allocates (forget w) w' b"
  shows "w_heap w' = w_heap w + b" "g_fips_cb w' = g_fips_cb w"
    "g_fips_cb w = None \<Longrightarrow> g_fips_log w' = g_fips_log w"
    "g_health_cb_switch_blocked w \<Longrightarrow> g_health_cb_switch_blocked w'"
    "handler_matched w' = handler_matched w"
  using assms by (simp_all add: allocates_def forget_def lib_config_def handler_matched_def)

lemma library_returns_quiet:
  "g_fips_log w = g_fips_log (library s) \<Longrightarrow> library_returns w s = s\<lparr>library := w\<rparr>"
  by (simp add: library_returns_def)

lemma library_holds:
  assumes "library_ok h s" "rng_collector s = Some ec"
  shows "holds_collector (library s\<lparr>w_heap := h\<rparr>) (library s) ec"
  using assms by (simp add: library_ok_def holds_collector_def allocates_def forget_def
      lib_config_def handler_matched_def)

lemma library_held:
  assumes "library_ok h s" "holds_collector (library s\<lparr>w_heap := h\<rparr>) w ec" "collector_ok ec"
    "rng_collector s \<noteq> None"
  shows "library_ok h (s\<lparr>library := w, rng_collector := Some ec\<rparr>) \<and>
    library_returns w s = s\<lparr>library := w\<rparr>"
proof -
  have a: "allocates (forget (library s\<lparr>w_heap := h\<rparr>)) w (collector_blocks ec)"
    and t: "thread_released w ec"
    using assms(2) by (simp_all add: holds_collector_def)
  note f = allocates_lib [OF a]
  have "library_returns w s = s\<lparr>library := w\<rparr>"
    using f(3) assms(1) by (intro library_returns_quiet) (simp add: library_ok_def)
  moreover have "handler_matched w"
    using f(5) assms(1) by (simp add: library_ok_def handler_matched_def)
  ultimately show ?thesis using f(1,2,4) t assms(1,3,4) by (simp add: library_ok_def)
qed

lemma library_freed:
  assumes "library_ok h s"
  defines "w \<equiv> jent_entropy_collector_free (library s) (rng_collector s)"
  shows "library_ok h (s\<lparr>library := w, rng_collector := None\<rparr>) \<and>
    library_returns w s = s\<lparr>library := w\<rparr>"
proof (cases "rng_collector s")
  case None
  with assms show ?thesis
    by (simp add: library_ok_def library_returns_quiet jent_entropy_collector_free_def)
next
  case (Some ec)
  have a: "allocates (forget (library s\<lparr>w_heap := h\<rparr>)) w {#}"
    using holds_free [OF library_holds [OF assms(1) Some]] Some by (simp add: w_def)
  note f = allocates_lib [OF a]
  have "library_returns w s = s\<lparr>library := w\<rparr>"
    using f(3) assms(1) by (intro library_returns_quiet) (simp add: library_ok_def)
  moreover have "handler_matched w"
    using f(5) assms(1) by (simp add: library_ok_def handler_matched_def)
  ultimately show ?thesis using f(1,2,4) assms(1) by (simp add: library_ok_def)
qed

lemma library_stepped:
  assumes "library_ok h s" "allocates (forget (library s)) w (result_blocks r)" "rng_collector s = None"
    "\<And>ec. r = Some ec \<Longrightarrow>
       thread_released w ec \<and> collector_ok ec \<and> entropy_self_test_complete s"
  shows "library_ok h (s\<lparr>library := w, rng_collector := r\<rparr>) \<and>
    library_returns w s = s\<lparr>library := w\<rparr>"
proof -
  note f = allocates_lib [OF assms(2)]
  have "library_returns w s = s\<lparr>library := w\<rparr>"
    using f(3) assms(1) by (intro library_returns_quiet) (simp add: library_ok_def)
  with f(1,2,4,5) assms(1,3,4) show ?thesis by (cases r) (simp_all add: library_ok_def)
qed

lemma monitor_ok_initialized:
  "monitor_ok s \<Longrightarrow> monitor_ok (s\<lparr>rng_collector := r, library := w,
     monitor := health_monitor_set_initialized (r \<noteq> None) (monitor s)\<rparr>)"
  by (simp add: monitor_ok_def health_monitor_set_initialized_def)

lemma library_ok_update [simp]:
  "library_ok h (s\<lparr>monitor := m\<rparr>) = library_ok h s"
  "library_ok h (s\<lparr>qpc_pos := n\<rparr>) = library_ok h s"
  "library_ok h (s\<lparr>current_settings := c\<rparr>) = library_ok h s"
  by (simp_all add: library_ok_def cong: option.case_cong)

lemma init_self_test_keeps:
  assumes "init_self_test flags s = Some (r, s')" "library_ok h s" "monitor_ok s"
    "rng_collector s = None"
  shows "library_ok h s' \<and> monitor_ok s' \<and> rng_collector s' = None \<and>
    (if r = 0 then entropy_self_test_complete s' else r = RNG_ERR_SELF_TEST_FAILED)"
proof (cases "entropy_self_test_complete s")
  case True
  with assms show ?thesis by (simp add: init_self_test_def)
next
  case False
  with assms(1) obtain ret w where
    i: "jent_entropy_init_ex (rs_osr (current_settings s)) flags (library s) = Some (ret, w)" and
    e: "(let s = library_returns w s in if ret \<noteq> 0
              then (RNG_ERR_SELF_TEST_FAILED,
                    s\<lparr>monitor := health_monitor_record_failure RNG_ERR_SELF_TEST_FAILED
                        (health_monitor_set_initialized False (monitor s))\<rparr>)
              else (0, s\<lparr>entropy_self_test_complete := True\<rparr>)) = (r, s')"
    by (auto simp: init_self_test_def Let_def elim!: bind_SomeE)
  have m: "handler_matched (library s)" using assms(2) by (simp add: library_ok_def)
  have a: "allocates (forget (library s)) w (result_blocks None)"
    using init_looseD [OF entropy_init_ex_fine i m] by simp
  note b = entropy_init_ex_blocks [OF i m]
  from library_stepped [OF assms(2) a assms(4)]
  have l: "library_ok h (s\<lparr>library := w\<rparr>)" "library_returns w s = s\<lparr>library := w\<rparr>"
    using assms(4) by (simp_all add: library_ok_def)
  with b assms(4) have "library_ok h (s\<lparr>library := w, entropy_self_test_complete := True\<rparr>)"
    by (simp add: library_ok_def)
  with l assms(3,4) e show ?thesis
    by (cases "ret = 0") (auto simp: Let_def monitor_ok_def health_monitor_record_failure_def
        health_monitor_set_initialized_def)
qed

lemma init_collector_keeps:
  assumes "init_collector flags s = Some (r, s')" "library_ok h s" "monitor_ok s"
    "rng_collector s = None" "entropy_self_test_complete s"
  shows "library_ok h s' \<and> monitor_ok s' \<and>
    (if r = 0 then rng_collector s' \<noteq> None else r = RNG_ERR_ALLOC_FAILED \<and> rng_collector s' = None)"
proof -
  have m: "handler_matched (library s)" and b: "g_health_cb_switch_blocked (library s)"
    using assms(2,5) by (simp_all add: library_ok_def)
  have "jent_set_fips_failure_callback (Some fips_failure_handler_address) (library s) =
      (- EAGAIN, library s)"
    using b by (simp add: jent_set_fips_failure_callback_def jent_set_fips_failure_callback_internal_def)
  with assms(1) obtain ec w where
    a: "jent_entropy_collector_alloc (rs_osr (current_settings s)) flags (library s) = Some (ec, w)" and
    e: "(let s = (library_returns w s)\<lparr>rng_collector := ec\<rparr> in case ec of
        None \<Rightarrow> (RNG_ERR_ALLOC_FAILED,
                 s\<lparr>monitor := health_monitor_record_failure RNG_ERR_ALLOC_FAILED
                     (health_monitor_set_initialized False (monitor s))\<rparr>)
      | Some _ \<Rightarrow> (0, s\<lparr>monitor := health_monitor_set_initialized True (monitor s)\<rparr>)) = (r, s')"
    by (auto simp: init_collector_def Let_def elim!: bind_SomeE)
  have a': "collector_alloc_startup (rs_osr (current_settings s)) flags (library s) = Some (ec, w)"
    using a by (simp add: jent_entropy_collector_alloc_def)
  note l = alloc_looseD [OF alloc_startup_loose a' m]
  have "thread_released w e \<and> collector_ok e \<and> entropy_self_test_complete s" if "ec = Some e" for e
    using assms(5) l alloc_startup_result [OF a' [unfolded that] m] that by blast
  with library_stepped [OF assms(2) _ assms(4)] l have
    "library_ok h (s\<lparr>library := w, rng_collector := ec\<rparr>)" "library_returns w s = s\<lparr>library := w\<rparr>"
    by blast+
  with e assms(3,4) show ?thesis
    by (cases ec) (auto simp: monitor_ok_def health_monitor_record_failure_def
        health_monitor_set_initialized_def Let_def)
qed

lemma init_rng_keeps:
  assumes "init_rng s = Some (r, s')" "library_ok h s" "monitor_ok s"
  shows "library_ok h s' \<and> monitor_ok s' \<and>
    (if r = 0 then rng_collector s' \<noteq> None
     else r \<in> {RNG_ERR_SELF_TEST_FAILED, RNG_ERR_ALLOC_FAILED} \<and> rng_collector s' = None)"
proof (cases "rng_collector s")
  case None
  let ?flags = "settings_to_flags (current_settings s)"
  from assms(1) None obtain r1 s1 where i: "init_self_test ?flags s = Some (r1, s1)" and
    c: "(if r1 \<noteq> 0 then Some (r1, s1) else init_collector ?flags s1) = Some (r, s')"
    by (auto simp: init_rng_def Let_def elim!: bind_SomeE)
  note k = init_self_test_keeps [OF i assms(2,3) None]
  show ?thesis
  proof (cases "r1 = 0")
    case True
    with k c init_collector_keeps [of ?flags s1 r s' h] show ?thesis by auto
  next
    case False
    with k c show ?thesis by auto
  qed
qed (use assms in \<open>simp add: init_rng_def\<close>)

section \<open>Generating bytes\<close>

definition generating :: "heap_block multiset \<Rightarrow> 'd rng_health_stats \<Rightarrow> 'd rng_state \<Rightarrow> bool" where
  "generating h stats s \<longleftrightarrow> library_ok h s \<and> rng_collector s \<noteq> None \<and> current_stats (monitor s) = stats"

lemma generating_update [simp]:
  "generating h stats (s\<lparr>qpc_pos := n\<rparr>) = generating h stats s"
  "generating h stats (s\<lparr>monitor := health_monitor_record_jitter_sample d (monitor s)\<rparr>) =
     generating h stats s"
  by (simp_all add: generating_def health_monitor_record_jitter_sample_def)

lemma generate_call_result:
  assumes "generate_call fl buf len s = Some (ret, buf', s')" "generating h stats s"
    "unat len \<le> length buf" "0 < len"
  shows "generating h stats s' \<and> length buf' = length buf \<and>
    drop (request len) buf' = drop (request len) buf \<and>
    (ret = int (request len) \<and> supplied (take (request len) buf') \<or> ret < 0)"
proof -
  let ?s = "s\<lparr>qpc_pos := qpc_pos s + 1\<rparr>"
  have g: "library_ok h ?s" "library_ok h s" "current_stats (monitor s) = stats"
    using assms(2) by (simp_all add: generating_def)
  obtain ec where ec: "rng_collector s = Some ec" using assms(2) by (auto simp: generating_def)
  have ok: "collector_ok ec" using g(1) ec by (simp add: library_ok_def)
  from assms(1) ec obtain data w ec' d where
    r: "jent_read_entropy_safe (library s) (Some (Some ec)) (Some buf) len = Some (ret, data, w, ec')" and
    e: "buf' = the data" "s' = (let t = (library_returns w ?s)\<lparr>rng_collector := the ec'\<rparr>
         in t\<lparr>qpc_pos := qpc_pos t + 1, monitor := health_monitor_record_jitter_sample d (monitor t)\<rparr>)"
    by (auto simp: generate_call_def QueryPerformanceCounter_def Let_def elim!: bind_SomeE)
  have hold: "holds_collector (library s\<lparr>w_heap := h\<rparr>) (library s) ec"
    using library_holds [OF g(1), of ec] ec by simp
  from read_safe_result [OF r assms(3) hold ok] obtain b e' where
    data: "data = Some b" "length b = length buf" "drop (request len) b = drop (request len) buf" and
    e': "ec' = Some (Some e')" "holds_collector (library s\<lparr>w_heap := h\<rparr>) w e'" "collector_ok e'" and
    q: "ret = int (request len) \<and> (len = 0 \<or> (\<exists>w1 e1 bs w2 e2.
         deliver (blocks_of (request len)) w1 e1 = Some (0, bs, w2, e2) \<and> request len \<le> length bs \<and>
         take (request len) b = take (request len) bs)) \<or>
     ret \<in> {-4} \<union> intermittent \<union> permanent"
    by blast
  have b: "b = buf'" using data(1) e(1) by simp
  from library_held [OF g(1), of w e'] library_held [OF g(2), of w e'] e' ec have
    l: "library_ok h (s\<lparr>library := w, rng_collector := Some e'\<rparr>)" "library_returns w ?s = ?s\<lparr>library := w\<rparr>"
    by simp_all
  have s': "generating h stats s'"
    using l g(3) e(2) e'(1)
    by (simp add: generating_def Let_def health_monitor_record_jitter_sample_def)
  have len: "length (take (request len) buf') = request len"
    using request_bounds(1) [of len] assms(3) data(2) b by simp
  have "ret < 0" if "ret \<in> {-4} \<union> intermittent \<union> permanent"
    using that by (auto simp: intermittent_def permanent_def)
  moreover have "supplied (take (request len) buf')" if "\<exists>w1 e1 bs w2 e2.
      deliver (blocks_of (request len)) w1 e1 = Some (0, bs, w2, e2) \<and> request len \<le> length bs \<and>
      take (request len) buf' = take (request len) bs"
    unfolding supplied_def len using that by blast
  moreover have "len \<noteq> 0" using assms(4) by auto
  ultimately have "ret = int (request len) \<and> supplied (take (request len) buf') \<or> ret < 0"
    using q b by blast
  with s' data b show ?thesis by blast
qed

text \<open>Progress of the loop: the bytes generated so far are pieces that the library supplied.\<close>

definition filled :: "u8 list \<Rightarrow> u64 \<Rightarrow> u8 list \<Rightarrow> u64 \<Rightarrow> bool" where
  "filled buf n buf' n' \<longleftrightarrow> length buf' = length buf \<and> n \<le> n' \<and> (\<exists>pieces.
     take (unat n') buf' = take (unat n) buf @ concat pieces \<and> (\<forall>piece \<in> set pieces. supplied piece))"

lemma filled_refl: "filled buf n buf n"
  unfolding filled_def by (auto intro: exI [of _ "[]"])

lemma filled_trans: "filled b n b1 n1 \<Longrightarrow> filled b1 n1 b2 n2 \<Longrightarrow> filled b n b2 n2"
  unfolding filled_def
proof (elim conjE exE)
  fix p q
  assume "take (unat n1) b1 = take (unat n) b @ concat p" "\<forall>piece \<in> set p. supplied piece"
    "take (unat n2) b2 = take (unat n1) b1 @ concat q" "\<forall>piece \<in> set q. supplied piece"
  then have "take (unat n2) b2 = take (unat n) b @ concat (p @ q)"
    "\<forall>piece \<in> set (p @ q). supplied piece" by auto
  moreover assume "length b1 = length b" "length b2 = length b1" "n \<le> n1" "n1 \<le> n2"
  ultimately show "length b2 = length b \<and> n \<le> n2 \<and> (\<exists>pieces.
      take (unat n2) b2 = take (unat n) b @ concat pieces \<and> (\<forall>piece \<in> set pieces. supplied piece))"
    by (metis order_trans)
qed

lemma filled_step:
  assumes "n < len" "unat len \<le> length buf" "length rest = length buf - unat n"
    "drop (request (len - n)) rest = drop (request (len - n)) (drop (unat n) buf)"
    "supplied (take (request (len - n)) rest)"
  defines "m \<equiv> n + of_int (int (request (len - n)))" and "b \<equiv> take (unat n) buf @ rest"
  shows "filled buf n b m \<and> m \<le> len \<and> drop (unat m) b = drop (unat m) buf"
proof -
  let ?r = "request (len - n)"
  have sub: "unat (len - n) = unat len - unat n" using assms(1) by (simp add: unat_sub)
  have r: "unat n + ?r \<le> unat len"
    using request_bounds(1) [of "len - n"] sub assms(1) by (simp add: word_less_nat_alt)
  have "unat (of_nat ?r :: u64) = ?r"
    using request_bounds(2) [of "len - n"] by (intro unat_of_nat_small) simp
  moreover have lt: "unat len < 2 ^ LENGTH(64)" by (rule unsigned_less)
  ultimately have m: "unat m = unat n + ?r"
    using r lt by (subst m_def, subst unat_word_ariths) simp
  have "take (unat m) b = take (unat n) buf @ concat [take ?r rest]"
    using assms(1-3) m by (simp add: b_def word_less_nat_alt)
  moreover have "drop (unat m) b = drop (unat m) buf"
    using assms(1-4) m by (simp add: b_def word_less_nat_alt add.commute)
  ultimately show ?thesis
    using assms(1-3,5) m r unfolding filled_def
    by (auto simp: b_def word_less_nat_alt word_le_nat_alt intro: exI [of _ "[take ?r rest]"])
qed

lemma drop_further: "n \<le> m \<Longrightarrow> drop n xs = drop n ys \<Longrightarrow> drop m xs = drop m ys"
  by (metis drop_drop le_add_diff_inverse2)

lemma filled_failed:
  assumes "n \<le> len" "unat len \<le> length buf" "length rest = length buf - unat n"
    "drop (request (len - n)) rest = drop (request (len - n)) (drop (unat n) buf)"
  defines "b \<equiv> take (unat n) buf @ rest"
  shows "filled buf n b n \<and> drop (unat len) b = drop (unat len) buf"
proof -
  have n: "unat n \<le> unat len" using assms(1) by (simp add: word_le_nat_alt)
  have "request (len - n) \<le> unat len - unat n"
    using request_bounds(1) [of "len - n"] assms(1) by (simp add: unat_sub)
  then have "drop (unat len - unat n) rest = drop (unat len - unat n) (drop (unat n) buf)"
    by (rule drop_further [OF _ assms(4)])
  with n assms(2,3) show ?thesis
    by (auto simp: filled_def b_def intro: exI [of _ "[]"])
qed

lemma generate_loop_result:
  assumes "generate_loop fl len n ret buf s = Some (ret', n', buf', s')" "generating h stats s"
    "unat len \<le> length buf" "n \<le> len" "0 \<le> ret"
  shows "generating h stats s' \<and> filled buf n buf' n' \<and> n' \<le> len \<and>
    drop (unat len) buf' = drop (unat len) buf \<and> (ret' < 0 \<or> n' = len)"
proof -
  let ?Q = "\<lambda>len (n :: u64) buf x. case x of (ret', n', buf', s') \<Rightarrow> generating h stats s' \<and>
    filled buf n buf' n' \<and> n' \<le> len \<and> drop (unat len) buf' = drop (unat len) buf \<and> (ret' < 0 \<or> n' = len)"
  let ?P = "\<lambda>fl len (n :: u64) ret buf s x. generating h stats s \<longrightarrow> unat len \<le> length buf \<longrightarrow>
    n \<le> len \<longrightarrow> 0 \<le> ret \<longrightarrow> ?Q len n buf x"
  have "?P fl len n ret buf s (ret', n', buf', s')"
  proof (rule generate_loop.raw_induct [where P = ?P, OF _ assms(1)])
    fix loop :: "'a float_ops \<Rightarrow> u64 \<Rightarrow> u64 \<Rightarrow> int \<Rightarrow> u8 list \<Rightarrow> 'a rng_state \<Rightarrow>
        (int \<times> u64 \<times> u8 list \<times> 'a rng_state) option"
      and fl len n ret buf s x
    assume IH: "\<And>fl len n ret buf s x. loop fl len n ret buf s = Some x \<Longrightarrow> ?P fl len n ret buf s x"
      and r: "(if n < len then Option.bind (generate_call fl (drop (unat n) buf) (len - n) s)
        (\<lambda>(ret, rest, s). let buffer = take (unat n) buf @ rest in
           if ret \<le> 0 then Some (ret, n, buffer, s)
           else loop fl len (n + of_int ret) ret buffer s)
        else Some (ret, n, buf, s)) = Some x"
    show "?P fl len n ret buf s x"
    proof (intro impI)
      assume a: "generating h stats s" "unat len \<le> length buf" "n \<le> len" "0 \<le> ret"
      show "?Q len n buf x"
      proof (cases "n < len")
        case True
        with r obtain ret1 rest s1 where
          c: "generate_call fl (drop (unat n) buf) (len - n) s = Some (ret1, rest, s1)" and
          x: "(if ret1 \<le> 0 then Some (ret1, n, take (unat n) buf @ rest, s1)
            else loop fl len (n + of_int ret1) ret1 (take (unat n) buf @ rest) s1) = Some x"
          by (auto simp: Let_def elim!: bind_SomeE)
        have b: "unat (len - n) \<le> length (drop (unat n) buf)" "0 < len - n"
          using a(2) True by (auto simp: unat_sub word_gt_0)
        note g = generate_call_result [OF c a(1) b]
        have rest: "length rest = length buf - unat n"
          "drop (request (len - n)) rest = drop (request (len - n)) (drop (unat n) buf)"
          using g by simp_all
        have pos: "0 < request (len - n)"
          using b(2) by (auto simp: request_def min_def word_less_nat_alt)
        show ?thesis
        proof (cases "ret1 < 0")
          case True
          with x filled_failed [OF a(3,2) rest] g a(3) show ?thesis by auto
        next
          case False
          with g have r1: "ret1 = int (request (len - n))" "supplied (take (request (len - n)) rest)"
            by auto
          let ?m = "n + of_int (int (request (len - n)))" and ?b = "take (unat n) buf @ rest"
          from filled_step [OF \<open>n < len\<close> a(2) rest r1(2)]
          have f: "filled buf n ?b ?m" "?m \<le> len" "drop (unat ?m) ?b = drop (unat ?m) buf"
            by blast+
          have "loop fl len ?m ret1 ?b s1 = Some x" using x r1(1) pos by simp
          note ih = IH [OF this]
          have "generating h stats s1" "0 \<le> ret1" using g r1(1) by simp_all
          moreover have "unat len \<le> length ?b" using f(1) a(2) unfolding filled_def by linarith
          ultimately have q: "?Q len ?m ?b x" using ih f(2) by blast
          obtain r2 n2 b2 s2 where x2: "x = (r2, n2, b2, s2)" by (metis prod_cases4)
          have "filled ?b ?m b2 n2" using q by (simp only: x2 prod.case)
          with f(1) have "filled buf n b2 n2" by (rule filled_trans)
          moreover have "drop (unat len) ?b = drop (unat len) buf"
            using f(2) by (intro drop_further [OF _ f(3)]) (simp only: word_le_nat_alt)
          ultimately show ?thesis using q unfolding x2 prod.case by presburger
        qed
      next
        case False
        with r a show ?thesis by (auto simp: filled_refl)
      qed
    qed
  qed
  with assms(2-5) show ?thesis by simp
qed

text \<open>What an attempt changes.\<close>

definition attempted :: "bool \<Rightarrow> u64 \<Rightarrow> int \<Rightarrow> 'd rng_health_stats \<Rightarrow> 'd rng_health_stats \<Rightarrow> bool" where
  "attempted success n code st st' \<longleftrightarrow>
     st_generation_call_count st' = st_generation_call_count st + 1 \<and>
     st_total_bytes_generated st' = st_total_bytes_generated st + n \<and>
     st_failure_count st' = (if success then st_failure_count st else st_failure_count st + 1) \<and>
     st_last_error_code st' = (if success then 0 else code) \<and>
     st_initialized st' = st_initialized st \<and>
     st_fips_failure_count st' = st_fips_failure_count st \<and>
     st_last_fips_failure_mask st' = st_last_fips_failure_mask st"

lemma record_attempt_frame:
  "rng_collector (record_attempt fl ok n d c s) = rng_collector s"
  "library (record_attempt fl ok n d c s) = library s"
  "entropy_self_test_complete (record_attempt fl ok n d c s) = entropy_self_test_complete s"
  "library_ok h (record_attempt fl ok n d c s) = library_ok h s"
  by (simp_all add: record_attempt_def QueryPerformanceCounter_def)

lemma record_attempt_stats:
  "attempted ok n c (current_stats (monitor s)) (current_stats (monitor (record_attempt fl ok n d c s)))"
  by (simp add: record_attempt_def QueryPerformanceCounter_def attempted_def Let_def
      health_monitor_record_generation_attempt_def health_monitor_update_derived_values_def)

lemma attempted_ok:
  assumes "monitor_ok s" "attempted ok n c (current_stats (monitor s)) (current_stats (monitor s'))"
    "rng_collector s' = None \<longleftrightarrow> rng_collector s = None"
  shows "monitor_ok s'"
  using assms by (simp add: monitor_ok_def attempted_def) 

definition failed_call :: "'d rng_state \<Rightarrow> u8 list option \<Rightarrow> int \<Rightarrow> u8 list option \<Rightarrow> 'd rng_state \<Rightarrow> bool" where
  "failed_call s buffer r buffer' s' \<longleftrightarrow> buffer' = buffer \<and> rng_collector s' = rng_collector s \<and>
     library s' = library s \<and> entropy_self_test_complete s' = entropy_self_test_complete s \<and>
     attempted False 0 r (current_stats (monitor s)) (current_stats (monitor s'))"

lemma get_random_bytes_refused:
  assumes "get_random_bytes fl buffer len s = Some (r, buffer', s')"
  shows "buffer = None \<and> len \<noteq> 0 \<Longrightarrow> r = RNG_ERR_INVALID_ARGUMENT \<and> failed_call s buffer r buffer' s'"
    "\<not> (buffer = None \<and> len \<noteq> 0) \<Longrightarrow> rng_collector s = None \<Longrightarrow>
       r = RNG_ERR_NOT_INITIALIZED \<and> failed_call s buffer r buffer' s'"
    "rng_collector s \<noteq> None \<Longrightarrow> len = 0 \<Longrightarrow> r = 0 \<and> buffer' = buffer \<and> s' = s"
  using assms
  by (auto simp: get_random_bytes_def failed_call_def record_attempt_frame record_attempt_stats
      split: option.splits)

definition generated ::
  "heap_block multiset \<Rightarrow> u64 \<Rightarrow> 'd rng_state \<Rightarrow> u8 list \<Rightarrow> int \<Rightarrow> u8 list option \<Rightarrow> 'd rng_state \<Rightarrow> bool" where
  "generated h len s buf r buffer' s' \<longleftrightarrow> (\<exists>buf' n pieces. buffer' = Some buf' \<and>
     length buf' = length buf \<and> drop (unat len) buf' = drop (unat len) buf \<and> n \<le> len \<and>
     take (unat n) buf' = concat pieces \<and> (\<forall>piece \<in> set pieces. supplied piece) \<and>
     (r = 0 \<and> n = len \<or> r = RNG_ERR_GENERATION_FAILED) \<and>
     attempted (r = 0) n r (current_stats (monitor s)) (current_stats (monitor s')) \<and>
     library_ok h s' \<and> rng_collector s' \<noteq> None)"

lemma get_random_bytes_generated:
  assumes "get_random_bytes fl (Some buf) len s = Some (r, buffer', s')" "library_ok h s"
    "unat len \<le> length buf" "rng_collector s \<noteq> None" "len \<noteq> 0"
  shows "generated h len s buf r buffer' s'"
proof -
  let ?t = "s\<lparr>qpc_pos := qpc_pos s + 1\<rparr>"
  from assms(1,4,5) obtain ret n buf' s1 where
    l: "generate_loop fl len 0 0 buf ?t = Some (ret, n, buf', s1)" and
    e: "(let s2 = s1\<lparr>qpc_pos := qpc_pos s1 + 1\<rparr>;
             d = qpc_elapsed_seconds fl s2 (qpc s (qpc_pos s)) (qpc s1 (qpc_pos s1))
         in if ret < 0
            then (RNG_ERR_GENERATION_FAILED, Some buf',
                  record_attempt fl False n d RNG_ERR_GENERATION_FAILED s2)
            else if n \<noteq> len
            then (RNG_ERR_SHORT_READ, Some buf', record_attempt fl False n d RNG_ERR_SHORT_READ s2)
            else (0, Some buf', record_attempt fl True n d 0 s2)) = (r, buffer', s')"
    by (auto simp: get_random_bytes_def QueryPerformanceCounter_def Let_def elim!: bind_SomeE)
  let ?st = "current_stats (monitor s)"
  have "generating h ?st ?t" using assms(2,4) by (simp add: generating_def)
  from generate_loop_result [OF l this assms(3)] have g: "generating h ?st s1" "filled buf 0 buf' n"
    "n \<le> len" "drop (unat len) buf' = drop (unat len) buf" "ret < 0 \<or> n = len" by simp_all
  from g(2) obtain pieces where p: "length buf' = length buf" "take (unat n) buf' = concat pieces"
    "\<forall>piece \<in> set pieces. supplied piece" by (auto simp: filled_def)
  from e obtain d s2 where s2: "s2 = s1\<lparr>qpc_pos := qpc_pos s1 + 1\<rparr>" and
    c: "ret < 0 \<and> r = RNG_ERR_GENERATION_FAILED \<and> buffer' = Some buf' \<and>
        s' = record_attempt fl False n d RNG_ERR_GENERATION_FAILED s2 \<or>
      n = len \<and> r = 0 \<and> buffer' = Some buf' \<and> s' = record_attempt fl True n d 0 s2"
    using g(5) by (auto simp: Let_def split: if_splits)
  have g2: "library_ok h s2" "rng_collector s2 \<noteq> None" "current_stats (monitor s2) = ?st"
    using g(1) by (simp_all add: s2 generating_def)
  have "attempted (r = 0) n r ?st (current_stats (monitor s'))"
    using c record_attempt_stats [of _ n _ s2 fl d] g2(3) by auto
  moreover have "library_ok h s'" "rng_collector s' \<noteq> None" "buffer' = Some buf'"
    using c g2 by (auto simp: record_attempt_frame)
  ultimately show ?thesis using p g(3,4) c unfolding generated_def by blast
qed

lemma get_random_bytes_keeps:
  assumes "get_random_bytes fl buffer len s = Some (r, buffer', s')" "library_ok h s" "monitor_ok s"
    "\<forall>buf. buffer = Some buf \<longrightarrow> unat len \<le> length buf"
  shows "library_ok h s' \<and> monitor_ok s'"
proof -
  note refused = get_random_bytes_refused [OF assms(1)]
  have failed: "library_ok h s' \<and> monitor_ok s'" if "failed_call s buffer c buffer' s'" for c
    using that assms(2) attempted_ok [OF assms(3), of False 0 c s']
    by (simp add: failed_call_def library_ok_def split: option.splits)
  consider "buffer = None \<and> len \<noteq> 0" | "\<not> (buffer = None \<and> len \<noteq> 0)" "rng_collector s = None"
    | "rng_collector s \<noteq> None" "len = 0" | buf where "buffer = Some buf" "rng_collector s \<noteq> None" "len \<noteq> 0"
    by (cases buffer) auto
  then show ?thesis
  proof cases
    case 4
    with assms get_random_bytes_generated [of fl buf len s r buffer' s' h]
    have "generated h len s buf r buffer' s'" by simp
    then obtain n where a: "attempted (r = 0) n r (current_stats (monitor s)) (current_stats (monitor s'))"
      and k: "library_ok h s'" "rng_collector s' \<noteq> None"
      unfolding generated_def by blast
    with 4(2) attempted_ok [OF assms(3) a] show ?thesis by simp
  qed (use refused failed assms(2,3) in blast)+
qed

section \<open>Reachable states of the process\<close>

inductive rng_step :: "'d float_ops \<Rightarrow> 'd rng_state \<Rightarrow> 'd rng_state \<Rightarrow> bool" for fl where
  configure: "rng_configure settings s = (r, s') \<Longrightarrow> rng_step fl s s'"
| init: "init_rng s = Some (r, s') \<Longrightarrow> rng_step fl s s'"
| generate: "get_random_bytes fl buffer len s = Some (r, buffer', s') \<Longrightarrow>
    \<forall>buf. buffer = Some buf \<longrightarrow> unat len \<le> length buf \<Longrightarrow> rng_step fl s s'"
| shutdown: "rng_step fl s (shutdown_rng s)"
| clear: "rng_step fl s (s\<lparr>monitor := health_monitor_clear_history fl (monitor s)\<rparr>)"
| snapshot: "rng_step fl s (s\<lparr>monitor := snd (health_monitor_snapshot fl (monitor s))\<rparr>)"

inductive rng_reachable :: "'d float_ops \<Rightarrow> 'd rng_state \<Rightarrow> 'd rng_state \<Rightarrow> bool" for fl s0 where
  start: "rng_reachable fl s0 s0"
| step: "rng_reachable fl s0 s \<Longrightarrow> rng_step fl s s' \<Longrightarrow> rng_reachable fl s0 s'"

inductive_cases rng_stepE: "rng_step fl s s'"

text \<open>The process as it is loaded: every static variable is zero.\<close>

definition process_start ::
  "'d float_ops \<Rightarrow> jent_world \<Rightarrow> (nat \<Rightarrow> int) \<Rightarrow> int \<Rightarrow> 'd rng_state" where
  "process_start fl w counter frequency = \<lparr>rng_collector = None, entropy_self_test_complete = False,
     current_settings = rng_settings_defaults, library = w,
     monitor = zero_monitor fl (counter 0) frequency, qpc = counter, qpc_pos = 1,
     qpc_frequency = frequency\<rparr>"

lemma shutdown_keeps:
  assumes "library_ok h s" "monitor_ok s"
  shows "library_ok h (shutdown_rng s) \<and> monitor_ok (shutdown_rng s) \<and>
    rng_collector (shutdown_rng s) = None"
  using library_freed [OF assms(1)] assms(2)
  by (simp add: shutdown_rng_def Let_def monitor_ok_def health_monitor_set_initialized_def)

lemma rng_step_keeps:
  assumes "rng_step fl s s'" "library_ok h s" "monitor_ok s"
  shows "library_ok h s' \<and> monitor_ok s'"
  using assms(1)
proof cases
  case (configure settings r)
  with assms(2,3) show ?thesis
    by (auto simp: rng_configure_def library_ok_def monitor_ok_def split: if_splits)
next
  case (init r)
  with assms(2,3) init_rng_keeps show ?thesis by blast
next
  case (generate buffer len r buffer')
  with assms(2,3) get_random_bytes_keeps show ?thesis by blast
next
  case shutdown
  with assms(2,3) shutdown_keeps show ?thesis by blast
next
  case clear
  with assms(2,3) show ?thesis
    by (simp add: monitor_ok_def health_monitor_clear_history_def zero_stats_def Let_def)
next
  case snapshot
  with assms(2,3) show ?thesis
    by (simp add: monitor_ok_def health_monitor_snapshot_def Let_def
        health_monitor_update_derived_values_def)
qed

lemma process_start_ok:
  "handler_matched w \<Longrightarrow> g_fips_cb w = None \<Longrightarrow>
     library_ok (w_heap w) (process_start fl w q f) \<and> monitor_ok (process_start fl w q f)"
  by (simp add: process_start_def library_ok_def monitor_ok_def zero_monitor_def zero_stats_def)

lemma rng_reachable_ok:
  assumes "rng_reachable fl (process_start fl w q f) s" "handler_matched w" "g_fips_cb w = None"
  shows "library_ok (w_heap w) s \<and> monitor_ok s"
  using assms(1)
proof induction
  case start
  show ?case using process_start_ok [OF assms(2,3)] by blast
next
  case (step s s')
  with rng_step_keeps show ?case by blast
qed

text \<open>
  C15. In every state that a sequence of calls of the wrapper can reach, in any order and with any
  arguments, whatever the library answers: the heap is that of the start plus the blocks of the
  collector, if there is one; the collector is well formed; the monitor says initialised exactly
  when there is a collector; and a shutdown returns the heap to that of the start.
\<close>

theorem wrapper_owns_collector:
  assumes "rng_reachable fl (process_start fl w q f) s" "handler_matched w" "g_fips_cb w = None"
  shows "w_heap (library s) =
      w_heap w + (case rng_collector s of None \<Rightarrow> {#} | Some ec \<Rightarrow> collector_blocks ec) \<and>
    (\<forall>ec. rng_collector s = Some ec \<longrightarrow> collector_ok ec) \<and>
    (st_initialized (current_stats (monitor s)) \<longleftrightarrow> rng_collector s \<noteq> None) \<and>
    w_heap (library (shutdown_rng s)) = w_heap w \<and> rng_collector (shutdown_rng s) = None"
proof -
  note k = rng_reachable_ok [OF assms]
  then have "library_ok (w_heap w) (shutdown_rng s) \<and> rng_collector (shutdown_rng s) = None"
    using shutdown_keeps by blast
  moreover from this have "w_heap (library (shutdown_rng s)) = w_heap w"
    by (auto simp: library_ok_def)
  ultimately show ?thesis
    using k by (cases "rng_collector s") (simp_all add: library_ok_def monitor_ok_def)
qed

theorem wrapper_owns_collector_witness:
  "let s = shutdown_rng (process_start int_ops test_world int 1)
   in w_heap (library s) = w_heap test_world \<and> \<not> st_initialized (current_stats (monitor s))"
proof -
  let ?s = "process_start int_ops test_world int 1"
  have "rng_reachable int_ops ?s (shutdown_rng ?s)" 
    by (rule rng_reachable.step [OF rng_reachable.start rng_step.shutdown])
  moreover have "g_fips_cb test_world = None" by (simp add: test_world_def)
  moreover have "rng_collector (shutdown_rng ?s) = None" by (simp add: shutdown_rng_def Let_def)
  ultimately show ?thesis
    using wrapper_owns_collector [OF _ test_world_matched(2), of int_ops int 1 "shutdown_rng ?s"]
    unfolding Let_def by simp
qed

text \<open>
  \<open>init_rng\<close> registers its FIPS failure callback only after the library was initialised, when
  the library no longer accepts one, and ignores the error: in every reachable state no callback is
  registered, the failure count and mask that the dashboard shows are still 0, and once the self
  test has passed (so whenever there is a collector) every attempt to register one is refused.
\<close>

theorem fips_callback_never_registered:
  assumes "rng_reachable fl (process_start fl w q f) s" "handler_matched w" "g_fips_cb w = None"
  shows "g_fips_cb (library s) = None \<and>
    (rng_collector s \<noteq> None \<longrightarrow> entropy_self_test_complete s) \<and>
    (entropy_self_test_complete s \<longrightarrow>
       jent_set_fips_failure_callback cb (library s) = (- EAGAIN, library s)) \<and>
    st_fips_failure_count (fst (health_monitor_snapshot fl (monitor s))) = 0 \<and>
    st_last_fips_failure_mask (fst (health_monitor_snapshot fl (monitor s))) = 0"
  using rng_reachable_ok [OF assms]
  by (simp add: library_ok_def monitor_ok_def health_monitor_snapshot_def Let_def
      health_monitor_update_derived_values_def jent_set_fips_failure_callback_def
      jent_set_fips_failure_callback_internal_def)

theorem fips_callback_never_registered_witness:
  "let s = shutdown_rng (process_start int_ops test_world int 1)
   in g_fips_cb (library s) = None \<and>
      st_fips_failure_count (fst (health_monitor_snapshot int_ops (monitor s))) = 0"
proof -
  let ?s = "process_start int_ops test_world int 1"
  have "rng_reachable int_ops ?s (shutdown_rng ?s)" 
    by (rule rng_reachable.step [OF rng_reachable.start rng_step.shutdown])
  moreover have "g_fips_cb test_world = None" by (simp add: test_world_def)
  ultimately show ?thesis
    using fips_callback_never_registered [OF _ test_world_matched(2), of int_ops int 1 "shutdown_rng ?s"]
    unfolding Let_def by blast
qed

text \<open>
  C16. \<open>get_random_bytes\<close>, for a process whose collector is in order: a missing buffer and a missing
  collector are refused with their own error, an empty request succeeds without touching anything;
  otherwise the bytes delivered are pieces that the library supplied, in order and without a gap,
  the whole request if the call succeeds, and the only failure is that of the library: the short
  read of the interface never occurs. The monitor records the attempt with the bytes delivered, also
  when it failed, and nothing outside the request is written.
\<close>

theorem get_random_bytes_outcome:
  assumes "get_random_bytes fl buffer len s = Some (r, buffer', s')" "library_ok h s"
    "\<forall>buf. buffer = Some buf \<longrightarrow> unat len \<le> length buf"
  shows "if buffer = None \<and> len \<noteq> 0
         then r = RNG_ERR_INVALID_ARGUMENT \<and> failed_call s buffer r buffer' s'
         else if rng_collector s = None
         then r = RNG_ERR_NOT_INITIALIZED \<and> failed_call s buffer r buffer' s'
         else if len = 0 then r = 0 \<and> buffer' = buffer \<and> s' = s
         else \<exists>buf buf' n pieces. buffer = Some buf \<and> buffer' = Some buf' \<and>
           length buf' = length buf \<and> drop (unat len) buf' = drop (unat len) buf \<and> n \<le> len \<and>
           take (unat n) buf' = concat pieces \<and> (\<forall>piece \<in> set pieces. supplied piece) \<and>
           (r = 0 \<and> n = len \<or> r = RNG_ERR_GENERATION_FAILED) \<and>
           attempted (r = 0) n r (current_stats (monitor s)) (current_stats (monitor s')) \<and>
           library_ok h s' \<and> rng_collector s' \<noteq> None"
proof (cases "(buffer = None \<and> len \<noteq> 0) \<or> rng_collector s = None \<or> len = 0")
  case True
  with get_random_bytes_refused [OF assms(1)] show ?thesis by auto
next
  case False
  then obtain buf where b: "buffer = Some buf" by auto
  with False assms get_random_bytes_generated [of fl buf len s r buffer' s' h]
  have "generated h len s buf r buffer' s'" by simp
  with False b show ?thesis unfolding generated_def by auto
qed

theorem get_random_bytes_outcome_witness:
  "let s = process_start int_ops test_world int 1;
       s' = record_attempt int_ops False 0 0 (-1003) s
   in get_random_bytes int_ops (Some [7]) 1 s = Some (-1003, Some [7], s') \<and>
      st_failure_count (current_stats (monitor s')) = 1"
proof -
  let ?s = "process_start int_ops test_world int 1"
  have r: "get_random_bytes int_ops (Some [7]) 1 ?s =
      Some (-1003, Some [7], record_attempt int_ops False 0 0 (-1003) ?s)"
    by (simp add: get_random_bytes_def process_start_def int_ops_def)
  have "library_ok (w_heap test_world) ?s"
    by (rule process_start_ok [THEN conjunct1]) (use test_world_matched in \<open>simp_all add: test_world_def\<close>)
  from get_random_bytes_outcome [OF r this] r show ?thesis
    by (simp add: process_start_def failed_call_def attempted_def zero_monitor_def zero_stats_def Let_def)
qed

end
