(* ===== verification/Benchmark.thy ===== *)
theory Benchmark
  imports Rng_Wrapper
begin

unbundle bit_operations_syntax

text \<open>
  The benchmark (\<open>src/app/benchmark.c\<close>): a number of generation calls on a fresh collector, until they
  are done, one fails, or the run is cancelled; what was completed is reported on every path and the
  collector is released. The memory that \<open>malloc\<close> returns is an argument (\<open>None\<close> when it fails), the
  cancellation flag the values it has when it is read before each call. Printing is not modelled.
\<close>

abbreviation (input) BENCHMARK_RESULT_CANCELLED :: int where "BENCHMARK_RESULT_CANCELLED \<equiv> -2001"
abbreviation (input) SIZE_MAX :: u64 where "SIZE_MAX \<equiv> -1"

record 'd benchmark_result =
  br_completed_iterations :: int
  br_total_bytes :: u64
  br_init_seconds :: 'd
  br_generation_seconds :: 'd

definition rng_secure_zero :: "u8 list \<Rightarrow> u64 \<Rightarrow> u8 list" where
  "rng_secure_zero ptr len = memset_at ptr 0 0 (unat len)"

text \<open>Whether the loop was cancelled, the last return code, the calls completed, the buffer.\<close>

fun benchmark_loop ::
  "'d float_ops \<Rightarrow> (nat \<Rightarrow> bool) \<Rightarrow> u64 \<Rightarrow> nat \<Rightarrow> nat \<Rightarrow> int \<Rightarrow> int \<Rightarrow> u8 list \<Rightarrow> 'd rng_state \<Rightarrow>
     (bool \<times> int \<times> int \<times> u8 list \<times> 'd rng_state) option" where
  "benchmark_loop fl cancel bytes 0 i ret completed buffer s = Some (False, ret, completed, buffer, s)"
| "benchmark_loop fl cancel bytes (Suc n) i ret completed buffer s =
     (if cancel i then Some (True, ret, completed, buffer, s)
      else do {
        (ret, buf, s) \<leftarrow> get_random_bytes fl (Some buffer) bytes s;
        if ret \<noteq> 0 then Some (False, ret, completed, the buf, s)
        else benchmark_loop fl cancel bytes n (i + 1) ret (completed + 1) (the buf) s
      })"

definition benchmark_generate ::
  "'d float_ops \<Rightarrow> (nat \<Rightarrow> bool) \<Rightarrow> u64 \<Rightarrow> int \<Rightarrow> 'd benchmark_result \<Rightarrow> u8 list \<Rightarrow> 'd rng_state \<Rightarrow>
     (int \<times> 'd benchmark_result \<times> u8 list \<times> 'd rng_state) option" where
  "benchmark_generate fl cancel bytes_per_call iterations res buffer s = do {
     let (start, s) = QueryPerformanceCounter s;
     (cancelled, ret, completed, buffer, s) \<leftarrow>
       benchmark_loop fl cancel bytes_per_call (nat iterations) 0 0 0 buffer s;
     let (end_time, s) = QueryPerformanceCounter s;
     let res = res\<lparr>br_completed_iterations := completed,
                   br_generation_seconds := qpc_elapsed_seconds fl s start end_time,
                   br_total_bytes := bytes_per_call * of_int completed\<rparr>;
     Some (if ret \<noteq> 0 then ret else if cancelled then BENCHMARK_RESULT_CANCELLED else 0,
           res, buffer, s)
   }"

text \<open>
  The return code, what \<open>*out\<close> holds, the buffer as it is freed (\<open>None\<close> when there was none), and the
  process afterwards.
\<close>

definition run_benchmark ::
  "'d float_ops \<Rightarrow> u8 list option \<Rightarrow> (nat \<Rightarrow> bool) \<Rightarrow> u64 \<Rightarrow> int \<Rightarrow> 'd rng_state \<Rightarrow>
     (int \<times> 'd benchmark_result \<times> u8 list option \<times> 'd rng_state) option" where
  "run_benchmark fl malloc cancel bytes_per_call iterations s =
     (let res = \<lparr>br_completed_iterations = 0, br_total_bytes = 0, br_init_seconds = fl_zero fl,
                 br_generation_seconds = fl_zero fl\<rparr>
      in if bytes_per_call = 0 \<or> iterations \<le> 0 then Some (RNG_ERR_INVALID_ARGUMENT, res, None, s)
         else if bytes_per_call > SIZE_MAX div of_int iterations
         then Some (RNG_ERR_INVALID_ARGUMENT, res, None, s)
         else case malloc of
                None \<Rightarrow> Some (RNG_ERR_ALLOC_FAILED, res, None, s)
              | Some buffer \<Rightarrow> do {
                  let s = shutdown_rng s;
                  let (start, s) = QueryPerformanceCounter s;
                  (ret, s) \<leftarrow> init_rng s;
                  let (end_time, s) = QueryPerformanceCounter s;
                  let res = res\<lparr>br_init_seconds := qpc_elapsed_seconds fl s start end_time\<rparr>;
                  (ret, res, buffer, s) \<leftarrow> (if ret \<noteq> 0 then Some (ret, res, buffer, s)
                     else benchmark_generate fl cancel bytes_per_call iterations res buffer s);
                  Some (ret, res, Some (rng_secure_zero buffer bytes_per_call), shutdown_rng s)
                })"

section \<open>What a run reports and leaves behind\<close>

definition running :: "heap_block multiset \<Rightarrow> 'd rng_state \<Rightarrow> bool" where
  "running h s \<longleftrightarrow> library_ok h s \<and> monitor_ok s \<and> rng_collector s \<noteq> None"

lemma get_random_bytes_running:
  assumes "get_random_bytes fl (Some buf) len s = Some (r, buffer', s')" "running h s"
    "unat len \<le> length buf" "len \<noteq> 0"
  shows "\<exists>buf'. buffer' = Some buf' \<and> length buf' = length buf \<and> running h s' \<and>
    (r = 0 \<or> r = RNG_ERR_GENERATION_FAILED)"
proof -
  have k: "library_ok h s' \<and> monitor_ok s'"
    using get_random_bytes_keeps [OF assms(1), of h] assms(2,3) by (simp add: running_def)
  have "generated h len s buf r buffer' s'"
    using get_random_bytes_generated [OF assms(1)] assms(2-4) by (simp add: running_def)
  with k show ?thesis unfolding generated_def running_def by blast
qed

lemma benchmark_loop_result:
  "benchmark_loop fl cancel bytes n i 0 completed buf s = Some (c, r, done_calls, buf', s') \<Longrightarrow>
     running h s \<Longrightarrow> unat bytes \<le> length buf \<Longrightarrow> bytes \<noteq> 0 \<Longrightarrow>
     running h s' \<and> length buf' = length buf \<and> completed \<le> done_calls \<and> done_calls \<le> completed + int n \<and>
     (r = 0 \<or> r = RNG_ERR_GENERATION_FAILED) \<and> (r = 0 \<and> \<not> c \<longrightarrow> done_calls = completed + int n)"
proof (induction n arbitrary: i completed buf s)
  case (Suc n)
  show ?case
  proof (cases "cancel i")
    case True
    with Suc.prems show ?thesis by auto
  next
    case False
    with Suc.prems(1) obtain r1 b1 s1 where
      g: "get_random_bytes fl (Some buf) bytes s = Some (r1, b1, s1)" and
      l: "(if r1 \<noteq> 0 then Some (False, r1, completed, the b1, s1)
        else benchmark_loop fl cancel bytes n (i + 1) r1 (completed + 1) (the b1) s1) =
        Some (c, r, done_calls, buf', s')"
      by (auto elim!: bind_SomeE)
    from get_random_bytes_running [OF g Suc.prems(2-4)] obtain b where
      b: "b1 = Some b" "length b = length buf" "running h s1" "r1 = 0 \<or> r1 = RNG_ERR_GENERATION_FAILED"
      by blast
    show ?thesis
    proof (cases "r1 = 0")
      case True
      with Suc.IH [of "i + 1" "completed + 1" b s1] l b Suc.prems(3,4) show ?thesis by auto
    next
      case False
      with l b show ?thesis by auto
    qed
  qed
qed auto

lemma total_bytes_exact:
  assumes "\<not> bytes > SIZE_MAX div of_int iterations" "0 < iterations" "iterations < 2 ^ 31"
    "0 \<le> completed" "completed \<le> iterations"
  shows "uint (bytes * of_int completed) = uint bytes * completed"
proof -
  have i: "uint (of_int iterations :: u64) = iterations"
    using assms(2,3) by (intro word_of_int_inverse [OF refl]) simp_all
  have "uint (SIZE_MAX div of_int iterations) = (2 ^ 64 - 1) div iterations"
    by (simp add: uint_div i unsigned_minus_1_eq_mask mask_eq_exp_minus_1)
  then have "uint bytes \<le> (2 ^ 64 - 1) div iterations"
    using assms(1) by (simp add: word_less_def not_less)
  then have "uint bytes * completed \<le> (2 ^ 64 - 1) div iterations * iterations"
    using assms(2,4,5) by (intro mult_mono) (simp_all add: pos_imp_zdiv_nonneg_iff)
  also have "\<dots> \<le> 2 ^ 64 - 1"
    using div_mult_mod_eq [of "2 ^ 64 - 1" iterations] pos_mod_sign [OF assms(2), of "2 ^ 64 - 1"]
    by linarith
  finally have b: "uint bytes * completed < 2 ^ 64" by simp
  have c: "uint (of_int completed :: u64) = completed"
    using assms(3-5) by (intro word_of_int_inverse [OF refl]) simp_all
  show ?thesis using b assms(4) by (simp add: uint_word_ariths(3) c)
qed

text \<open>What a result of at most \<open>n\<close> calls says.\<close>

definition reports :: "u64 \<Rightarrow> int \<Rightarrow> int \<Rightarrow> 'd benchmark_result \<Rightarrow> bool" where
  "reports bytes n r res \<longleftrightarrow>
     uint (br_total_bytes res) = uint bytes * br_completed_iterations res \<and>
     0 \<le> br_completed_iterations res \<and> br_completed_iterations res \<le> n \<and>
     (r = 0 \<longrightarrow> br_completed_iterations res = n)"

lemma running_tick [simp]: "running h (s\<lparr>qpc_pos := n\<rparr>) = running h s"
  by (simp add: running_def monitor_ok_def)

lemma benchmark_generate_result:
  assumes "benchmark_generate fl cancel bytes n res buf s = Some (r, res', buf', s')" "running h s"
    "unat bytes \<le> length buf" "bytes \<noteq> 0" "\<not> bytes > SIZE_MAX div of_int n" "0 < n" "n < 2 ^ 31"
  shows "running h s' \<and> length buf' = length buf \<and> reports bytes n r res' \<and>
    r \<in> {0, RNG_ERR_GENERATION_FAILED, BENCHMARK_RESULT_CANCELLED}"
proof -
  from assms(1) obtain c ret k t where
    l: "benchmark_loop fl cancel bytes (nat n) 0 0 0 buf (s\<lparr>qpc_pos := qpc_pos s + 1\<rparr>) =
      Some (c, ret, k, buf', t)" and
    e: "r = (if ret \<noteq> 0 then ret else if c then BENCHMARK_RESULT_CANCELLED else 0)"
      "s' = t\<lparr>qpc_pos := qpc_pos t + 1\<rparr>" "br_completed_iterations res' = k"
      "br_total_bytes res' = bytes * of_int k"
    by (auto simp: benchmark_generate_def QueryPerformanceCounter_def Let_def elim!: bind_SomeE)
  have "running h (s\<lparr>qpc_pos := qpc_pos s + 1\<rparr>)" using assms(2) by simp
  from benchmark_loop_result [OF l this assms(3,4)] have k: "running h t" "length buf' = length buf"
    "0 \<le> k" "k \<le> n" "ret = 0 \<or> ret = RNG_ERR_GENERATION_FAILED" "ret = 0 \<and> \<not> c \<longrightarrow> k = n"
    using assms(6) by simp_all
  from total_bytes_exact [OF assms(5-7) k(3,4)] k e show ?thesis by (auto simp: reports_def)
qed

lemma run_benchmark_result:
  assumes "run_benchmark fl malloc cancel bytes iterations s = Some (r, res, freed, s')"
    "library_ok h s" "monitor_ok s" "iterations < 2 ^ 31"
    "\<forall>buffer. malloc = Some buffer \<longrightarrow> length buffer = unat bytes"
  shows "uint (br_total_bytes res) = uint bytes * br_completed_iterations res \<and>
    0 \<le> br_completed_iterations res \<and> br_completed_iterations res \<le> max 0 iterations \<and>
    (r = 0 \<longrightarrow> br_completed_iterations res = iterations) \<and>
    r \<in> {0, RNG_ERR_INVALID_ARGUMENT, RNG_ERR_ALLOC_FAILED, RNG_ERR_SELF_TEST_FAILED,
         RNG_ERR_GENERATION_FAILED, BENCHMARK_RESULT_CANCELLED} \<and>
    library_ok h s' \<and> monitor_ok s' \<and>
    (case freed of None \<Rightarrow> s' = s \<and> r \<in> {RNG_ERR_INVALID_ARGUMENT, RNG_ERR_ALLOC_FAILED}
     | Some buffer \<Rightarrow> rng_collector s' = None \<and> w_heap (library s') = h \<and>
         buffer = replicate (unat bytes) 0)"
proof (cases "bytes = 0 \<or> iterations \<le> 0 \<or> bytes > SIZE_MAX div of_int iterations \<or> malloc = None")
  case True
  with assms(1-3) show ?thesis by (auto simp: run_benchmark_def Let_def split: if_splits)
next
  case False
  then obtain buffer where b: "malloc = Some buffer" by auto
  have len: "length buffer = unat bytes" using assms(5) b by simp
  let ?t = "(shutdown_rng s)\<lparr>qpc_pos := qpc_pos (shutdown_rng s) + 1\<rparr>"
  have t: "library_ok h ?t" "monitor_ok ?t"
    using shutdown_keeps [OF assms(2,3)] by (simp_all add: monitor_ok_def)
  let ?res = "\<lambda>s1. \<lparr>br_completed_iterations = 0, br_total_bytes = 0, br_init_seconds =
      qpc_elapsed_seconds fl (s1\<lparr>qpc_pos := Suc (qpc_pos s1)\<rparr>)
        (qpc (shutdown_rng s) (qpc_pos (shutdown_rng s))) (qpc s1 (qpc_pos s1)),
      br_generation_seconds = fl_zero fl\<rparr>"
  from assms(1) False b obtain r1 s1 buf2 s2 where i: "init_rng ?t = Some (r1, s1)" and
    g: "(if r1 \<noteq> 0 then Some (r1, ?res s1, buffer, s1\<lparr>qpc_pos := Suc (qpc_pos s1)\<rparr>)
      else benchmark_generate fl cancel bytes iterations (?res s1) buffer (s1\<lparr>qpc_pos := Suc (qpc_pos s1)\<rparr>)) =
      Some (r, res, buf2, s2)" and
    e: "freed = Some (rng_secure_zero buf2 bytes)" "s' = shutdown_rng s2"
    by (auto simp: run_benchmark_def QueryPerformanceCounter_def Let_def elim!: bind_SomeE)
  note k = init_rng_keeps [OF i t]
  have x: "library_ok h s2 \<and> monitor_ok s2 \<and> length buf2 = unat bytes \<and> reports bytes iterations r res \<and>
    r \<in> {0, RNG_ERR_SELF_TEST_FAILED, RNG_ERR_ALLOC_FAILED, RNG_ERR_GENERATION_FAILED,
         BENCHMARK_RESULT_CANCELLED}"
  proof (cases "r1 = 0")
    case True
    with k have "running h (s1\<lparr>qpc_pos := Suc (qpc_pos s1)\<rparr>)" by (simp add: running_def monitor_ok_def)
    moreover have "benchmark_generate fl cancel bytes iterations (?res s1) buffer
        (s1\<lparr>qpc_pos := Suc (qpc_pos s1)\<rparr>) = Some (r, res, buf2, s2)" using g True by simp
    moreover have "unat bytes \<le> length buffer" "bytes \<noteq> 0" "\<not> bytes > SIZE_MAX div of_int iterations"
      "0 < iterations" using False len by auto
    ultimately have "running h s2 \<and> length buf2 = length buffer \<and> reports bytes iterations r res \<and>
        r \<in> {0, RNG_ERR_GENERATION_FAILED, BENCHMARK_RESULT_CANCELLED}"
      using assms(4) by (intro benchmark_generate_result)
    then show ?thesis using len by (auto simp only: running_def insert_iff empty_iff)
  next
    case r1: False
    with g k len False show ?thesis by (auto simp: monitor_ok_def reports_def)
  qed
  have "library_ok h s' \<and> monitor_ok s' \<and> rng_collector s' = None"
    unfolding e(2) by (rule shutdown_keeps) (use x in simp_all)
  moreover from this have "w_heap (library s') = h" by (auto simp: library_ok_def)
  moreover have "rng_secure_zero buf2 bytes = replicate (unat bytes) 0"
    using x by (simp add: rng_secure_zero_def memset_at_def)
  ultimately show ?thesis using x e(1) False by (auto simp: reports_def)
qed



end
