(* ===== verification/Entropy_Stats.thy ===== *)
theory Entropy_Stats
  imports Floats
begin

unbundle bit_operations_syntax

text \<open>
  The dashboard's statistics (\<open>src/app/entropy_stats.c\<close>): histogram, entropy estimates, chi-square,
  monobit, serial correlation and runs of the generated bytes, and the two health tests of
  SP 800-90B on a stream of timing samples. The counting is exact and shown correct; the formulas on
  \<open>double\<close> are written over the parameter \<open>math_ops\<close>.

  An array argument is a list (\<open>None\<close> for NULL) with at least the elements that the length argument
  announces; an \<open>int64_t\<close> count is an integer (at most eight times a length), an index a natural number.
\<close>

abbreviation (input) ENTROPY_STATS_BINS :: nat where "ENTROPY_STATS_BINS \<equiv> 256"

record entropy_histogram =
  h_counts :: "u64 list"
  h_total :: u64

record 'd entropy_chi_square =
  cs_statistic :: 'd
  cs_p_value :: 'd

record 'd entropy_monobit =
  mb_bit_total :: int
  mb_ones :: int
  mb_statistic :: 'd
  mb_p_value :: 'd

record 'd entropy_runs =
  ru_bit_total :: int
  ru_ones :: int
  ru_proportion :: 'd
  ru_applicable :: bool
  ru_observed_runs :: int
  ru_p_value :: 'd

record 'd entropy_report =
  er_byte_count :: u64
  er_shannon_bits_per_byte :: 'd
  er_min_entropy_bits_per_byte :: 'd
  er_chi_square :: "'d entropy_chi_square"
  er_monobit :: "'d entropy_monobit"
  er_serial_correlation :: 'd
  er_runs :: "'d entropy_runs"
  er_histogram :: "u64 list"

record entropy_rct_result =
  rct_cutoff :: u32
  rct_max_run :: u32
  rct_passed :: bool

record entropy_apt_result =
  apt_window_size :: u32
  apt_cutoff :: u32
  apt_windows_tested :: u32
  apt_windows_failed :: u32
  apt_passed :: bool

abbreviation (input) of_u64 :: "'d math_ops \<Rightarrow> u64 \<Rightarrow> 'd" where "of_u64 m w \<equiv> fl_of_int m (uint w)"

section \<open>Byte statistics\<close>

definition entropy_stats_histogram :: "u8 list option \<Rightarrow> u64 \<Rightarrow> entropy_histogram" where
  "entropy_stats_histogram data len =
     (case data of
        None \<Rightarrow> \<lparr>h_counts = replicate ENTROPY_STATS_BINS 0, h_total = 0\<rparr>
      | Some bytes \<Rightarrow>
          \<lparr>h_counts = foldl (\<lambda>counts i. let b = unat (bytes ! i) in counts[b := counts ! b + 1])
             (replicate ENTROPY_STATS_BINS 0) [0..<unat len],
           h_total = len\<rparr>)"

definition entropy_stats_shannon :: "'d math_ops \<Rightarrow> entropy_histogram \<Rightarrow> 'd" where
  "entropy_stats_shannon m h =
     (if h_total h = 0 then fl_zero m
      else foldl (\<lambda>bits i.
             if h_counts h ! i = 0 then bits
             else let p = fl_div m (of_u64 m (h_counts h ! i)) (of_u64 m (h_total h))
                  in fl_sub m bits (fl_mul m p (fl_log2 m p)))
           (fl_zero m) [0..<ENTROPY_STATS_BINS])"

definition entropy_stats_min_entropy :: "'d math_ops \<Rightarrow> entropy_histogram \<Rightarrow> 'd" where
  "entropy_stats_min_entropy m h =
     (if h_total h = 0 then fl_zero m
      else let max_count = foldl (\<lambda>max_count i. if h_counts h ! i > max_count then h_counts h ! i
                                                else max_count) 0 [0..<ENTROPY_STATS_BINS];
               p_max = fl_div m (of_u64 m max_count) (of_u64 m (h_total h))
           in fl_neg m (fl_log2 m p_max))"

definition entropy_stats_chi_square :: "'d math_ops \<Rightarrow> entropy_histogram \<Rightarrow> 'd entropy_chi_square" where
  "entropy_stats_chi_square m h =
     (if h_total h = 0 then \<lparr>cs_statistic = fl_zero m, cs_p_value = fl_of_int m 1\<rparr>
      else let n = fl_of_int m;
               expected = fl_div m (of_u64 m (h_total h)) (n 256);
               statistic = foldl (\<lambda>statistic i.
                   let diff = fl_sub m (of_u64 m (h_counts h ! i)) expected
                   in fl_add m statistic (fl_div m (fl_mul m diff diff) expected))
                 (fl_zero m) [0..<ENTROPY_STATS_BINS];
               df = n 255;
               ratio = fl_div m statistic df;
               term = fl_sub m (n 1) (fl_div m (n 2) (fl_mul m (n 9) df));
               denom = fl_sqrt m (fl_div m (n 2) (fl_mul m (n 9) df));
               z = fl_div m (fl_sub m (fl_pow m ratio (fl_div m (n 1) (n 3))) term) denom
           in \<lparr>cs_statistic = statistic,
               cs_p_value = fl_mul m (fl_div m (n 1) (n 2)) (fl_erfc m (fl_div m z (fl_sqrt m (n 2))))\<rparr>)"

definition entropy_stats_monobit :: "'d math_ops \<Rightarrow> u8 list \<Rightarrow> u64 \<Rightarrow> 'd entropy_monobit" where
  "entropy_stats_monobit m data len =
     (let bit_total = uint len * 8
      in if bit_total = 0
         then \<lparr>mb_bit_total = 0, mb_ones = 0, mb_statistic = fl_zero m, mb_p_value = fl_of_int m 1\<rparr>
         else let ones = foldl (\<lambda>ones i. foldl (\<lambda>ones k. ones + of_bool (bit (data ! i) k)) ones [0..<8])
                           0 [0..<unat len];
                  s = fl_of_int m (2 * ones - bit_total);
                  statistic = fl_div m (fl_abs m s) (fl_sqrt m (fl_of_int m bit_total))
              in \<lparr>mb_bit_total = bit_total, mb_ones = ones, mb_statistic = statistic,
                  mb_p_value = fl_erfc m (fl_div m statistic (fl_sqrt m (fl_of_int m 2)))\<rparr>)"

definition entropy_stats_serial_correlation :: "'d math_ops \<Rightarrow> u8 list \<Rightarrow> u64 \<Rightarrow> 'd" where
  "entropy_stats_serial_correlation m data len =
     (if len < 2 then fl_nan m
      else let n = fl_of_int m (uint len);
               at = (\<lambda>i. fl_of_int m (uint (data ! i)));
               (sum_xy, sum_x, sum_x2) = foldl (\<lambda>(sum_xy, sum_x, sum_x2) i.
                   let xi = at i; xi1 = at ((i + 1) mod unat len)
                   in (fl_add m sum_xy (fl_mul m xi xi1), fl_add m sum_x xi,
                       fl_add m sum_x2 (fl_mul m xi xi)))
                 (fl_zero m, fl_zero m, fl_zero m) [0..<unat len];
               num = fl_sub m (fl_mul m n sum_xy) (fl_mul m sum_x sum_x);
               den = fl_sub m (fl_mul m n sum_x2) (fl_mul m sum_x sum_x)
           in if fl_eq m den (fl_zero m) then fl_nan m else fl_div m num den)"

definition runs_step :: "int \<times> int \<times> int \<Rightarrow> bool \<Rightarrow> int \<times> int \<times> int" where
  "runs_step = (\<lambda>(ones, observed_runs, prev_bit) b.
     let bit = of_bool b;
         observed_runs = (if prev_bit < 0 then 1
                          else if bit \<noteq> prev_bit then observed_runs + 1 else observed_runs)
     in (ones + bit, observed_runs, bit))"

definition entropy_stats_runs :: "'d math_ops \<Rightarrow> u8 list \<Rightarrow> u64 \<Rightarrow> 'd entropy_runs" where
  "entropy_stats_runs m data len =
     (let bit_total = uint len * 8; n = fl_of_int m
      in if bit_total < 2
         then \<lparr>ru_bit_total = bit_total, ru_ones = 0, ru_proportion = fl_zero m,
               ru_applicable = False, ru_observed_runs = 0, ru_p_value = fl_zero m\<rparr>
         else case foldl (\<lambda>st i. foldl (\<lambda>st bitpos. runs_step st (bit (data ! i) bitpos)) st [0..<8])
                     (0, 0, -1) [0..<unat len]
              of (ones, observed_runs, _) \<Rightarrow>
                let pi = fl_div m (n ones) (n bit_total);
                    tau = fl_div m (n 2) (fl_sqrt m (n bit_total));
                    half = fl_div m (n 1) (n 2);
                    r = \<lparr>ru_bit_total = bit_total, ru_ones = ones, ru_proportion = pi,
                         ru_applicable = True, ru_observed_runs = observed_runs, ru_p_value = fl_zero m\<rparr>
                in if fl_le m tau (fl_abs m (fl_sub m pi half)) then r\<lparr>ru_applicable := False\<rparr>
                   else let vobs = n observed_runs;
                            q = fl_sub m (n 1) pi;
                            num = fl_abs m (fl_sub m vobs
                                    (fl_mul m (fl_mul m (fl_mul m (n 2) (n bit_total)) pi) q));
                            den = fl_mul m (fl_mul m (fl_mul m (n 2)
                                    (fl_sqrt m (fl_mul m (n 2) (n bit_total)))) pi) q
                        in r\<lparr>ru_p_value := fl_erfc m (fl_div m num den)\<rparr>)"

definition entropy_stats_report :: "'d math_ops \<Rightarrow> u8 list \<Rightarrow> u64 \<Rightarrow> 'd entropy_report" where
  "entropy_stats_report m data len =
     (let h = entropy_stats_histogram (Some data) len
      in \<lparr>er_byte_count = len, er_shannon_bits_per_byte = entropy_stats_shannon m h,
          er_min_entropy_bits_per_byte = entropy_stats_min_entropy m h,
          er_chi_square = entropy_stats_chi_square m h,
          er_monobit = entropy_stats_monobit m data len,
          er_serial_correlation = entropy_stats_serial_correlation m data len,
          er_runs = entropy_stats_runs m data len, er_histogram = h_counts h\<rparr>)"

section \<open>Health tests on timing samples\<close>

fun crit_binom_loop ::
  "'d math_ops \<Rightarrow> nat \<Rightarrow> 'd \<Rightarrow> 'd \<Rightarrow> 'd \<Rightarrow> 'd \<Rightarrow> nat \<Rightarrow> 'd \<Rightarrow> nat" where
  "crit_binom_loop m n log_p log_q log_n_fact alpha k tail =
     (let f = fl_of_int m;
          log_pmf = fl_add m (fl_add m (fl_sub m (fl_sub m log_n_fact
                        (fl_lgamma m (fl_add m (f (int k)) (f 1))))
                        (fl_lgamma m (fl_add m (f (int (n - k))) (f 1))))
                      (fl_mul m (f (int k)) log_p)) (fl_mul m (f (int (n - k))) log_q);
          tail = fl_add m tail (fl_exp m log_pmf)
      in if fl_less m alpha tail \<or> k = 0 then k
         else crit_binom_loop m n log_p log_q log_n_fact alpha (k - 1) tail)"

declare crit_binom_loop.simps [simp del]

definition crit_binom :: "'d math_ops \<Rightarrow> u32 \<Rightarrow> 'd \<Rightarrow> 'd \<Rightarrow> u32" where
  "crit_binom m n p alpha =
     (if fl_le m p (fl_zero m) then 0
      else if fl_le m (fl_of_int m 1) p then n
      else of_nat (crit_binom_loop m (unat n) (fl_log m p) (fl_log1p m (fl_neg m p))
             (fl_lgamma m (fl_add m (fl_of_int m (uint n)) (fl_of_int m 1))) alpha (unat n)
             (fl_zero m)))"

definition normalize_alpha :: "'d math_ops \<Rightarrow> 'd \<Rightarrow> 'd" where
  "normalize_alpha m alpha =
     (if fl_less m (fl_zero m) alpha \<and> fl_less m alpha (fl_of_int m 1) then alpha
      else fl_div m (fl_of_int m 1) (fl_of_int m 1048576))"

definition normalize_h :: "'d math_ops \<Rightarrow> 'd \<Rightarrow> 'd" where
  "normalize_h m h_bits = (if fl_less m (fl_zero m) h_bits then h_bits else fl_of_int m 1)"

definition rct_run_loop :: "'d math_ops \<Rightarrow> 'd list \<Rightarrow> nat \<Rightarrow> u32 \<times> u32" where
  "rct_run_loop m samples n =
     foldl (\<lambda>(run, max_run) i.
         if fl_eq m (samples ! i) (samples ! (i - 1))
         then let run = run + 1 in (run, if run > max_run then run else max_run)
         else (1, max_run))
       (1, 1) [1..<n]"

definition entropy_stats_rct ::
  "'d math_ops \<Rightarrow> 'd list option \<Rightarrow> nat \<Rightarrow> 'd \<Rightarrow> 'd \<Rightarrow> entropy_rct_result" where
  "entropy_stats_rct m samples n alpha h_bits =
     (let alpha = normalize_alpha m alpha;
          h_bits = normalize_h m h_bits;
          cutoff = fl_to_unsigned m (fl_add m (fl_of_int m 1)
                     (fl_ceil m (fl_div m (fl_neg m (fl_log2 m alpha)) h_bits)))
      in if samples = None \<or> n = 0
         then \<lparr>rct_cutoff = cutoff, rct_max_run = 0, rct_passed = True\<rparr>
         else let max_run = snd (rct_run_loop m (the samples) n)
              in \<lparr>rct_cutoff = cutoff, rct_max_run = max_run, rct_passed = max_run < cutoff\<rparr>)"

definition apt_window_count :: "'d math_ops \<Rightarrow> 'd list \<Rightarrow> nat \<Rightarrow> nat \<Rightarrow> u32" where
  "apt_window_count m samples start window_size =
     foldl (\<lambda>count i. if fl_eq m (samples ! i) (samples ! start) then count + 1 else count)
       0 [start..<start + window_size]"

function apt_loop ::
  "'d math_ops \<Rightarrow> 'd list \<Rightarrow> nat \<Rightarrow> u32 \<Rightarrow> nat \<Rightarrow> nat \<Rightarrow> u32 \<Rightarrow> u32 \<Rightarrow> u32 \<times> u32" where
  "apt_loop m samples n cutoff window_size start tested failed =
     (if window_size = 0 then (tested, failed)
      else if start + window_size \<le> n
      then apt_loop m samples n cutoff window_size (start + window_size) (tested + 1)
             (if apt_window_count m samples start window_size \<ge> cutoff then failed + 1 else failed)
      else (tested, failed))"
  by pat_completeness auto
termination
  by (relation "measure (\<lambda>(m, samples, n, cutoff, window_size, start, _). Suc n - start)") auto

declare apt_loop.simps [simp del]

definition entropy_stats_apt ::
  "'d math_ops \<Rightarrow> 'd list option \<Rightarrow> nat \<Rightarrow> u32 \<Rightarrow> 'd \<Rightarrow> 'd \<Rightarrow> entropy_apt_result" where
  "entropy_stats_apt m samples n window_size alpha h_bits =
     (let window_size = (if window_size = 0 then 512 else window_size);
          alpha = normalize_alpha m alpha;
          h_bits = normalize_h m h_bits;
          cutoff = 1 + crit_binom m window_size (fl_pow m (fl_of_int m 2) (fl_neg m h_bits)) alpha
      in if samples = None \<or> n < unat window_size
         then \<lparr>apt_window_size = window_size, apt_cutoff = cutoff, apt_windows_tested = 0,
               apt_windows_failed = 0, apt_passed = True\<rparr>
         else case apt_loop m (the samples) n cutoff (unat window_size) 0 0 0 of (tested, failed) \<Rightarrow>
           \<lparr>apt_window_size = window_size, apt_cutoff = cutoff, apt_windows_tested = tested,
            apt_windows_failed = failed, apt_passed = (failed = 0)\<rparr>)"


section \<open>The counting is exact\<close>

lemma foldl_index:
  "n \<le> length xs \<Longrightarrow> foldl (\<lambda>st i. f st (xs ! i)) a [0..<n] = foldl f a (take n xs)"
  by (induction n) (simp_all add: take_Suc_conv_app_nth)

lemma foldl_concat: "foldl f a (concat xss) = foldl (foldl f) a xss"
  by (induction xss arbitrary: a) simp_all

text \<open>The bits of the bytes in the order in which they are read, the least significant first.\<close>

definition data_bits :: "u8 list \<Rightarrow> bool list" where
  "data_bits data = concat (map (\<lambda>b. map (bit b) [0..<8]) data)"

lemma length_data_bits: "length (data_bits data) = 8 * length data"
  by (simp add: data_bits_def length_concat comp_def sum_list_triv)

lemma foldl_bits:
  assumes "n \<le> length data"
  shows "foldl (\<lambda>st i. foldl (\<lambda>st k. f st (bit (data ! i) k)) st [0..<8]) a [0..<n] =
    foldl f a (data_bits (take n data))"
proof -
  have "foldl (\<lambda>st i. foldl (\<lambda>st k. f st (bit (data ! i) k)) st [0..<8]) a [0..<n] =
      foldl (\<lambda>st b. foldl (\<lambda>st k. f st (bit b k)) st [0..<8]) a (take n data)"
    by (rule foldl_index [OF assms])
  then show ?thesis by (simp add: data_bits_def foldl_concat foldl_map)
qed

lemma foldl_ones: "foldl (\<lambda>ones b. ones + of_bool b) a bs = a + int (length (filter id bs))"
  by (induction bs arbitrary: a) simp_all

lemma runs_step_bits:
  "bs \<noteq> [] \<Longrightarrow> foldl runs_step (0, 0, -1) bs =
     (int (length (filter id bs)), int (length (remdups_adj bs)), of_bool (last bs))"
proof (induction bs rule: rev_induct)
  case (snoc b bs)
  show ?case
  proof (cases bs rule: rev_cases)
    case Nil
    then show ?thesis by (simp add: runs_step_def)
  next
    case (snoc cs c)
    with snoc.IH show ?thesis
      by (auto simp: runs_step_def remdups_adj_append_two Let_def)
  qed
qed simp

lemma histogram_counts:
  "length counts = 256 \<Longrightarrow>
     length (foldl (\<lambda>counts b. counts[unat b := counts ! unat b + 1]) counts bytes) = 256 \<and>
     foldl (\<lambda>counts b. counts[unat b := counts ! unat b + 1]) counts bytes ! unat (c :: u8) =
       counts ! unat c + (of_nat (count_list bytes c) :: u64)"
proof (induction bytes arbitrary: counts)
  case (Cons b bytes)
  have "unat b < 256" using unsigned_less [of b, where 'a = nat] by simp
  moreover have "unat b = unat c \<longleftrightarrow> b = c" by (simp add: word_unat_eq_iff)
  ultimately show ?case
    using Cons.prems Cons.IH [of "counts[unat b := counts ! unat b + 1]"]
    by (auto simp: nth_list_update)
qed simp

text \<open>The lengths of the chains of equal neighbours in the first \<open>n\<close> samples.\<close>

definition chain :: "('a \<Rightarrow> 'a \<Rightarrow> bool) \<Rightarrow> 'a list \<Rightarrow> nat \<Rightarrow> nat \<Rightarrow> bool" where
  "chain E xs n k \<longleftrightarrow> k \<le> n \<and> (\<forall>j. n < j + k \<and> j < n \<longrightarrow> E (xs ! j) (xs ! (j - 1)))"

definition repeats :: "('a \<Rightarrow> 'a \<Rightarrow> bool) \<Rightarrow> 'a list \<Rightarrow> nat \<Rightarrow> nat \<Rightarrow> bool" where
  "repeats E xs n k \<longleftrightarrow> (\<exists>e \<le> n. chain E xs e k)"

lemma chain_Suc:
  "0 < n \<Longrightarrow> chain E xs (Suc n) (Suc (Suc k)) \<longleftrightarrow> E (xs ! n) (xs ! (n - 1)) \<and> chain E xs n (Suc k)"
proof
  assume c: "chain E xs (Suc n) (Suc (Suc k))"
  then have e: "E (xs ! j) (xs ! (j - 1))" if "n < j + Suc k" "j \<le> n" for j
    using that by (simp add: chain_def)
  from c have "Suc k \<le> n" by (simp add: chain_def)
  with e show "E (xs ! n) (xs ! (n - 1)) \<and> chain E xs n (Suc k)" by (simp add: chain_def)
next
  assume "E (xs ! n) (xs ! (n - 1)) \<and> chain E xs n (Suc k)"
  then show "chain E xs (Suc n) (Suc (Suc k))" by (auto simp: chain_def less_Suc_eq)
qed

lemma chain_1: "chain E xs (Suc n) (Suc 0)"
  by (auto simp: chain_def)

lemma repeats_Suc: "repeats E xs (Suc n) k \<longleftrightarrow> repeats E xs n k \<or> chain E xs (Suc n) k"
  by (auto simp: repeats_def le_Suc_eq)

definition run_lengths :: "('a \<Rightarrow> 'a \<Rightarrow> bool) \<Rightarrow> 'a list \<Rightarrow> nat \<Rightarrow> u32 \<times> u32 \<Rightarrow> bool" where
  "run_lengths E xs n = (\<lambda>(run, max_run). unat run \<le> n \<and> unat max_run \<le> n \<and>
     (\<forall>k > 0. chain E xs n k \<longleftrightarrow> k \<le> unat run) \<and> (\<forall>k > 0. repeats E xs n k \<longleftrightarrow> k \<le> unat max_run))"

lemma run_lengths_step:
  assumes "run_lengths E xs n (run, max_run)" "0 < n" "n < 2 ^ 32 - 1"
  shows "run_lengths E xs (Suc n)
    (if E (xs ! n) (xs ! (n - 1)) then (run + 1, if run + 1 > max_run then run + 1 else max_run)
     else (1, max_run))"
proof -
  have b: "unat run \<le> n" "unat max_run \<le> n"
    and c: "\<And>k. 0 < k \<Longrightarrow> chain E xs n k \<longleftrightarrow> k \<le> unat run"
    and r: "\<And>k. 0 < k \<Longrightarrow> repeats E xs n k \<longleftrightarrow> k \<le> unat max_run"
    using assms(1) by (auto simp: run_lengths_def)
  have u: "unat (run + 1) = Suc (unat run)"
    using b(1) assms(3) by (intro unat_Suc_below [of run "Suc n"]) simp_all
  have m: "0 < unat max_run"
    using r [of 1] chain_1 [of E xs "n - 1"] assms(2) by (auto simp: repeats_def)
  have ch: "chain E xs (Suc n) k \<longleftrightarrow> k \<le> (if E (xs ! n) (xs ! (n - 1)) then Suc (unat run) else 1)"
    if k0: "0 < k" for k
  proof (cases "k = 1")
    case True
    then show ?thesis using chain_1 [of E xs n] by simp
  next
    case False
    then obtain j where k: "k = Suc (Suc j)" using k0 by (cases k; cases "k - 1") auto
    have "chain E xs n (Suc j) \<longleftrightarrow> Suc j \<le> unat run" by (rule c) simp
    then show ?thesis unfolding k chain_Suc [OF assms(2)] by simp
  qed
  show ?thesis
  proof (cases "E (xs ! n) (xs ! (n - 1))")
    case True
    have x: "unat (if run + 1 > max_run then run + 1 else max_run) = max (Suc (unat run)) (unat max_run)"
      by (simp add: u word_less_nat_alt max_def)
    have "repeats E xs (Suc n) k \<longleftrightarrow> k \<le> max (Suc (unat run)) (unat max_run)" if "0 < k" for k
      using repeats_Suc [of E xs n k] ch [OF that] r [OF that] True by (auto simp: le_max_iff_disj)
    then show ?thesis
      using b ch True unfolding run_lengths_def by (simp add: u x)
  next
    case False
    have "repeats E xs (Suc n) k \<longleftrightarrow> k \<le> unat max_run" if "0 < k" for k
      using repeats_Suc [of E xs n k] ch [OF that] r [OF that] m False by auto
    then show ?thesis
      using b ch False unfolding run_lengths_def by simp
  qed
qed

lemma run_lengths_loop:
  "0 < n \<Longrightarrow> n < 2 ^ 32 \<Longrightarrow> run_lengths (fl_eq m) xs n (rct_run_loop m xs n)"
proof (induction n)
  case (Suc n)
  show ?case
  proof (cases "n = 0")
    case True
    have "chain (fl_eq m) xs 1 k \<longleftrightarrow> k \<le> 1" if "0 < k" for k
      using that by (auto simp: chain_def)
    moreover have "repeats (fl_eq m) xs 1 k \<longleftrightarrow> k \<le> 1" if "0 < k" for k
      using that by (auto simp: repeats_def chain_def le_Suc_eq)
    ultimately show ?thesis using True by (simp add: run_lengths_def rct_run_loop_def)
  next
    case False
    obtain run mx where l: "rct_run_loop m xs n = (run, mx)" by fastforce
    have "rct_run_loop m xs (Suc n) =
        (if fl_eq m (xs ! n) (xs ! (n - 1)) then (run + 1, if run + 1 > mx then run + 1 else mx)
         else (1, mx))"
      using l False by (simp add: rct_run_loop_def Let_def)
    with run_lengths_step [of "fl_eq m" xs n run mx] Suc False l show ?thesis by simp
  qed
qed simp


text \<open>The adaptive proportion test: the windows and how often the first value of each occurs.\<close>

definition window :: "'a list \<Rightarrow> nat \<Rightarrow> nat \<Rightarrow> 'a list" where
  "window xs w k = take w (drop (k * w) xs)"

definition occurrences :: "('a \<Rightarrow> 'a \<Rightarrow> bool) \<Rightarrow> 'a list \<Rightarrow> nat" where
  "occurrences E win = length (filter (\<lambda>x. E x (hd win)) win)"

lemma count_window:
  assumes "start + w \<le> length xs" "0 < w" "w < 2 ^ 32"
  shows "unat (apt_window_count m xs start w) = occurrences (fl_eq m) (take w (drop start xs))"
proof -
  let ?P = "\<lambda>x. fl_eq m x (xs ! start)"
  have f: "foldl (\<lambda>count x. if ?P x then count + 1 else count) c ys = c + of_nat (length (filter ?P ys))"
    for c :: u32 and ys by (induction ys arbitrary: c) simp_all
  have "[start..<start + w] = map (\<lambda>i. i + start) [0..<w]"
    by (simp add: map_add_upt add.commute)
  then have "apt_window_count m xs start w =
      foldl (\<lambda>count i. if ?P (drop start xs ! i) then count + 1 else count) 0 [0..<w]"
    unfolding apt_window_count_def using assms(1) by (simp add: foldl_map add.commute)
  also have "\<dots> = foldl (\<lambda>count x. if ?P x then count + 1 else count) 0 (take w (drop start xs))"
    using assms(1) by (intro foldl_index) simp
  finally have e: "apt_window_count m xs start w = of_nat (length (filter ?P (take w (drop start xs))))"
    by (simp add: f)
  have "length (filter ?P (take w (drop start xs))) \<le> w"
    by (rule order_trans [OF length_filter_le]) simp
  moreover have "hd (take w (drop start xs)) = xs ! start"
    using assms(1,2) by (simp add: hd_drop_conv_nth)
  ultimately show ?thesis using assms(3) by (simp add: e unat_of_nat_small occurrences_def)
qed

lemma apt_loop_windows:
  assumes "n \<le> length xs" "0 < w" "w < 2 ^ 32" "k \<le> n div w" "n div w < 2 ^ 32"
  shows "apt_loop m xs n cutoff w (k * w) tested failed =
    (tested + of_nat (n div w - k),
     failed + of_nat (length (filter (\<lambda>k. unat cutoff \<le> occurrences (fl_eq m) (window xs w k))
       [k..<n div w])))"
  using assms(4)
proof (induction "n div w - k" arbitrary: k tested failed)
  case 0
  then have "k = n div w" by simp
  moreover have "\<not> n div w * w + w \<le> n"
    using mod_less_divisor [OF assms(2), of n] div_mult_mod_eq [of n w] by linarith
  ultimately show ?case by (simp add: apt_loop.simps [of m xs n cutoff w])
next
  case (Suc d)
  then have k: "Suc k \<le> n div w" "d = n div w - Suc k" by simp_all
  from k(1) have "Suc k * w \<le> n div w * w" by (rule mult_le_mono1)
  also have "\<dots> \<le> n" by simp
  finally have kn: "k * w + w \<le> n" by simp
  let ?hit = "unat cutoff \<le> occurrences (fl_eq m) (window xs w k)"
  have c: "apt_window_count m xs (k * w) w \<ge> cutoff \<longleftrightarrow> ?hit"
    using count_window [of "k * w" w xs m] kn assms(1-3) by (simp add: word_le_nat_alt window_def)
  have "apt_loop m xs n cutoff w (k * w) tested failed =
      apt_loop m xs n cutoff w (Suc k * w) (tested + 1) (if ?hit then failed + 1 else failed)"
    using kn c assms(2) by (subst apt_loop.simps) (simp add: add.commute)
  also note Suc(1) [OF k(2,1)]
  also have "[k..<n div w] = k # [Suc k..<n div w]" using k(1) by (simp add: upt_conv_Cons)
  then have "(tested + 1 + of_nat (n div w - Suc k),
      (if ?hit then failed + 1 else failed) + of_nat (length (filter (\<lambda>k. unat cutoff \<le>
         occurrences (fl_eq m) (window xs w k)) [Suc k..<n div w]))) =
    (tested + of_nat (n div w - k), failed + of_nat (length (filter (\<lambda>k. unat cutoff \<le>
         occurrences (fl_eq m) (window xs w k)) [k..<n div w])))"
    using k(1) by (simp add: Suc_diff_Suc [symmetric] of_nat_diff)
  finally show ?case .
qed

section \<open>Properties\<close>

text \<open>
  The counts behind the byte statistics are exact: the histogram has the number of occurrences
  of every byte value, without wrapping; monobit and runs count the set bits of the data, least
  significant first; and the runs observed are the maximal blocks of equal bits.
\<close>

theorem entropy_counts_exact:
  assumes "unat len \<le> length data"
  shows "let bytes = take (unat len) data; bits = data_bits bytes;
      h = entropy_stats_histogram (Some data) len
    in (\<forall>c :: u8. unat (h_counts h ! unat c) = count_list bytes c) \<and> h_total h = len \<and>
       mb_bit_total (entropy_stats_monobit m data len) = int (length bits) \<and>
       mb_ones (entropy_stats_monobit m data len) = int (length (filter id bits)) \<and>
       ru_bit_total (entropy_stats_runs m data len) = int (length bits) \<and>
       ru_ones (entropy_stats_runs m data len) = int (length (filter id bits)) \<and>
       ru_observed_runs (entropy_stats_runs m data len) = int (length (remdups_adj bits))"
proof -
  let ?bytes = "take (unat len) data" and ?bits = "data_bits (take (unat len) data)"
  let ?h = "entropy_stats_histogram (Some data) len"
  have l: "int (length ?bits) = uint len * 8" using assms by (simp add: length_data_bits)
  have "h_counts ?h = foldl (\<lambda>counts b. counts[unat b := counts ! unat b + 1]) (replicate 256 0) ?bytes"
    using foldl_index [OF assms, of "\<lambda>counts b. counts[unat b := counts ! unat b + 1]"]
    by (simp add: entropy_stats_histogram_def Let_def)
  moreover have "count_list ?bytes c < 2 ^ LENGTH(64)" for c
  proof -
    have "count_list ?bytes c \<le> unat len" using count_le_length [of ?bytes c] assms by simp
    also have "\<dots> < 2 ^ LENGTH(64)" by (rule unsigned_less)
    finally show ?thesis .
  qed
  moreover have "unat c < 256" for c :: u8 using unsigned_less [of c, where 'a = nat] by simp
  ultimately have "\<forall>c :: u8. unat (h_counts ?h ! unat c) = count_list ?bytes c"
    using histogram_counts [where counts = "replicate 256 0" and bytes = ?bytes] by (simp add: unat_of_nat_small)
  moreover have "foldl (\<lambda>ones i. foldl (\<lambda>ones k. ones + of_bool (bit (data ! i) k)) ones [0..<8]) 0
      [0..<unat len] = int (length (filter id ?bits))"
    using foldl_bits [OF assms, of "\<lambda>ones b. ones + of_bool b" "0 :: int"] foldl_ones [of 0 ?bits] by simp
  moreover have "foldl (\<lambda>st i. foldl (\<lambda>st k. runs_step st (bit (data ! i) k)) st [0..<8]) (0, 0, -1)
      [0..<unat len] = (int (length (filter id ?bits)), int (length (remdups_adj ?bits)),
        of_bool (last ?bits))" if "len \<noteq> 0"
    using foldl_bits [OF assms, of runs_step "(0, 0, -1)"] runs_step_bits [of ?bits] that l
    by (cases "?bits = []") (auto simp: uint_0_iff)
  moreover have "?bits = []" if "len = 0" using that by (simp add: data_bits_def)
  ultimately show ?thesis
    using l by (cases "len = 0")
      (auto simp: entropy_stats_histogram_def entropy_stats_monobit_def entropy_stats_runs_def Let_def)
qed

text \<open>Arithmetic on integers, to run the definitions.\<close>

definition int_math :: "int math_ops" where
  "int_math = \<lparr>fl_of_int = (\<lambda>x. x), fl_add = (+), fl_mul = (*), fl_div = (div), fl_less = (<),
     fl_sub = (-), fl_neg = uminus, fl_eq = (=), fl_le = (\<le>), fl_abs = abs, fl_sqrt = (\<lambda>x. x),
     fl_pow = (\<lambda>x _. x), fl_exp = (\<lambda>x. x), fl_log = (\<lambda>x. x), fl_log1p = (\<lambda>x. x), fl_log2 = (\<lambda>x. x),
     fl_lgamma = (\<lambda>x. x), fl_erfc = (\<lambda>x. x), fl_ceil = (\<lambda>x. x), fl_nan = 0, fl_to_unsigned = of_int\<rparr>"

theorem entropy_counts_exact_witness:
  "unat (h_counts (entropy_stats_histogram (Some [3, 7, 3, 9]) 3) ! unat (3 :: u8)) = 2 \<and>
   mb_ones (entropy_stats_monobit int_math [3, 7, 3, 9] 3) = 7"
proof -
  have b: "length (filter id (data_bits [3, 7, 3])) = 7"
    by (simp add: data_bits_def upt_rec bit_numeral_rec)
  have "unat (3 :: u64) \<le> length [3, 7, 3, 9 :: u8]" by simp
  note t = entropy_counts_exact [OF this, unfolded Let_def]
  from t [THEN conjunct1, THEN spec, of 3] t [of int_math] b show ?thesis by simp
qed

lemma rct_longest_run:
  fixes m :: "'d math_ops"
  assumes "n < 2 ^ 32" and r: "r = entropy_stats_rct m samples n alpha h_bits"
  shows "if samples = None \<or> n = 0 then rct_passed r \<and> rct_max_run r = 0
    else (\<forall>k > 0. k \<le> unat (rct_max_run r) \<longleftrightarrow>
           (\<exists>i. i + k \<le> n \<and> (\<forall>j. i < j \<and> j < i + k \<longrightarrow>
              fl_eq m (the samples ! j) (the samples ! (j - 1))))) \<and>
         (rct_passed r \<longleftrightarrow> rct_max_run r < rct_cutoff r)"
proof (cases "samples = None \<or> n = 0")
  case True
  then show ?thesis by (auto simp: r entropy_stats_rct_def Let_def)
next
  case False
  let ?E = "fl_eq m" and ?xs = "the samples"
  obtain run mx where l: "rct_run_loop m ?xs n = (run, mx)" by fastforce
  from run_lengths_loop [of n m ?xs] False assms(1) l
  have mx: "\<forall>k > 0. repeats ?E ?xs n k \<longleftrightarrow> k \<le> unat mx" by (simp add: run_lengths_def)
  have "repeats ?E ?xs n k \<longleftrightarrow> (\<exists>i. i + k \<le> n \<and> (\<forall>j. i < j \<and> j < i + k \<longrightarrow> ?E (?xs ! j) (?xs ! (j - 1))))"
    for k
  proof
    assume "repeats ?E ?xs n k"
    then obtain e where "e \<le> n" "chain ?E ?xs e k" by (auto simp: repeats_def)
    then show "\<exists>i. i + k \<le> n \<and> (\<forall>j. i < j \<and> j < i + k \<longrightarrow> ?E (?xs ! j) (?xs ! (j - 1)))"
      by (intro exI [of _ "e - k"]) (auto simp: chain_def)
  next
    assume "\<exists>i. i + k \<le> n \<and> (\<forall>j. i < j \<and> j < i + k \<longrightarrow> ?E (?xs ! j) (?xs ! (j - 1)))"
    then obtain i where "i + k \<le> n" "\<forall>j. i < j \<and> j < i + k \<longrightarrow> ?E (?xs ! j) (?xs ! (j - 1))" by blast
    then show "repeats ?E ?xs n k"
      unfolding repeats_def chain_def by (intro exI [of _ "i + k"]) auto
  qed
  moreover obtain xs where "samples = Some xs" using False by (cases samples) auto
  ultimately show ?thesis using mx False l by (simp add: r entropy_stats_rct_def Let_def)
qed

text \<open>
  The repetition count test reports the length of the longest run of equal neighbouring
  samples: for every positive \<open>k\<close> there are \<open>k\<close> consecutive samples, each equal to the one before,
  exactly when \<open>k\<close> is at most \<open>max_run\<close>; and it passes exactly when that is below the cutoff. No or
  missing samples pass.
\<close>

theorem stats_rct_longest_run:
  assumes "n < 2 ^ 32" "\<forall>xs. samples = Some xs \<longrightarrow> n \<le> length xs"
  shows "let r = entropy_stats_rct m samples n alpha h_bits in
    if samples = None \<or> n = 0 then rct_passed r \<and> rct_max_run r = 0
    else (\<forall>k > 0. k \<le> unat (rct_max_run r) \<longleftrightarrow>
           (\<exists>i. i + k \<le> n \<and> (\<forall>j. i < j \<and> j < i + k \<longrightarrow>
              fl_eq m (the samples ! j) (the samples ! (j - 1))))) \<and>
         (rct_passed r \<longleftrightarrow> rct_max_run r < rct_cutoff r)"
  unfolding Let_def by (rule rct_longest_run [OF assms(1) refl])

theorem stats_rct_longest_run_witness:
  "rct_max_run (entropy_stats_rct int_math (Some [4, 7, 7, 7]) 4 1 1) = 3"
proof -
  let ?r = "entropy_stats_rct int_math (Some [4, 7, 7, 7]) 4 1 1"
  have "(4 :: nat) < 2 ^ 32" "\<forall>xs. Some [4, 7, 7, 7 :: int] = Some xs \<longrightarrow> 4 \<le> length xs" by simp_all
  note runs = stats_rct_longest_run [of 4 "Some [4, 7, 7, 7]" int_math 1 1, OF this]
  have "3 \<le> unat (rct_max_run ?r) \<longleftrightarrow> True"
    using runs by (auto simp: Let_def int_ops int_math_def nth_Cons' intro!: exI [of _ 1])
  moreover have "4 \<le> unat (rct_max_run ?r) \<longleftrightarrow> False"
    using runs by (auto simp: Let_def int_ops int_math_def nth_Cons')
  ultimately have "unat (rct_max_run ?r) = unat (3 :: u32)" by simp
  then show ?thesis by (simp only: word_unat_eq_iff)
qed

lemma apt_windows:
  fixes m :: "'d math_ops"
  assumes "n \<le> length samples" "n < 2 ^ 32"
    and w_eq: "w = (if window_size = 0 then 512 else window_size)"
    and r_eq: "r = entropy_stats_apt m (Some samples) n window_size alpha h_bits"
    and f_eq: "failing = filter (\<lambda>k. unat (apt_cutoff r) \<le>
        occurrences (fl_eq m) (window samples (unat w) k)) [0..<n div unat w]"
  shows "apt_window_size r = w \<and> unat (apt_windows_tested r) = n div unat w \<and>
    unat (apt_windows_failed r) = length failing \<and> (apt_passed r \<longleftrightarrow> failing = [])"
proof (cases "n < unat w")
  case True
  then show ?thesis
    by (auto simp: r_eq w_eq f_eq entropy_stats_apt_def Let_def)
next
  case False
  have w: "0 < unat w" "unat w < 2 ^ 32"
    using unsigned_less [of w, where 'a = nat] by (auto simp: w_eq unat_gt_0)
  have d: "n div unat w < 2 ^ LENGTH(32)"
    by (rule le_less_trans [OF div_le_dividend]) (use assms(2) in simp)
  have "length failing \<le> n div unat w"
    unfolding f_eq by (rule order_trans [OF length_filter_le]) simp
  then have f: "unat (of_nat (length failing) :: u32) = length failing"
    using d by (intro unat_of_nat_small) simp
  have "apt_loop m samples n (apt_cutoff r) (unat w) 0 0 0 =
      (of_nat (n div unat w), of_nat (length failing))"
    using apt_loop_windows [of n samples "unat w" 0 m "apt_cutoff r" 0 0] assms(1) w d
    by (simp add: f_eq)
  moreover have "apt_window_size r = w \<and> apt_windows_tested r = fst (apt_loop m samples n (apt_cutoff r) (unat w) 0 0 0) \<and>
      apt_windows_failed r = snd (apt_loop m samples n (apt_cutoff r) (unat w) 0 0 0) \<and>
      (apt_passed r \<longleftrightarrow> apt_windows_failed r = 0)"
    using False by (simp add: r_eq w_eq entropy_stats_apt_def Let_def split: prod.split)
  ultimately have r: "apt_window_size r = w" "apt_windows_tested r = of_nat (n div unat w)"
    "apt_windows_failed r = of_nat (length failing)" "apt_passed r \<longleftrightarrow> apt_windows_failed r = 0"
    by simp_all
  have "apt_windows_failed r = 0 \<longleftrightarrow> failing = []"
  proof
    assume "apt_windows_failed r = 0"
    with r(3) have "unat (of_nat (length failing) :: u32) = unat (0 :: u32)" by (simp only:)
    with f show "failing = []" by simp
  next
    assume "failing = []"
    with r(3) show "apt_windows_failed r = 0" by simp
  qed
  with r(4) have "apt_passed r \<longleftrightarrow> failing = []" by simp
  with r(1-3) f unat_of_nat_small [OF d] show ?thesis by (simp only: simp_thms)
qed

text \<open>
  The adaptive proportion test cuts the samples into as many whole windows as fit, counts for
  each how often its first value occurs in it, and passes exactly when no window reaches the cutoff;
  a rest that does not fill a window is not tested.
\<close>

theorem stats_apt_windows:
  assumes "n \<le> length samples" "n < 2 ^ 32"
  shows "let w = (if window_size = 0 then 512 else window_size);
      r = entropy_stats_apt m (Some samples) n window_size alpha h_bits;
      failing = filter (\<lambda>k. unat (apt_cutoff r) \<le>
        occurrences (fl_eq m) (window samples (unat w) k)) [0..<n div unat w]
    in apt_window_size r = w \<and> unat (apt_windows_tested r) = n div unat w \<and>
       unat (apt_windows_failed r) = length failing \<and> (apt_passed r \<longleftrightarrow> failing = [])"
  unfolding Let_def by (rule apt_windows [OF assms refl refl refl])

theorem stats_apt_windows_witness:
  "unat (apt_windows_tested (entropy_stats_apt int_math (Some [4, 7, 7, 7, 2]) 5 2 1 1)) = 2"
  using stats_apt_windows [of 5 "[4, 7, 7, 7, 2]" 2 int_math 1 1] by (simp add: Let_def)

end
