(* ===== verification/Decimal.thy ===== *)
theory Decimal
  imports Prelude "HOL-Library.Char_ord"
begin

unbundle bit_operations_syntax

text \<open>
  Decimal numbers as texts: their digits and values, and the two functions of the C library that
  read them, \<open>strtol\<close> and \<open>strtoull\<close> (base 10, \<open>long\<close> and \<open>long long\<close> of 64 bits). A C string is the
  list of its characters before the terminating zero.
\<close>

section \<open>Digits and values\<close>

fun decimal_nat :: "nat \<Rightarrow> string" where
  "decimal_nat n = (if n < 10 then [char_of (48 + n)]
     else decimal_nat (n div 10) @ [char_of (48 + n mod 10)])"

declare decimal_nat.simps [simp del]

definition decimal :: "int \<Rightarrow> string" where
  "decimal i = (if i < 0 then CHR ''-'' # decimal_nat (nat (- i)) else decimal_nat (nat i))"

definition is_digit :: "char \<Rightarrow> bool" where
  "is_digit c \<longleftrightarrow> CHR ''0'' \<le> c \<and> c \<le> CHR ''9''"

definition digit_of :: "char \<Rightarrow> nat" where
  "digit_of c = of_char c - 48"

definition value_of :: "string \<Rightarrow> nat" where
  "value_of t = foldl (\<lambda>v c. v * 10 + digit_of c) 0 t"

lemma is_digit_range: "is_digit c \<longleftrightarrow> 48 \<le> (of_char c :: nat) \<and> of_char c \<le> (57 :: nat)"
  by (simp add: is_digit_def less_eq_char_def)

lemma digit_of_less: "is_digit c \<Longrightarrow> digit_of c < 10"
  by (auto simp: is_digit_range digit_of_def)

lemma digit_char: "n < 10 \<Longrightarrow> is_digit (char_of (48 + n)) \<and> digit_of (char_of (48 + n)) = n"
  by (simp add: is_digit_range digit_of_def)

lemma char_digit: "is_digit c \<Longrightarrow> char_of (48 + digit_of c) = c"
  by (simp add: is_digit_range digit_of_def)

lemma value_of_snoc [simp]: "value_of [] = 0" "value_of (t @ [c]) = value_of t * 10 + digit_of c"
  by (simp_all add: value_of_def)

lemma value_of_less: "\<forall>c \<in> set t. is_digit c \<Longrightarrow> value_of t < 10 ^ length t"
proof (induction t rule: rev_induct)
  case (snoc c t)
  then have "value_of t < 10 ^ length t" "digit_of c < 10" by (simp_all add: digit_of_less)
  then show ?case by simp
qed simp

lemma decimal_nat_digits: "(\<forall>c \<in> set (decimal_nat n). is_digit c) \<and> value_of (decimal_nat n) = n"
proof (induction n rule: decimal_nat.induct)
  case (1 n)
  show ?case
  proof (cases "n < 10")
    case True
    then show ?thesis
      using digit_char [of n] by (subst (1 2) decimal_nat.simps) (simp add: value_of_def)
  next
    case False
    with 1 digit_char [of "n mod 10"] show ?thesis
      by (subst (1 2) decimal_nat.simps) simp
  qed
qed

lemma decimal_nat_hd: "decimal_nat n \<noteq> [] \<and> (hd (decimal_nat n) = CHR ''0'' \<longrightarrow> length (decimal_nat n) = 1)"
proof (induction n rule: decimal_nat.induct)
  case (1 n)
  show ?case
  proof (cases "n < 10")
    case True
    then show ?thesis by (subst (1 2 3) decimal_nat.simps) simp
  next
    case False
    have "decimal_nat (n div 10) \<noteq> [CHR ''0'']"
      using decimal_nat_digits [of "n div 10"] False by (auto simp: value_of_def digit_of_def)
    with 1 False show ?thesis
      by (subst (1 2 3) decimal_nat.simps)
        (cases "decimal_nat (n div 10)"; auto simp: length_Suc_conv)
  qed
qed

lemma decimal_nat_value:
  "t \<noteq> [] \<Longrightarrow> \<forall>c \<in> set t. is_digit c \<Longrightarrow> hd t = CHR ''0'' \<longrightarrow> length t = 1 \<Longrightarrow> decimal_nat (value_of t) = t"
proof (induction t rule: rev_induct)
  case (snoc c t)
  show ?case
  proof (cases "t = []")
    case True
    with snoc(3) show ?thesis
      by (subst decimal_nat.simps) (simp add: value_of_def digit_of_less char_digit)
  next
    case False
    then have t: "decimal_nat (value_of t) = t" "hd t \<noteq> CHR ''0''"
      using snoc by (auto simp: hd_append)
    have "value_of t \<noteq> 0"
    proof
      assume "value_of t = 0"
      with t(1) have "hd t = char_of (48 :: nat)" by (subst (asm) decimal_nat.simps) auto
      with t(2) show False by (simp add: char_of_eq_iff)
    qed
    with t(1) snoc(3) digit_of_less [of c] char_digit [of c] show ?thesis
      by (subst decimal_nat.simps) simp
  qed
qed simp

lemma decimal_nat_0: "decimal_nat 0 = ''0''"
  by (subst decimal_nat.simps) (simp add: char_of_eq_iff)

lemma decimal_nat_length: "n < 10 ^ Suc k \<Longrightarrow> length (decimal_nat n) \<le> Suc k"
proof (induction k arbitrary: n)
  case 0
  then show ?case by (subst decimal_nat.simps) simp
next
  case (Suc k)
  from Suc.prems have "n div 10 < 10 ^ Suc k" by (simp add: div_less_iff_less_mult)
  from Suc.IH [OF this] show ?case by (subst decimal_nat.simps) simp
qed

lemma sint_u64:
  assumes "n < 2 ^ 63"
  shows "sint (of_nat n :: u64) = int n" "sint (- of_nat n :: u64) = - int n"
proof -
  have n: "int n < 2 ^ 63" using assms by simp
  then have "signed_take_bit 63 (int n) = int n" "signed_take_bit 63 (- int n) = - int n"
    by (simp_all add: signed_take_bit_int_eq_self)
  moreover have "(of_nat n :: u64) = of_int (int n)" "(- of_nat n :: u64) = of_int (- int n)" by simp_all
  ultimately show "sint (of_nat n :: u64) = int n" "sint (- of_nat n :: u64) = - int n"
    by (simp_all only: sint_sbintrunc' len_num1) (simp_all add: signed_of_int)
qed

section \<open>strtol and strtoull\<close>

text \<open>\<open>isspace\<close> in the C locale.\<close>

definition is_space :: "char \<Rightarrow> bool" where
  "is_space c \<longleftrightarrow> c = CHR '' '' \<or> (9 :: nat) \<le> of_char c \<and> of_char c \<le> (13 :: nat)"

text \<open>White space, a sign and as many digits as there are; \<open>None\<close> when there is no digit.\<close>

definition scan_number :: "string \<Rightarrow> (bool \<times> string \<times> string) option" where
  "scan_number s =
     (let s = dropWhile is_space s;
          (neg, s) = (case s of [] \<Rightarrow> (False, [])
             | c # t \<Rightarrow> if c = CHR ''-'' then (True, t) else if c = CHR ''+'' then (False, t) else (False, s));
          ds = takeWhile is_digit s
      in if ds = [] then None else Some (neg, ds, dropWhile is_digit s))"

definition LONG_MAX :: int where "LONG_MAX = 2 ^ 63 - 1"

definition LONG_MIN :: int where "LONG_MIN = - (2 ^ 63)"

text \<open>
  The value, whether \<open>errno\<close> is set to \<open>ERANGE\<close>, and the text from \<open>*endptr\<close> on. \<open>None\<close> is a text without
  a number: the value is 0, \<open>errno\<close> is not set and \<open>*endptr\<close> is the text itself.
\<close>

definition strtol :: "string \<Rightarrow> (int \<times> bool \<times> string) option" where
  "strtol s = map_option (\<lambda>(neg, ds, rest).
     let v = (if neg then - int (value_of ds) else int (value_of ds))
     in if v > LONG_MAX then (LONG_MAX, True, rest)
        else if v < LONG_MIN then (LONG_MIN, True, rest)
        else (v, False, rest)) (scan_number s)"

definition strtoull :: "string \<Rightarrow> (u64 \<times> bool \<times> string) option" where
  "strtoull s = map_option (\<lambda>(neg, ds, rest).
     if value_of ds \<ge> 2 ^ 64 then (- 1, True, rest)
     else (if neg then - of_nat (value_of ds) else of_nat (value_of ds), False, rest)) (scan_number s)"

lemma digit_not_space: "is_digit c \<Longrightarrow> \<not> is_space c \<and> c \<noteq> CHR ''-'' \<and> c \<noteq> CHR ''+''"
  by (auto simp: is_digit_range is_space_def)

text \<open>A text of digits and what follows it.\<close>

lemma scan_number_digits:
  assumes "ds \<noteq> []" "\<forall>c \<in> set ds. is_digit c" "rest = [] \<or> \<not> is_digit (hd rest)"
  shows "scan_number (ds @ rest) = Some (False, ds, rest)"
proof -
  obtain c t where ds: "ds = c # t" using assms(1) by (cases ds) auto
  have "takeWhile is_digit (ds @ rest) = ds" "dropWhile is_digit (ds @ rest) = rest"
    using assms(2,3) by (cases rest; simp)+
  with ds digit_not_space [of c] assms(2) show ?thesis
    by (simp add: scan_number_def)
qed

lemma strtol_digits:
  assumes "ds \<noteq> []" "\<forall>c \<in> set ds. is_digit c" "rest = [] \<or> \<not> is_digit (hd rest)"
    "int (value_of ds) \<le> LONG_MAX"
  shows "strtol (ds @ rest) = Some (int (value_of ds), False, rest)"
  using scan_number_digits [OF assms(1-3)] assms(4) by (simp add: strtol_def LONG_MIN_def)

lemma strtol_decimal:
  assumes "rest = [] \<or> \<not> is_digit (hd rest)" "int n \<le> LONG_MAX"
  shows "strtol (decimal_nat n @ rest) = Some (int n, False, rest)"
  using strtol_digits [of "decimal_nat n" rest] decimal_nat_digits [of n] decimal_nat_hd [of n] assms
  by simp

end
