(* ===== verification/Bridge_Json.thy ===== *)
theory Bridge_Json
  imports Decimal
begin

text \<open>
  The JSON of the bridge between the dashboard's page and the program (\<open>src/app/bridge_json.h\<close>): the
  parser for flat objects of scalars, the accessors with their checks, and the escaping of strings.

  An index into the text is the rest of the text from there on; a parser returns its value with the
  rest, \<open>None\<close> where the code returns false (what the output object holds then is not modelled: no
  caller looks). A \<open>long long\<close> is a 64-bit word.
\<close>

section \<open>Parsing\<close>

record Value =
  is_string :: bool
  text_of :: string

type_synonym Object = "string \<rightharpoonup> Value"

datatype GetResult = kOk | kMissing | kInvalid

definition is_ws :: "char \<Rightarrow> bool" where
  "is_ws c \<longleftrightarrow> c = CHR '' '' \<or> c = CHR 0x09 \<or> c = CHR 0x0A \<or> c = CHR 0x0D"

definition SkipWs :: "string \<Rightarrow> string" where
  "SkipWs s = dropWhile is_ws s"

definition unescape :: "char \<Rightarrow> char option" where
  "unescape c =
     (if c = CHR 0x22 then Some (CHR 0x22)
      else if c = CHR 0x5C then Some (CHR 0x5C)
      else if c = CHR ''/'' then Some (CHR ''/'')
      else if c = CHR ''b'' then Some (CHR 0x08)
      else if c = CHR ''f'' then Some (CHR 0x0C)
      else if c = CHR ''n'' then Some (CHR 0x0A)
      else if c = CHR ''r'' then Some (CHR 0x0D)
      else if c = CHR ''t'' then Some (CHR 0x09)
      else None)"

fun string_loop :: "string \<Rightarrow> string \<Rightarrow> (string \<times> string) option" where
  "string_loop [] out = None"
| "string_loop (c # s) out =
     (if c = CHR 0x22 then Some (out, s)
      else if of_char c < (0x20 :: nat) then None
      else if c \<noteq> CHR 0x5C then string_loop s (out @ [c])
      else case s of
             [] \<Rightarrow> None
           | e # s \<Rightarrow> (case unescape e of
                         None \<Rightarrow> None
                       | Some d \<Rightarrow> string_loop s (out @ [d])))"

definition ParseString :: "string \<Rightarrow> (string \<times> string) option" where
  "ParseString s = (case s of
       [] \<Rightarrow> None
     | c # s \<Rightarrow> if c \<noteq> CHR 0x22 then None else string_loop s [])"

definition expect :: "char \<Rightarrow> string \<Rightarrow> string option" where
  "expect c s = (case s of [] \<Rightarrow> None | d # s \<Rightarrow> if d \<noteq> c then None else Some s)"

definition in_token :: "char \<Rightarrow> bool" where
  "in_token c \<longleftrightarrow> c \<noteq> CHR '','' \<and> c \<noteq> CHR ''}'' \<and> \<not> is_ws c"

definition parse_value :: "string \<Rightarrow> (Value \<times> string) option" where
  "parse_value s = (case s of
       [] \<Rightarrow> None
     | c # _ \<Rightarrow>
         if c = CHR 0x22
         then do { (t, s) \<leftarrow> ParseString s; Some (\<lparr>is_string = True, text_of = t\<rparr>, s) }
         else let t = takeWhile in_token s
              in if t = [] \<or> hd t = CHR ''{'' \<or> hd t = CHR ''['' then None
                 else Some (\<lparr>is_string = False, text_of = t\<rparr>, dropWhile in_token s))"

lemma string_loop_length: "string_loop s out = Some (t, r) \<Longrightarrow> length r < length s"
  by (induction s out rule: string_loop.induct)
    (auto split: if_splits list.splits option.splits intro: less_SucI)

lemma ParseString_length: "ParseString s = Some (t, r) \<Longrightarrow> length r < length s"
  by (auto simp: ParseString_def dest: string_loop_length split: list.splits if_splits)

lemma SkipWs_length: "length (SkipWs s) \<le> length s"
  by (simp add: SkipWs_def length_dropWhile_le)

lemma expect_length: "expect c s = Some r \<Longrightarrow> length r < length s"
  by (auto simp: expect_def split: list.splits if_splits)

lemma parse_value_length: "parse_value s = Some (v, r) \<Longrightarrow> length r \<le> length s"
  by (auto simp: parse_value_def Let_def length_dropWhile_le split: list.splits if_splits
      elim!: bind_SomeE dest!: ParseString_length intro: le_SucI)

lemma object_loop_shorter:
  assumes "ParseString (SkipWs s) = Some (key, s1)" "expect c (SkipWs s1) = Some s2"
    "parse_value (SkipWs s2) = Some (v, s3)" "SkipWs s3 = d # s4"
  shows "length s4 < length s"
proof -
  have "length s4 < length (SkipWs s3)" using assms(4) by simp
  also have "\<dots> \<le> length s3" by (rule SkipWs_length)
  also have "\<dots> \<le> length (SkipWs s2)" by (rule parse_value_length [OF assms(3)])
  also have "\<dots> \<le> length s2" by (rule SkipWs_length)
  also have "\<dots> \<le> length (SkipWs s1)" using expect_length [OF assms(2)] by simp
  also have "\<dots> \<le> length s1" by (rule SkipWs_length)
  also have "\<dots> \<le> length (SkipWs s)" using ParseString_length [OF assms(1)] by simp
  also have "\<dots> \<le> length s" by (rule SkipWs_length)
  finally show ?thesis .
qed

function object_loop :: "string \<Rightarrow> Object \<Rightarrow> (Object \<times> string) option" where
  "object_loop s out = do {
     (key, s) \<leftarrow> ParseString (SkipWs s);
     s \<leftarrow> expect (CHR '':'') (SkipWs s);
     (v, s) \<leftarrow> parse_value (SkipWs s);
     if out key \<noteq> None then None
     else do {
       let out = out(key \<mapsto> v);
       case SkipWs s of
         [] \<Rightarrow> None
       | c # s \<Rightarrow> if c = CHR '','' then object_loop s out
                  else if c = CHR ''}'' then Some (out, s)
                  else None
     }
   }"
  by pat_completeness auto

termination
  by (relation "measure (\<lambda>(s, out). length s)") (auto intro: object_loop_shorter)

declare object_loop.simps [simp del]

definition ParseFlatObject :: "string \<Rightarrow> Object option" where
  "ParseFlatObject s = do {
     s \<leftarrow> expect (CHR ''{'') (SkipWs s);
     let s = SkipWs s;
     (out, s) \<leftarrow> (case s of
         [] \<Rightarrow> object_loop s Map.empty
       | c # s' \<Rightarrow> if c = CHR ''}'' then Some (Map.empty, s') else object_loop s Map.empty);
     if SkipWs s = [] then Some out else None
   }"

section \<open>Accessors\<close>

text \<open>The value found is the output argument, which a failure leaves alone.\<close>

definition GetString :: "Object \<Rightarrow> string \<Rightarrow> string \<Rightarrow> GetResult \<times> string" where
  "GetString obj key out = (case obj key of
       None \<Rightarrow> (kMissing, out)
     | Some v \<Rightarrow> if \<not> is_string v then (kInvalid, out) else (kOk, text_of v))"

definition GetBool :: "Object \<Rightarrow> string \<Rightarrow> bool \<Rightarrow> GetResult \<times> bool" where
  "GetBool obj key out = (case obj key of
       None \<Rightarrow> (kMissing, out)
     | Some v \<Rightarrow>
         if is_string v then (kInvalid, out)
         else if text_of v = ''true'' then (kOk, True)
         else if text_of v = ''false'' then (kOk, False)
         else (kInvalid, out))"

fun digit_loop :: "string \<Rightarrow> u64 \<Rightarrow> u64 option" where
  "digit_loop [] v = Some v"
| "digit_loop (c # t) v =
     (if c < CHR ''0'' \<or> c > CHR ''9'' then None
      else digit_loop t (v * 10 + (of_char c - of_char (CHR ''0''))))"

definition GetInt :: "Object \<Rightarrow> string \<Rightarrow> u64 \<Rightarrow> u64 \<Rightarrow> u64 \<Rightarrow> GetResult \<times> u64" where
  "GetInt obj key lo hi out = (case obj key of
       None \<Rightarrow> (kMissing, out)
     | Some v \<Rightarrow>
         if is_string v then (kInvalid, out)
         else let (neg, t) = (case text_of v of
                  [] \<Rightarrow> (False, [])
                | c # t \<Rightarrow> if c = CHR ''-'' then (True, t) else (False, c # t));
                  digits = length t
           in if digits = 0 \<or> digits > 18 then (kInvalid, out)
              else if hd t = CHR ''0'' \<and> digits > 1 then (kInvalid, out)
              else case digit_loop t 0 of
                     None \<Rightarrow> (kInvalid, out)
                   | Some v \<Rightarrow>
                       let v = (if neg then - v else v)
                       in if sint v < sint lo \<or> sint v > sint hi then (kInvalid, out) else (kOk, v))"

definition hex_digit :: "nat \<Rightarrow> char" where
  "hex_digit n = (if n < 10 then char_of (48 + n) else char_of (87 + n))"

definition escape_char :: "char \<Rightarrow> string" where
  "escape_char c =
     (if c = CHR 0x22 \<or> c = CHR 0x5C then [CHR 0x5C, c]
      else if c = CHR 0x0A then [CHR 0x5C, CHR ''n'']
      else if c = CHR 0x0D then [CHR 0x5C, CHR ''r'']
      else if c = CHR 0x09 then [CHR 0x5C, CHR ''t'']
      else if of_char c < (0x20 :: nat)
      then [CHR 0x5C, CHR ''u'', CHR ''0'', CHR ''0'', hex_digit (of_char c div 16),
            hex_digit (of_char c mod 16)]
      else [c])"

definition JsonEscape :: "string \<Rightarrow> string" where
  "JsonEscape s = concat (map escape_char s)"


section \<open>Escaping and parsing are inverse\<close>

text \<open>The characters that the escaping writes in a form which the parser reads.\<close>

definition plain :: "char \<Rightarrow> bool" where
  "plain c \<longleftrightarrow> (0x20 :: nat) \<le> of_char c \<or> c \<in> {CHR 0x0A, CHR 0x0D, CHR 0x09}"

lemma string_loop_plain: "plain c \<Longrightarrow> string_loop (escape_char c @ s) out = string_loop s (out @ [c])"
  by (auto simp: escape_char_def plain_def unescape_def)

lemma string_loop_not_plain: "\<not> plain c \<Longrightarrow> string_loop (escape_char c @ s) out = None"
  by (auto simp: escape_char_def plain_def unescape_def)

lemma string_loop_escape:
  "string_loop (JsonEscape s @ CHR 0x22 # rest) out =
     (if \<forall>c \<in> set s. plain c then Some (out @ s, rest) else None)"
proof (induction s arbitrary: out)
  case (Cons c s)
  have "JsonEscape (c # s) @ CHR 0x22 # rest = escape_char c @ JsonEscape s @ CHR 0x22 # rest"
    by (simp add: JsonEscape_def)
  with Cons.IH [of "out @ [c]"] string_loop_plain [of c] string_loop_not_plain [of c]
  show ?case by (cases "plain c") simp_all
qed (simp add: JsonEscape_def)

lemma ParseString_escape:
  "ParseString (CHR 0x22 # JsonEscape s @ CHR 0x22 # rest) =
     (if \<forall>c \<in> set s. plain c then Some (s, rest) else None)"
  by (simp add: ParseString_def string_loop_escape)

definition admissible :: "Value \<Rightarrow> bool" where
  "admissible v \<longleftrightarrow> (if is_string v then \<forall>c \<in> set (text_of v). plain c
     else text_of v \<noteq> [] \<and> (\<forall>c \<in> set (text_of v). in_token c) \<and>
       hd (text_of v) \<notin> {CHR 0x22, CHR ''{'', CHR ''[''})"

definition render_string :: "string \<Rightarrow> string" where
  "render_string s = CHR 0x22 # JsonEscape s @ [CHR 0x22]"

definition render_value :: "Value \<Rightarrow> string" where
  "render_value v = (if is_string v then render_string (text_of v) else text_of v)"

fun render_members :: "(string \<times> Value) list \<Rightarrow> string" where
  "render_members [] = ''}''"
| "render_members [(k, v)] = render_string k @ CHR '':'' # render_value v @ ''}''"
| "render_members ((k, v) # kvs) =
     render_string k @ CHR '':'' # render_value v @ CHR '','' # render_members kvs"

definition render_object :: "(string \<times> Value) list \<Rightarrow> string" where
  "render_object kvs = CHR ''{'' # render_members kvs"

lemma SkipWs_not: "\<not> is_ws c \<Longrightarrow> SkipWs (c # s) = c # s"
  by (simp add: SkipWs_def)

lemma not_ws [simp]:
  "\<not> is_ws (CHR 0x22)" "\<not> is_ws (CHR '','')" "\<not> is_ws (CHR ''}'')" "\<not> is_ws (CHR '':'')"
  "\<not> is_ws (CHR ''{'')"
  by (simp_all add: is_ws_def)

lemma parse_value_render:
  assumes "admissible v" "d = CHR '','' \<or> d = CHR ''}''"
  shows "parse_value (SkipWs (render_value v @ d # s)) = Some (v, d # s)"
proof (cases "is_string v")
  case True
  with assms(1) show ?thesis
    by (cases v) (simp add: render_value_def render_string_def SkipWs_not parse_value_def
        ParseString_escape admissible_def)
next
  case False
  then obtain c t where t: "text_of v = c # t" using assms(1) by (cases "text_of v") (auto simp: admissible_def)
  with False assms(1) have c: "\<forall>x \<in> set (c # t). in_token x" "c \<notin> {CHR 0x22, CHR ''{'', CHR ''[''}"
    by (auto simp: admissible_def)
  have d: "\<not> in_token d" using assms(2) by (auto simp: in_token_def)
  have "takeWhile in_token ((c # t) @ d # s) = c # t" "dropWhile in_token ((c # t) @ d # s) = d # s"
    using c(1) d takeWhile_append2 [of "c # t" in_token "d # s"]
      dropWhile_append2 [of "c # t" in_token "d # s"] by simp_all
  moreover have "\<not> is_ws c" using c(1) by (simp add: in_token_def)
  ultimately show ?thesis
    using False t c(2) by (cases v) (simp add: render_value_def SkipWs_not parse_value_def Let_def)
qed

lemma object_loop_member:
  assumes "admissible v" "\<forall>c \<in> set k. plain c" "out k = None" "d = CHR '','' \<or> d = CHR ''}''"
  shows "object_loop (render_string k @ CHR '':'' # render_value v @ d # s) out =
    (if d = CHR '','' then object_loop s (out(k \<mapsto> v)) else Some (out(k \<mapsto> v), s))"
proof -
  have "ParseString (SkipWs (render_string k @ CHR '':'' # render_value v @ d # s)) =
      Some (k, CHR '':'' # render_value v @ d # s)"
    using assms(2) by (simp add: render_string_def SkipWs_not ParseString_escape)
  moreover have "SkipWs (d # s) = d # s" using assms(4) by (auto simp: SkipWs_not)
  ultimately show ?thesis
    using assms(3,4) parse_value_render [OF assms(1,4), of s]
    by (subst object_loop.simps) (auto simp: SkipWs_not expect_def)
qed

lemma object_loop_render:
  "kvs \<noteq> [] \<Longrightarrow> distinct (map fst kvs) \<Longrightarrow> \<forall>k \<in> set (map fst kvs). out k = None \<Longrightarrow>
     \<forall>(k, v) \<in> set kvs. (\<forall>c \<in> set k. plain c) \<and> admissible v \<Longrightarrow>
     object_loop (render_members kvs @ s) out = Some (out ++ map_of kvs, s)"
proof (induction kvs arbitrary: out rule: render_members.induct)
  case (2 k v)
  then show ?case
    using object_loop_member [of v k out "CHR ''}''" s] by (auto simp: map_add_def fun_eq_iff)
next
  case (3 k v kv kvs)
  let ?rest = "kv # kvs"
  have "object_loop (render_members ((k, v) # ?rest) @ s) out =
      object_loop (render_members ?rest @ s) (out(k \<mapsto> v))"
    using 3(3-5) object_loop_member [of v k out "CHR '',''" "render_members ?rest @ s"] by simp
  also have "\<dots> = Some (out(k \<mapsto> v) ++ map_of ?rest, s)"
    using 3(3-5) by (intro 3(1)) auto
  also have "out(k \<mapsto> v) ++ map_of ?rest = out ++ map_of ((k, v) # ?rest)"
    using 3(3) fun_upd_twist [of k "fst kv" "out ++ map_of kvs"]
    by (simp add: map_add_upd_left dom_map_of_conv_image_fst)
  finally show ?case .
qed simp

section \<open>Integers are the canonical decimals in range\<close>

lemma digit_loop_value:
  "digit_loop t v = (if \<forall>c \<in> set t. is_digit c
     then Some (foldl (\<lambda>v c. v * 10 + of_nat (digit_of c)) v t) else None)"
proof (induction t v rule: digit_loop.induct)
  case (2 c t v)
  show ?case
  proof (cases "is_digit c")
    case True
    then have "(of_char c :: u64) - of_char (CHR ''0'') = of_nat (digit_of c)"
      by (simp add: is_digit_range digit_of_def of_nat_diff of_nat_of_char)
    with True 2 show ?thesis by (auto simp: is_digit_def not_le)
  next
    case False
    then show ?thesis by (auto simp: is_digit_def not_le)
  qed
qed simp

lemma foldl_digits_word:
  "foldl (\<lambda>v c. v * 10 + of_nat (digit_of c)) (of_nat n) t =
     (of_nat (foldl (\<lambda>v c. v * 10 + digit_of c) n t) :: u64)"
proof (induction t arbitrary: n)
  case (Cons c t)
  have "(of_nat n :: u64) * 10 + of_nat (digit_of c) = of_nat (n * 10 + digit_of c)" by simp
  with Cons.IH [of "n * 10 + digit_of c"] show ?case by (simp only: foldl.simps)
qed simp

text \<open>The sign and the digits of a number token.\<close>

definition split_sign :: "string \<Rightarrow> bool \<times> string" where
  "split_sign t = (case t of
       [] \<Rightarrow> (False, [])
     | c # t \<Rightarrow> if c = CHR ''-'' then (True, t) else (False, c # t))"

definition digits_ok :: "string \<Rightarrow> bool" where
  "digits_ok t \<longleftrightarrow> t \<noteq> [] \<and> length t \<le> 18 \<and> (hd t = CHR ''0'' \<longrightarrow> length t = 1) \<and>
     (\<forall>c \<in> set t. is_digit c)"

lemma digits_ok_iff: "digits_ok t \<longleftrightarrow> (\<exists>n < 10 ^ 18. t = decimal_nat n)"
proof
  assume t: "digits_ok t"
  then have "value_of t < 10 ^ length t" by (intro value_of_less) (simp add: digits_ok_def)
  also have "\<dots> \<le> 10 ^ 18" using t by (intro power_increasing) (simp_all add: digits_ok_def)
  finally show "\<exists>n < 10 ^ 18. t = decimal_nat n"
    using t decimal_nat_value [of t] by (auto simp: digits_ok_def intro!: exI [of _ "value_of t"])
next
  assume "\<exists>n < 10 ^ 18. t = decimal_nat n"
  then obtain n where n: "n < 10 ^ 18" "t = decimal_nat n" by blast
  from decimal_nat_length [of n 17] n have "length t \<le> 18" by simp
  with decimal_nat_hd [of n] decimal_nat_digits [of n] show "digits_ok t"
    by (simp add: digits_ok_def n(2))
qed

lemma sint_small:
  assumes "n < 10 ^ 18"
  shows "sint (of_nat n :: u64) = int n" "sint (- of_nat n :: u64) = - int n"
  using sint_u64 [of n] assms by simp_all

text \<open>The integer that a token denotes: its canonical decimal, or a negative zero.\<close>

definition denotes :: "string \<Rightarrow> int \<Rightarrow> bool" where
  "denotes t i \<longleftrightarrow> t = decimal i \<or> t = ''-0'' \<and> i = 0"

lemma split_sign_decimal_nat: "split_sign (decimal_nat n) = (False, decimal_nat n)"
proof -
  obtain c t where c: "decimal_nat n = c # t" using decimal_nat_hd [of n] by (cases "decimal_nat n") auto
  then have "is_digit c" using decimal_nat_digits [of n] by simp
  then have "c \<noteq> CHR ''-''" by (auto simp: is_digit_range)
  with c show ?thesis by (simp add: split_sign_def)
qed

lemma denotes_split:
  assumes "denotes t i" "\<bar>i\<bar> < 10 ^ 18" "split_sign t = (neg, u)"
  shows "digits_ok u \<and> i = (if neg then - int (value_of u) else int (value_of u))"
proof -
  have d: "digits_ok (decimal_nat n) \<and> value_of (decimal_nat n) = n" if "n < 10 ^ 18" for n
    using that decimal_nat_digits [of n] by (auto simp: digits_ok_iff)
  consider "i < 0" "t = CHR ''-'' # decimal_nat (nat (- i))" | "i \<ge> 0" "t = decimal_nat (nat i)"
    | "t = CHR ''-'' # decimal_nat 0" "i = 0"
    using assms(1) unfolding denotes_def decimal_def decimal_nat_0 by (cases "i < 0") auto
  then show ?thesis
  proof cases
    case 1
    with assms(2,3) d [of "nat (- i)"] show ?thesis by (auto simp: split_sign_def)
  next
    case 2
    with assms(2,3) d [of "nat i"] show ?thesis by (auto simp: split_sign_decimal_nat)
  next
    case 3
    with assms(3) d [of 0] show ?thesis by (auto simp: split_sign_def)
  qed
qed

lemma split_denotes:
  assumes "split_sign t = (neg, u)" "digits_ok u"
  shows "denotes t (if neg then - int (value_of u) else int (value_of u)) \<and> value_of u < 10 ^ 18"
proof -
  obtain n where n: "n < 10 ^ 18" "u = decimal_nat n" using assms(2) by (auto simp: digits_ok_iff)
  then have v: "value_of u = n" using decimal_nat_digits [of n] by simp
  have "t = (if neg then CHR ''-'' # u else u)"
    using assms(1) by (auto simp: split_sign_def split: list.splits if_splits)
  with n v show ?thesis by (cases "n = 0") (auto simp: denotes_def decimal_def decimal_nat_0)
qed

lemma GetInt_digits:
  assumes "obj key = Some v" "\<not> is_string v" "split_sign (text_of v) = (neg, u)"
  shows "GetInt obj key lo hi out =
    (let i = (if neg then - int (value_of u) else int (value_of u))
     in if digits_ok u \<and> sint lo \<le> i \<and> i \<le> sint hi then (kOk, of_int i) else (kInvalid, out))"
proof (cases "digits_ok u")
  case True
  then obtain n where n: "n < 10 ^ 18" "u = decimal_nat n" by (auto simp: digits_ok_iff)
  then have v: "value_of u = n" using decimal_nat_digits [of n] by simp
  have "digit_loop u 0 = Some (of_nat (value_of u))"
    using True foldl_digits_word [of 0 u] by (simp add: digit_loop_value digits_ok_def value_of_def)
  with True assms sint_small [OF n(1)] v show ?thesis
    unfolding GetInt_def split_sign_def by (auto simp: digits_ok_def Let_def)
next
  case False
  then have "length u = 0 \<or> length u > 18 \<or> hd u = CHR ''0'' \<and> length u > 1 \<or> digit_loop u 0 = None"
    by (cases u) (auto simp: digits_ok_def digit_loop_value)
  with False assms show ?thesis unfolding GetInt_def split_sign_def by (auto simp: Let_def)
qed

section \<open>Properties\<close>

text \<open>
  A string that is escaped and quoted is parsed back to itself, with what follows it left over,
  exactly when it has no control character but line feed, carriage return and tab; the escapes that
  are written for the others are not accepted by the parser of the same bridge.
\<close>

theorem json_string_roundtrip:
  "ParseString (CHR 0x22 # JsonEscape s @ CHR 0x22 # rest) =
     (if \<forall>c \<in> set s. (0x20 :: nat) \<le> of_char c \<or> c \<in> {CHR 0x0A, CHR 0x0D, CHR 0x09}
      then Some (s, rest) else None)"
  using ParseString_escape [of s rest] by (simp add: plain_def)

theorem json_string_roundtrip_witness:
  "ParseString (CHR 0x22 # JsonEscape [CHR 0x22, CHR 0x0A, CHR ''x''] @ CHR 0x22 # ''}'') =
     Some ([CHR 0x22, CHR 0x0A, CHR ''x''], ''}'') \<and>
   ParseString (CHR 0x22 # JsonEscape [CHR 0x01] @ CHR 0x22 # ''}'') = None"
  using json_string_roundtrip [of "[CHR 0x22, CHR 0x0A, CHR ''x'']" "''}''"]
    json_string_roundtrip [of "[CHR 0x01]" "''}''"] by simp

lemma SkipWs_append: "\<forall>c \<in> set a. is_ws c \<Longrightarrow> SkipWs (a @ s) = SkipWs s"
  by (simp add: SkipWs_def)

lemma SkipWs_all: "\<forall>c \<in> set a. is_ws c \<Longrightarrow> SkipWs a = []"
  by (simp add: SkipWs_def)

lemma render_members_hd: "\<exists>t. render_members ((k, v) # kvs) = CHR 0x22 # t"
  by (cases kvs) (simp_all add: render_string_def)

lemma parse_rendered:
  assumes "distinct (map fst kvs)"
    and "\<forall>(k, v) \<in> set kvs. (\<forall>c \<in> set k. plain c) \<and> admissible v"
    and "\<forall>c \<in> set before. is_ws c" "\<forall>c \<in> set after. is_ws c"
  shows "ParseFlatObject (before @ render_object kvs @ after) = Some (map_of kvs)"
proof -
  have e: "expect (CHR ''{'') (SkipWs (before @ render_object kvs @ after)) =
      Some (render_members kvs @ after)"
    using assms(3) by (simp add: SkipWs_append render_object_def SkipWs_not expect_def)
  show ?thesis
  proof (cases kvs)
    case Nil
    with e assms(4) show ?thesis by (simp add: ParseFlatObject_def SkipWs_not SkipWs_all)
  next
    case (Cons kv rest)
    then obtain t where t: "render_members kvs @ after = CHR 0x22 # t"
      using render_members_hd [of "fst kv" "snd kv" rest] by auto
    have "object_loop (render_members kvs @ after) Map.empty = Some (map_of kvs, after)"
      using object_loop_render [of kvs Map.empty after] assms(1,2) Cons by simp
    with e t assms(4) show ?thesis by (simp add: ParseFlatObject_def SkipWs_not SkipWs_all)
  qed
qed



text \<open>
  C39. An integer argument is accepted exactly when its token is the canonical decimal of an integer
  (no sign but a minus, no leading zero, no fraction or exponent; \<open>-0\<close> counts as 0) of at most 18
  digits in the range asked for, and then it is that integer: the 64-bit arithmetic does not wrap.
  Otherwise the output is left alone.
\<close>

theorem get_int_exact:
  assumes "obj key = Some v" "\<not> is_string v"
  shows "(\<forall>i. denotes (text_of v) i \<and> \<bar>i\<bar> < 10 ^ 18 \<and> sint lo \<le> i \<and> i \<le> sint hi \<longrightarrow>
      GetInt obj key lo hi out = (kOk, of_int i) \<and> sint (of_int i :: u64) = i) \<and>
    ((\<nexists>i. denotes (text_of v) i \<and> \<bar>i\<bar> < 10 ^ 18 \<and> sint lo \<le> i \<and> i \<le> sint hi) \<longrightarrow>
      GetInt obj key lo hi out = (kInvalid, out))"
proof -
  obtain neg u where u: "split_sign (text_of v) = (neg, u)" by fastforce
  let ?i = "if neg then - int (value_of u) else int (value_of u)"
  note g = GetInt_digits [of obj key v neg u lo hi out, OF assms u]
  have "GetInt obj key lo hi out = (kOk, of_int i) \<and> sint (of_int i :: u64) = i"
    if i: "denotes (text_of v) i \<and> \<bar>i\<bar> < 10 ^ 18 \<and> sint lo \<le> i \<and> i \<le> sint hi" for i
  proof -
    have d: "digits_ok u" "i = ?i" using denotes_split [OF _ _ u, of i] i by blast+
    then have "value_of u < 10 ^ 18" using split_denotes [OF u] by blast
    then have "sint (of_int i :: u64) = i" using sint_small [of "value_of u"] d(2) by simp
    with g d i show ?thesis by (simp add: Let_def)
  qed
  moreover have "GetInt obj key lo hi out = (kInvalid, out)"
    if n: "\<nexists>i. denotes (text_of v) i \<and> \<bar>i\<bar> < 10 ^ 18 \<and> sint lo \<le> i \<and> i \<le> sint hi"
  proof -
    have "\<not> (digits_ok u \<and> sint lo \<le> ?i \<and> ?i \<le> sint hi)"
    proof
      assume a: "digits_ok u \<and> sint lo \<le> ?i \<and> ?i \<le> sint hi"
      with split_denotes [OF u] have "denotes (text_of v) ?i \<and> \<bar>?i\<bar> < 10 ^ 18" by auto
      with a n show False by blast
    qed
    with g show ?thesis unfolding Let_def by argo
  qed
  ultimately show ?thesis by blast
qed

theorem get_int_exact_witness:
  "GetInt [''n'' \<mapsto> \<lparr>is_string = False, text_of = ''-42''\<rparr>] ''n'' (-100) 100 7 = (kOk, -42)"
proof -
  let ?v = "\<lparr>is_string = False, text_of = ''-42''\<rparr>"
  have "char_of (52 :: nat) = CHR ''4''" "char_of (50 :: nat) = CHR ''2''"
    by (simp_all add: char_of_eq_iff)
  then have d: "denotes ''-42'' (-42)"
    by (simp add: denotes_def decimal_def decimal_nat.simps [of 42] decimal_nat.simps [of 4])
  have "[''n'' \<mapsto> ?v] ''n'' = Some ?v" "\<not> is_string ?v" by simp_all
  from get_int_exact [of "[''n'' \<mapsto> ?v]" "''n''", OF this, THEN conjunct1, THEN spec, of "-42" "-100" 100 7] d
  show ?thesis by simp
qed

end
