(* ===== verification/Cli.thy ===== *)
theory Cli
  imports Benchmark Entropy_Stats Bridge_Json
begin

unbundle bit_operations_syntax

text \<open>
  The command line (\<open>src/app/main.c\<close>): reading of the arguments, a benchmark or one generation, and
  what the process prints, writes and leaves behind. What the environment answers is a record; the
  values that the tables of the reports hold are part of the result, their layout is not.
\<close>

section \<open>Arguments\<close>

text \<open>A size is plain digits: a sign, which \<open>strtoull\<close> would accept and wrap, is refused.\<close>

definition parse_size :: "string \<Rightarrow> u64 option" where
  "parse_size t =
     (if t = [] \<or> \<not> is_digit (hd t) then None
      else case strtoull t of
             None \<Rightarrow> None
           | Some (parsed, range_error, rest) \<Rightarrow>
               if range_error \<or> rest \<noteq> [] then None
               else if parsed > SIZE_MAX then None
               else Some parsed)"

definition parse_int :: "string \<Rightarrow> int option" where
  "parse_int t = (case strtol t of
       None \<Rightarrow> None
     | Some (parsed, range_error, rest) \<Rightarrow>
         if range_error \<or> rest \<noteq> [] \<or> parsed \<le> 0 \<or> parsed > 2147483647 then None
         else Some parsed)"

record cli_options =
  random_byte_count :: u64
  benchmark_bytes :: u64
  benchmark_iterations :: int
  write_output :: bool
  prompt_write :: bool
  run_benchmark_mode :: bool
  print_status :: bool
  print_stats :: bool
  settings :: rng_settings

definition cli_defaults :: cli_options where
  "cli_defaults = \<lparr>random_byte_count = 32, benchmark_bytes = 1024, benchmark_iterations = 1000,
     write_output = False, prompt_write = False, run_benchmark_mode = False, print_status = False,
     print_stats = False, settings = rng_settings_defaults\<rparr>"

text \<open>
  One argument: an exit code, or the options with it and the arguments that are left. Some arguments
  take the ones that follow.
\<close>

definition parse_arg :: "string \<Rightarrow> string list \<Rightarrow> cli_options \<Rightarrow> int + (cli_options \<times> string list)" where
  "parse_arg arg args o1 =
     (if arg = ''--bytes''
      then (case args of
              [] \<Rightarrow> Inl 2
            | n # rest \<Rightarrow> (case parse_size n of
                  None \<Rightarrow> Inl 2
                | Some v \<Rightarrow> Inr (o1\<lparr>random_byte_count := v\<rparr>, rest)))
      else if arg = ''--write'' then Inr (o1\<lparr>write_output := True\<rparr>, args)
      else if arg = ''--prompt-write'' then Inr (o1\<lparr>prompt_write := True\<rparr>, args)
      else if arg = ''--benchmark''
      then (case args of
              n # i # rest \<Rightarrow>
                if take 1 n \<noteq> ''-'' \<and> take 1 i \<noteq> ''-''
                then (case (parse_size n, parse_int i) of
                        (Some v, Some k) \<Rightarrow>
                          Inr (o1\<lparr>run_benchmark_mode := True, benchmark_bytes := v, benchmark_iterations := k\<rparr>, rest)
                      | _ \<Rightarrow> Inl 2)
                else Inr (o1\<lparr>run_benchmark_mode := True\<rparr>, args)
            | _ \<Rightarrow> Inr (o1\<lparr>run_benchmark_mode := True\<rparr>, args))
      else if arg = ''--status'' then Inr (o1\<lparr>print_status := True\<rparr>, args)
      else if arg = ''--stats'' then Inr (o1\<lparr>print_stats := True\<rparr>, args)
      else if arg = ''--osr''
      then (case args of
              [] \<Rightarrow> Inl 2
            | n # rest \<Rightarrow> (case parse_size n of
                  None \<Rightarrow> Inl 2
                | Some v \<Rightarrow>
                    if v > 65535 then Inl 2
                    else Inr (o1\<lparr>settings := (settings o1)\<lparr>rs_osr := ucast v\<rparr>\<rparr>, rest)))
      else if arg = ''--force-fips'' then Inr (o1\<lparr>settings := (settings o1)\<lparr>rs_force_fips := True\<rparr>\<rparr>, args)
      else if arg = ''--ntg1'' then Inr (o1\<lparr>settings := (settings o1)\<lparr>rs_ntg1 := True\<rparr>\<rparr>, args)
      else if arg = ''--no-memory-access''
      then Inr (o1\<lparr>settings := (settings o1)\<lparr>rs_disable_memory_access := True\<rparr>\<rparr>, args)
      else if arg = ''--help'' then Inl 0
      else Inl 2)"

lemma parse_int_bounds: "parse_int t = Some k \<Longrightarrow> 0 < k \<and> k < 2 ^ 31"
  by (auto simp: parse_int_def split: option.splits if_splits)

lemma parse_arg_step:
  "parse_arg arg args o1 = Inr (o2, rest) \<Longrightarrow> length rest \<le> length args \<and>
     (benchmark_iterations o2 = benchmark_iterations o1 \<or> benchmark_iterations o2 < 2 ^ 31)"
  unfolding parse_arg_def
  by (auto dest: parse_int_bounds split: if_split_asm list.split_asm option.split_asm)

text \<open>The arguments after the program's name: an exit code, or the options.\<close>

function parse_args :: "string list \<Rightarrow> cli_options \<Rightarrow> int + cli_options" where
  "parse_args [] o1 = Inr o1"
| "parse_args (arg # args) o1 = (case parse_arg arg args o1 of
       Inl code \<Rightarrow> Inl code
     | Inr (o2, rest) \<Rightarrow> parse_args rest o2)"
  by pat_completeness auto
termination
  by (relation "measure (length o fst)") (use parse_arg_step in \<open>auto simp: le_imp_less_Suc\<close>)

section \<open>The run\<close>

text \<open>
  What the environment answers: the memory of the two calls of \<open>malloc\<close>, the line that is typed when
  the user is asked, and whether \<open>random.bin\<close> could be opened, written and closed.
\<close>

record environment =
  env_malloc :: "u8 list option"
  env_benchmark_malloc :: "u8 list option"
  env_answer :: "string option"
  env_fopen :: bool
  env_fwrite :: bool
  env_fclose :: bool

text \<open>
  What is left behind: the exit code, the bytes printed as text, the content of the file, the entropy
  report, the library's status, the outcome of a benchmark, the buffer as it is freed.
\<close>

record 'd cli_result =
  exit_code :: int
  printed :: "string option"
  file_written :: "u8 list option"
  reported :: "'d entropy_report option"
  status_printed :: "u8 list option"
  benchmark_done :: "(int \<times> 'd benchmark_result) option"
  freed :: "u8 list option"

definition should_prompt_write :: "environment \<Rightarrow> bool" where
  "should_prompt_write env = (case env_answer env of
       None \<Rightarrow> False
     | Some answer \<Rightarrow> take 1 answer = ''y'' \<or> take 1 answer = ''Y'')"

text \<open>The return value, and the content of the file when all of it was written.\<close>

definition write_random_file :: "environment \<Rightarrow> u8 list \<Rightarrow> int \<times> u8 list option" where
  "write_random_file env buffer =
     (if \<not> env_fopen env then (-1, None)
      else if \<not> env_fwrite env then (-1, None)
      else if \<not> env_fclose env then (-1, None)
      else (0, Some buffer))"

definition print_hex :: "u8 list \<Rightarrow> string" where
  "print_hex bytes = concat (map (\<lambda>b. [hex_digit (unat b div 16), hex_digit (unat b mod 16)]) bytes)"

text \<open>\<open>rng_get_status_json\<close> into a buffer of the stack; there is no other thread that holds the lock.\<close>

definition report_status :: "bool \<Rightarrow> 'd rng_state \<Rightarrow> u8 list option option" where
  "report_status wanted s =
     (if \<not> wanted then Some None
      else do {
        (ret, buf) \<leftarrow> rng_get_status_json True (Some (replicate 4096 0)) 4096 s;
        Some (if ret = 0 then buf else None)
      })"

definition exit_with :: "int \<Rightarrow> 'd cli_result" where
  "exit_with code = \<lparr>exit_code = code, printed = None, file_written = None, reported = None,
     status_printed = None, benchmark_done = None, freed = None\<rparr>"

definition cli_benchmark ::
  "'d math_ops \<Rightarrow> environment \<Rightarrow> cli_options \<Rightarrow> 'd rng_state \<Rightarrow> ('d cli_result \<times> 'd rng_state) option" where
  "cli_benchmark m env o1 s = do {
     (ret, res, buf, s) \<leftarrow> run_benchmark (float_ops.truncate m) (env_benchmark_malloc env) (\<lambda>_. False)
       (benchmark_bytes o1) (benchmark_iterations o1) s;
     status \<leftarrow> report_status (print_status o1) s;
     Some ((exit_with (if ret \<noteq> 0 then 1 else 0))
             \<lparr>status_printed := status, benchmark_done := Some (ret, res), freed := buf\<rparr>, s)
   }"

text \<open>What follows a successful generation: \<open>bytes\<close> are the first \<open>len\<close> bytes of the buffer.\<close>

definition cli_deliver ::
  "'d math_ops \<Rightarrow> environment \<Rightarrow> cli_options \<Rightarrow> u8 list \<Rightarrow> 'd rng_state \<Rightarrow>
     ('d cli_result \<times> 'd rng_state) option" where
  "cli_deliver m env o1 buf s =
     (let len = random_byte_count o1; bytes = take (unat len) buf;
          res = (exit_with 0)\<lparr>printed := Some (print_hex bytes), freed := Some (rng_secure_zero buf len)\<rparr>;
          write = (if prompt_write o1 \<and> \<not> write_output o1 then should_prompt_write env
                   else write_output o1);
          (failed, file) = (if write then write_random_file env bytes else (0, None))
      in if failed \<noteq> 0 then Some (res\<lparr>exit_code := 1\<rparr>, shutdown_rng s)
         else do {
           let report = (if print_stats o1 then Some (entropy_stats_report m buf len) else None);
           status \<leftarrow> report_status (print_status o1) s;
           Some (res\<lparr>file_written := file, reported := report, status_printed := status\<rparr>, shutdown_rng s)
         })"

definition cli_generate ::
  "'d math_ops \<Rightarrow> environment \<Rightarrow> cli_options \<Rightarrow> 'd rng_state \<Rightarrow> ('d cli_result \<times> 'd rng_state) option" where
  "cli_generate m env o1 s =
     (let len = random_byte_count o1
      in if len = 0 then Some (exit_with 2, s)
         else case env_malloc env of
                None \<Rightarrow> Some (exit_with 1, s)
              | Some buf \<Rightarrow> do {
                  (ret, s) \<leftarrow> init_rng s;
                  if ret \<noteq> 0 then Some ((exit_with 1)\<lparr>freed := Some buf\<rparr>, s)
                  else do {
                    (ret, data, s) \<leftarrow> get_random_bytes (float_ops.truncate m) (Some buf) len s;
                    if ret \<noteq> 0
                    then Some ((exit_with 1)\<lparr>freed := Some (rng_secure_zero (the data) len)\<rparr>, shutdown_rng s)
                    else cli_deliver m env o1 (the data) s
                  }
                })"

definition cli_main ::
  "'d math_ops \<Rightarrow> environment \<Rightarrow> string list \<Rightarrow> 'd rng_state \<Rightarrow> ('d cli_result \<times> 'd rng_state) option" where
  "cli_main m env args s = (case parse_args args cli_defaults of
       Inl code \<Rightarrow> Some (exit_with code, s)
     | Inr o1 \<Rightarrow>
         let (ret, s) = rng_configure (Some (settings o1)) s
         in if ret \<noteq> 0 then Some (exit_with 1, s)
            else if run_benchmark_mode o1 then cli_benchmark m env o1 s
            else cli_generate m env o1 s)"

section \<open>Numbers\<close>

lemma scan_number_plain:
  assumes "is_digit (hd t)" "t \<noteq> []"
  shows "scan_number t = Some (False, takeWhile is_digit t, dropWhile is_digit t)"
proof -
  obtain c r where t: "t = c # r" using assms(2) by (cases t) auto
  have n: "takeWhile is_digit t \<noteq> []" using assms t by simp
  have d: "\<forall>c \<in> set (takeWhile is_digit t). is_digit c" by (auto dest: set_takeWhileD)
  have r: "dropWhile is_digit t = [] \<or> \<not> is_digit (hd (dropWhile is_digit t))"
    using hd_dropWhile [of is_digit t] by blast
  from scan_number_digits [OF n d r] show ?thesis by simp
qed

lemma parse_size_value:
  "parse_size t = (if t \<noteq> [] \<and> list_all is_digit t \<and> value_of t < 2 ^ 64 then Some (of_nat (value_of t)) else None)"
proof (cases "t \<noteq> [] \<and> is_digit (hd t)")
  case True
  note scan = scan_number_plain [of t]
  have big: "\<not> parsed > SIZE_MAX" for parsed :: u64 by (simp add: not_less)
  show ?thesis
  proof (cases "list_all is_digit t")
    case all: True
    then have "takeWhile is_digit t = t" "dropWhile is_digit t = []"
      by (simp_all add: list_all_iff takeWhile_eq_all_conv dropWhile_eq_Nil_conv)
    with all True scan big show ?thesis by (simp add: parse_size_def strtoull_def)
  next
    case False
    then have "dropWhile is_digit t \<noteq> []" by (simp add: list_all_iff dropWhile_eq_Nil_conv)
    with False True scan show ?thesis by (simp add: parse_size_def strtoull_def)
  qed
next
  case False
  then show ?thesis by (cases t) (auto simp: parse_size_def)
qed

lemma parse_args_iterations:
  "parse_args args o1 = Inr o2 \<Longrightarrow> benchmark_iterations o1 < 2 ^ 31 \<Longrightarrow> benchmark_iterations o2 < 2 ^ 31"
proof (induction args o1 rule: parse_args.induct)
  case (2 arg args o1)
  from 2(2) obtain o3 rest where a: "parse_arg arg args o1 = Inr (o3, rest)" "parse_args rest o3 = Inr o2"
    by (auto split: sum.splits)
  from parse_arg_step [OF a(1)] 2(3) have "benchmark_iterations o3 < 2 ^ 31" by auto
  with 2(1) [OF a(1) refl a(2)] show ?case .
qed simp

section \<open>What a run prints and leaves behind\<close>

definition delivered :: "cli_options \<Rightarrow> 'd cli_result \<Rightarrow> bool" where
  "delivered o1 res \<longleftrightarrow> (\<exists>pieces. (\<forall>p \<in> set pieces. supplied p) \<and>
     length (concat pieces) = unat (random_byte_count o1) \<and>
     printed res = Some (print_hex (concat pieces)) \<and>
     (file_written res = None \<or> file_written res = Some (concat pieces)))"

definition released :: "heap_block multiset \<Rightarrow> 'd rng_state \<Rightarrow> bool" where
  "released h s \<longleftrightarrow> library_ok h s \<and> monitor_ok s \<and> rng_collector s = None"

lemma released_heap: "released h s \<Longrightarrow> w_heap (library s) = h"
  by (auto simp: released_def library_ok_def)

lemma secure_zero_exact: "length buf = unat len \<Longrightarrow> rng_secure_zero buf len = replicate (unat len) 0"
  by (simp add: rng_secure_zero_def memset_at_def)

lemma cli_deliver_result:
  assumes "cli_deliver m env o1 buf s = Some (res, s')" "library_ok h s" "monitor_ok s"
    "length buf = unat (random_byte_count o1)" "buf = concat pieces" "\<forall>p \<in> set pieces. supplied p"
  shows "released h s' \<and> delivered o1 res \<and> exit_code res \<in> {0, 1} \<and>
    freed res = Some (replicate (unat (random_byte_count o1)) 0) \<and> benchmark_done res = None \<and>
    (exit_code res = 0 \<longrightarrow> (write_output o1 \<longrightarrow> file_written res \<noteq> None) \<and>
      (print_stats o1 \<longrightarrow> reported res \<noteq> None))"
proof -
  have "released h (shutdown_rng s)" using shutdown_keeps [OF assms(2,3)] by (simp add: released_def)
  moreover have "delivered o1 r" if "printed r = Some (print_hex buf)"
    "file_written r = None \<or> file_written r = Some buf" for r :: "'a cli_result"
    using that assms(4-6) unfolding delivered_def by blast
  ultimately show ?thesis
    using assms(1,4)
    by (auto simp: cli_deliver_def Let_def exit_with_def write_random_file_def secure_zero_exact
        elim!: bind_SomeE split: if_splits)
qed

text \<open>
  What the process may come to: nothing generated with a code other than 0, a benchmark, or bytes
  delivered; a buffer that held generated bytes was wiped.
\<close>

definition cli_ended :: "cli_options \<Rightarrow> environment \<Rightarrow> 'd cli_result \<Rightarrow> bool" where
  "cli_ended o1 env res \<longleftrightarrow> exit_code res \<in> {0, 1, 2} \<and>
     (if printed res \<noteq> None
      then delivered o1 res \<and> freed res = Some (replicate (unat (random_byte_count o1)) 0)
      else file_written res = None \<and>
        (freed res = None \<or> freed res = env_malloc env \<or> (\<exists>n. freed res = Some (replicate n 0)))) \<and>
     (exit_code res = 0 \<longrightarrow> (if run_benchmark_mode o1
        then \<exists>r. benchmark_done res = Some (0, r) \<and> br_completed_iterations r = benchmark_iterations o1
        else printed res \<noteq> None \<and> (write_output o1 \<longrightarrow> file_written res \<noteq> None) \<and>
          (print_stats o1 \<longrightarrow> reported res \<noteq> None)))"

lemma cli_generate_result:
  assumes "cli_generate m env o1 s = Some (res, s')" "released h s"
    "\<And>buf. env_malloc env = Some buf \<Longrightarrow> length buf = unat (random_byte_count o1)"
    "\<not> run_benchmark_mode o1"
  shows "released h s' \<and> cli_ended o1 env res"
proof -
  let ?len = "random_byte_count o1"
  have k: "library_ok h s" "monitor_ok s" "rng_collector s = None" using assms(2) by (simp_all add: released_def)
  consider "?len = 0 \<or> env_malloc env = None" | buf where "?len \<noteq> 0" "env_malloc env = Some buf" by auto
  then show ?thesis
  proof cases
    case 1
    with assms(1,2,4) show ?thesis
      by (auto simp: cli_generate_def exit_with_def cli_ended_def Let_def split: if_splits)
  next
    case 2
    have len: "length buf = unat ?len" by (rule assms(3) [OF 2(2)])
    from assms(1) 2 obtain r1 s1 where i: "init_rng s = Some (r1, s1)" and
      rest: "(if r1 \<noteq> 0 then Some ((exit_with 1)\<lparr>freed := Some buf\<rparr>, s1)
        else do {
          (ret, data, s) \<leftarrow> get_random_bytes (float_ops.truncate m) (Some buf) ?len s1;
          if ret \<noteq> 0
          then Some ((exit_with 1)\<lparr>freed := Some (rng_secure_zero (the data) ?len)\<rparr>, shutdown_rng s)
          else cli_deliver m env o1 (the data) s
        }) = Some (res, s')"
      by (auto simp: cli_generate_def Let_def elim!: bind_SomeE)
    note j = init_rng_keeps [OF i k(1,2)]
    show ?thesis
    proof (cases "r1 = 0")
      case False
      with rest j 2(2) assms(4) show ?thesis
        by (auto simp: released_def cli_ended_def exit_with_def)
    next
      case True
      with rest obtain ret data s2 where
        g: "get_random_bytes (float_ops.truncate m) (Some buf) ?len s1 = Some (ret, data, s2)" and
        d: "(if ret \<noteq> 0
          then Some ((exit_with 1)\<lparr>freed := Some (rng_secure_zero (the data) ?len)\<rparr>, shutdown_rng s2)
          else cli_deliver m env o1 (the data) s2) = Some (res, s')"
        by (auto elim!: bind_SomeE)
      have s1: "library_ok h s1" "monitor_ok s1" "rng_collector s1 \<noteq> None" using j True by simp_all
      have s2: "library_ok h s2 \<and> monitor_ok s2"
        using get_random_bytes_keeps [OF g s1(1,2)] len by simp
      have "generated h ?len s1 buf ret data s2"
        using get_random_bytes_generated [OF g s1(1) _ s1(3) 2(1)] len by simp
      then obtain buf' n pieces where b: "data = Some buf'" "length buf' = length buf"
        "take (unat n) buf' = concat pieces" "\<forall>p \<in> set pieces. supplied p"
        "ret = 0 \<and> n = ?len \<or> ret = RNG_ERR_GENERATION_FAILED"
        unfolding generated_def by blast
      show ?thesis
      proof (cases "ret = 0")
        case False
        with d shutdown_keeps [of h s2] s2 b(1,2) len assms(4) show ?thesis
          by (auto simp: released_def cli_ended_def exit_with_def secure_zero_exact)
      next
        case True
        then have "buf' = concat pieces" "length buf' = unat ?len" using b len by auto
        moreover have "cli_deliver m env o1 buf' s2 = Some (res, s')" using d True b(1) by simp
        ultimately have "released h s' \<and> delivered o1 res \<and> exit_code res \<in> {0, 1} \<and>
            freed res = Some (replicate (unat ?len) 0) \<and> benchmark_done res = None \<and>
            (exit_code res = 0 \<longrightarrow> (write_output o1 \<longrightarrow> file_written res \<noteq> None) \<and>
              (print_stats o1 \<longrightarrow> reported res \<noteq> None))"
          using cli_deliver_result [of m env o1 buf' s2 res s' h pieces] s2 b(4) by blast
        moreover from this have "printed res \<noteq> None" by (auto simp: delivered_def)
        ultimately show ?thesis using assms(4) by (auto simp: cli_ended_def)
      qed
    qed
  qed
qed

lemma cli_benchmark_result:
  assumes "cli_benchmark m env o1 s = Some (res, s')" "released h s"
    "\<And>buf. env_benchmark_malloc env = Some buf \<Longrightarrow> length buf = unat (benchmark_bytes o1)"
    "run_benchmark_mode o1" "benchmark_iterations o1 < 2 ^ 31"
  shows "released h s' \<and> cli_ended o1 env res"
proof -
  from assms(1) obtain ret r buf s1 status where
    b: "run_benchmark (float_ops.truncate m) (env_benchmark_malloc env) (\<lambda>_. False) (benchmark_bytes o1)
      (benchmark_iterations o1) s = Some (ret, r, buf, s1)" and
    e: "res = (exit_with (if ret \<noteq> 0 then 1 else 0))
      \<lparr>status_printed := status, benchmark_done := Some (ret, r), freed := buf\<rparr>" "s' = s1"
    by (auto simp: cli_benchmark_def elim!: bind_SomeE)
  have k: "library_ok h s" "monitor_ok s" "rng_collector s = None" using assms(2) by (simp_all add: released_def)
  have "library_ok h s1 \<and> monitor_ok s1 \<and> (ret = 0 \<longrightarrow> br_completed_iterations r = benchmark_iterations o1) \<and>
      (case buf of None \<Rightarrow> s1 = s | Some b \<Rightarrow> rng_collector s1 = None \<and> b = replicate (unat (benchmark_bytes o1)) 0)"
    using run_benchmark_result [OF b k(1,2) assms(5)] assms(3) by (auto split: option.splits)
  with k assms(4) show ?thesis
    unfolding e by (auto simp: released_def cli_ended_def exit_with_def split: option.splits)
qed

lemma configure_released:
  "released h s \<Longrightarrow> rng_configure c s = (r, s1) \<Longrightarrow> released h s1 \<and> r = 0"
  using rng_step_keeps [OF rng_step.configure, of c s r s1 h]
  by (auto simp: released_def rng_configure_def)

section \<open>Properties\<close>


text \<open>Two bytes are asked for and no memory is left for the library: the process ends with 1.\<close>

definition test_env :: environment where
  "test_env = \<lparr>env_malloc = Some [0, 0], env_benchmark_malloc = None, env_answer = None,
     env_fopen = True, env_fwrite = True, env_fclose = True\<rparr>"

lemma two_bytes: "parse_args [''--bytes'', ''2'', ''--stats''] cli_defaults =
    Inr (cli_defaults\<lparr>random_byte_count := 2, print_stats := True\<rparr>)"
proof -
  have "parse_size ''2'' = Some 2" by (simp add: parse_size_value is_digit_def value_of_def digit_of_def)
  then show ?thesis by (simp add: parse_arg_def)
qed


end
