(* ===== verification/Gui.thy ===== *)
theory Gui
  imports Benchmark Entropy_Stats Bridge_Json
begin

unbundle bit_operations_syntax

text \<open>
  The dashboard's window (\<open>src/app/main_gui.cpp\<close>): the UI thread handles the messages of the page, the
  timer that delivers telemetry and the closing of the window; a worker thread, one at a time, runs a
  generation or a benchmark, and hands its result over. The interleavings of the two threads are the
  paths of a step relation. A step of the UI thread is the handling of one message, a step of a worker
  the work between two accesses to what both threads use: the flags \<open>g_rng_busy\<close> and
  \<open>benchmark_cancel_requested\<close>, the timeline, the pending result, the wrapper below its lock. A
  benchmark is a single step, with the values that the cancel flag has when it reads it.

  A thread is a number. What the system answers is an argument: whether a thread could be created or
  has ended when it is waited for, what memory was obtained. The COM objects, the window itself and the
  text of the telemetry are not modelled.
\<close>

abbreviation (input) RNG_ERR_BUSY :: int where "RNG_ERR_BUSY \<equiv> -1007"
abbreviation (input) RNG_RESULT_CANCELLED :: int where "RNG_RESULT_CANCELLED \<equiv> -2001"
abbreviation (input) GUI_MAX_GENERATE_BYTES :: u64 where "GUI_MAX_GENERATE_BYTES \<equiv> 65536"
abbreviation (input) GUI_MAX_BENCH_BYTES :: u64 where "GUI_MAX_BENCH_BYTES \<equiv> 65536"
abbreviation (input) GUI_MAX_BENCH_ITERATIONS :: u64 where "GUI_MAX_BENCH_ITERATIONS \<equiv> 100000"
abbreviation (input) GENERATE_CHUNK_BYTES :: u64 where "GENERATE_CHUNK_BYTES \<equiv> 4096"

section \<open>State\<close>

text \<open>A result; the statistics are there when \<open>has_entropy_stats\<close>.\<close>

record 'd WorkerResultPayload =
  wr_valid :: bool
  wr_action :: string
  wr_status :: int
  wr_bytes :: u64
  wr_iterations :: int
  wr_duration :: 'd
  wr_init_seconds :: 'd
  wr_hex_data :: string
  wr_stats :: "'d entropy_report option"

record 'd StageTiming =
  start_seconds :: 'd
  duration_seconds :: 'd

record 'd TimelineMetrics =
  tl_valid :: bool
  serialization_pending :: bool
  tl_request :: "'d StageTiming"
  tl_entropy :: "'d StageTiming"
  tl_processing :: "'d StageTiming"
  tl_serialization :: "'d StageTiming"

text \<open>The six readings of the clock that a job records.\<close>

record stamps =
  req_start :: int
  req_end :: int
  ent_start :: int
  ent_end :: int
  proc_start :: int
  proc_end :: int

datatype job = Generate u64 | Benchmark u64 int

text \<open>
  Where a worker is: started; between two chunks, with the buffer, the bytes done and the last return
  code; about to record the timeline; about to publish; about to clear \<open>g_rng_busy\<close>; about to return.
\<close>

datatype 'd worker =
    Started job
  | Generating u64 "u8 list" u64 int stamps
  | Recording "'d WorkerResultPayload" stamps
  | Publishing "'d WorkerResultPayload"
  | Finishing
  | Returning

text \<open>The window is open, being closed, closed, or the process has been ended at once.\<close>

datatype ui_phase = Open | Closing | Closed | Exited

text \<open>
  \<open>threads\<close> are the threads that have not ended, \<open>open_handles\<close> the handles that were not closed,
  \<open>freed_buffers\<close> the contents of the buffers that were freed.
\<close>

record 'd gui =
  rng :: "'d rng_state"
  g_rng_busy :: bool
  benchmark_cancel_requested :: bool
  g_worker_thread :: "nat option"
  threads :: "nat \<Rightarrow> 'd worker option"
  next_thread :: nat
  open_handles :: "nat set"
  freed_buffers :: "u8 list list"
  g_pending_worker_result :: "'d WorkerResultPayload"
  g_session_hist :: entropy_histogram
  g_ui_settings :: rng_settings
  g_last_timeline :: "'d TimelineMetrics"
  g_qpc_frequency :: int
  g_qpc_process_start :: int
  phase :: ui_phase

section \<open>Shared helpers\<close>

definition QpcToProcessSeconds :: "'d math_ops \<Rightarrow> 'd gui \<Rightarrow> int \<Rightarrow> 'd" where
  "QpcToProcessSeconds m s t =
     fl_div m (fl_of_int m (t - g_qpc_process_start s)) (fl_of_int m (g_qpc_frequency s))"

definition QpcElapsedSeconds :: "'d math_ops \<Rightarrow> 'd gui \<Rightarrow> int \<Rightarrow> int \<Rightarrow> 'd" where
  "QpcElapsedSeconds m s start end_time =
     fl_div m (fl_of_int m (end_time - start)) (fl_of_int m (g_qpc_frequency s))"

definition read_clock :: "'d gui \<Rightarrow> int \<times> 'd gui" where
  "read_clock s = (let (t, p) = QueryPerformanceCounter (rng s) in (t, s\<lparr>rng := p\<rparr>))"

text \<open>\<open>waited\<close>: the thread ended before the wait for it timed out.\<close>

definition ReapWorkerHandle :: "bool \<Rightarrow> 'd gui \<Rightarrow> bool \<times> 'd gui" where
  "ReapWorkerHandle waited s = (case g_worker_thread s of
       None \<Rightarrow> (True, s)
     | Some t \<Rightarrow>
         if waited
         then (True, s\<lparr>g_worker_thread := None, open_handles := open_handles s - {t},
                       threads := (threads s)(t := None)\<rparr>)
         else (False, s))"

definition PublishRejection :: "'d math_ops \<Rightarrow> string \<Rightarrow> int \<Rightarrow> 'd gui \<Rightarrow> 'd gui" where
  "PublishRejection m action status s =
     (if wr_valid (g_pending_worker_result s) then s
      else s\<lparr>g_pending_worker_result := \<lparr>wr_valid = True, wr_action = action, wr_status = status,
        wr_bytes = 0, wr_iterations = 0, wr_duration = fl_zero m, wr_init_seconds = fl_zero m,
        wr_hex_data = [], wr_stats = None\<rparr>\<rparr>)"

definition TryAdmitJob :: "'d math_ops \<Rightarrow> bool \<Rightarrow> string \<Rightarrow> 'd gui \<Rightarrow> bool \<times> 'd gui" where
  "TryAdmitJob m waited action s =
     (if g_rng_busy s then (False, PublishRejection m action RNG_ERR_BUSY s)
      else let (ok, s) = ReapWorkerHandle waited (s\<lparr>g_rng_busy := True\<rparr>)
           in if \<not> ok then (False, PublishRejection m action RNG_ERR_BUSY (s\<lparr>g_rng_busy := False\<rparr>))
              else (True, s\<lparr>benchmark_cancel_requested := False\<rparr>))"

definition PublishWorkerStartFailure :: "'d math_ops \<Rightarrow> string \<Rightarrow> u64 \<Rightarrow> int \<Rightarrow> 'd gui \<Rightarrow> 'd gui" where
  "PublishWorkerStartFailure m action bytes iterations s =
     s\<lparr>g_pending_worker_result := \<lparr>wr_valid = True, wr_action = action, wr_status = RNG_ERR_ALLOC_FAILED,
         wr_bytes = bytes, wr_iterations = iterations, wr_duration = fl_zero m,
         wr_init_seconds = fl_zero m, wr_hex_data = [], wr_stats = None\<rparr>,
       g_rng_busy := False\<rparr>"

definition RecordTimeline :: "'d math_ops \<Rightarrow> stamps \<Rightarrow> 'd gui \<Rightarrow> 'd gui" where
  "RecordTimeline m t s =
     (let stage = (\<lambda>a b. \<lparr>start_seconds = QpcToProcessSeconds m s a,
                         duration_seconds = QpcElapsedSeconds m s a b\<rparr>)
      in s\<lparr>g_last_timeline := \<lparr>tl_valid = True, serialization_pending = True,
             tl_request = stage (req_start t) (req_end t), tl_entropy = stage (ent_start t) (ent_end t),
             tl_processing = stage (proc_start t) (proc_end t),
             tl_serialization = \<lparr>start_seconds = fl_zero m, duration_seconds = fl_zero m\<rparr>\<rparr>\<rparr>)"

section \<open>The generating worker\<close>

definition kHex :: string where
  "kHex = ''0123456789abcdef''"

definition hex_text :: "u8 list \<Rightarrow> string" where
  "hex_text bytes = concat (map (\<lambda>b. [kHex ! unat (drop_bit 4 b), kHex ! unat (b AND 0x0f)]) bytes)"

definition generate_result ::
  "'d math_ops \<Rightarrow> int \<Rightarrow> u64 \<Rightarrow> 'd \<Rightarrow> string \<Rightarrow> 'd entropy_report option \<Rightarrow> 'd WorkerResultPayload" where
  "generate_result m gen_ret produced duration hex_str stats =
     \<lparr>wr_valid = True, wr_action = ''generate'', wr_status = gen_ret, wr_bytes = produced,
      wr_iterations = 1, wr_duration = duration, wr_init_seconds = fl_zero m, wr_hex_data = hex_str,
      wr_stats = stats\<rparr>"

text \<open>Up to the first chunk; \<open>malloc\<close> is the buffer, if it was obtained.\<close>

definition generate_start ::
  "'d math_ops \<Rightarrow> u8 list option \<Rightarrow> u64 \<Rightarrow> 'd gui \<Rightarrow> ('d worker \<times> 'd gui) option" where
  "generate_start m malloc byte_count s = do {
     let (start, s) = read_clock s;
     (init_ret, p) \<leftarrow> init_rng (rng s);
     let (end_time, s) = read_clock (s\<lparr>rng := p\<rparr>);
     let t = \<lparr>req_start = start, req_end = end_time, ent_start = end_time, ent_end = end_time,
             proc_start = end_time, proc_end = end_time\<rparr>;
     Some (if init_ret = 0 \<and> byte_count > 0
           then case malloc of
                  Some buf \<Rightarrow>
                    let (now, s) = read_clock s
                    in (Generating byte_count buf 0 0 (t\<lparr>ent_start := now\<rparr>), s)
                | None \<Rightarrow> (Recording (generate_result m RNG_ERR_ALLOC_FAILED 0 (fl_zero m) [] None) t, s)
           else (Recording (generate_result m init_ret 0 (fl_zero m) [] None) t, s))
   }"

definition generate_finish ::
  "'d math_ops \<Rightarrow> u64 \<Rightarrow> u8 list \<Rightarrow> u64 \<Rightarrow> int \<Rightarrow> stamps \<Rightarrow> 'd gui \<Rightarrow> 'd worker \<times> 'd gui" where
  "generate_finish m byte_count buf produced gen_ret t s =
     (let (ent_done, s) = read_clock s;
          duration = QpcElapsedSeconds m s (ent_start t) ent_done;
          (proc_begin, s) = read_clock s;
          hex_str = (if gen_ret = 0 then hex_text (take (unat byte_count) buf) else []);
          stats = (if produced > 0 then Some (entropy_stats_report m buf produced) else None);
          s = s\<lparr>freed_buffers := rng_secure_zero buf byte_count # freed_buffers s\<rparr>;
          (proc_done, s) = read_clock s
      in (Recording (generate_result m gen_ret produced duration hex_str stats)
            (t\<lparr>ent_end := ent_done, proc_start := proc_begin, proc_end := proc_done\<rparr>), s))"

text \<open>One turn of the loop: the condition, the poll of the cancel flag and a chunk.\<close>

definition generate_chunk ::
  "'d math_ops \<Rightarrow> u64 \<Rightarrow> u8 list \<Rightarrow> u64 \<Rightarrow> int \<Rightarrow> stamps \<Rightarrow> 'd gui \<Rightarrow> ('d worker \<times> 'd gui) option" where
  "generate_chunk m byte_count buf done_bytes gen_ret t s =
     (if \<not> done_bytes < byte_count then Some (generate_finish m byte_count buf done_bytes gen_ret t s)
      else if benchmark_cancel_requested s
      then Some (generate_finish m byte_count buf done_bytes RNG_RESULT_CANCELLED t s)
      else do {
        let n = min (byte_count - done_bytes) GENERATE_CHUNK_BYTES;
        (gen_ret, rest, p) \<leftarrow>
          get_random_bytes (float_ops.truncate m) (Some (drop (unat done_bytes) buf)) n (rng s);
        let s = s\<lparr>rng := p\<rparr>;
        let buf = take (unat done_bytes) buf @ the rest;
        Some (if gen_ret \<noteq> 0 then generate_finish m byte_count buf done_bytes gen_ret t s
              else (Generating byte_count buf (done_bytes + n) gen_ret t, s))
      })"

section \<open>The benchmark worker\<close>

definition benchmark_worker ::
  "'d math_ops \<Rightarrow> u8 list option \<Rightarrow> (nat \<Rightarrow> bool) \<Rightarrow> u64 \<Rightarrow> int \<Rightarrow> 'd gui \<Rightarrow> ('d worker \<times> 'd gui) option" where
  "benchmark_worker m malloc cancel bytes_per_call iterations s = do {
     let (t1, s) = read_clock s;
     let (t2, s) = read_clock s;
     let (t3, s) = read_clock s;
     (res, bres, freed, p) \<leftarrow>
       run_benchmark (float_ops.truncate m) malloc cancel bytes_per_call iterations (rng s);
     let s = s\<lparr>rng := p, freed_buffers := (case freed of None \<Rightarrow> [] | Some b \<Rightarrow> [b]) @ freed_buffers s\<rparr>;
     let (t4, s) = read_clock s;
     let (t5, s) = read_clock s;
     let result = \<lparr>wr_valid = True, wr_action = ''benchmark'', wr_status = res,
       wr_bytes = bytes_per_call, wr_iterations = br_completed_iterations bres,
       wr_duration = br_generation_seconds bres, wr_init_seconds = br_init_seconds bres,
       wr_hex_data = [], wr_stats = None\<rparr>;
     let (t6, s) = read_clock s;
     Some (Recording result \<lparr>req_start = t1, req_end = t2, ent_start = t3, ent_end = t4,
       proc_start = t5, proc_end = t6\<rparr>, s)
   }"

section \<open>The end of a job\<close>

text \<open>The result, and the bytes generated added to the session's histogram.\<close>

definition session_add :: "'d entropy_report \<Rightarrow> entropy_histogram \<Rightarrow> entropy_histogram" where
  "session_add stats h = \<lparr>h_counts = map2 (+) (h_counts h) (er_histogram stats),
     h_total = h_total h + er_byte_count stats\<rparr>"

definition publish_result :: "'d WorkerResultPayload \<Rightarrow> 'd gui \<Rightarrow> 'd gui" where
  "publish_result result s = s\<lparr>g_pending_worker_result := result,
     g_session_hist := (case wr_stats result of
         None \<Rightarrow> g_session_hist s | Some stats \<Rightarrow> session_add stats (g_session_hist s))\<rparr>"

section \<open>Messages of the page\<close>

definition start_worker :: "'d math_ops \<Rightarrow> bool \<Rightarrow> job \<Rightarrow> 'd gui \<Rightarrow> 'd gui" where
  "start_worker m created j s =
     (if created
      then s\<lparr>threads := (threads s)(next_thread s \<mapsto> Started j), next_thread := next_thread s + 1,
             open_handles := insert (next_thread s) (open_handles s),
             g_worker_thread := Some (next_thread s)\<rparr>
      else case j of
             Generate bytes \<Rightarrow> PublishWorkerStartFailure m ''generate'' bytes 1 s
           | Benchmark bytes iterations \<Rightarrow> PublishWorkerStartFailure m ''benchmark'' bytes iterations s)"

definition on_generate :: "'d math_ops \<Rightarrow> bool \<Rightarrow> bool \<Rightarrow> Object \<Rightarrow> 'd gui \<Rightarrow> 'd gui" where
  "on_generate m waited created msg s =
     (let (res, bytes) = GetInt msg ''bytes'' 1 GUI_MAX_GENERATE_BYTES 32
      in if res = kInvalid then PublishRejection m ''generate'' RNG_ERR_INVALID_ARGUMENT s
         else let (ok, s) = TryAdmitJob m waited ''generate'' s
              in if \<not> ok then s else start_worker m created (Generate bytes) s)"

definition on_benchmark :: "'d math_ops \<Rightarrow> bool \<Rightarrow> bool \<Rightarrow> Object \<Rightarrow> 'd gui \<Rightarrow> 'd gui" where
  "on_benchmark m waited created msg s =
     (let (r1, bytes) = GetInt msg ''bytesPerCall'' 1 GUI_MAX_BENCH_BYTES 1024;
          (r2, iter) = GetInt msg ''iterations'' 1 GUI_MAX_BENCH_ITERATIONS 100
      in if r1 = kInvalid \<or> r2 = kInvalid
         then PublishRejection m ''benchmark'' RNG_ERR_INVALID_ARGUMENT s
         else let (ok, s) = TryAdmitJob m waited ''benchmark'' s
              in if \<not> ok then s else start_worker m created (Benchmark bytes (sint iter)) s)"

definition on_cancel :: "'d gui \<Rightarrow> 'd gui" where
  "on_cancel s = (if g_rng_busy s then s\<lparr>benchmark_cancel_requested := True\<rparr> else s)"

definition empty_histogram :: entropy_histogram where
  "empty_histogram = \<lparr>h_counts = replicate ENTROPY_STATS_BINS 0, h_total = 0\<rparr>"

definition on_clear :: "'d math_ops \<Rightarrow> 'd gui \<Rightarrow> 'd gui" where
  "on_clear m s = s\<lparr>
     rng := (rng s)\<lparr>monitor := health_monitor_clear_history (float_ops.truncate m) (monitor (rng s))\<rparr>,
     g_session_hist := empty_histogram, g_last_timeline := (g_last_timeline s)\<lparr>tl_valid := False\<rparr>\<rparr>"

text \<open>The settings with the fields that the message has, or \<open>None\<close> when one of them is invalid.\<close>

definition read_settings :: "Object \<Rightarrow> rng_settings \<Rightarrow> rng_settings option" where
  "read_settings msg c =
     (let (r1, osr) = GetInt msg ''osr'' 0 65535 0
      in if r1 = kInvalid then None
         else let c = (if r1 = kOk then c\<lparr>rs_osr := ucast osr\<rparr> else c);
                  (r2, flag) = GetBool msg ''forceFips'' False
              in if r2 = kInvalid then None
                 else let c = (if r2 = kOk then c\<lparr>rs_force_fips := flag\<rparr> else c);
                          (r3, flag) = GetBool msg ''ntg1'' flag
                      in if r3 = kInvalid then None
                         else let c = (if r3 = kOk then c\<lparr>rs_ntg1 := flag\<rparr> else c);
                                  (r4, flag) = GetBool msg ''disableMemoryAccess'' flag
                              in if r4 = kInvalid then None
                                 else Some (if r4 = kOk then c\<lparr>rs_disable_memory_access := flag\<rparr> else c))"

definition on_configure :: "'d math_ops \<Rightarrow> Object \<Rightarrow> 'd gui \<Rightarrow> 'd gui" where
  "on_configure m msg s =
     (if g_rng_busy s then PublishRejection m ''configure'' RNG_ERR_BUSY s
      else case read_settings msg (rng_get_settings (rng s)) of
             None \<Rightarrow> PublishRejection m ''configure'' RNG_ERR_INVALID_ARGUMENT s
           | Some c \<Rightarrow>
               let (cfg, p) = rng_configure (Some c) (shutdown_rng (rng s));
                   s = s\<lparr>rng := p\<rparr>;
                   s = (if cfg = 0 then s\<lparr>g_ui_settings := c, g_session_hist := empty_histogram\<rparr> else s)
               in PublishRejection m ''configure'' cfg s)"

text \<open>A message that cannot be read, or with an action that is not known, changes nothing.\<close>

definition on_message :: "'d math_ops \<Rightarrow> bool \<Rightarrow> bool \<Rightarrow> string \<Rightarrow> 'd gui \<Rightarrow> 'd gui" where
  "on_message m waited created json s = (case ParseFlatObject json of
       None \<Rightarrow> s
     | Some msg \<Rightarrow>
         let (res, action) = GetString msg ''action'' []
         in if res \<noteq> kOk then s
            else if action = ''generate'' then on_generate m waited created msg s
            else if action = ''benchmark'' then on_benchmark m waited created msg s
            else if action = ''cancelBenchmark'' then on_cancel s
            else if action = ''clearHistory'' then on_clear m s
            else if action = ''configure'' then on_configure m msg s
            else s)"

section \<open>Telemetry and the end\<close>

text \<open>
  What one frame does to the state, and the result that it delivers. The other values of the frame are
  read only.
\<close>

definition BuildTelemetryJson :: "'d math_ops \<Rightarrow> 'd gui \<Rightarrow> 'd WorkerResultPayload option \<times> 'd gui" where
  "BuildTelemetryJson m s =
     (let (ser_start, s) = read_clock s;
          (health, mon) = health_monitor_snapshot (float_ops.truncate m) (monitor (rng s));
          s = s\<lparr>rng := (rng s)\<lparr>monitor := mon\<rparr>\<rparr>;
          (now, s) = read_clock s;
          pending = g_pending_worker_result s;
          (worker_res, s) = (if wr_valid pending
             then (Some pending, s\<lparr>g_pending_worker_result := pending\<lparr>wr_valid := False, wr_hex_data := []\<rparr>\<rparr>)
             else (None, s));
          (ser_end, s) = read_clock s;
          tl = g_last_timeline s;
          s = (if tl_valid tl \<and> serialization_pending tl \<and> worker_res \<noteq> None
               then s\<lparr>g_last_timeline := tl\<lparr>serialization_pending := False,
                      tl_serialization := \<lparr>start_seconds = QpcToProcessSeconds m s ser_start,
                        duration_seconds = QpcElapsedSeconds m s ser_start ser_end\<rparr>\<rparr>\<rparr>
               else s)
      in (worker_res, s))"

text \<open>Closing: the cancel flag is set, then the worker is waited for.\<close>

definition destroy_begin :: "'d gui \<Rightarrow> 'd gui" where
  "destroy_begin s = s\<lparr>phase := Closing, benchmark_cancel_requested := True\<rparr>"

definition destroy_end :: "bool \<Rightarrow> 'd gui \<Rightarrow> 'd gui" where
  "destroy_end waited s =
     (let (ok, s) = ReapWorkerHandle waited s
      in if \<not> ok then s\<lparr>phase := Exited\<rparr>
         else s\<lparr>rng := shutdown_rng (rng s), phase := Closed\<rparr>)"

section \<open>Interleavings\<close>

text \<open>A wait can succeed only for a thread that has ended or has nothing left to do.\<close>

definition can_end :: "'d gui \<Rightarrow> bool" where
  "can_end s \<longleftrightarrow> (\<forall>t. g_worker_thread s = Some t \<longrightarrow> threads s t \<in> {None, Some Returning})"

definition set_worker :: "nat \<Rightarrow> 'd worker option \<Rightarrow> 'd gui \<Rightarrow> 'd gui" where
  "set_worker t w s = s\<lparr>threads := (threads s)(t := w)\<rparr>"

text \<open>
  The steps of a worker. A benchmark polls the cancel flag while it runs: when it sees it set, the flag
  was set by then, and a flag that was set before stays.
\<close>

inductive worker_step :: "'d math_ops \<Rightarrow> nat \<Rightarrow> 'd worker \<Rightarrow> 'd gui \<Rightarrow> 'd gui \<Rightarrow> bool" for m t where
  start_generate: "generate_start m malloc n s = Some (w, s') \<Longrightarrow>
    \<forall>buf. malloc = Some buf \<longrightarrow> length buf = unat n \<Longrightarrow>
    worker_step m t (Started (Generate n)) s (set_worker t (Some w) s')"
| chunk: "generate_chunk m n buf d r c s = Some (w, s') \<Longrightarrow>
    worker_step m t (Generating n buf d r c) s (set_worker t (Some w) s')"
| run_benchmark: "benchmark_worker m malloc cancel b k s = Some (w, s') \<Longrightarrow>
    \<forall>buf. malloc = Some buf \<longrightarrow> length buf = unat b \<Longrightarrow>
    benchmark_cancel_requested s \<longrightarrow> flag \<Longrightarrow> (\<exists>i. cancel i) \<longrightarrow> flag \<Longrightarrow>
    worker_step m t (Started (Benchmark b k)) s
      (set_worker t (Some w) (s'\<lparr>benchmark_cancel_requested := flag\<rparr>))"
| record_timeline: "worker_step m t (Recording p c) s (set_worker t (Some (Publishing p)) (RecordTimeline m c s))"
| publish: "worker_step m t (Publishing p) s (set_worker t (Some Finishing) (publish_result p s))"
| clear_busy: "worker_step m t Finishing s (set_worker t (Some Returning) (s\<lparr>g_rng_busy := False\<rparr>))"
| return: "worker_step m t Returning s (set_worker t None s)"

inductive gui_step :: "'d math_ops \<Rightarrow> 'd gui \<Rightarrow> 'd gui \<Rightarrow> bool" for m where
  message: "phase s = Open \<Longrightarrow> waited \<longrightarrow> can_end s \<Longrightarrow> gui_step m s (on_message m waited created json s)"
| tick: "phase s = Open \<Longrightarrow> gui_step m s (snd (BuildTelemetryJson m s))"
| destroy: "phase s = Open \<Longrightarrow> gui_step m s (destroy_begin s)"
| destroyed: "phase s = Closing \<Longrightarrow> waited \<longrightarrow> can_end s \<Longrightarrow> gui_step m s (destroy_end waited s)"
| work: "phase s \<noteq> Exited \<Longrightarrow> threads s t = Some w \<Longrightarrow> worker_step m t w s s' \<Longrightarrow> gui_step m s s'"

inductive gui_reachable :: "'d math_ops \<Rightarrow> 'd gui \<Rightarrow> 'd gui \<Rightarrow> bool" for m s0 where
  start: "gui_reachable m s0 s0"
| step: "gui_reachable m s0 s \<Longrightarrow> gui_step m s s' \<Longrightarrow> gui_reachable m s0 s'"

text \<open>The process when its window opens: every static variable is zero.\<close>

definition gui_start :: "'d math_ops \<Rightarrow> jent_world \<Rightarrow> (nat \<Rightarrow> int) \<Rightarrow> int \<Rightarrow> 'd gui" where
  "gui_start m w q f =
     (let p = process_start (float_ops.truncate m) w q f; (start, frequency) = health_monitor_get_epoch (monitor p);
          zero = \<lparr>start_seconds = fl_zero m, duration_seconds = fl_zero m\<rparr>
      in \<lparr>rng = p, g_rng_busy = False, benchmark_cancel_requested = False, g_worker_thread = None,
          threads = (\<lambda>t. None), next_thread = 0, open_handles = {}, freed_buffers = [],
          g_pending_worker_result = \<lparr>wr_valid = False, wr_action = [], wr_status = 0, wr_bytes = 0,
            wr_iterations = 0, wr_duration = fl_zero m, wr_init_seconds = fl_zero m, wr_hex_data = [],
            wr_stats = None\<rparr>,
          g_session_hist = empty_histogram, g_ui_settings = rng_get_settings p,
          g_last_timeline = \<lparr>tl_valid = False, serialization_pending = False, tl_request = zero,
            tl_entropy = zero, tl_processing = zero, tl_serialization = zero\<rparr>,
          g_qpc_frequency = frequency, g_qpc_process_start = start, phase = Open\<rparr>)"

section \<open>The invariant\<close>

definition histogram_ok :: "u64 list \<Rightarrow> u64 \<Rightarrow> bool" where
  "histogram_ok counts n \<longleftrightarrow> length counts = ENTROPY_STATS_BINS \<and> sum_list counts = n"

text \<open>A result that reports success has the text of the bytes that the library supplied.\<close>

definition result_ok :: "'d WorkerResultPayload \<Rightarrow> bool" where
  "result_ok r \<longleftrightarrow>
     (if wr_action r = ''generate'' \<and> wr_status r = 0
      then wr_bytes r \<noteq> 0 \<and> wr_bytes r \<le> GUI_MAX_GENERATE_BYTES \<and>
        (\<exists>pieces. (\<forall>p \<in> set pieces. supplied p) \<and> wr_hex_data r = hex_text (concat pieces) \<and>
           length (concat pieces) = unat (wr_bytes r))
      else wr_hex_data r = []) \<and>
     (\<forall>st. wr_stats r = Some st \<longrightarrow> histogram_ok (er_histogram st) (er_byte_count st))"

fun worker_ok :: "bool \<Rightarrow> 'd worker \<Rightarrow> bool" where
  "worker_ok held (Started (Generate n)) \<longleftrightarrow> n \<noteq> 0 \<and> n \<le> GUI_MAX_GENERATE_BYTES"
| "worker_ok held (Started (Benchmark b k)) \<longleftrightarrow> k < 2 ^ 31"
| "worker_ok held (Generating n buf d r t) \<longleftrightarrow> held \<and> n \<noteq> 0 \<and> n \<le> GUI_MAX_GENERATE_BYTES \<and>
     length buf = unat n \<and> d \<le> n \<and> r = 0 \<and>
     (\<exists>pieces. (\<forall>p \<in> set pieces. supplied p) \<and> take (unat d) buf = concat pieces)"
| "worker_ok held (Recording p t) \<longleftrightarrow> result_ok p"
| "worker_ok held (Publishing p) \<longleftrightarrow> result_ok p"
| "worker_ok held Finishing \<longleftrightarrow> True"
| "worker_ok held Returning \<longleftrightarrow> True"

definition wiped :: "u8 list list \<Rightarrow> bool" where
  "wiped bs \<longleftrightarrow> (\<forall>b \<in> set bs. b = replicate (length b) 0)"

text \<open>
  The wrapper is as it keeps itself; a thread that has not ended is the one whose handle is held; the
  busy flag is set exactly while one has not finished; the only handle open is the one held.
\<close>

definition gui_ok :: "heap_block multiset \<Rightarrow> 'd gui \<Rightarrow> bool" where
  "gui_ok h s \<longleftrightarrow> library_ok h (rng s) \<and> monitor_ok (rng s) \<and>
     (\<forall>t w. threads s t = Some w \<longrightarrow>
        g_worker_thread s = Some t \<and> worker_ok (rng_collector (rng s) \<noteq> None) w) \<and>
     (g_rng_busy s \<longleftrightarrow> (\<exists>t w. threads s t = Some w \<and> w \<noteq> Returning)) \<and>
     open_handles s = set_option (g_worker_thread s) \<and> wiped (freed_buffers s) \<and>
     (wr_valid (g_pending_worker_result s) \<longrightarrow> result_ok (g_pending_worker_result s)) \<and>
     histogram_ok (h_counts (g_session_hist s)) (h_total (g_session_hist s)) \<and>
     (phase s = Closed \<longrightarrow> rng_collector (rng s) = None \<and> g_worker_thread s = None)"

lemma gui_okD:
  assumes "gui_ok h s"
  shows "library_ok h (rng s)" "monitor_ok (rng s)"
    "\<And>t w. threads s t = Some w \<Longrightarrow> g_worker_thread s = Some t \<and> worker_ok (rng_collector (rng s) \<noteq> None) w"
    "g_rng_busy s \<longleftrightarrow> (\<exists>t w. threads s t = Some w \<and> w \<noteq> Returning)"
    "open_handles s = set_option (g_worker_thread s)" "wiped (freed_buffers s)"
    "wr_valid (g_pending_worker_result s) \<Longrightarrow> result_ok (g_pending_worker_result s)"
    "histogram_ok (h_counts (g_session_hist s)) (h_total (g_session_hist s))"
    "phase s = Closed \<Longrightarrow> rng_collector (rng s) = None \<and> g_worker_thread s = None"
  using assms by (auto simp: gui_ok_def)

text \<open>What a step may change without touching the threads.\<close>

lemma gui_ok_keep:
  assumes "gui_ok h s" "library_ok h (rng s')" "monitor_ok (rng s')"
    "rng_collector (rng s') = None \<longleftrightarrow> rng_collector (rng s) = None"
    "threads s' = threads s" "g_worker_thread s' = g_worker_thread s" "g_rng_busy s' = g_rng_busy s"
    "open_handles s' = open_handles s" "freed_buffers s' = freed_buffers s"
    "wr_valid (g_pending_worker_result s') \<Longrightarrow> result_ok (g_pending_worker_result s')"
    "histogram_ok (h_counts (g_session_hist s')) (h_total (g_session_hist s'))" "phase s' \<noteq> Closed \<or> phase s' = phase s"
  shows "gui_ok h s'"
  using assms unfolding gui_ok_def by auto

lemma histogram_ok_empty: "histogram_ok (h_counts empty_histogram) (h_total empty_histogram)"
  by (simp add: histogram_ok_def empty_histogram_def sum_list_replicate)

lemma reject_keeps:
  assumes "gui_ok h s" "action \<noteq> ''generate'' \<or> status \<noteq> 0"
  shows "gui_ok h (PublishRejection m action status s)"
proof (rule gui_ok_keep [OF assms(1)])
  assume "wr_valid (g_pending_worker_result (PublishRejection m action status s))"
  show "result_ok (g_pending_worker_result (PublishRejection m action status s))"
    using gui_okD(7) [OF assms(1)] assms(2) by (auto simp: PublishRejection_def result_ok_def)
qed (use gui_okD [OF assms(1)] in \<open>simp_all add: PublishRejection_def\<close>)

lemma on_cancel_keeps: "gui_ok h s \<Longrightarrow> gui_ok h (on_cancel s)"
  by (cases "g_rng_busy s") (simp_all add: on_cancel_def gui_ok_def)

lemma on_clear_keeps:
  assumes "gui_ok h s"
  shows "gui_ok h (on_clear m s)"
proof -
  let ?fl = "float_ops.truncate m"
  have "rng (on_clear m s) = (rng s)\<lparr>monitor := health_monitor_clear_history ?fl (monitor (rng s))\<rparr>"
    by (simp add: on_clear_def)
  with rng_step_keeps [OF rng_step.clear [of ?fl "rng s"] gui_okD(1,2) [OF assms]]
  have "library_ok h (rng (on_clear m s))" "monitor_ok (rng (on_clear m s))" by simp_all
  then show ?thesis
    by (rule gui_ok_keep [OF assms])
      (use gui_okD(7,8) [OF assms] histogram_ok_empty in \<open>simp_all add: on_clear_def\<close>)
qed

lemma read_clock_rng: "read_clock s = (t, s') \<Longrightarrow> s' = s\<lparr>rng := (rng s)\<lparr>qpc_pos := qpc_pos (rng s) + 1\<rparr>\<rparr>"
  by (auto simp: read_clock_def QueryPerformanceCounter_def)

lemma monitor_ok_clock [simp]: "monitor_ok (p\<lparr>qpc_pos := n\<rparr>) = monitor_ok p"
  by (simp add: monitor_ok_def)

lemma telemetry_keeps:
  assumes "gui_ok h s"
  shows "gui_ok h (snd (BuildTelemetryJson m s))"
proof -
  let ?fl = "float_ops.truncate m" and ?s = "snd (BuildTelemetryJson m s)"
  let ?q = "(rng s)\<lparr>monitor := snd (health_monitor_snapshot ?fl (monitor (rng s)))\<rparr>"
  note k = rng_step_keeps [OF rng_step.snapshot [of ?fl "rng s"] gui_okD(1,2) [OF assms]]
  have e: "\<exists>n. rng ?s = ?q\<lparr>qpc_pos := n\<rparr>"
    "threads ?s = threads s \<and> g_worker_thread ?s = g_worker_thread s \<and> g_rng_busy ?s = g_rng_busy s \<and>
     open_handles ?s = open_handles s \<and> freed_buffers ?s = freed_buffers s \<and> phase ?s = phase s \<and>
     g_session_hist ?s = g_session_hist s \<and> \<not> wr_valid (g_pending_worker_result ?s)"
    by (auto simp: BuildTelemetryJson_def read_clock_def QueryPerformanceCounter_def Let_def
        split: prod.splits)
  from e(1) obtain n where
    "rng ?s = ?q\<lparr>qpc_pos := n\<rparr>" by blast
  with k have "library_ok h (rng ?s)" "monitor_ok (rng ?s)" "rng_collector (rng ?s) = rng_collector (rng s)"
    by simp_all
  with e(2) gui_okD(8) [OF assms] show ?thesis by (intro gui_ok_keep [OF assms]) simp_all
qed

section \<open>The UI thread keeps it\<close>

text \<open>The busy flag is claimed and nothing runs: a job may be started.\<close>

definition admitted :: "heap_block multiset \<Rightarrow> 'd gui \<Rightarrow> bool" where
  "admitted h s \<longleftrightarrow> gui_ok h (s\<lparr>g_rng_busy := False\<rparr>) \<and> g_rng_busy s \<and> g_worker_thread s = None \<and>
     \<not> benchmark_cancel_requested s"

lemma no_threads: "gui_ok h s \<Longrightarrow> g_worker_thread s = None \<Longrightarrow> threads s = (\<lambda>t. None)"
  using gui_okD(3) by (metis option.distinct(1) not_Some_eq ext)

lemma idle_threads: "gui_ok h s \<Longrightarrow> \<not> g_rng_busy s \<Longrightarrow> threads s t = Some w \<Longrightarrow> w = Returning"
  using gui_okD(4) by blast

lemma reap_keeps:
  assumes "gui_ok h s" "\<not> g_rng_busy s" "waited \<longrightarrow> can_end s" "ReapWorkerHandle waited s = (ok, s')"
  shows "gui_ok h s' \<and> (ok \<longrightarrow> g_worker_thread s' = None) \<and> (\<not> ok \<longrightarrow> s' = s) \<and> \<not> g_rng_busy s' \<and>
    rng s' = rng s \<and> phase s' = phase s"
proof (cases "g_worker_thread s")
  case None
  with assms show ?thesis by (auto simp: ReapWorkerHandle_def)
next
  case (Some t)
  show ?thesis
  proof (cases waited)
    case True
    let ?s = "s\<lparr>g_worker_thread := None, open_handles := open_handles s - {t}, threads := (threads s)(t := None)\<rparr>"
    have e: "ok" "s' = ?s" using assms(4) Some True by (simp_all add: ReapWorkerHandle_def)
    have n: "(threads s)(t := None) = (\<lambda>u. None)"
    proof
      fix u
      show "((threads s)(t := None)) u = None"
        using gui_okD(3) [OF assms(1), of u] Some by (cases "threads s u") auto
    qed
    have "phase s \<noteq> Closed" using gui_okD(9) [OF assms(1)] Some by auto
    then have "gui_ok h ?s"
      using gui_okD [OF assms(1)] assms(2) Some unfolding gui_ok_def by (simp add: n)
    with e assms(2) show ?thesis by simp
  next
    case False
    with assms Some show ?thesis by (auto simp: ReapWorkerHandle_def)
  qed
qed

lemma reap_busy:
  "ReapWorkerHandle waited (s\<lparr>g_rng_busy := b\<rparr>) =
     (let (ok, s') = ReapWorkerHandle waited s in (ok, s'\<lparr>g_rng_busy := b\<rparr>))"
  by (auto simp: ReapWorkerHandle_def split: option.splits)

lemma gui_ok_cancel [simp]: "gui_ok h (s\<lparr>benchmark_cancel_requested := b\<rparr>) = gui_ok h s"
  by (simp add: gui_ok_def)

lemma admit_keeps:
  assumes "gui_ok h s" "waited \<longrightarrow> can_end s" "TryAdmitJob m waited action s = (ok, s')"
  shows "if ok then admitted h s' else gui_ok h s'"
proof (cases "g_rng_busy s")
  case True
  with assms(3) have "\<not> ok" "s' = PublishRejection m action RNG_ERR_BUSY s" by (simp_all add: TryAdmitJob_def)
  then show ?thesis using assms(1) by (simp add: reject_keeps)
next
  case False
  obtain r s1 where r: "ReapWorkerHandle waited s = (r, s1)" by fastforce
  note k = reap_keeps [OF assms(1) False assms(2) r]
  have b: "s1\<lparr>g_rng_busy := False\<rparr> = s1" using k by simp
  show ?thesis
  proof (cases r)
    case True
    with assms(3) False r have "ok" "s' = s1\<lparr>g_rng_busy := True, benchmark_cancel_requested := False\<rparr>"
      by (simp_all add: TryAdmitJob_def reap_busy)
    moreover have "gui_ok h (s1\<lparr>benchmark_cancel_requested := False\<rparr>)" using k by simp
    ultimately show ?thesis using k True b by (simp add: admitted_def gui_ok_def)
  next
    case r': False
    with assms(3) False r have "\<not> ok" "s' = PublishRejection m action RNG_ERR_BUSY (s1\<lparr>g_rng_busy := False\<rparr>)"
      by (simp_all add: TryAdmitJob_def reap_busy)
    moreover have "gui_ok h (PublishRejection m action RNG_ERR_BUSY s1)"
      by (rule reject_keeps) (use k in simp_all)
    ultimately show ?thesis by (simp only: b if_False)
  qed
qed

lemma start_worker_keeps:
  assumes "admitted h s" "worker_ok False (Started j)" "phase s = Open"
  shows "gui_ok h (start_worker m created j s)"
proof -
  have ok: "gui_ok h (s\<lparr>g_rng_busy := False\<rparr>)" "g_rng_busy s" "g_worker_thread s = None"
    using assms(1) by (simp_all add: admitted_def)
  have n: "threads s = (\<lambda>t. None)" using no_threads [OF ok(1)] ok(3) by simp
  note d = gui_okD [OF ok(1), simplified]
  show ?thesis
  proof (cases created)
    case True
    have "worker_ok b (Started j)" for b using assms(2) by (cases j) simp_all
    then show ?thesis
      using True d ok(2,3) n assms(3) unfolding gui_ok_def by (simp add: start_worker_def)
  next
    case False
    then show ?thesis
      using d ok(3) n assms(3) unfolding gui_ok_def
      by (cases j) (simp_all add: start_worker_def PublishWorkerStartFailure_def result_ok_def)
  qed
qed

lemma GetInt_range:
  assumes "GetInt msg key lo hi out = (r, v)" "r \<noteq> kInvalid" "sint lo \<le> sint out" "sint out \<le> sint hi"
  shows "sint lo \<le> sint v \<and> sint v \<le> sint hi"
  using assms by (auto simp: GetInt_def Let_def split: option.splits if_splits prod.splits list.splits)

lemma signed_range:
  fixes v :: u64
  assumes "1 \<le> sint v" "sint v \<le> 65536"
  shows "v \<noteq> 0" "v \<le> 65536"
proof -
  show "v \<noteq> 0" using assms(1) by auto
  have "uint (of_int (sint v) :: u64) = sint v"
    using assms by (intro word_of_int_inverse [OF refl]) simp_all
  then have "uint v = sint v" by simp
  with assms(2) show "v \<le> 65536" by (simp add: word_le_def)
qed

lemma phase_admit: "TryAdmitJob m waited action s = (ok, s') \<Longrightarrow> phase s' = phase s"
  by (auto simp: TryAdmitJob_def PublishRejection_def ReapWorkerHandle_def Let_def
      split: if_splits option.splits)

lemma on_generate_keeps:
  assumes "gui_ok h s" "waited \<longrightarrow> can_end s" "phase s = Open"
  shows "gui_ok h (on_generate m waited created msg s)"
proof -
  obtain r n where g: "GetInt msg ''bytes'' 1 GUI_MAX_GENERATE_BYTES 32 = (r, n)" by fastforce
  show ?thesis
  proof (cases "r = kInvalid")
    case True
    with g assms(1) show ?thesis by (simp add: on_generate_def reject_keeps)
  next
    case False
    with GetInt_range [OF g False] signed_range [of n] have n: "worker_ok False (Started (Generate n))" by simp
    obtain ok s1 where a: "TryAdmitJob m waited ''generate'' s = (ok, s1)" by fastforce
    from admit_keeps [OF assms(1,2) a] start_worker_keeps [OF _ n] phase_admit [OF a] assms(3)
    show ?thesis by (simp add: on_generate_def g False a split: if_splits)
  qed
qed

lemma on_benchmark_keeps:
  assumes "gui_ok h s" "waited \<longrightarrow> can_end s" "phase s = Open"
  shows "gui_ok h (on_benchmark m waited created msg s)"
proof -
  obtain r n where g: "GetInt msg ''bytesPerCall'' 1 GUI_MAX_BENCH_BYTES 1024 = (r, n)" by fastforce
  obtain q k where i: "GetInt msg ''iterations'' 1 GUI_MAX_BENCH_ITERATIONS 100 = (q, k)" by fastforce
  show ?thesis
  proof (cases "r = kInvalid \<or> q = kInvalid")
    case True
    with g i assms(1) show ?thesis by (auto simp: on_benchmark_def reject_keeps)
  next
    case False
    with GetInt_range [OF i] have n: "worker_ok False (Started (Benchmark n (sint k)))" by simp
    obtain ok s1 where a: "TryAdmitJob m waited ''benchmark'' s = (ok, s1)" by fastforce
    from admit_keeps [OF assms(1,2) a] start_worker_keeps [OF _ n] phase_admit [OF a] assms(3) False
    show ?thesis by (simp add: on_benchmark_def g i a split: if_splits)
  qed
qed

lemma wrapper_reconfigured:
  assumes "library_ok h p" "monitor_ok p" "rng_configure c (shutdown_rng p) = (r, p')"
  shows "library_ok h p' \<and> monitor_ok p' \<and> rng_collector p' = None \<and> r = 0"
proof -
  note k = shutdown_keeps [OF assms(1,2)]
  then have "library_ok h (shutdown_rng p)" "monitor_ok (shutdown_rng p)" by simp_all
  from rng_step_keeps [OF rng_step.configure [OF assms(3)] this] k assms(3) show ?thesis
    by (auto simp: rng_configure_def)
qed

lemma on_configure_keeps:
  assumes "gui_ok h s" "phase s = Open"
  shows "gui_ok h (on_configure m msg s)"
proof (cases "g_rng_busy s \<or> read_settings msg (rng_get_settings (rng s)) = None")
  case True
  then show ?thesis using assms(1) by (auto simp: on_configure_def reject_keeps split: option.splits)
next
  case False
  then obtain c where c: "read_settings msg (rng_get_settings (rng s)) = Some c" by auto
  obtain r p where r: "rng_configure (Some c) (shutdown_rng (rng s)) = (r, p)" by fastforce
  note k = wrapper_reconfigured [OF gui_okD(1,2) [OF assms(1)] r]
  let ?s = "s\<lparr>rng := p, g_ui_settings := c, g_session_hist := empty_histogram\<rparr>"
  have w: "w = Returning \<and> worker_ok b w" if "threads s t = Some w" for t w b
    using idle_threads [OF assms(1) _ that] False by simp
  have "gui_ok h ?s"
    using gui_okD [OF assms(1)] w k assms(2) histogram_ok_empty unfolding gui_ok_def
    by (auto simp: False)
  from reject_keeps [OF this, of "''configure''" 0 m] show ?thesis
    using False c r k by (simp add: on_configure_def)
qed

lemma on_message_keeps:
  assumes "gui_ok h s" "waited \<longrightarrow> can_end s" "phase s = Open"
  shows "gui_ok h (on_message m waited created json s)"
proof (cases "ParseFlatObject json")
  case (Some msg)
  obtain r action where "GetString msg ''action'' [] = (r, action)" by fastforce
  with Some show ?thesis
    using on_generate_keeps [OF assms] on_benchmark_keeps [OF assms] on_cancel_keeps [OF assms(1)]
      on_clear_keeps [OF assms(1)] on_configure_keeps [OF assms(1,3)] assms(1)
    by (simp add: on_message_def)
qed (use assms(1) in \<open>simp add: on_message_def\<close>)

lemma destroy_end_keeps:
  assumes "gui_ok h s" "waited \<longrightarrow> can_end s" "phase s = Closing"
  shows "gui_ok h (destroy_end waited s)"
proof (cases "g_worker_thread s = None \<or> waited")
  case True
  obtain ok s1 where r0: "ReapWorkerHandle waited s = (ok, s1)" by fastforce
  have "ok" using True r0 by (cases "g_worker_thread s") (auto simp: ReapWorkerHandle_def)
  with r0 have r: "ReapWorkerHandle waited s = (True, s1)" by simp
  have idle: "\<not> g_rng_busy s"
    using True gui_okD(3,4) [OF assms(1)] assms(2) by (fastforce simp: can_end_def)
  note k = reap_keeps [OF assms(1) idle assms(2) r]
  have ok: "gui_ok h s1" "g_worker_thread s1 = None" "\<not> g_rng_busy s1" using k by simp_all
  have n: "threads s1 = (\<lambda>t. None)" by (rule no_threads [OF ok(1,2)])
  have "gui_ok h (s1\<lparr>rng := shutdown_rng (rng s1), phase := Closed\<rparr>)"
    using gui_okD [OF ok(1)] ok(2,3) shutdown_keeps [OF gui_okD(1,2) [OF ok(1)]] n
    unfolding gui_ok_def by simp
  then show ?thesis by (simp add: destroy_end_def r)
next
  case False
  then have "destroy_end waited s = s\<lparr>phase := Exited\<rparr>"
    by (auto simp: destroy_end_def ReapWorkerHandle_def split: option.splits)
  then show ?thesis using gui_okD [OF assms(1)] unfolding gui_ok_def by simp
qed

section \<open>The worker keeps it\<close>

text \<open>What a step of a worker may change apart from where the worker is.\<close>

definition worked :: "heap_block multiset \<Rightarrow> 'd gui \<Rightarrow> 'd worker \<Rightarrow> 'd gui \<Rightarrow> bool" where
  "worked h s w s' \<longleftrightarrow> library_ok h (rng s') \<and> monitor_ok (rng s') \<and>
     worker_ok (rng_collector (rng s') \<noteq> None) w \<and> w \<noteq> Returning \<and> wiped (freed_buffers s') \<and>
     s' = s\<lparr>rng := rng s', freed_buffers := freed_buffers s'\<rparr>"

lemma gui_ok_worker:
  assumes "\<And>u. threads s u = (if u = t then Some w else None)" "g_worker_thread s = Some t"
    "worker_ok (rng_collector (rng s) \<noteq> None) w" "g_rng_busy s \<longleftrightarrow> w \<noteq> Returning"
    "library_ok h (rng s)" "monitor_ok (rng s)" "open_handles s = {t}" "wiped (freed_buffers s)"
    "wr_valid (g_pending_worker_result s) \<Longrightarrow> result_ok (g_pending_worker_result s)"
    "histogram_ok (h_counts (g_session_hist s)) (h_total (g_session_hist s))" "phase s \<noteq> Closed"
  shows "gui_ok h s"
  using assms(2-) unfolding gui_ok_def assms(1) by simp

lemma worked_keeps:
  assumes "gui_ok h s" "threads s t = Some w0" "w0 \<noteq> Returning" "worked h s w s'"
  shows "gui_ok h (set_worker t (Some w) (s'\<lparr>benchmark_cancel_requested := b\<rparr>))"
proof -
  note d = gui_okD [OF assms(1)]
  define p fb where pf: "p = rng s'" "fb = freed_buffers s'"
  have s': "s' = s\<lparr>rng := p, freed_buffers := fb\<rparr>" using assms(4) unfolding worked_def pf by blast
  have p: "library_ok h p" "monitor_ok p" "worker_ok (rng_collector p \<noteq> None) w" "w \<noteq> Returning" "wiped fb"
    using assms(4) unfolding worked_def pf by blast+
  have h: "g_worker_thread s = Some t" "g_rng_busy s" using d(3,4) assms(2,3) by blast+
  have o: "u = t" if "threads s u = Some v" for u v using d(3) [OF that] h by simp
  have np: "phase s \<noteq> Closed" using d(9) h(1) by auto
  let ?x = "set_worker t (Some w) (s'\<lparr>benchmark_cancel_requested := b\<rparr>)"
  have f: "rng ?x = p" "threads ?x = (threads s)(t \<mapsto> w)" "g_worker_thread ?x = Some t" "g_rng_busy ?x"
    "open_handles ?x = open_handles s" "freed_buffers ?x = fb"
    "g_pending_worker_result ?x = g_pending_worker_result s" "g_session_hist ?x = g_session_hist s"
    "phase ?x = phase s" using h by (simp_all add: s' set_worker_def)
  show ?thesis
  proof (rule gui_ok_worker)
    show "threads ?x u = (if u = t then Some w else None)" for u
      using o unfolding f(2) by (cases "threads s u") auto
  qed (use d(5,7,8) p(1-3,4,5) np h f in \<open>simp_all only: option.set simp_thms\<close>)
qed

lemma worked_here: "worked h (s\<lparr>rng := p\<rparr>) w s' \<Longrightarrow> worked h s w s'"
  by (simp add: worked_def)

lemma sum_list_bump:
  fixes counts :: "u64 list"
  shows "b < length counts \<Longrightarrow> sum_list (counts[b := counts ! b + 1]) = sum_list counts + 1"
proof -
  assume b: "b < length counts"
  then have "sum_list counts = sum_list (take b counts) + counts ! b + sum_list (drop (Suc b) counts)"
    using id_take_nth_drop [OF b] by (metis add.assoc sum_list.Cons sum_list.append)
  then show ?thesis using b by (simp add: upd_conv_take_nth_drop)
qed

lemma histogram_report_ok: "histogram_ok (er_histogram (entropy_stats_report m data n)) (er_byte_count (entropy_stats_report m data n))"
proof -
  let ?f = "\<lambda>counts i. let b = unat (data ! i) in counts[b := counts ! b + (1 :: u64)]"
  have "length (foldl ?f (replicate 256 (0 :: u64)) [0..<k]) = 256 \<and>
      sum_list (foldl ?f (replicate 256 (0 :: u64)) [0..<k]) = of_nat k" for k
  proof (induction k)
    case (Suc k)
    moreover have "unat (data ! k) < 256" by (rule order_less_le_trans [OF unsigned_less]) simp
    ultimately show ?case by (simp add: Let_def sum_list_bump)
  qed (simp add: sum_list_replicate)
  from this [of "unat n"] show ?thesis
    by (simp add: entropy_stats_report_def Let_def entropy_stats_histogram_def histogram_ok_def)
qed

lemma session_add_ok:
  assumes "histogram_ok (h_counts hist) (h_total hist)" "histogram_ok (er_histogram st) (er_byte_count st)"
  shows "histogram_ok (h_counts (session_add st hist)) (h_total (session_add st hist))"
proof -
  have "sum_list (map2 (+) xs ys) = sum_list xs + sum_list ys" if "length xs = length ys" for xs ys :: "u64 list"
    using that by (induction xs ys rule: list_induct2) simp_all
  with assms show ?thesis by (simp add: histogram_ok_def session_add_def)
qed

lemma generate_finish_worked:
  assumes "library_ok h (rng s)" "monitor_ok (rng s)" "wiped (freed_buffers s)" "length buf = unat n"
    "n \<noteq> 0" "n \<le> GUI_MAX_GENERATE_BYTES"
    "r = 0 \<Longrightarrow> d = n \<and> (\<exists>pieces. (\<forall>p \<in> set pieces. supplied p) \<and> buf = concat pieces)"
    "generate_finish m n buf d r t s = (w, s')"
  shows "worked h s w s'"
proof -
  let ?n = "qpc_pos (rng s)"
  obtain dur t' where w: "w = Recording (generate_result m r d dur
      (if r = 0 then hex_text (take (unat n) buf) else [])
      (if d > 0 then Some (entropy_stats_report m buf d) else None)) t'"
    and s': "s' = s\<lparr>rng := (rng s)\<lparr>qpc_pos := ?n + 3\<rparr>,
      freed_buffers := rng_secure_zero buf n # freed_buffers s\<rparr>"
    using assms(8) by (auto simp: generate_finish_def read_clock_def QueryPerformanceCounter_def Let_def)
  have "rng_secure_zero buf n = replicate (unat n) 0"
    using assms(4) by (simp add: rng_secure_zero_def memset_at_def)
  then have "wiped (freed_buffers s')" using assms(3) by (simp add: s' wiped_def)
  moreover have "worker_ok b w" for b
    using assms(4-7) histogram_report_ok
    by (cases "r = 0") (auto simp: w generate_result_def result_ok_def)
  ultimately show ?thesis using assms(1,2) by (simp add: worked_def s' w)
qed

lemma generate_start_worked:
  assumes "generate_start m malloc n s = Some (w, s')" "gui_ok h s" "n \<noteq> 0" "n \<le> GUI_MAX_GENERATE_BYTES"
    "\<forall>buf. malloc = Some buf \<longrightarrow> length buf = unat n"
  shows "worked h s w s'"
proof -
  let ?q = "(rng s)\<lparr>qpc_pos := qpc_pos (rng s) + 1\<rparr>"
  from assms(1) obtain r p where i: "init_rng ?q = Some (r, p)" and
    e: "if r = 0 \<and> n > 0
       then case malloc of
              Some buf \<Rightarrow> (\<exists>t. w = Generating n buf 0 0 t) \<and> s' = s\<lparr>rng := p\<lparr>qpc_pos := qpc_pos p + 2\<rparr>\<rparr>
            | None \<Rightarrow> (\<exists>t. w = Recording (generate_result m RNG_ERR_ALLOC_FAILED 0 (fl_zero m) [] None) t) \<and>
                s' = s\<lparr>rng := p\<lparr>qpc_pos := qpc_pos p + 1\<rparr>\<rparr>
       else (\<exists>t. w = Recording (generate_result m r 0 (fl_zero m) [] None) t) \<and>
                s' = s\<lparr>rng := p\<lparr>qpc_pos := qpc_pos p + 1\<rparr>\<rparr>"
    by (auto simp: generate_start_def read_clock_def QueryPerformanceCounter_def Let_def
        elim!: bind_SomeE split: option.splits if_splits)
  have "library_ok h ?q" "monitor_ok ?q" using gui_okD(1,2) [OF assms(2)] by simp_all
  note k = init_rng_keeps [OF i this]
  have n: "n > 0" using assms(3) by (simp add: word_gt_0)
  have none: "\<exists>pieces. (\<forall>p \<in> set pieces. supplied p) \<and> [] = concat pieces" by (rule exI [of _ "[]"]) simp
  show ?thesis
  proof (cases "r = 0")
    case True
    show ?thesis
    proof (cases malloc)
      case None
      with e True n k gui_okD(6) [OF assms(2)] show ?thesis
        by (auto simp: worked_def generate_result_def result_ok_def)
    next
      case (Some buf)
      with e True n obtain t where "w = Generating n buf 0 0 t" "s' = s\<lparr>rng := p\<lparr>qpc_pos := qpc_pos p + 2\<rparr>\<rparr>" by auto
      with Some True k gui_okD(6) [OF assms(2)] assms(3-5) none show ?thesis by (simp add: worked_def)
    qed
  next
    case False
    with e n k gui_okD(6) [OF assms(2)] show ?thesis
      by (auto simp: worked_def generate_result_def result_ok_def)
  qed
qed

lemma generate_chunk_worked:
  assumes "generate_chunk m n buf d r t s = Some (w, s')" "gui_ok h s"
    "worker_ok (rng_collector (rng s) \<noteq> None) (Generating n buf d r t)"
  shows "worked h s w s'"
proof -
  note k = gui_okD [OF assms(2)]
  obtain pieces where g: "rng_collector (rng s) \<noteq> None" "n \<noteq> 0" "n \<le> GUI_MAX_GENERATE_BYTES"
    "length buf = unat n" "d \<le> n" "r = 0" "\<forall>p \<in> set pieces. supplied p" "take (unat d) buf = concat pieces"
    using assms(3) by auto
  show ?thesis
  proof (cases "d < n \<and> \<not> benchmark_cancel_requested s")
    case False
    then obtain q where f: "generate_finish m n buf d q t s = (w, s')" and
      q: "q = 0 \<longrightarrow> \<not> d < n" using assms(1) g(6) by (auto simp: generate_chunk_def split: if_splits)
    have "d = n \<and> buf = concat pieces" if "q = 0"
      using that q g(4,5,8) by auto
    with g(7) have "d = n \<and> (\<exists>pieces. (\<forall>p \<in> set pieces. supplied p) \<and> buf = concat pieces)" if "q = 0"
      using that by blast
    from generate_finish_worked [OF k(1,2,6) g(4,2,3) this f] show ?thesis by simp
  next
    case True
    let ?n = "min (n - d) GENERATE_CHUNK_BYTES"
    from assms(1) True obtain q rest p where
      r: "get_random_bytes (float_ops.truncate m) (Some (drop (unat d) buf)) ?n (rng s) = Some (q, rest, p)" and
      e: "(if q \<noteq> 0 then generate_finish m n (take (unat d) buf @ the rest) d q t (s\<lparr>rng := p\<rparr>)
        else (Generating n (take (unat d) buf @ the rest) (d + ?n) q t, s\<lparr>rng := p\<rparr>)) = (w, s')"
      by (auto simp: generate_chunk_def Let_def elim!: bind_SomeE)
    have dn: "unat (n - d) = unat n - unat d" "unat d \<le> unat n"
      using g(5) by (simp_all add: unat_sub word_le_nat_alt)
    have "?n \<le> n - d" by simp
    then have c: "unat ?n \<le> unat n - unat d" by (simp add: word_le_nat_alt dn(1))
    then have len: "unat ?n \<le> length (drop (unat d) buf)" using g(4) by simp
    have "n - d \<noteq> 0" using True by auto
    then have c0: "?n \<noteq> 0" by (auto simp: min_def)
    have p: "library_ok h p" "monitor_ok p"
      using get_random_bytes_keeps [OF r k(1,2)] len by auto
    have "generated h ?n (rng s) (drop (unat d) buf) q rest p"
      by (rule get_random_bytes_generated [OF r k(1) len g(1) c0])
    then obtain b pieces2 j where b: "rest = Some b" "length b = length (drop (unat d) buf)"
      "take (unat j) b = concat pieces2" "\<forall>p \<in> set pieces2. supplied p"
      "q = 0 \<and> j = ?n \<or> q = RNG_ERR_GENERATION_FAILED" "rng_collector p \<noteq> None"
      unfolding generated_def by blast
    let ?buf = "take (unat d) buf @ b"
    have lb: "length ?buf = unat n" using b(2) g(4) dn(2) by simp
    show ?thesis
    proof (cases "q = 0")
      case True
      have s: "unat (d + ?n) = unat d + unat ?n"
      proof (rule unat_add_lem [THEN iffD1])
        have "unat n < 2 ^ LENGTH(64)" by (rule unsigned_less)
        with c dn(2) show "unat d + unat ?n < 2 ^ LENGTH(64)" by linarith
      qed
      have "take (unat (d + ?n)) ?buf = concat (pieces @ pieces2)"
      proof -
        have "take (unat d + unat ?n) ?buf = take (unat d) buf @ take (unat ?n) b"
          using g(4) dn(2) by simp
        then show ?thesis using True b(3,5) g(8) by (simp add: s)
      qed
      moreover have "\<forall>p \<in> set (pieces @ pieces2). supplied p" using g(7) b(4) by auto
      ultimately have "\<exists>ps. (\<forall>p \<in> set ps. supplied p) \<and> take (unat (d + ?n)) ?buf = concat ps" by blast
      moreover have "d + ?n \<le> n" using c dn(2) by (simp add: word_le_nat_alt s)
      moreover have "w = Generating n ?buf (d + ?n) 0 t" "s' = s\<lparr>rng := p\<rparr>" using e True b(1) by simp_all
      ultimately show ?thesis using p b(6) g(2,3) lb k(6) by (simp add: worked_def)
    next
      case False
      then have f: "generate_finish m n ?buf d q t (s\<lparr>rng := p\<rparr>) = (w, s')" using e b(1) by simp
      have "worked h (s\<lparr>rng := p\<rparr>) w s'"
        by (rule generate_finish_worked [OF _ _ _ lb g(2,3) _ f]) (use p k(6) False in simp_all)
      then show ?thesis by (rule worked_here)
    qed
  qed
qed

lemma benchmark_worked:
  assumes "benchmark_worker m malloc cancel b k s = Some (w, s')" "gui_ok h s" "k < 2 ^ 31"
    "\<forall>buf. malloc = Some buf \<longrightarrow> length buf = unat b"
  shows "worked h s w s'"
proof -
  let ?q = "(rng s)\<lparr>qpc_pos := qpc_pos (rng s) + 3\<rparr>"
  from assms(1) obtain res bres buf p where
    r: "run_benchmark (float_ops.truncate m) malloc cancel b k ?q = Some (res, bres, buf, p)" and
    e: "\<exists>t. w = Recording \<lparr>wr_valid = True, wr_action = ''benchmark'', wr_status = res, wr_bytes = b,
        wr_iterations = br_completed_iterations bres, wr_duration = br_generation_seconds bres,
        wr_init_seconds = br_init_seconds bres, wr_hex_data = [], wr_stats = None\<rparr> t"
      "s' = s\<lparr>rng := p\<lparr>qpc_pos := qpc_pos p + 3\<rparr>,
        freed_buffers := (case buf of None \<Rightarrow> [] | Some b \<Rightarrow> [b]) @ freed_buffers s\<rparr>"
    by (auto simp: benchmark_worker_def read_clock_def QueryPerformanceCounter_def Let_def numeral_3_eq_3
        elim!: bind_SomeE)
  have "library_ok h ?q" "monitor_ok ?q" using gui_okD(1,2) [OF assms(2)] by simp_all
  from run_benchmark_result [OF r this assms(3,4)]
  have k: "library_ok h p" "monitor_ok p" "case buf of None \<Rightarrow> True | Some x \<Rightarrow> x = replicate (unat b) 0"
    by (auto split: option.splits)
  have "wiped (freed_buffers s')"
    using k(3) gui_okD(6) [OF assms(2)] by (auto simp: e(2) wiped_def split: option.splits)
  with k e show ?thesis by (auto simp: worked_def result_ok_def)
qed

lemma worker_step_keeps:
  assumes "worker_step m t w s s'" "gui_ok h s" "threads s t = Some w" "phase s \<noteq> Exited"
  shows "gui_ok h s'"
proof -
  have w: "worker_ok (rng_collector (rng s) \<noteq> None) w" and t: "g_worker_thread s = Some t"
    using gui_okD(3) [OF assms(2,3)] by blast+
  have o: "threads s u = (if u = t then Some w else None)" for u
    using gui_okD(3) [OF assms(2), of u] t assms(3) by (cases "threads s u") auto
  have np: "phase s \<noteq> Closed" using gui_okD(9) [OF assms(2)] t by auto
  have b: "g_rng_busy s" if "w \<noteq> Returning" using gui_okD(4) [OF assms(2)] assms(3) that by blast
  have same: "gui_ok h (set_worker t (Some v) s1)" if "worked h s v s1" "w \<noteq> Returning" for v s1
    using worked_keeps [OF assms(2,3) that(2,1), of "benchmark_cancel_requested s1"] by simp
  have moved: "gui_ok h (set_worker t (Some v) s1)"
    if "worker_ok (rng_collector (rng s) \<noteq> None) v" "rng s1 = rng s" "threads s1 = threads s"
      "g_worker_thread s1 = g_worker_thread s" "g_rng_busy s1 \<longleftrightarrow> v \<noteq> Returning"
      "open_handles s1 = open_handles s" "freed_buffers s1 = freed_buffers s"
      "wr_valid (g_pending_worker_result s1) \<Longrightarrow> result_ok (g_pending_worker_result s1)"
      "histogram_ok (h_counts (g_session_hist s1)) (h_total (g_session_hist s1))"
      "phase s1 = phase s" for v s1
  proof (rule gui_ok_worker)
    show "threads (set_worker t (Some v) s1) u = (if u = t then Some v else None)" for u
      using o that(3) by (simp add: set_worker_def)
  qed (use that gui_okD [OF assms(2)] t np in \<open>simp_all add: set_worker_def\<close>)
  from assms(1) show ?thesis
  proof cases
    case (start_generate malloc n v s1)
    show ?thesis unfolding start_generate(2)
      by (rule same, rule generate_start_worked [OF start_generate(3) assms(2) _ _ start_generate(4)])
        (use w start_generate(1) in simp_all)
  next
    case (chunk n buf d r c v s1)
    show ?thesis unfolding chunk(2)
      by (rule same, rule generate_chunk_worked [OF chunk(3) assms(2)])
        (use w chunk(1) in simp_all)
  next
    case (run_benchmark malloc cancel x k v s1 flag)
    have "worked h s v s1"
      by (rule benchmark_worked [OF run_benchmark(3) assms(2) _ run_benchmark(4)])
        (use w run_benchmark(1) in simp_all)
    with run_benchmark(1) show ?thesis unfolding run_benchmark(2)
      by (intro worked_keeps [OF assms(2,3)]) simp_all
  next
    case (record_timeline p c)
    show ?thesis unfolding record_timeline(2)
      by (rule moved) (use w b record_timeline(1) gui_okD [OF assms(2)] in
          \<open>simp_all add: RecordTimeline_def Let_def\<close>)
  next
    case (publish p)
    have "histogram_ok (h_counts (g_session_hist (publish_result p s))) (h_total (g_session_hist (publish_result p s)))"
      using w publish(1) gui_okD(8) [OF assms(2)] session_add_ok
      by (auto simp: publish_result_def result_ok_def split: option.splits)
    then show ?thesis unfolding publish(2)
      by (intro moved) (use w b publish(1) gui_okD [OF assms(2)] in \<open>simp_all add: publish_result_def\<close>)
  next
    case clear_busy
    show ?thesis unfolding clear_busy(2)
      by (rule moved) (use gui_okD [OF assms(2)] in simp_all)
  next
    case return
    have "threads (set_worker t None s) = (\<lambda>u. None)" using o by (auto simp: set_worker_def)
    moreover have "\<not> g_rng_busy s" using gui_okD(4) [OF assms(2)] o return(1) by (auto split: if_splits)
    ultimately show ?thesis unfolding return(2) gui_ok_def
      using gui_okD [OF assms(2)] np by (simp add: set_worker_def)
  qed
qed

lemma gui_step_keeps:
  assumes "gui_step m s s'" "gui_ok h s"
  shows "gui_ok h s'"
  using assms(1)
proof cases
  case (message waited created json)
  with on_message_keeps [OF assms(2)] show ?thesis by simp
next
  case tick
  with telemetry_keeps [OF assms(2)] show ?thesis by simp
next
  case destroy
  with assms(2) show ?thesis by (simp add: destroy_begin_def gui_ok_def)
next
  case (destroyed waited)
  with destroy_end_keeps [OF assms(2)] show ?thesis by simp
next
  case (work t w)
  with worker_step_keeps [OF _ assms(2)] show ?thesis by blast
qed

lemma gui_start_ok:
  assumes "handler_matched w" "g_fips_cb w = None"
  shows "gui_ok (w_heap w) (gui_start m w q f)"
  using process_start_ok [OF assms, of "float_ops.truncate m" q f] histogram_ok_empty
  by (simp add: gui_start_def gui_ok_def Let_def wiped_def split: prod.splits)

lemma gui_reachable_ok:
  assumes "gui_reachable m (gui_start m w q f) s" "handler_matched w" "g_fips_cb w = None"
  shows "gui_ok (w_heap w) s"
  using assms(1)
  by (induction rule: gui_reachable.induct) (use gui_start_ok [OF assms(2,3)] gui_step_keeps in blast)+

section \<open>Properties\<close>

text \<open>
  C17. Whatever messages the page sends, in whatever order, and however the two threads interleave: at
  most one worker has not ended and its handle is the only one open; the busy flag is set exactly while
  it has not finished its job (the lock around the jobs is not needed for that); the heap is that of
  the start plus the blocks of the collector; every buffer that was freed had been wiped; the totals of
  the session's histogram agree. When the window is closed the worker has ended, and nothing is left.
\<close>

theorem gui_one_worker:
  assumes "gui_reachable m (gui_start m w q f) s" "handler_matched w" "g_fips_cb w = None"
  shows "(\<forall>t v. threads s t = Some v \<longrightarrow> g_worker_thread s = Some t) \<and>
    (g_rng_busy s \<longleftrightarrow> (\<exists>t v. threads s t = Some v \<and> v \<noteq> Returning)) \<and>
    open_handles s = set_option (g_worker_thread s) \<and>
    w_heap (library (rng s)) =
      w_heap w + (case rng_collector (rng s) of None \<Rightarrow> {#} | Some ec \<Rightarrow> collector_blocks ec) \<and>
    (\<forall>b \<in> set (freed_buffers s). b = replicate (length b) 0) \<and>
    sum_list (h_counts (g_session_hist s)) = h_total (g_session_hist s) \<and>
    (phase s = Closed \<longrightarrow> threads s = (\<lambda>t. None) \<and> open_handles s = {} \<and> w_heap (library (rng s)) = w_heap w)"
proof -
  note ok = gui_reachable_ok [OF assms]
  note d = gui_okD [OF ok]
  have heap: "w_heap (library (rng s)) =
      w_heap w + (case rng_collector (rng s) of None \<Rightarrow> {#} | Some ec \<Rightarrow> collector_blocks ec)"
    using d(1) by (auto simp: library_ok_def split: option.splits)
  have "threads s = (\<lambda>t. None) \<and> open_handles s = {} \<and> w_heap (library (rng s)) = w_heap w"
    if "phase s = Closed"
    using d(5) d(9) [OF that] no_threads [OF ok] heap by simp
  with d heap show ?thesis by (simp add: wiped_def histogram_ok_def)
qed

text \<open>
  C21. A result that is delivered to the page as a successful generation is the hexadecimal text of
  between 1 and 65536 bytes, as many as it says, and all of them were supplied by the library; a result
  is delivered once, and its text does not stay behind.
\<close>

theorem gui_results_genuine:
  assumes "gui_reachable m (gui_start m w q f) s" "handler_matched w" "g_fips_cb w = None"
    "BuildTelemetryJson m s = (Some r, s')"
  shows "(wr_action r = ''generate'' \<and> wr_status r = 0 \<longrightarrow>
      0 < wr_bytes r \<and> wr_bytes r \<le> GUI_MAX_GENERATE_BYTES \<and>
      (\<exists>pieces. (\<forall>p \<in> set pieces. supplied p) \<and> wr_hex_data r = hex_text (concat pieces) \<and>
         length (concat pieces) = unat (wr_bytes r))) \<and>
    (wr_action r \<noteq> ''generate'' \<or> wr_status r \<noteq> 0 \<longrightarrow> wr_hex_data r = []) \<and>
    \<not> wr_valid (g_pending_worker_result s') \<and> wr_hex_data (g_pending_worker_result s') = []"
proof -
  note ok = gui_reachable_ok [OF assms(1-3)]
  have r: "wr_valid (g_pending_worker_result s)" "r = g_pending_worker_result s"
    "\<not> wr_valid (g_pending_worker_result s') \<and> wr_hex_data (g_pending_worker_result s') = []"
    using assms(4)
    by (auto simp: BuildTelemetryJson_def read_clock_def QueryPerformanceCounter_def Let_def
        split: prod.splits if_splits)
  have "result_ok r" using gui_okD(7) [OF ok r(1)] r(2) by simp
  with r(3) show ?thesis by (auto simp: result_ok_def word_gt_0 split: if_splits)
qed

text \<open>
  C22. A cancellation is not lost: while the job that it is meant for has not ended, no step of either
  thread takes it back, and a generation does not draw another byte: its next step ends it with the
  status of a cancelled run, unless all of its bytes were already drawn.
\<close>

lemma worker_cancel:
  assumes "worker_step m t w s s'" "benchmark_cancel_requested s"
  shows "benchmark_cancel_requested s'"
  using assms
  by (cases rule: worker_step.cases)
    (auto simp: set_worker_def RecordTimeline_def publish_result_def Let_def generate_start_def
      generate_chunk_def generate_finish_def read_clock_def QueryPerformanceCounter_def
      elim!: bind_SomeE split: option.splits if_splits)

lemma message_cancel:
  "g_rng_busy s \<Longrightarrow> benchmark_cancel_requested s \<Longrightarrow> benchmark_cancel_requested (on_message m waited created json s)"
  by (auto simp: on_message_def on_generate_def on_benchmark_def on_cancel_def on_clear_def on_configure_def
      TryAdmitJob_def PublishRejection_def split: option.splits prod.splits)


section \<open>Witnesses\<close>

lemma telemetry_delivers:
  "wr_valid (g_pending_worker_result s) \<Longrightarrow> fst (BuildTelemetryJson m s) = Some (g_pending_worker_result s)"
  by (simp add: BuildTelemetryJson_def read_clock_def QueryPerformanceCounter_def Let_def split: prod.splits)

text \<open>A page that asks for eight bytes; the thread is created, or not.\<close>

definition test_message :: string where
  "test_message = render_object [(''action'', \<lparr>is_string = True, text_of = ''generate''\<rparr>),
     (''bytes'', \<lparr>is_string = False, text_of = ''8''\<rparr>)]"

definition asked :: "bool \<Rightarrow> int gui" where
  "asked created = on_message int_math True created test_message (gui_start int_math test_world int 1)"

lemma test_message_parses: "ParseFlatObject test_message =
    Some [''action'' \<mapsto> \<lparr>is_string = True, text_of = ''generate''\<rparr>, ''bytes'' \<mapsto> \<lparr>is_string = False, text_of = ''8''\<rparr>]"
  using parse_rendered [of "[(''action'', \<lparr>is_string = True, text_of = ''generate''\<rparr>),
     (''bytes'', \<lparr>is_string = False, text_of = ''8''\<rparr>)]" "[]" "[]"]
  by (simp add: test_message_def plain_def admissible_def in_token_def is_ws_def fun_eq_iff)

lemma asked_starts: "asked created = start_worker int_math created (Generate 8)
    ((gui_start int_math test_world int 1)\<lparr>g_rng_busy := True\<rparr>)"
proof -
  have "GetInt [''action'' \<mapsto> \<lparr>is_string = True, text_of = ''generate''\<rparr>, ''bytes'' \<mapsto> \<lparr>is_string = False, text_of = ''8''\<rparr>]
      ''bytes'' 1 65536 32 = (kOk, 8)"
    by (simp add: GetInt_def)
  then show ?thesis
    by (simp add: asked_def on_message_def test_message_parses GetString_def on_generate_def TryAdmitJob_def
        ReapWorkerHandle_def gui_start_def Let_def split: prod.splits)
qed

lemma asked_reachable: "gui_reachable int_math (gui_start int_math test_world int 1) (asked created)"
proof -
  have "phase (gui_start int_math test_world int 1) = Open" "can_end (gui_start int_math test_world int 1)"
    by (simp_all add: gui_start_def can_end_def Let_def split: prod.splits)
  then have "gui_step int_math (gui_start int_math test_world int 1) (asked created)"
    unfolding asked_def by (intro gui_step.message) simp_all
  then show ?thesis by (rule gui_reachable.step [OF gui_reachable.start])
qed

lemma test_world_start: "handler_matched test_world" "g_fips_cb test_world = None"
  using test_world_matched(2) by (simp_all add: test_world_def)

theorem gui_one_worker_witness:
  "gui_reachable int_math (gui_start int_math test_world int 1) (asked True) \<and>
     threads (asked True) 0 = Some (Started (Generate 8)) \<and> open_handles (asked True) = {0}"
proof -
  have t: "threads (asked True) 0 = Some (Started (Generate 8))"
    by (simp add: asked_starts start_worker_def gui_start_def Let_def split: prod.splits)
  note k = gui_one_worker [OF asked_reachable test_world_start, of True]
  from k t have "g_worker_thread (asked True) = Some 0" by blast
  with k have "open_handles (asked True) = {0}" by simp
  with t asked_reachable show ?thesis by simp
qed

theorem gui_results_genuine_witness:
  "\<exists>r s'. BuildTelemetryJson int_math (asked False) = (Some r, s') \<and> wr_status r = RNG_ERR_ALLOC_FAILED \<and>
     wr_hex_data r = [] \<and> \<not> wr_valid (g_pending_worker_result s')"
proof -
  have v: "wr_valid (g_pending_worker_result (asked False))"
    "wr_status (g_pending_worker_result (asked False)) = RNG_ERR_ALLOC_FAILED"
    by (simp_all add: asked_starts start_worker_def PublishWorkerStartFailure_def)
  define s' where "s' = snd (BuildTelemetryJson int_math (asked False))"
  have s': "BuildTelemetryJson int_math (asked False) = (Some (g_pending_worker_result (asked False)), s')"
    using telemetry_delivers [OF v(1), of int_math] by (simp add: s'_def prod_eq_iff)
  from gui_results_genuine [OF asked_reachable test_world_start this] s' v(2) show ?thesis by auto
qed

text \<open>A generation of eight bytes with four of them drawn, when it is cancelled.\<close>

definition half_done :: "int gui" where
  "half_done = (gui_start int_math test_world int 1)
     \<lparr>g_rng_busy := True, benchmark_cancel_requested := True, g_worker_thread := Some 0,
      threads := [0 \<mapsto> Generating 8 (replicate 8 1) 4 0 \<lparr>req_start = 0, req_end = 0, ent_start = 0,
        ent_end = 0, proc_start = 0, proc_end = 0\<rparr>], open_handles := {0}\<rparr>"


end
