(* ===== verification/Kernel_Module.thy ===== *)
theory Kernel_Module
  imports Read_Proofs Status
begin

unbundle bit_operations_syntax

text \<open>
  The Linux kernel module around the library (\<open>linux_kernel/\<close>): the character device with one
  collector for every open file (\<open>jitterentropy_chardev.c\<close>), the crypto API with one for every
  transform (\<open>jitterentropy_kcapi.c\<close>), the hwrng interface with a single one
  (\<open>jitterentropy_hwrng.c\<close>), the instance counters (\<open>jitterentropy_proc.c\<close>) and the error mapping that
  all share (\<open>jitterentropy_error.h\<close>).

  Every handler holds the lock of its collector and is one step. What the kernel answers is an
  argument: whether an allocation or a lock succeeded, whether a copy to the user faulted, whether a
  signal is pending. The kernel's own allocations and the status files below \<open>/proc\<close> are not modelled.
\<close>

section \<open>State\<close>

datatype owner = Opened nat | Transform nat | Hwrng

record kernel_module =
  km_library :: jent_world
  km_collectors :: "owner \<Rightarrow> rand_data option"
  km_osr :: u32
  km_flags :: u32
  jent_open_instances :: u32
  jent_cumulative_opens :: u64

text \<open>A handler returns or the kernel panics; \<open>None\<close> is a library call without a result.\<close>

datatype 'a outcome = Panic | Returned 'a

abbreviation (input) ENOMEM :: int where "ENOMEM \<equiv> 12"
abbreviation (input) EFAULT :: int where "EFAULT \<equiv> 14"
abbreviation (input) EINVAL :: int where "EINVAL \<equiv> 22"
abbreviation (input) EIO :: int where "EIO \<equiv> 5"
abbreviation (input) EOVERFLOW :: int where "EOVERFLOW \<equiv> 75"
abbreviation (input) ERESTARTSYS :: int where "ERESTARTSYS \<equiv> 512"

abbreviation (input) JENT_CHARDEV_READ_BUF_SIZE :: u64 where "JENT_CHARDEV_READ_BUF_SIZE \<equiv> 256"
abbreviation (input) JENT_STATUS_MAX_LEN :: nat where "JENT_STATUS_MAX_LEN \<equiv> 4096"

section \<open>Shared parts\<close>

definition jent_map_read_error :: "bool \<Rightarrow> int \<Rightarrow> int outcome" where
  "jent_map_read_error fips_enabled ret =
     (if ret \<in> {-2, -3, -5, -6, -7, -8, -9, -10}
      then if fips_enabled then Panic else Returned (- EFAULT)
      else if ret \<in> {-1, -4} then Returned (- EINVAL)
      else Returned (- EFAULT))"

definition jent_proc_instance_inc :: "kernel_module \<Rightarrow> kernel_module" where
  "jent_proc_instance_inc s = s\<lparr>jent_open_instances := jent_open_instances s + 1,
     jent_cumulative_opens := jent_cumulative_opens s + 1\<rparr>"

definition jent_proc_instance_dec :: "kernel_module \<Rightarrow> kernel_module" where
  "jent_proc_instance_dec s = s\<lparr>jent_open_instances := jent_open_instances s - 1\<rparr>"

text \<open>\<open>jent_entropy_collector_alloc (osr, flags)\<close> into the field of an owner, and the release.\<close>

definition collector_open :: "owner \<Rightarrow> kernel_module \<Rightarrow> (bool \<times> kernel_module) option" where
  "collector_open x s = do {
     (ec, w) \<leftarrow> jent_entropy_collector_alloc (km_osr s) (km_flags s) (km_library s);
     Some (ec \<noteq> None, s\<lparr>km_library := w, km_collectors := (km_collectors s)(x := ec)\<rparr>)
   }"

definition collector_close :: "owner \<Rightarrow> kernel_module \<Rightarrow> kernel_module" where
  "collector_close x s =
     s\<lparr>km_library := jent_entropy_collector_free (km_library s) (km_collectors s x),
       km_collectors := (km_collectors s)(x := None)\<rparr>"

text \<open>\<open>jent_read_entropy_safe\<close> on the collector of an owner: its result and the buffer.\<close>

definition collector_read ::
  "owner \<Rightarrow> u8 list \<Rightarrow> u64 \<Rightarrow> kernel_module \<Rightarrow> (int \<times> u8 list \<times> kernel_module) option" where
  "collector_read x buf len s = do {
     (ret, data, w, ec) \<leftarrow> jent_read_entropy_safe (km_library s) (Some (km_collectors s x)) (Some buf) len;
     Some (ret, the data, s\<lparr>km_library := w, km_collectors := (km_collectors s)(x := the ec)\<rparr>)
   }"

text \<open>An \<open>ssize_t\<close> stored in an \<open>int\<close>.\<close>

definition to_int :: "int \<Rightarrow> int" where
  "to_int ret = sint (of_int ret :: u32)"

section \<open>The character device\<close>

definition jent_chardev_open :: "nat \<Rightarrow> bool \<Rightarrow> kernel_module \<Rightarrow> (int \<times> kernel_module) option" where
  "jent_chardev_open file ctx_allocated s =
     (if \<not> ctx_allocated then Some (- ENOMEM, s)
      else do {
        (ok, s) \<leftarrow> collector_open (Opened file) s;
        Some (if \<not> ok then (- ENOMEM, s) else (0, jent_proc_instance_inc s))
      })"

text \<open>A file without a collector has no context either.\<close>

definition jent_chardev_release :: "nat \<Rightarrow> kernel_module \<Rightarrow> int \<times> kernel_module" where
  "jent_chardev_release file s =
     (if km_collectors s (Opened file) = None then (0, s)
      else (0, jent_proc_instance_dec (collector_close (Opened file) s)))"

text \<open>
  The loop over chunks: the number of the chunk, the buffer of the kernel, what is left to read, the
  value to return so far and the bytes that the user got.
\<close>

partial_function (option) chardev_read_loop ::
  "nat \<Rightarrow> (nat \<Rightarrow> bool) \<Rightarrow> (nat \<Rightarrow> bool) \<Rightarrow> nat \<Rightarrow> u8 list \<Rightarrow> u64 \<Rightarrow> int \<Rightarrow> u8 list \<Rightarrow> kernel_module \<Rightarrow>
     (int \<times> u8 list \<times> kernel_module) outcome option" where
  "chardev_read_loop file copy_faults signal_pending i tmp nbytes ret user s =
     (if nbytes = 0 then Some (Returned (ret, user, s))
      else do {
        let towork = min nbytes JENT_CHARDEV_READ_BUF_SIZE;
        (rc, tmp, s) \<leftarrow> collector_read (Opened file) tmp towork s;
        if rc < 0
        then Some (case jent_map_read_error (w_fips_enabled (km_library s)) rc of
                 Panic \<Rightarrow> Panic
               | Returned err \<Rightarrow> Returned (if ret = 0 then err else ret, user, s))
        else if copy_faults i then Some (Returned (if ret = 0 then - EFAULT else ret, user, s))
        else
          let nbytes = nbytes - of_int rc; user = user @ take (nat rc) tmp; ret = ret + rc
          in if signal_pending i then Some (Returned (if ret = 0 then - ERESTARTSYS else ret, user, s))
             else chardev_read_loop file copy_faults signal_pending (i + 1) tmp nbytes ret user s
      })"

text \<open>\<open>tmp\<close>: the memory that \<open>kvmalloc\<close> returned; \<open>locked\<close>: the lock was taken before a signal.\<close>

definition jent_chardev_read ::
  "nat \<Rightarrow> u8 list option \<Rightarrow> bool \<Rightarrow> (nat \<Rightarrow> bool) \<Rightarrow> (nat \<Rightarrow> bool) \<Rightarrow> u64 \<Rightarrow> kernel_module \<Rightarrow>
     (int \<times> u8 list \<times> kernel_module) outcome option" where
  "jent_chardev_read file tmp locked copy_faults signal_pending nbytes s =
     (if km_collectors s (Opened file) = None then Some (Returned (- EFAULT, [], s))
      else if nbytes = 0 then Some (Returned (0, [], s))
      else case tmp of
          None \<Rightarrow> Some (Returned (- ENOMEM, [], s))
        | Some tmp \<Rightarrow>
            if \<not> locked then Some (Returned (- ERESTARTSYS, [], s))
            else chardev_read_loop file copy_faults signal_pending 0 tmp nbytes 0 [] s)"

text \<open>
  The status of an open file: \<open>length\<close> is the size of the user's buffer, from \<open>copy_from_user\<close> (\<open>None\<close> when
  it faults). The result has the length written back and the bytes written to the user's buffer.
\<close>

definition jent_chardev_ioctl_status ::
  "nat \<Rightarrow> u32 option \<Rightarrow> u8 list option \<Rightarrow> bool \<Rightarrow> bool \<Rightarrow> bool \<Rightarrow> kernel_module \<Rightarrow>
     (int \<times> u32 option \<times> u8 list) option" where
  "jent_chardev_ioctl_status file status buf locked copy_ok write_back_ok s =
     (case status of
        None \<Rightarrow> Some (- EFAULT, None, [])
      | Some len \<Rightarrow>
          (case buf of
             None \<Rightarrow> Some (- ENOMEM, None, [])
           | Some buf \<Rightarrow>
               if \<not> locked then Some (- ERESTARTSYS, None, [])
               else do {
                 (ret, buf) \<leftarrow> (if km_collectors s (Opened file) \<noteq> None
                    then jent_status (km_library s) (km_collectors s (Opened file)) (Some buf)
                      JENT_STATUS_MAX_LEN
                    else Some (-1, Some buf));
                 if ret \<noteq> 0 then Some (- EIO, None, [])
                 else let slen = strlen (the buf) + 1
                      in if unat len < slen
                         then if \<not> write_back_ok then Some (- EFAULT, None, [])
                              else Some (- EOVERFLOW, Some (of_nat slen), [])
                         else if \<not> copy_ok then Some (- EFAULT, None, [])
                         else if \<not> write_back_ok then Some (- EFAULT, None, take slen (the buf))
                         else Some (0, Some (of_nat slen), take slen (the buf))
               }))"

abbreviation (input) ENOTTY :: int where "ENOTTY \<equiv> 25"

text \<open>\<open>status_request\<close>: the command is \<open>JENT_IOCSTATUS\<close>.\<close>

definition jent_chardev_ioctl ::
  "nat \<Rightarrow> bool \<Rightarrow> u32 option \<Rightarrow> u8 list option \<Rightarrow> bool \<Rightarrow> bool \<Rightarrow> bool \<Rightarrow> kernel_module \<Rightarrow>
     (int \<times> u32 option \<times> u8 list) option" where
  "jent_chardev_ioctl fd status_request status buf locked copy_ok write_back_ok s =
     (if km_collectors s (Opened fd) = None then Some (- EFAULT, None, [])
      else if status_request then jent_chardev_ioctl_status fd status buf locked copy_ok write_back_ok s
      else Some (- ENOTTY, None, []))"

text \<open>The status files of an open file and of the hwrng device: the result and the text shown.\<close>

definition status_show :: "owner \<Rightarrow> u8 list option \<Rightarrow> kernel_module \<Rightarrow> (int \<times> u8 list) option" where
  "status_show x buf s = (case buf of
       None \<Rightarrow> Some (- ENOMEM, [])
     | Some buf \<Rightarrow> do {
         (ret, buf) \<leftarrow> (if km_collectors s x \<noteq> None
            then jent_status (km_library s) (km_collectors s x) (Some buf) JENT_STATUS_MAX_LEN
            else Some (-1, Some buf));
         Some (if ret \<noteq> 0 then (- EIO, []) else (0, take (strlen (the buf)) (the buf)))
       })"

definition jent_chardev_instance_status_show :: "nat \<Rightarrow> u8 list option \<Rightarrow> kernel_module \<Rightarrow> (int \<times> u8 list) option" where
  "jent_chardev_instance_status_show fd buf s = status_show (Opened fd) buf s"

definition jent_hwrng_proc_status_show :: "u8 list option \<Rightarrow> kernel_module \<Rightarrow> (int \<times> u8 list) option" where
  "jent_hwrng_proc_status_show buf s = status_show Hwrng buf s"

section \<open>The crypto API\<close>

definition jent_kcapi_init :: "nat \<Rightarrow> kernel_module \<Rightarrow> (int \<times> kernel_module) option" where
  "jent_kcapi_init tfm s = do {
     (ok, s) \<leftarrow> collector_open (Transform tfm) s;
     Some (if \<not> ok then (- ENOMEM, s) else (0, s))
   }"

definition jent_kcapi_cleanup :: "nat \<Rightarrow> kernel_module \<Rightarrow> kernel_module" where
  "jent_kcapi_cleanup tfm s = collector_close (Transform tfm) s"

definition jent_kcapi_random ::
  "nat \<Rightarrow> u8 list \<Rightarrow> u32 \<Rightarrow> kernel_module \<Rightarrow> (int \<times> u8 list \<times> kernel_module) outcome option" where
  "jent_kcapi_random tfm rdata dlen s = do {
     (ret, rdata, s) \<leftarrow> collector_read (Transform tfm) rdata (ucast dlen) s;
     let ret = to_int ret;
     Some (if ret \<ge> 0 then Returned (0, rdata, s)
           else case jent_map_read_error (w_fips_enabled (km_library s)) ret of
                  Panic \<Rightarrow> Panic
                | Returned ret \<Rightarrow> Returned (ret, rdata, s))
   }"

definition jent_kcapi_reset :: int where "jent_kcapi_reset = 0"

section \<open>The hwrng interface\<close>

text \<open>\<open>locked\<close>: a reader that must not wait got the lock at once.\<close>

definition jent_hwrng_read ::
  "u8 list \<Rightarrow> u64 \<Rightarrow> bool \<Rightarrow> bool \<Rightarrow> kernel_module \<Rightarrow> (int \<times> u8 list \<times> kernel_module) outcome option" where
  "jent_hwrng_read data max_len wait locked s =
     (if max_len = 0 then Some (Returned (0, data, s))
      else if \<not> wait \<and> \<not> locked then Some (Returned (0, data, s))
      else do {
        (ret, data, s) \<leftarrow> collector_read Hwrng data max_len s;
        Some (if ret < 0
              then case jent_map_read_error (w_fips_enabled (km_library s)) ret of
                     Panic \<Rightarrow> Panic
                   | Returned ret \<Rightarrow> Returned (ret, data, s)
              else Returned (to_int ret, data, s))
      })"

text \<open>The declared quality is clamped; \<open>register\<close> is the result of \<open>hwrng_register\<close>.\<close>

definition hwrng_quality :: "u32 \<Rightarrow> u16" where
  "hwrng_quality q = ucast (min q 1024)"

definition jent_hwrng_init :: "int \<Rightarrow> kernel_module \<Rightarrow> (int \<times> kernel_module) option" where
  "jent_hwrng_init register s = do {
     (ok, s) \<leftarrow> collector_open Hwrng s;
     Some (if \<not> ok then (- ENOMEM, s)
           else if register \<noteq> 0 then (register, collector_close Hwrng s)
           else (0, s))
   }"

definition jent_hwrng_exit :: "kernel_module \<Rightarrow> kernel_module" where
  "jent_hwrng_exit s = (if km_collectors s Hwrng \<noteq> None then collector_close Hwrng s else s)"

section \<open>Loading and unloading\<close>

text \<open>\<open>crypto\<close>, \<open>misc\<close> and \<open>register\<close> are the results of the registrations.\<close>

definition jent_mod_init :: "int \<Rightarrow> int \<Rightarrow> int \<Rightarrow> kernel_module \<Rightarrow> (int \<times> kernel_module) outcome option" where
  "jent_mod_init crypto misc register s = do {
     (ret, w) \<leftarrow> jent_entropy_init_ex (km_osr s) (km_flags s) (km_library s);
     let s = s\<lparr>km_library := w\<rparr>;
     if ret \<noteq> 0
     then Some (if w_fips_enabled w then Panic else Returned (- EFAULT, s))
     else if crypto \<noteq> 0 then Some (Returned (crypto, s))
     else if misc \<noteq> 0 then Some (Returned (misc, s))
     else do { (ret, s) \<leftarrow> jent_hwrng_init register s; Some (Returned (ret, s)) }
   }"

definition jent_mod_exit :: "kernel_module \<Rightarrow> kernel_module" where
  "jent_mod_exit s = jent_hwrng_exit s"

section \<open>Who owns which blocks\<close>

text \<open>
  \<open>h\<close> is the heap without collectors: every owner has a well-formed collector, and the rest of the
  heap consists of their blocks.
\<close>

definition blocks_of_all :: "(owner \<Rightarrow> rand_data option) \<Rightarrow> heap_block multiset" where
  "blocks_of_all m = (\<Sum>x \<in> dom m. collector_blocks (the (m x)))"

definition owned :: "heap_block multiset \<Rightarrow> jent_world \<Rightarrow> (owner \<Rightarrow> rand_data option) \<Rightarrow> bool" where
  "owned h w m \<longleftrightarrow> handler_matched w \<and> finite (dom m) \<and> w_heap w = h + blocks_of_all m \<and>
     (\<forall>x ec. m x = Some ec \<longrightarrow> collector_ok ec \<and> thread_released w ec)"

lemma blocks_of_all_remove:
  assumes "finite (dom m)"
  shows "blocks_of_all m = result_blocks (m x) + blocks_of_all (m(x := None))"
proof (cases "m x")
  case None
  then have "m(x := None) = m" by auto
  with None show ?thesis by simp
next
  case (Some ec)
  have "(\<Sum>y \<in> dom m - {x}. collector_blocks (the (m y))) = blocks_of_all (m(x := None))"
    unfolding blocks_of_all_def by (rule sum.cong) auto
  moreover have "x \<in> dom m" using Some by blast
  ultimately show ?thesis
    using sum.remove [OF assms, of x "\<lambda>y. collector_blocks (the (m y))"] Some
    by (simp add: blocks_of_all_def)
qed

lemma blocks_of_all_set:
  "finite (dom m) \<Longrightarrow> blocks_of_all (m(x := r)) = result_blocks r + blocks_of_all (m(x := None))"
  using blocks_of_all_remove [of "m(x := r)" x] by simp

lemma thread_released_lib:
  "allocates (forget w0) w b \<Longrightarrow> thread_released w ec = thread_released w0 ec"
  by (rule thread_released_config)

text \<open>The field of one owner changes and the heap with it; the others are as before.\<close>

lemma owned_set:
  assumes "owned h w m" "allocates (forget (w\<lparr>w_heap := h + blocks_of_all (m(x := None))\<rparr>)) w' (result_blocks r)"
    and "\<And>ec. r = Some ec \<Longrightarrow> collector_ok ec \<and> thread_released w' ec"
  shows "owned h w' (m(x := r)) \<and> w_fips_enabled w' = w_fips_enabled w"
proof -
  let ?w = "w\<lparr>w_heap := h + blocks_of_all (m(x := None))\<rparr>"
  have heap: "w_heap w' = h + blocks_of_all (m(x := None)) + result_blocks r"
    and c: "lib_config w' = lib_config w"
    using assms(2) by (simp_all add: allocates_def forget_def lib_config_def)
  have "finite (dom (m(x := r)))" using assms(1) by (simp add: owned_def)
  moreover have "w_heap w' = h + blocks_of_all (m(x := r))"
    using assms(1) by (subst blocks_of_all_set) (simp_all add: heap owned_def)
  ultimately show ?thesis
    using assms(1,3) lib_config_thread [OF c] by (auto simp: owned_def)
qed

lemma owned_holds:
  assumes "owned h w m" "m x = Some ec"
  shows "holds_collector (w\<lparr>w_heap := h + blocks_of_all (m(x := None))\<rparr>) w ec"
  using assms blocks_of_all_remove [of m x]
  by (auto simp: owned_def holds_collector_def allocates_def forget_def lib_config_def handler_matched_def)

lemma owned_alloc:
  assumes "owned h w m" "m x = None" "jent_entropy_collector_alloc osr flags w = Some (r, w')"
  shows "owned h w' (m(x := r)) \<and> w_fips_enabled w' = w_fips_enabled w"
proof -
  have a: "collector_alloc_startup osr flags w = Some (r, w')"
    using assms(3) by (simp add: jent_entropy_collector_alloc_def)
  have m: "handler_matched w" "m(x := None) = m" using assms(1,2) by (auto simp: owned_def)
  note l = alloc_looseD [OF alloc_startup_loose a m(1)]
  have "w\<lparr>w_heap := h + blocks_of_all (m(x := None))\<rparr> = w"
    using assms(1) m(2) by (simp add: owned_def)
  then show ?thesis
    using owned_set [OF assms(1), of x w' r] l alloc_startup_result [of osr flags w _ w'] a m(1) by auto
qed

lemma owned_free:
  fixes x :: owner
  assumes "owned h w m"
  defines "w' \<equiv> jent_entropy_collector_free w (m x)"
  shows "owned h w' (m(x := None)) \<and> w_fips_enabled w' = w_fips_enabled w"
proof (cases "m x")
  case None
  then have "m(x := None) = m" by auto
  with None assms show ?thesis by (simp add: jent_entropy_collector_free_def)
next
  case (Some ec)
  from holds_free [OF owned_holds [OF assms(1) Some]] Some show ?thesis
    using owned_set [OF assms(1), of x w' None] by (simp add: w'_def)
qed

definition module_owned :: "heap_block multiset \<Rightarrow> kernel_module \<Rightarrow> bool" where
  "module_owned h s \<longleftrightarrow> owned h (km_library s) (km_collectors s)"

text \<open>What the operations on a collector leave alone.\<close>

definition module_frame :: "kernel_module \<Rightarrow> kernel_module \<Rightarrow> bool" where
  "module_frame s s' \<longleftrightarrow> km_osr s' = km_osr s \<and> km_flags s' = km_flags s \<and>
     jent_open_instances s' = jent_open_instances s \<and>
     jent_cumulative_opens s' = jent_cumulative_opens s \<and>
     w_fips_enabled (km_library s') = w_fips_enabled (km_library s)"

lemma module_frame_refl [simp]: "module_frame s s"
  by (simp add: module_frame_def)

lemma module_frame_trans: "module_frame s s1 \<Longrightarrow> module_frame s1 s2 \<Longrightarrow> module_frame s s2"
  by (simp add: module_frame_def)

lemma collector_open_keeps:
  assumes "collector_open x s = Some (ok, s')" "module_owned h s" "km_collectors s x = None"
  shows "module_owned h s' \<and> module_frame s s' \<and>
    dom (km_collectors s') = (if ok then insert x (dom (km_collectors s)) else dom (km_collectors s))"
proof -
  from assms(1) obtain r w where
    a: "jent_entropy_collector_alloc (km_osr s) (km_flags s) (km_library s) = Some (r, w)" and
    e: "ok \<longleftrightarrow> r \<noteq> None" "s' = s\<lparr>km_library := w, km_collectors := (km_collectors s)(x := r)\<rparr>"
    by (auto simp: collector_open_def elim!: bind_SomeE)
  have "owned h (km_library s) (km_collectors s)" using assms(2) by (simp add: module_owned_def)
  from owned_alloc [of h "km_library s" "km_collectors s" x, OF this assms(3) a] assms(3) e
  show ?thesis by (auto simp: module_owned_def module_frame_def)
qed

lemma collector_close_keeps:
  "module_owned h s \<Longrightarrow> module_owned h (collector_close x s) \<and> module_frame s (collector_close x s) \<and>
     dom (km_collectors (collector_close x s)) = dom (km_collectors s) - {x}"
  using owned_free [of h "km_library s" "km_collectors s" x]
  by (auto simp: module_owned_def module_frame_def collector_close_def)

lemma collector_read_result:
  assumes "collector_read x buf len s = Some (ret, buf', s')" "module_owned h s"
    "km_collectors s x \<noteq> None" "unat len \<le> length buf"
  shows "module_owned h s' \<and> module_frame s s' \<and> dom (km_collectors s') = dom (km_collectors s) \<and>
    length buf' = length buf \<and>
    (ret = int (request len) \<and> (len = 0 \<or> supplied (take (request len) buf')) \<or>
     ret \<in> {-4} \<union> intermittent \<union> permanent)"
proof -
  let ?m = "km_collectors s" and ?w = "km_library s"
  obtain ec where ec: "?m x = Some ec" using assms(3) by auto
  have o: "owned h ?w ?m" using assms(2) by (simp add: module_owned_def)
  from assms(1) ec obtain data w y where
    r: "jent_read_entropy_safe ?w (Some (Some ec)) (Some buf) len = Some (ret, data, w, y)" and
    e: "buf' = the data" "s' = s\<lparr>km_library := w, km_collectors := ?m(x := the y)\<rparr>"
    by (auto simp: collector_read_def elim!: bind_SomeE)
  have "collector_ok ec" using o ec by (simp add: owned_def)
  from read_safe_result [OF r assms(4) owned_holds [OF o ec] this] obtain b e' where
    b: "data = Some b" "length b = length buf" and
    y: "y = Some (Some e')" "holds_collector (?w\<lparr>w_heap := h + blocks_of_all (?m(x := None))\<rparr>) w e'"
      "collector_ok e'" and
    q: "ret = int (request len) \<and> (len = 0 \<or> (\<exists>w1 e1 bs w2 e2.
         deliver (blocks_of (request len)) w1 e1 = Some (0, bs, w2, e2) \<and> request len \<le> length bs \<and>
         take (request len) b = take (request len) bs)) \<or>
     ret \<in> {-4} \<union> intermittent \<union> permanent"
    by blast
  have "owned h w (?m(x := Some e')) \<and> w_fips_enabled w = w_fips_enabled ?w"
    using owned_set [OF o, of x w "Some e'"] y(2,3) by (simp add: holds_collector_def)
  moreover have len: "length (take (request len) b) = request len"
    using request_bounds(1) [of len] assms(4) b(2) by simp
  have "supplied (take (request len) b)" if "\<exists>w1 e1 bs w2 e2.
      deliver (blocks_of (request len)) w1 e1 = Some (0, bs, w2, e2) \<and> request len \<le> length bs \<and>
      take (request len) b = take (request len) bs"
    unfolding supplied_def len using that by blast
  with q have "ret = int (request len) \<and> (len = 0 \<or> supplied (take (request len) b)) \<or>
      ret \<in> {-4} \<union> intermittent \<union> permanent" by blast
  ultimately show ?thesis
    using b e y(1) ec by (auto simp: module_owned_def module_frame_def)
qed

section \<open>The handlers keep it\<close>

text \<open>The counter of open instances is the number of open files, as far as 32 bits go.\<close>

definition open_files :: "kernel_module \<Rightarrow> nat set" where
  "open_files s = {file. km_collectors s (Opened file) \<noteq> None}"

definition module_ok :: "heap_block multiset \<Rightarrow> kernel_module \<Rightarrow> bool" where
  "module_ok h s \<longleftrightarrow> module_owned h s \<and> jent_open_instances s = of_nat (card (open_files s))"

lemma open_files_finite: "module_owned h s \<Longrightarrow> finite (open_files s)"
proof -
  assume "module_owned h s"
  then have "finite (dom (km_collectors s))" by (simp add: module_owned_def owned_def)
  then have "finite (Opened -` dom (km_collectors s))"
    by (rule finite_vimageI) (simp add: inj_def)
  then show ?thesis by (rule back_subst [where P = finite]) (auto simp: open_files_def)
qed

lemma open_files_dom: "open_files s = {file. Opened file \<in> dom (km_collectors s)}"
  by (auto simp: open_files_def)

lemma chardev_open_keeps:
  assumes "jent_chardev_open file ctx s = Some (r, s')" "module_ok h s"
    "km_collectors s (Opened file) = None"
  shows "module_ok h s' \<and> (r = 0 \<and> dom (km_collectors s') = insert (Opened file) (dom (km_collectors s)) \<or>
    r = - ENOMEM \<and> dom (km_collectors s') = dom (km_collectors s))"
proof (cases ctx)
  case True
  with assms(1) obtain ok s1 where o: "collector_open (Opened file) s = Some (ok, s1)" and
    e: "(r, s') = (if \<not> ok then (- ENOMEM, s1) else (0, jent_proc_instance_inc s1))"
    by (auto simp: jent_chardev_open_def elim!: bind_SomeE)
  have m: "module_owned h s" using assms(2) by (simp add: module_ok_def)
  note k = collector_open_keeps [OF o m assms(3)]
  have f: "finite (open_files s)" "file \<notin> open_files s"
    using open_files_finite [OF m] assms(3) by (simp_all add: open_files_def)
  have "open_files s1 = (if ok then insert file (open_files s) else open_files s)"
    using k by (auto simp: open_files_dom)
  then show ?thesis
    using k e assms(2) f
    by (cases ok) (auto simp: module_ok_def module_frame_def module_owned_def jent_proc_instance_inc_def
        open_files_def)
qed (use assms in \<open>simp add: jent_chardev_open_def\<close>)

lemma chardev_release_keeps:
  assumes "module_ok h s"
  shows "module_ok h (snd (jent_chardev_release file s)) \<and>
    dom (km_collectors (snd (jent_chardev_release file s))) = dom (km_collectors s) - {Opened file}"
proof (cases "km_collectors s (Opened file)")
  case None
  with assms show ?thesis by (auto simp: jent_chardev_release_def)
next
  case (Some ec)
  have m: "module_owned h s" using assms by (simp add: module_ok_def)
  let ?s = "collector_close (Opened file) s"
  note k = collector_close_keeps [OF m, of "Opened file"]
  have f: "finite (open_files s)" "file \<in> open_files s"
    using open_files_finite [OF m] Some by (simp_all add: open_files_def)
  have o: "open_files ?s = open_files s - {file}" using k by (auto simp: open_files_dom)
  obtain n where "card (open_files s) = Suc n" using f by (metis card_Suc_Diff1)
  with f o have "jent_open_instances ?s - 1 = of_nat (card (open_files ?s))"
    using assms k by (simp add: module_ok_def module_frame_def)
  with k Some show ?thesis
    by (simp add: jent_chardev_release_def module_ok_def module_owned_def jent_proc_instance_dec_def
        open_files_def)
qed

lemma same_owners_ok:
  "module_ok h s \<Longrightarrow> module_owned h s' \<Longrightarrow> module_frame s s' \<Longrightarrow> open_files s' = open_files s \<Longrightarrow>
     module_ok h s'"
  by (simp add: module_ok_def module_frame_def)

lemma kcapi_init_keeps:
  assumes "jent_kcapi_init tfm s = Some (r, s')" "module_ok h s" "km_collectors s (Transform tfm) = None"
  shows "module_ok h s'"
proof -
  from assms(1) obtain ok where "collector_open (Transform tfm) s = Some (ok, s')"
    by (auto simp: jent_kcapi_init_def elim!: bind_SomeE split: if_splits)
  moreover have "module_owned h s" using assms(2) by (simp add: module_ok_def)
  ultimately have k: "module_owned h s'" "module_frame s s'"
    "dom (km_collectors s') = (if ok then insert (Transform tfm) (dom (km_collectors s))
       else dom (km_collectors s))"
    using collector_open_keeps [OF _ _ assms(3), of ok s' h] by blast+
  have "open_files s' = open_files s" unfolding open_files_dom k(3) by simp
  then show ?thesis by (rule same_owners_ok [OF assms(2) k(1,2)])
qed

lemma close_other_keeps:
  assumes "module_ok h s" "x \<notin> range Opened"
  shows "module_ok h (collector_close x s)"
proof -
  have "module_owned h s" using assms(1) by (simp add: module_ok_def)
  from collector_close_keeps [OF this, of x] assms show ?thesis
    by (intro same_owners_ok [OF assms(1)]) (auto simp: open_files_dom)
qed

lemma hwrng_init_keeps:
  assumes "jent_hwrng_init register s = Some (r, s')" "module_owned h s" "km_collectors s Hwrng = None"
  shows "module_owned h s' \<and> module_frame s s' \<and>
    dom (km_collectors s') = (if r = 0 then insert Hwrng (dom (km_collectors s)) else dom (km_collectors s))"
proof -
  from assms(1) obtain ok s1 where o: "collector_open Hwrng s = Some (ok, s1)" and
    e: "(r, s') = (if \<not> ok then (- ENOMEM, s1)
      else if register \<noteq> 0 then (register, collector_close Hwrng s1) else (0, s1))"
    by (auto simp: jent_hwrng_init_def elim!: bind_SomeE)
  note k = collector_open_keeps [OF o assms(2,3)]
  then have c: "module_owned h (collector_close Hwrng s1) \<and> module_frame s1 (collector_close Hwrng s1) \<and>
      dom (km_collectors (collector_close Hwrng s1)) = dom (km_collectors s1) - {Hwrng}"
    using collector_close_keeps by blast
  have n: "Hwrng \<notin> dom (km_collectors s)" using assms(3) by auto
  show ?thesis
    using e k c n module_frame_trans [of s s1 "collector_close Hwrng s1"]
    by (auto split: if_splits)
qed

lemma unat_widen: "unat (ucast (x :: u32) :: u64) = unat x"
proof -
  have "unat x < 2 ^ 32" by (rule order_less_le_trans [OF unsigned_less]) simp
  then show ?thesis by (simp add: unsigned_ucast_eq take_bit_nat_eq_self)
qed

lemma kcapi_random_result:
  assumes "jent_kcapi_random tfm rdata dlen s = Some x" "module_ok h s"
    "km_collectors s (Transform tfm) \<noteq> None" "unat dlen \<le> length rdata"
  shows "case x of Panic \<Rightarrow> w_fips_enabled (km_library s)
    | Returned (r, data, s') \<Rightarrow> module_ok h s' \<and> length data = length rdata \<and>
        r \<in> {0, - EFAULT, - EINVAL} \<and>
        (r = 0 \<longrightarrow> unat dlen < 2 ^ 31 \<longrightarrow> dlen = 0 \<or> supplied (take (unat dlen) data))"
proof -
  from assms(1) obtain ret data s' where
    r: "collector_read (Transform tfm) rdata (ucast dlen) s = Some (ret, data, s')" and
    x: "x = (if to_int ret \<ge> 0 then Returned (0, data, s')
       else case jent_map_read_error (w_fips_enabled (km_library s')) (to_int ret) of
              Panic \<Rightarrow> Panic | Returned ret \<Rightarrow> Returned (ret, data, s'))"
    by (auto simp: jent_kcapi_random_def Let_def elim!: bind_SomeE)
  have l: "unat dlen < 2 ^ 32" by (rule order_less_le_trans [OF unsigned_less]) simp
  note u = unat_widen [of dlen]
  from l have q: "request (ucast dlen) = unat dlen"
    by (simp add: request_def min_def word_le_nat_alt u)
  have m: "module_owned h s" using assms(2) by (simp add: module_ok_def)
  from collector_read_result [OF r m assms(3)] assms(4) u q
  have k: "module_owned h s'" "module_frame s s'" "dom (km_collectors s') = dom (km_collectors s)"
    "length data = length rdata"
    "ret = int (unat dlen) \<and> (ucast dlen = (0 :: u64) \<or> supplied (take (unat dlen) data)) \<or>
     ret \<in> {-4} \<union> intermittent \<union> permanent"
    by simp_all
  have ok: "module_ok h s'" using same_owners_ok [OF assms(2) k(1,2)] k(3) by (simp add: open_files_dom)
  have fips: "w_fips_enabled (km_library s') = w_fips_enabled (km_library s)"
    using k(2) by (simp add: module_frame_def)
  have neg: "to_int ret = ret \<and> ret < 0" if "ret \<in> {-4} \<union> intermittent \<union> permanent"
    using that by (auto simp: intermittent_def permanent_def to_int_def)
  have z: "ucast dlen = (0 :: u64) \<longleftrightarrow> dlen = 0" by (metis u unat_0 unat_eq_zero)
  show ?thesis
    using x ok k(4,5) fips neg z
    by (auto simp: jent_map_read_error_def split: if_splits outcome.splits)
qed

section \<open>Reading the device\<close>

text \<open>What a read of \<open>n\<close> bytes may have done when \<open>user\<close> was delivered before it.\<close>

definition read_done ::
  "heap_block multiset \<Rightarrow> kernel_module \<Rightarrow> nat \<Rightarrow> u8 list \<Rightarrow> (int \<times> u8 list \<times> kernel_module) outcome \<Rightarrow> bool" where
  "read_done h s n user x \<longleftrightarrow> (case x of
     Panic \<Rightarrow> w_fips_enabled (km_library s)
   | Returned (r, user', s') \<Rightarrow> module_owned h s' \<and> module_frame s s' \<and>
       dom (km_collectors s') = dom (km_collectors s) \<and>
       (\<exists>pieces. user' = user @ concat pieces \<and> (\<forall>p \<in> set pieces. supplied p)) \<and>
       length user' \<le> length user + n \<and>
       (if user' = [] then n = 0 \<and> r = 0 \<or> r \<in> {- EFAULT, - EINVAL} else r = int (length user')))"

lemma read_done_stop:
  assumes "module_owned h s'" "module_frame s s'" "dom (km_collectors s') = dom (km_collectors s)"
    "user = [] \<Longrightarrow> n = 0 \<and> r = 0 \<or> r \<in> {- EFAULT, - EINVAL}" "user \<noteq> [] \<Longrightarrow> r = int (length user)"
  shows "read_done h s n user (Returned (r, user, s'))"
proof -
  have "user = user @ concat [] \<and> (\<forall>p \<in> set []. supplied p)" by simp
  then have "\<exists>pieces. user = user @ concat pieces \<and> (\<forall>p \<in> set pieces. supplied p)" by blast
  with assms show ?thesis by (simp add: read_done_def)
qed

lemma read_done_extend:
  assumes "read_done h s1 (n - k) (user @ p) x" "module_frame s s1"
    "dom (km_collectors s1) = dom (km_collectors s)" "supplied p" "length p = k" "k \<le> n" "0 < k"
  shows "read_done h s n user x"
proof (cases x)
  case Panic
  with assms show ?thesis by (simp add: read_done_def module_frame_def)
next
  case (Returned y)
  obtain r user' s' where y: "y = (r, user', s')" by (metis prod_cases3)
  from assms(1) Returned y obtain pieces where
    p: "user' = (user @ p) @ concat pieces" "\<forall>p \<in> set pieces. supplied p"
    by (auto simp: read_done_def)
  then have "user' = user @ concat (p # pieces)" "\<forall>q \<in> set (p # pieces). supplied q"
    using assms(4) by simp_all
  moreover have "user' \<noteq> []" using p(1) assms(5,7) by auto
  ultimately show ?thesis
    using assms Returned y module_frame_trans [of s s1 s']
    by (auto simp: read_done_def simp del: concat.simps intro!: exI [of _ "p # pieces"])
qed

lemma negative_codes:
  "rc \<in> {-4} \<union> intermittent \<union> permanent \<Longrightarrow> rc < 0 \<and>
     (case jent_map_read_error fips rc of Panic \<Rightarrow> fips | Returned e \<Rightarrow> e \<in> {- EFAULT, - EINVAL})"
  by (auto simp: intermittent_def permanent_def jent_map_read_error_def)

lemma chardev_read_loop_result:
  assumes "chardev_read_loop fd faults sig i tmp n ret user s = Some x" "module_owned h s"
    "km_collectors s (Opened fd) \<noteq> None" "length tmp = 256" "ret = int (length user)"
  shows "read_done h s (unat n) user x"
proof -
  let ?P = "\<lambda>fd faults sig i tmp n ret user s x. module_owned h s \<longrightarrow>
    km_collectors s (Opened fd) \<noteq> None \<longrightarrow> length tmp = 256 \<longrightarrow> ret = int (length user) \<longrightarrow>
    read_done h s (unat n) user x"
  have "?P fd faults sig i tmp n ret user s x"
  proof (rule chardev_read_loop.raw_induct [where P = ?P, OF _ assms(1)])
    fix loop :: "nat \<Rightarrow> (nat \<Rightarrow> bool) \<Rightarrow> (nat \<Rightarrow> bool) \<Rightarrow> nat \<Rightarrow> u8 list \<Rightarrow> u64 \<Rightarrow> int \<Rightarrow> u8 list \<Rightarrow> kernel_module \<Rightarrow>
        (int \<times> u8 list \<times> kernel_module) outcome option"
      and fd faults sig i tmp n ret user s x
    let ?n = "min n JENT_CHARDEV_READ_BUF_SIZE"
    let ?rest = "\<lambda>(rc, tmp, s). if rc < 0
        then Some (case jent_map_read_error (w_fips_enabled (km_library s)) rc of
                 Panic \<Rightarrow> Panic
               | Returned err \<Rightarrow> Returned (if ret = 0 then err else ret, user, s))
        else if faults i then Some (Returned (if ret = 0 then - EFAULT else ret, user, s))
        else let nbytes = n - of_int rc; user = user @ take (nat rc) tmp; ret = ret + rc
          in if sig i then Some (Returned (if ret = 0 then - ERESTARTSYS else ret, user, s))
             else loop fd faults sig (i + 1) tmp nbytes ret user s"
    assume IH: "\<And>fd faults sig i tmp n ret user s x.
        loop fd faults sig i tmp n ret user s = Some x \<Longrightarrow> ?P fd faults sig i tmp n ret user s x"
      and r: "(if n = 0 then Some (Returned (ret, user, s))
        else let towork = ?n in Option.bind (collector_read (Opened fd) tmp towork s) ?rest) = Some x"
    show "?P fd faults sig i tmp n ret user s x"
    proof (intro impI)
      assume a: "module_owned h s" "km_collectors s (Opened fd) \<noteq> None" "length tmp = 256"
        "ret = int (length user)"
      show "read_done h s (unat n) user x"
      proof (cases "n = 0")
        case True
        with r a show ?thesis by (auto simp: read_done_def intro!: exI [of _ "[]"])
      next
        case False
        with r obtain rc tmp1 s1 where c: "collector_read (Opened fd) tmp ?n s = Some (rc, tmp1, s1)" and
          x: "?rest (rc, tmp1, s1) = Some x"
          unfolding Let_def by (auto elim!: bind_SomeE)
        have n: "unat ?n \<le> 256" "unat ?n \<le> unat n" "0 < unat ?n"
          using False by (auto simp: min_def word_le_nat_alt unat_gt_0)
        then have req: "request ?n = unat ?n" by (simp add: request_def min_def word_le_nat_alt)
        from collector_read_result [OF c a(1,2)] n(1) a(3) req
        have k: "module_owned h s1" "module_frame s s1" "dom (km_collectors s1) = dom (km_collectors s)"
          "length tmp1 = 256" "rc = int (unat ?n) \<and> (?n = 0 \<or> supplied (take (unat ?n) tmp1)) \<or>
           rc \<in> {-4} \<union> intermittent \<union> permanent" by simp_all
        show ?thesis
        proof (cases "rc < 0")
          case True
          with k(5) have "rc \<in> {-4} \<union> intermittent \<union> permanent" by auto
          note e = negative_codes [OF this, of "w_fips_enabled (km_library s1)"]
          then show ?thesis
            using x True k a(4)
            by (cases "jent_map_read_error (w_fips_enabled (km_library s1)) rc")
              (auto simp: read_done_def module_frame_def intro!: exI [of _ "[]"])
        next
          case False
          with k(5) negative_codes have rc: "rc = int (unat ?n)" "supplied (take (unat ?n) tmp1)"
            using n(3) by fastforce+
          let ?p = "take (unat ?n) tmp1"
          have p: "length ?p = unat ?n" using n(1) k(4) by simp
          have m: "n - of_int rc = n - ?n" "unat (n - ?n) = unat n - unat ?n"
            using n(2) by (simp_all add: rc(1) unat_sub word_le_nat_alt)
          have o: "km_collectors s1 (Opened fd) \<noteq> None" using k(3) a(2) by blast
          show ?thesis
          proof (cases "faults i")
            case True
            with x False have "x = Returned (if ret = 0 then - EFAULT else ret, user, s1)" by simp
            then show ?thesis
              using k(1-3) a(4) by (auto simp: read_done_def intro!: exI [of _ "[]"])
          next
            case f: False
            show ?thesis
            proof (cases "sig i")
              case True
              have pos: "ret + rc \<noteq> 0" using a(4) rc(1) n(3) by linarith
              have "x = Returned (ret + rc, user @ ?p, s1)"
                using x False f True pos by (simp add: Let_def rc(1))
              moreover have "user @ ?p \<noteq> []" using p n(3) by auto
              moreover have "ret + rc = int (length (user @ ?p))" using p a(4) rc(1) by simp
              moreover have "read_done h s1 (unat n - unat ?n) (user @ ?p) (Returned (ret + rc, user @ ?p, s1))"
                by (rule read_done_stop) (use calculation k(1) in \<open>simp_all only: module_frame_refl\<close>)
              ultimately have "read_done h s1 (unat n - unat ?n) (user @ ?p) x" by simp
              from read_done_extend [OF this k(2,3) rc(2) p n(2,3)] show ?thesis .
            next
              case g: False
              with x False f have "loop fd faults sig (i + 1) tmp1 (n - ?n) (ret + rc) (user @ ?p) s1 = Some x"
                by (simp add: Let_def m(1) rc(1))
              from IH [OF this] have "read_done h s1 (unat n - unat ?n) (user @ ?p) x"
                using k(1,4) o a(4) rc(1) p m(2) by simp
              from read_done_extend [OF this k(2,3) rc(2) p n(2,3)] show ?thesis .
            qed
          qed
        qed
      qed
    qed
  qed
  with assms(2-5) show ?thesis by blast
qed

lemma chardev_read_result:
  assumes "jent_chardev_read fd tmp locked faults sig n s = Some x" "module_ok h s"
    "\<forall>t. tmp = Some t \<longrightarrow> length t = 256"
  shows "case x of Panic \<Rightarrow> w_fips_enabled (km_library s)
    | Returned (r, user, s') \<Rightarrow> module_ok h s' \<and> dom (km_collectors s') = dom (km_collectors s) \<and>
        (\<exists>pieces. user = concat pieces \<and> (\<forall>p \<in> set pieces. supplied p)) \<and> length user \<le> unat n \<and>
        (if user = [] then n = 0 \<and> r = 0 \<or> r \<in> {- ENOMEM, - EFAULT, - EINVAL, - ERESTARTSYS}
         else r = int (length user))"
proof (cases "km_collectors s (Opened fd) = None \<or> n = 0 \<or> tmp = None \<or> \<not> locked")
  case True
  with assms(1,2) show ?thesis
    by (auto simp: jent_chardev_read_def split: if_splits option.splits intro!: exI [of _ "[]"])
next
  case False
  then obtain t where t: "tmp = Some t" by auto
  with False assms(1) have l: "chardev_read_loop fd faults sig 0 t n 0 [] s = Some x"
    by (auto simp: jent_chardev_read_def)
  have "module_owned h s" using assms(2) by (simp add: module_ok_def)
  from chardev_read_loop_result [OF l this] False t assms(3) have d: "read_done h s (unat n) [] x" by simp
  show ?thesis
  proof (cases x)
    case Panic
    with d show ?thesis by (simp add: read_done_def)
  next
    case (Returned y)
    obtain r user s' where y: "y = (r, user, s')" by (metis prod_cases3)
    from d Returned y have k: "module_owned h s'" "module_frame s s'"
      "dom (km_collectors s') = dom (km_collectors s)"
      "\<exists>pieces. user = concat pieces \<and> (\<forall>p \<in> set pieces. supplied p)" "length user \<le> unat n"
      "if user = [] then unat n = 0 \<and> r = 0 \<or> r \<in> {- EFAULT, - EINVAL} else r = int (length user)"
      by (simp_all add: read_done_def) (auto split: if_splits)
    have "module_ok h s'"
      using same_owners_ok [OF assms(2) k(1,2)] k(3) by (simp add: open_files_dom)
    moreover have "if user = [] then n = 0 \<and> r = 0 \<or> r \<in> {- ENOMEM, - EFAULT, - EINVAL, - ERESTARTSYS}
        else r = int (length user)"
      using k(6) by (auto simp: unat_eq_zero split: if_splits)
    ultimately show ?thesis using k(3-5) unfolding Returned y by simp
  qed
qed

lemma hwrng_read_result:
  assumes "jent_hwrng_read data max_len wait locked s = Some x" "module_ok h s"
    "km_collectors s Hwrng \<noteq> None" "unat max_len \<le> length data"
  shows "case x of Panic \<Rightarrow> w_fips_enabled (km_library s)
    | Returned (r, data', s') \<Rightarrow> module_ok h s' \<and> dom (km_collectors s') = dom (km_collectors s)"
proof (cases "max_len = 0 \<or> \<not> wait \<and> \<not> locked")
  case True
  with assms show ?thesis by (auto simp: jent_hwrng_read_def split: if_splits)
next
  case False
  with assms(1) obtain ret data' s' where
    r: "collector_read Hwrng data max_len s = Some (ret, data', s')" and
    x: "x = (if ret < 0
        then case jent_map_read_error (w_fips_enabled (km_library s')) ret of
               Panic \<Rightarrow> Panic | Returned ret \<Rightarrow> Returned (ret, data', s')
        else Returned (to_int ret, data', s'))"
    by (auto simp: jent_hwrng_read_def elim!: bind_SomeE split: if_splits)
  have "module_owned h s" using assms(2) by (simp add: module_ok_def)
  from collector_read_result [OF r this assms(3,4)]
  have k: "module_owned h s'" "module_frame s s'" "dom (km_collectors s') = dom (km_collectors s)"
    by blast+
  have "module_ok h s'" using same_owners_ok [OF assms(2) k(1,2)] k(3) by (simp add: open_files_dom)
  with x k show ?thesis
    by (auto simp: jent_map_read_error_def module_frame_def split: if_splits outcome.splits)
qed

lemma kcapi_random_dom:
  assumes "jent_kcapi_random tfm rdata dlen s = Some (Returned (r, data, s'))" "module_ok h s"
    "km_collectors s (Transform tfm) \<noteq> None" "unat dlen \<le> length rdata"
  shows "dom (km_collectors s') = dom (km_collectors s)"
proof -
  from assms(1) obtain ret where
    r: "collector_read (Transform tfm) rdata (ucast dlen) s = Some (ret, data, s')"
    by (auto simp: jent_kcapi_random_def Let_def elim!: bind_SomeE split: if_splits outcome.splits)
  have "unat (ucast dlen :: u64) \<le> length rdata"
    using assms(4) by (simp add: unat_widen)
  moreover have "module_owned h s" using assms(2) by (simp add: module_ok_def)
  ultimately show ?thesis using collector_read_result [OF r _ assms(3)] by blast
qed

section \<open>The module as it runs\<close>

text \<open>
  A module that is not loaded has no collector and zero counters. Loading it starts from such a state
  with any settings and any contents of the library's variables, on the heap as it is; while it is
  loaded a file is opened and a transform initialised under an identity that is not in use, the crypto
  API calls only transforms that were initialised, and the kernel unloads it only when nothing is open.
\<close>

definition module_unloaded :: "kernel_module \<Rightarrow> bool" where
  "module_unloaded s \<longleftrightarrow> handler_matched (km_library s) \<and> km_collectors s = (\<lambda>x. None) \<and>
     jent_open_instances s = 0 \<and> jent_cumulative_opens s = 0"

inductive km_step :: "kernel_module \<Rightarrow> kernel_module \<Rightarrow> bool" where
  mod_init: "km_collectors s = (\<lambda>x. None) \<Longrightarrow> module_unloaded s1 \<Longrightarrow>
    w_heap (km_library s1) = w_heap (km_library s) \<Longrightarrow>
    jent_mod_init crypto misc reg s1 = Some (Returned (r, s')) \<Longrightarrow> km_step s s'"
| mod_exit: "dom (km_collectors s) = {Hwrng} \<Longrightarrow> km_step s (jent_mod_exit s)"
| chardev_open: "km_collectors s Hwrng \<noteq> None \<Longrightarrow> jent_chardev_open fd ctx s = Some (r, s') \<Longrightarrow>
    km_collectors s (Opened fd) = None \<Longrightarrow> km_step s s'"
| chardev_release: "km_step s (snd (jent_chardev_release fd s))"
| chardev_read: "jent_chardev_read fd tmp locked faults sig n s = Some (Returned (r, user, s')) \<Longrightarrow>
    \<forall>t. tmp = Some t \<longrightarrow> length t = 256 \<Longrightarrow> km_step s s'"
| kcapi_init: "km_collectors s Hwrng \<noteq> None \<Longrightarrow> jent_kcapi_init tfm s = Some (r, s') \<Longrightarrow>
    km_collectors s (Transform tfm) = None \<Longrightarrow> km_step s s'"
| kcapi_cleanup: "km_step s (jent_kcapi_cleanup tfm s)"
| kcapi_random: "jent_kcapi_random tfm rdata dlen s = Some (Returned (r, data, s')) \<Longrightarrow>
    km_collectors s (Transform tfm) \<noteq> None \<Longrightarrow> unat dlen \<le> length rdata \<Longrightarrow> km_step s s'"
| hwrng_read: "jent_hwrng_read data max_len wait locked s = Some (Returned (r, data', s')) \<Longrightarrow>
    km_collectors s Hwrng \<noteq> None \<Longrightarrow> unat max_len \<le> length data \<Longrightarrow> km_step s s'"

inductive km_reachable :: "kernel_module \<Rightarrow> kernel_module \<Rightarrow> bool" for s0 where
  start: "km_reachable s0 s0"
| step: "km_reachable s0 s \<Longrightarrow> km_step s s' \<Longrightarrow> km_reachable s0 s'"

lemma mod_init_result:
  assumes "jent_mod_init crypto misc reg s = Some (Returned (r, s'))" "module_unloaded s"
  shows "module_ok (w_heap (km_library s)) s' \<and>
    dom (km_collectors s') = (if r = 0 then {Hwrng} else {})"
proof -
  let ?h = "w_heap (km_library s)"
  from assms(1) obtain ret w where i: "jent_entropy_init_ex (km_osr s) (km_flags s) (km_library s) = Some (ret, w)"
    and rest: "(let s = s\<lparr>km_library := w\<rparr> in
     if ret \<noteq> 0 then Some (if w_fips_enabled w then Panic else Returned (- EFAULT, s))
     else if crypto \<noteq> 0 then Some (Returned (crypto, s))
     else if misc \<noteq> 0 then Some (Returned (misc, s))
     else do { (ret, s) \<leftarrow> jent_hwrng_init reg s; Some (Returned (ret, s)) }) = Some (Returned (r, s'))"
    by (auto simp: jent_mod_init_def elim!: bind_SomeE)
  let ?s = "s\<lparr>km_library := w\<rparr>"
  have u: "handler_matched (km_library s)" "km_collectors s = (\<lambda>x. None)" "jent_open_instances s = 0"
    using assms(2) by (simp_all add: module_unloaded_def)
  note a = init_looseD [OF entropy_init_ex_fine i u(1)]
  have "w_heap w = ?h" "handler_matched w"
    using a u(1) by (auto simp: allocates_def forget_def handler_matched_def lib_config_def)
  then have m: "module_owned ?h ?s" using u(2) by (simp add: module_owned_def owned_def blocks_of_all_def)
  have e: "km_collectors ?s Hwrng = None" "dom (km_collectors ?s) = {}" using u(2) by auto
  show ?thesis
  proof (cases "ret \<noteq> 0 \<or> crypto \<noteq> 0 \<or> misc \<noteq> 0")
    case True
    with rest have "s' = ?s" "r \<noteq> 0" by (auto simp: Let_def split: if_splits)
    then show ?thesis using m e(2) u(3) by (simp add: module_ok_def open_files_dom)
  next
    case False
    with rest have "jent_hwrng_init reg ?s = Some (r, s')" by (auto simp: Let_def elim!: bind_SomeE)
    from hwrng_init_keeps [OF this m e(1)] e(2) u(3) show ?thesis
      by (auto simp: module_ok_def module_frame_def open_files_dom split: if_splits)
  qed
qed

lemma module_ok_unloaded: "module_unloaded s \<Longrightarrow> module_ok (w_heap (km_library s)) s"
  by (simp add: module_unloaded_def module_ok_def module_owned_def owned_def blocks_of_all_def
      open_files_def)

lemma km_step_keeps:
  assumes "km_step s s'" "module_ok h s"
  shows "module_ok h s'"
  using assms
proof (cases rule: km_step.cases)
  case (mod_init s1 crypto misc reg r)
  have "w_heap (km_library s) = h"
    using assms(2) mod_init(1) by (simp add: module_ok_def module_owned_def owned_def blocks_of_all_def)
  with mod_init_result [OF mod_init(4,2)] mod_init(3) show ?thesis by simp
next
  case mod_exit
  then show ?thesis
    using close_other_keeps [OF assms(2), of Hwrng] assms(2)
    by (auto simp: jent_mod_exit_def jent_hwrng_exit_def)
next
  case (chardev_open fd ctx r)
  with chardev_open_keeps [OF chardev_open(2) assms(2) chardev_open(3)] show ?thesis by blast
next
  case (chardev_release fd)
  with chardev_release_keeps [OF assms(2), of fd] show ?thesis by blast
next
  case (chardev_read fd tmp locked faults sig n r user)
  from chardev_read_result [OF chardev_read(1) assms(2) chardev_read(2)] show ?thesis by simp
next
  case (kcapi_init tfm r)
  show ?thesis by (rule kcapi_init_keeps [OF kcapi_init(2) assms(2) kcapi_init(3)])
next
  case (kcapi_cleanup tfm)
  with close_other_keeps [OF assms(2), of "Transform tfm"] show ?thesis
    by (auto simp: jent_kcapi_cleanup_def)
next
  case (kcapi_random tfm rdata dlen r data)
  from kcapi_random_result [OF kcapi_random(1) assms(2) kcapi_random(2,3)] show ?thesis by simp
next
  case (hwrng_read data max_len wait locked r data')
  from hwrng_read_result [OF hwrng_read(1) assms(2) hwrng_read(2,3)] show ?thesis by simp
qed

lemma reachable_keeps:
  assumes "km_reachable s0 s" "module_unloaded s0"
  shows "module_ok (w_heap (km_library s0)) s"
  using assms(1)
  by (induction rule: km_reachable.induct) (use module_ok_unloaded [OF assms(2)] km_step_keeps in blast)+

section \<open>Properties\<close>

text \<open>
  C18. Whatever sequence of loads, unloads, opens, reads, releases and crypto API calls the kernel goes
  through, failed loads and failed allocations included, the heap holds, besides what it held before,
  exactly the blocks of the collectors of the open files, the transforms and the hwrng device; all of
  these are well formed; and the counter of open instances is the number of open files, modulo
  \<open>2 ^ 32\<close>. In particular nothing is left of the module once it is unloaded.
\<close>

theorem kernel_module_owns:
  assumes "km_reachable s0 s" "module_unloaded s0"
  shows "finite (dom (km_collectors s)) \<and>
    w_heap (km_library s) = w_heap (km_library s0) +
      (\<Sum>x \<in> dom (km_collectors s). collector_blocks (the (km_collectors s x))) \<and>
    (\<forall>x ec. km_collectors s x = Some ec \<longrightarrow> collector_ok ec) \<and>
    jent_open_instances s = of_nat (card {fd. km_collectors s (Opened fd) \<noteq> None}) \<and>
    (dom (km_collectors s) = {Hwrng} \<longrightarrow>
      w_heap (km_library (jent_mod_exit s)) = w_heap (km_library s0))"
proof -
  note m = reachable_keeps [OF assms]
  have "w_heap (km_library (jent_mod_exit s)) = w_heap (km_library s0)" if "dom (km_collectors s) = {Hwrng}"
  proof -
    have "module_owned (w_heap (km_library s0)) s" using m by (simp add: module_ok_def)
    from collector_close_keeps [OF this, of Hwrng] that show ?thesis
      by (auto simp: jent_mod_exit_def jent_hwrng_exit_def module_owned_def owned_def blocks_of_all_def)
  qed
  with m show ?thesis
    by (auto simp: module_ok_def module_owned_def owned_def blocks_of_all_def open_files_def)
qed

text \<open>
  C19. A read of the character device delivers the chunks that the library supplied, in order, and
  returns how many bytes that are, never more than asked for; it reports an error only when nothing was
  delivered, and 0 only for an empty request. The kernel panics only in FIPS mode.
\<close>

theorem chardev_read_outcome:
  assumes "jent_chardev_read fd tmp locked faults sig n s = Some x" "module_ok h s"
    "\<forall>t. tmp = Some t \<longrightarrow> length t = 256"
  shows "case x of Panic \<Rightarrow> w_fips_enabled (km_library s)
    | Returned (r, user, s') \<Rightarrow> module_ok h s' \<and> dom (km_collectors s') = dom (km_collectors s) \<and>
        (\<exists>pieces. user = concat pieces \<and> (\<forall>p \<in> set pieces. supplied p)) \<and> length user \<le> unat n \<and>
        (if user = [] then n = 0 \<and> r = 0 \<or> r \<in> {- ENOMEM, - EFAULT, - EINVAL, - ERESTARTSYS}
         else r = int (length user))"
  by (rule chardev_read_result [OF assms])

section \<open>Witnesses\<close>

text \<open>A module that cannot be loaded for lack of memory, and one with an open file.\<close>

definition unloaded_module :: "jent_world \<Rightarrow> kernel_module" where
  "unloaded_module w = \<lparr>km_library = w, km_collectors = (\<lambda>x. None), km_osr = 3, km_flags = 0,
     jent_open_instances = 0, jent_cumulative_opens = 0\<rparr>"

theorem kernel_module_owns_witness:
  "let s0 = unloaded_module (no_memory test_world)
   in \<exists>s. km_reachable s0 s \<and> jent_mod_init 0 0 0 s0 = Some (Returned (- EFAULT, s)) \<and>
     w_heap (km_library s) = {#}"
proof -
  let ?u = "unloaded_module (no_memory test_world)"
  have m: "module_unloaded ?u"
    using test_world_matched(2) by (simp add: module_unloaded_def unloaded_module_def handler_matched_def no_memory_def)
  have "\<not> w_fips_enabled (no_memory test_world)" by (simp add: no_memory_def test_world_def)
  with init_no_memory [of 3 0 test_world] obtain ret w where
    "jent_entropy_init_ex 3 0 (no_memory test_world) = Some (ret, w)" "ret \<noteq> 0" "\<not> w_fips_enabled w"
    by (cases "jent_sha3_tester (w_stack_ctx test_world) = 0") auto
  then have s: "jent_mod_init 0 0 0 ?u = Some (Returned (- EFAULT, ?u\<lparr>km_library := w\<rparr>))"
    by (simp add: jent_mod_init_def unloaded_module_def)
  let ?t = "?u\<lparr>km_library := w\<rparr>"
  have "km_step ?u ?t"
    by (rule km_step.mod_init [of ?u, OF _ m refl s]) (simp add: unloaded_module_def)
  then have r: "km_reachable ?u ?t" by (rule km_reachable.step [OF km_reachable.start])
  have "km_collectors ?t = (\<lambda>x. None)" by (simp add: unloaded_module_def)
  then have "blocks_of_all (km_collectors ?t) = {#}" by (simp add: blocks_of_all_def)
  moreover have "w_heap (km_library ?t) = w_heap (km_library ?u) + blocks_of_all (km_collectors ?t)"
    unfolding blocks_of_all_def using kernel_module_owns [OF r m] by blast
  ultimately have "w_heap (km_library ?t) = w_heap (km_library ?u)" by simp
  also have "\<dots> = w_heap (no_memory test_world)" by (simp add: unloaded_module_def)
  also have "\<dots> = {#}" by (simp add: no_memory_def test_world_def)
  finally show ?thesis using s r unfolding Let_def by blast
qed

definition opened_module :: "rand_data \<Rightarrow> kernel_module" where
  "opened_module ec = (unloaded_module (test_world\<lparr>w_heap := collector_blocks ec\<rparr>))
     \<lparr>km_collectors := [Opened 3 \<mapsto> ec], jent_open_instances := 1\<rparr>"

theorem chardev_read_outcome_witness:
  "let ec = (new_collector 5 0 test_world test_world)
         \<lparr>ec_enable_notime := False, ec_notime_thread_ctx := None\<rparr>;
       s = opened_module ec
   in jent_chardev_read 3 (Some (replicate 256 0)) False (\<lambda>_. False) (\<lambda>_. False) 10 s =
        Some (Returned (- ERESTARTSYS, [], s)) \<and> module_ok {#} s"
proof -
  let ?e = "(new_collector 5 0 test_world test_world)
    \<lparr>ec_enable_notime := False, ec_notime_thread_ctx := None\<rparr>"
  let ?s = "opened_module ?e"
  have e: "collector_ok ?e" by (rule new_collector_ok) simp_all
  have r: "jent_chardev_read 3 (Some (replicate 256 0)) False (\<lambda>_. False) (\<lambda>_. False) 10 ?s =
      Some (Returned (- ERESTARTSYS, [], ?s))"
    by (simp add: jent_chardev_read_def opened_module_def)
  have "{fd. fd = (3 :: nat)} = {3}" by simp
  with e have "module_ok {#} ?s" using test_world_matched(2)
    by (simp add: module_ok_def module_owned_def owned_def opened_module_def unloaded_module_def
        blocks_of_all_def open_files_def handler_matched_def thread_released_def)
  with chardev_read_outcome [OF r this] r show ?thesis by (simp add: Let_def)
qed

end
