(* ===== verification/Cache.thy ===== *)
theory Cache
  imports Decimal
begin

unbundle bit_operations_syntax

text \<open>
  The data-cache sizes of the machine (\<open>arch/jitterentropy-arch-cache.c\<close>), from which the library
  derives the size of the memory it walks. What the machine tells is an argument: the values of
  \<open>sysconf\<close>, the files of \<open>sysfs\<close>, the list of Windows, the answers of \<open>CPUID\<close> and of the cache registers.

  A \<open>long\<close> is a 64-bit word read with \<open>sint\<close>; where the code would overflow a \<open>long\<close> (a cache of
  \<open>2 ^ 63\<close> bytes or more) the model wraps.
\<close>

section \<open>From the sizes to the answer\<close>

definition jent_cache_size_to_memory :: "u64 \<Rightarrow> u64 \<Rightarrow> u64 \<Rightarrow> bool \<Rightarrow> u32" where
  "jent_cache_size_to_memory l1 l2 l3 all_caches =
     (let cache_size = 0;
          cache_size = (if 0 < sint l1 then cache_size + ucast l1 else cache_size);
          cache_size = (if all_caches
             then let cache_size = (if 0 < sint l2 then cache_size + ucast l2 else cache_size)
                  in if 0 < sint l3 then cache_size + ucast l3 else cache_size
             else cache_size);
          cache_size = cache_size OR drop_bit 1 cache_size;
          cache_size = cache_size OR drop_bit 2 cache_size;
          cache_size = cache_size OR drop_bit 4 cache_size;
          cache_size = cache_size OR drop_bit 8 cache_size;
          cache_size = cache_size OR drop_bit 16 cache_size
      in cache_size)"

text \<open>The end that all variants of \<open>jent_cache_size_roundup\<close> share.\<close>

definition cache_size_answer :: "u64 \<Rightarrow> u64 \<Rightarrow> u64 \<Rightarrow> bool \<Rightarrow> u32" where
  "cache_size_answer l1 l2 l3 all_caches =
     (let cache_size = jent_cache_size_to_memory l1 l2 l3 all_caches
      in if cache_size = 0 then 0 else cache_size + 1)"

section \<open>CPUID\<close>

text \<open>The registers EAX, EBX, ECX and EDX for a leaf and a subleaf; \<open>None\<close> is a failure.\<close>

type_synonym jent_cpuid_count = "u32 \<Rightarrow> u32 \<Rightarrow> (u32 \<times> u32 \<times> u32 \<times> u32) option"

definition cpuid_cache_size :: "u32 \<Rightarrow> u32 \<Rightarrow> u64" where
  "cpuid_cache_size ebx ecx =
     (let ways = (drop_bit 22 ebx AND 0x3FF) + 1;
          partitions = (drop_bit 12 ebx AND 0x3FF) + 1;
          line_size = (ebx AND 0xFFF) + 1;
          sets = ecx + 1
      in ucast ways * ucast partitions * ucast line_size * ucast sets)"

text \<open>The subleaves \<open>sub, sub + 1, ...\<close>, at most the number given.\<close>

fun cpuid_loop :: "jent_cpuid_count \<Rightarrow> nat \<Rightarrow> u32 \<Rightarrow> u64 \<times> u64 \<times> u64 \<Rightarrow> u64 \<times> u64 \<times> u64" where
  "cpuid_loop cpuid 0 sub ls = ls"
| "cpuid_loop cpuid (Suc n) sub (l1, l2, l3) = (case cpuid 4 sub of
       None \<Rightarrow> (l1, l2, l3)
     | Some (eax, ebx, ecx, edx) \<Rightarrow>
         let cache_type = eax AND 0x1F
         in if cache_type = 0 then (l1, l2, l3)
            else if cache_type \<noteq> 1 \<and> cache_type \<noteq> 3 then cpuid_loop cpuid n (sub + 1) (l1, l2, l3)
            else let cache_level = drop_bit 5 eax AND 0x7;
                     size = cpuid_cache_size ebx ecx
                 in cpuid_loop cpuid n (sub + 1)
                      (if cache_level = 1 \<and> cache_type = 1 \<and> l1 = 0 then (size, l2, l3)
                       else if cache_level = 2 \<and> l2 = 0 then (l1, size, l3)
                       else if cache_level = 3 \<and> l3 = 0 then (l1, l2, size)
                       else (l1, l2, l3)))"

definition jent_cache_size_roundup_cpuid :: "jent_cpuid_count \<Rightarrow> bool \<Rightarrow> u32" where
  "jent_cache_size_roundup_cpuid cpuid all_caches =
     (let (l1, l2, l3) = cpuid_loop cpuid 16 0 (0, 0, 0)
      in cache_size_answer l1 l2 l3 all_caches)"

text \<open>\<open>jent_cpuid_count\<close> of the Linux kernel: the instruction is issued for a supported leaf.\<close>

definition jent_cpuid_count_kernel ::
  "int \<Rightarrow> (u32 \<Rightarrow> u32 \<Rightarrow> u32 \<times> u32 \<times> u32 \<times> u32) \<Rightarrow> jent_cpuid_count" where
  "jent_cpuid_count_kernel cpuid_level cpuid leaf subleaf =
     (if cpuid_level < sint leaf then None else Some (cpuid leaf subleaf))"

section \<open>The cache registers of AArch64\<close>

definition arm64_cache_size :: "bool \<Rightarrow> u64 \<Rightarrow> u64" where
  "arm64_cache_size ccidx ccsidr =
     (let line = ccsidr AND 0x7;
          assoc = (if ccidx then (drop_bit 3 ccsidr AND 0x1FFFFF) + 1
                   else (drop_bit 3 ccsidr AND 0x3FF) + 1);
          sets = (if ccidx then (drop_bit 32 ccsidr AND 0xFFFFFF) + 1
                  else (drop_bit 13 ccsidr AND 0x7FFF) + 1)
      in push_bit (unat (line + 4)) 1 * assoc * sets)"

fun arm64_loop ::
  "u64 \<Rightarrow> bool \<Rightarrow> (nat \<Rightarrow> u64) \<Rightarrow> nat list \<Rightarrow> u64 \<times> u64 \<times> u64 \<Rightarrow> u64 \<times> u64 \<times> u64" where
  "arm64_loop clidr ccidx ccsidr_fn [] ls = ls"
| "arm64_loop clidr ccidx ccsidr_fn (level # levels) (l1, l2, l3) =
     (let ctype = drop_bit (3 * (level - 1)) clidr AND 0x7
      in if ctype = 0 then (l1, l2, l3)
         else if ctype \<noteq> 2 \<and> ctype \<noteq> 3 \<and> ctype \<noteq> 4
         then arm64_loop clidr ccidx ccsidr_fn levels (l1, l2, l3)
         else let size = arm64_cache_size ccidx (ccsidr_fn level)
              in arm64_loop clidr ccidx ccsidr_fn levels
                   (if level = 1 \<and> l1 = 0 then (size, l2, l3)
                    else if level = 2 \<and> l2 = 0 then (l1, size, l3)
                    else if level = 3 \<and> l3 = 0 then (l1, l2, size)
                    else (l1, l2, l3)))"

definition jent_cache_size_roundup_arm64 :: "u64 \<Rightarrow> bool \<Rightarrow> (nat \<Rightarrow> u64) \<Rightarrow> bool \<Rightarrow> u32" where
  "jent_cache_size_roundup_arm64 clidr ccidx ccsidr_fn all_caches =
     (let (l1, l2, l3) = arm64_loop clidr ccidx ccsidr_fn [1..<8] (0, 0, 0)
      in cache_size_answer l1 l2 l3 all_caches)"

section \<open>Linux\<close>

text \<open>What \<open>sysconf\<close> returns for the three selectors; a negative value is an error.\<close>

definition jent_get_cachesize_sysconf :: "u64 \<times> u64 \<times> u64 \<Rightarrow> u64 \<times> u64 \<times> u64" where
  "jent_get_cachesize_sysconf = (\<lambda>(v1, v2, v3).
     (if 0 < sint v1 then v1 else 0, if 0 < sint v2 then v2 else 0, if 0 < sint v3 then v3 else 0))"

definition c_string :: "string \<Rightarrow> string" where
  "c_string buf = takeWhile (\<lambda>c. c \<noteq> CHR 0x00) buf"

text \<open>
  What a \<open>read\<close> of a file of \<open>sysfs\<close> leaves in \<open>buf[32]\<close>, from the contents of the file; \<open>None\<close> when
  there is no such file, or nothing was read.
\<close>

definition read_sysfs :: "string option \<Rightarrow> string option" where
  "read_sysfs file = (case file of
       None \<Rightarrow> None
     | Some contents \<Rightarrow> if contents = [] then None else Some (take 32 contents))"

text \<open>The size in bytes that \<open>buf\<close> denotes, of which \<open>rlen\<close> bytes were read.\<close>

definition parse_cache_size :: "string \<Rightarrow> u64 option" where
  "parse_cache_size read_bytes =
     (if length read_bytes = 32 then None
      else let buf = c_string read_bytes;
               (shift, buf) =
                 (if CHR ''K'' \<in> set buf then (10, takeWhile (\<lambda>c. c \<noteq> CHR ''K'') buf)
                  else if CHR ''M'' \<in> set buf then (20, takeWhile (\<lambda>c. c \<noteq> CHR ''M'') buf)
                  else (0, buf))
           in case strtol buf of
                None \<Rightarrow> None
              | Some (val, erange, endptr) \<Rightarrow>
                  if erange \<or> val \<le> 0 \<or> val = LONG_MAX then None
                  else Some (push_bit shift (of_int val)))"

text \<open>One cache: the contents of its files \<open>type\<close> and \<open>size\<close>.\<close>

definition sysfs_cache :: "string option \<times> string option \<Rightarrow> u64 option" where
  "sysfs_cache files = (case read_sysfs (fst files) of
       None \<Rightarrow> None
     | Some read_bytes \<Rightarrow>
         let buf = c_string (take 31 read_bytes)
         in if take 4 buf \<noteq> ''Data'' \<and> take 7 buf \<noteq> ''Unified'' then None
            else case read_sysfs (snd files) of
                   None \<Rightarrow> None
                 | Some read_bytes \<Rightarrow> parse_cache_size read_bytes)"

fun sysfs_loop :: "(string option \<times> string option) list \<Rightarrow> u64 \<times> u64 \<times> u64 \<Rightarrow> u64 \<times> u64 \<times> u64" where
  "sysfs_loop [] ls = ls"
| "sysfs_loop (files # rest) (l1, l2, l3) = (case sysfs_cache files of
       None \<Rightarrow> sysfs_loop rest (l1, l2, l3)
     | Some val \<Rightarrow>
         if l1 = 0 then sysfs_loop rest (val, l2, l3)
         else if l2 = 0 then sysfs_loop rest (l1, val, l3)
         else (l1, l2, val))"

definition jent_get_cachesize_sysfs ::
  "(nat \<Rightarrow> string option \<times> string option) \<Rightarrow> u64 \<times> u64 \<times> u64 \<Rightarrow> u64 \<times> u64 \<times> u64" where
  "jent_get_cachesize_sysfs sysfs ls = sysfs_loop (map sysfs [0..<4]) ls"

definition jent_cache_size_roundup_linux ::
  "u64 \<times> u64 \<times> u64 \<Rightarrow> (nat \<Rightarrow> string option \<times> string option) \<Rightarrow> bool \<Rightarrow> u32" where
  "jent_cache_size_roundup_linux sysconf sysfs all_caches =
     (let (l1, l2, l3) = jent_get_cachesize_sysconf sysconf
      in if jent_cache_size_to_memory l1 l2 l3 all_caches = 0
         then let (l1, l2, l3) = jent_get_cachesize_sysfs sysfs (l1, l2, l3)
              in cache_size_answer l1 l2 l3 all_caches
         else cache_size_answer l1 l2 l3 all_caches)"

section \<open>Windows\<close>

datatype PROCESSOR_CACHE_TYPE = CacheUnified | CacheInstruction | CacheData | CacheTrace

record CACHE_DESCRIPTOR =
  Level :: u8
  Size :: u32
  Type :: PROCESSOR_CACHE_TYPE

text \<open>An entry of the list is a cache or something else (\<open>None\<close>). A \<open>long\<close> has 32 bits here.\<close>

definition windows_step :: "u64 \<times> u64 \<times> u64 \<Rightarrow> CACHE_DESCRIPTOR option \<Rightarrow> u64 \<times> u64 \<times> u64" where
  "windows_step = (\<lambda>(l1, l2, l3) entry. case entry of
       None \<Rightarrow> (l1, l2, l3)
     | Some cache \<Rightarrow>
         let size = scast (Size cache)
         in if Level cache = 1 \<and> Type cache = CacheData then (size, l2, l3)
            else if Level cache = 2 \<and> (Type cache = CacheUnified \<or> Type cache = CacheData)
            then (l1, size, l3)
            else if Level cache = 3 \<and> (Type cache = CacheUnified \<or> Type cache = CacheData)
            then (l1, l2, size)
            else (l1, l2, l3))"

text \<open>
  \<open>sized\<close>: the first call told the length of the list (it succeeded, or failed because of it);
  \<open>allocated\<close>: \<open>malloc\<close> succeeded; \<open>listing\<close>: what the second call delivers.
\<close>

definition jent_cache_size_roundup_windows ::
  "bool \<Rightarrow> bool \<Rightarrow> CACHE_DESCRIPTOR option list option \<Rightarrow> bool \<Rightarrow> u32" where
  "jent_cache_size_roundup_windows sized allocated listing all_caches =
     (if \<not> sized then 0
      else if \<not> allocated then 0
      else case listing of
             None \<Rightarrow> 0
           | Some entries \<Rightarrow>
               let (l1, l2, l3) = foldl windows_step (0, 0, 0) entries
               in cache_size_answer l1 l2 l3 all_caches)"

section \<open>The answer is the next power of two\<close>

text \<open>Each doubling step makes a bit the disjunction of twice as many bits above it.\<close>

lemma smear_step:
  fixes a c :: "'a::len word"
  assumes "\<forall>n. bit a n \<longleftrightarrow> (\<exists>m. n \<le> m \<and> m < n + j \<and> bit c m)"
  shows "\<forall>n. bit (a OR drop_bit j a) n \<longleftrightarrow> (\<exists>m. n \<le> m \<and> m < n + 2 * j \<and> bit c m)"
proof (rule allI, rule iffI)
  fix n
  assume "bit (a OR drop_bit j a) n"
  then show "\<exists>m. n \<le> m \<and> m < n + 2 * j \<and> bit c m"
    using assms by (fastforce simp: bit_or_iff bit_drop_bit_eq)
next
  fix n
  assume "\<exists>m. n \<le> m \<and> m < n + 2 * j \<and> bit c m"
  then obtain m where m: "n \<le> m" "m < n + 2 * j" "bit c m" by blast
  show "bit (a OR drop_bit j a) n"
  proof (cases "m < n + j")
    case True
    with m assms have "bit a n" by blast
    then show ?thesis by (simp add: bit_or_iff)
  next
    case False
    with m assms have "bit a (j + n)" by (auto simp: add.commute intro!: exI [of _ m])
    then show ?thesis by (simp add: bit_or_iff bit_drop_bit_eq)
  qed
qed

definition smear :: "u32 \<Rightarrow> u32" where
  "smear c =
     (let c = c OR drop_bit 1 c; c = c OR drop_bit 2 c; c = c OR drop_bit 4 c; c = c OR drop_bit 8 c
      in c OR drop_bit 16 c)"

lemma bit_smear: "bit (smear c) n \<longleftrightarrow> (\<exists>m \<ge> n. bit c m)"
proof -
  have "\<forall>n. bit c n \<longleftrightarrow> (\<exists>m. n \<le> m \<and> m < n + 1 \<and> bit c m)"
    by (metis Suc_eq_plus1 leD le_refl lessI less_antisym nat_less_le)
  from smear_step [OF smear_step [OF smear_step [OF smear_step [OF smear_step [OF this]]]]]
  have "bit (smear c) n \<longleftrightarrow> (\<exists>m. n \<le> m \<and> m < n + 32 \<and> bit c m)"
    by (simp add: smear_def Let_def)
  moreover have "m < n + 32" if "bit c m" for m
    using bit_imp_le_length [OF that] by simp
  ultimately show ?thesis by blast
qed

lemma smear_mask:
  assumes "2 ^ k \<le> unat c" "unat c < 2 ^ Suc k"
  shows "smear c = mask (Suc k)"
proof (rule bit_word_eqI)
  fix n
  assume "n < LENGTH(32)"
  have "unat c div 2 ^ k = 1"
    using assms by (intro div_nat_eqI) simp_all
  then have "bit (unat c) k" by (simp add: bit_iff_odd)
  then have k: "bit c k" by (simp add: bit_unsigned_iff)
  have below: "m \<le> k" if "bit c m" for m
  proof (rule ccontr)
    assume "\<not> m \<le> k"
    then have "(2 :: nat) ^ Suc k \<le> 2 ^ m" by (intro power_increasing) simp_all
    also have "\<dots> \<le> unat c"
    proof -
      have "bit (unat c) m" using that by (simp add: bit_unsigned_iff bit_imp_le_length)
      then have "odd (unat c div 2 ^ m)" by (simp add: bit_iff_odd)
      then have "unat c div 2 ^ m \<noteq> 0" by (rule odd_pos [THEN gr_implies_not0])
      then show ?thesis by (simp add: div_eq_0_iff not_less)
    qed
    finally show False using assms(2) by simp
  qed
  have "(\<exists>m \<ge> n. bit c m) \<longleftrightarrow> n \<le> k" using k below by (meson le_trans)
  then show "bit (smear c) n \<longleftrightarrow> bit (mask (Suc k) :: u32) n"
    using \<open>n < LENGTH(32)\<close> unfolding bit_smear bit_mask_iff by (simp only: less_Suc_eq_le possible_bit_word simp_thms)
qed

lemma smear_0: "smear c = 0 \<longleftrightarrow> c = 0"
proof
  assume "smear c = 0"
  then have "\<not> bit c n" for n using bit_smear [of c n] by auto
  then show "c = 0" by (simp add: bit_eq_iff)
qed (simp add: smear_def)

text \<open>The smallest power of two above a size, as long as it is a 32-bit number.\<close>

lemma smear_next_power:
  assumes "c \<noteq> 0"
  shows "if unat c < 2 ^ 31 then \<exists>k. unat (smear c + 1) = 2 ^ k \<and> unat c < 2 ^ k \<and> 2 ^ k \<le> 2 * unat c
    else smear c + 1 = 0"
proof -
  have "0 < unat c" using assms by (simp add: word_neq_0_conv unat_gt_0)
  then obtain k where k: "2 ^ k \<le> unat c" "unat c < 2 ^ Suc k"
    using ex_power_ivl1 [of 2 "unat c"] by auto
  moreover have "unat c < 2 ^ 32" by (rule order_less_le_trans [OF unsigned_less]) simp
  ultimately have "(2 :: nat) ^ k < 2 ^ 32" by (meson le_less_trans)
  then have "k < 32" by (rule power_less_imp_less_exp [rotated]) simp
  note s = smear_mask [OF k]
  show ?thesis
  proof (cases "k = 31")
    case True
    with k s show ?thesis by (simp add: mask_eq_exp_minus_1)
  next
    case False
    with \<open>k < 32\<close> have "Suc k < 32" by simp
    then have "unat (2 ^ Suc k :: u32) = 2 ^ Suc k" by (intro unat_power_of_two) simp
    then have "unat (smear c + 1) = 2 ^ Suc k" unfolding s mask_eq_exp_minus_1 by simp
    moreover have "(2 :: nat) ^ Suc k \<le> 2 ^ 31" using \<open>Suc k < 32\<close> by (intro power_increasing) simp_all
    ultimately show ?thesis using k by (auto intro!: exI [of _ "Suc k"])
  qed
qed

definition counted :: "u64 \<Rightarrow> nat" where
  "counted l = (if 0 < sint l then unat l else 0)"

definition cache_total :: "u64 \<Rightarrow> u64 \<Rightarrow> u64 \<Rightarrow> bool \<Rightarrow> nat" where
  "cache_total l1 l2 l3 all_caches =
     counted l1 + (if all_caches then counted l2 + counted l3 else 0)"

lemma cache_size_to_memory_smear:
  "jent_cache_size_to_memory l1 l2 l3 all_caches = smear (of_nat (cache_total l1 l2 l3 all_caches))"
proof -
  let ?c = "let cache_size = 0;
      cache_size = (if 0 < sint l1 then cache_size + ucast l1 else cache_size)
    in if all_caches
       then let cache_size = (if 0 < sint l2 then cache_size + ucast l2 else cache_size)
            in if 0 < sint l3 then cache_size + ucast l3 else cache_size
       else cache_size"
  have "jent_cache_size_to_memory l1 l2 l3 all_caches = smear ?c"
    by (simp only: jent_cache_size_to_memory_def smear_def Let_def)
  moreover have "?c = of_nat (cache_total l1 l2 l3 all_caches)"
    by (simp add: cache_total_def counted_def add.assoc)
  ultimately show ?thesis by (rule trans [OF _ arg_cong])
qed

text \<open>What an answer is worth: 0, or the smallest power of two above the total.\<close>

definition answers :: "nat \<Rightarrow> u32 \<Rightarrow> bool" where
  "answers bytes r \<longleftrightarrow>
     (if bytes = 0 \<or> 2 ^ 31 \<le> bytes then r = 0
      else \<exists>k. unat r = 2 ^ k \<and> bytes < 2 ^ k \<and> 2 ^ k \<le> 2 * bytes)"

lemma cache_size_answers:
  assumes "cache_total l1 l2 l3 all_caches < 2 ^ 32"
  shows "answers (cache_total l1 l2 l3 all_caches) (cache_size_answer l1 l2 l3 all_caches)"
proof -
  let ?t = "cache_total l1 l2 l3 all_caches"
  let ?c = "of_nat ?t :: u32"
  have u: "unat ?c = ?t" using assms by (intro unat_of_nat_small) simp
  then have z: "?c = 0 \<longleftrightarrow> ?t = 0" by (metis unat_eq_zero)
  have s0: "smear (of_nat 0) = 0" by (rule smear_0 [THEN iffD2]) simp
  show ?thesis
  proof (cases "?t = 0")
    case True
    then show ?thesis
      by (simp only: answers_def cache_size_answer_def cache_size_to_memory_smear s0 Let_def simp_thms if_True)
  next
    case False
    then have "smear ?c \<noteq> 0" using z by (simp only: smear_0 simp_thms)
    with False smear_next_power [of ?c] z u show ?thesis
      unfolding answers_def cache_size_answer_def cache_size_to_memory_smear Let_def
      by (simp only: if_False simp_thms not_less split: if_splits) auto
  qed
qed

section \<open>The files of Linux\<close>

text \<open>A cache of \<open>n\<close> KiB as the kernel lists it.\<close>

definition sysfs_files :: "string \<times> nat \<Rightarrow> string option \<times> string option" where
  "sysfs_files = (\<lambda>(t, n). (Some (t @ [CHR 0x0A]), Some (decimal_nat n @ [CHR ''K'', CHR 0x0A])))"

definition sysfs_listing :: "(string \<times> nat) list \<Rightarrow> nat \<Rightarrow> string option \<times> string option" where
  "sysfs_listing caches i = (if i < length caches then sysfs_files (caches ! i) else (None, None))"

definition listed :: "string \<times> nat \<Rightarrow> bool" where
  "listed = (\<lambda>(t, n). t \<in> {''Data'', ''Instruction'', ''Unified''} \<and> 0 < n \<and> n < 2 ^ 32)"

text \<open>The sizes in bytes of the data and unified caches among the first four.\<close>

definition data_caches :: "(string \<times> nat) list \<Rightarrow> nat list" where
  "data_caches caches = map (\<lambda>(t, n). 1024 * n) (filter (\<lambda>(t, n). t \<noteq> ''Instruction'') (take 4 caches))"

lemma parse_kib:
  assumes "0 < n" "n < 2 ^ 32"
  shows "parse_cache_size (decimal_nat n @ [CHR ''K'', CHR 0x0A]) = Some (of_nat (1024 * n))"
proof -
  have d: "\<forall>c \<in> set (decimal_nat n). is_digit c" using decimal_nat_digits by blast
  then have k: "\<forall>c \<in> set (decimal_nat n). c \<noteq> CHR ''K'' \<and> c \<noteq> CHR 0x00"
    by (auto simp: is_digit_range)
  then have t: "takeWhile (\<lambda>c. c \<noteq> CHR ''K'') (decimal_nat n @ [CHR ''K'', CHR 0x0A]) = decimal_nat n"
    "c_string (decimal_nat n @ [CHR ''K'', CHR 0x0A]) = decimal_nat n @ [CHR ''K'', CHR 0x0A]"
    by (simp_all add: c_string_def)
  have "n < 10 ^ Suc 9" using assms(2) by simp
  from decimal_nat_length [OF this] have l: "length (decimal_nat n) \<noteq> 30" by simp
  have "strtol (decimal_nat n @ []) = Some (int n, False, [])"
    using assms(2) by (intro strtol_decimal) (simp_all add: LONG_MAX_def)
  then show ?thesis
    using assms l by (simp add: parse_cache_size_def t Let_def LONG_MAX_def push_bit_eq_mult)
qed

lemma sysfs_cache_listed:
  assumes "listed c"
  shows "sysfs_cache (sysfs_files c) = (if fst c = ''Instruction'' then None else Some (of_nat (1024 * snd c)))"
proof -
  obtain t n where c: "c = (t, n)" by fastforce
  have n: "0 < n" "n < 2 ^ 32" using assms by (simp_all add: c listed_def)
  then have "n < 10 ^ Suc 9" by simp
  from decimal_nat_length [OF this]
  have "read_sysfs (Some (decimal_nat n @ [CHR ''K'', CHR 0x0A])) = Some (decimal_nat n @ [CHR ''K'', CHR 0x0A])"
    by (simp add: read_sysfs_def)
  with assms parse_kib [OF n] show ?thesis
    by (auto simp: c listed_def sysfs_files_def sysfs_cache_def read_sysfs_def c_string_def Let_def)
qed

text \<open>The first three sizes found fill the levels in order.\<close>

lemma sysfs_loop_third:
  assumes "a \<noteq> 0" "b \<noteq> 0"
  shows "sysfs_loop fs (a, b, 0) =
    (a, b, case List.map_filter sysfs_cache fs of [] \<Rightarrow> 0 | c # _ \<Rightarrow> c)"
  using assms by (induction fs) (simp_all add: List.map_filter_simps split: option.split)

lemma sysfs_loop_second:
  assumes "a \<noteq> 0" "0 \<notin> set (List.map_filter sysfs_cache fs)"
  shows "sysfs_loop fs (a, 0, 0) = (case List.map_filter sysfs_cache fs of
      [] \<Rightarrow> (a, 0, 0) | [b] \<Rightarrow> (a, b, 0) | b # c # _ \<Rightarrow> (a, b, c))"
  using assms
  by (induction fs) (auto simp: List.map_filter_simps sysfs_loop_third split: option.split list.split)

lemma sysfs_loop_first:
  assumes "0 \<notin> set (List.map_filter sysfs_cache fs)"
  shows "sysfs_loop fs (0, 0, 0) = (case List.map_filter sysfs_cache fs of
      [] \<Rightarrow> (0, 0, 0) | [a] \<Rightarrow> (a, 0, 0) | [a, b] \<Rightarrow> (a, b, 0) | a # b # c # _ \<Rightarrow> (a, b, c))"
  using assms
  by (induction fs) (auto simp: List.map_filter_simps sysfs_loop_second split: option.split list.split)

lemma sysfs_cache_missing: "sysfs_cache (None, None) = None"
  by (simp add: sysfs_cache_def read_sysfs_def)

lemma sysfs_listing_found:
  assumes "\<forall>c \<in> set caches. listed c"
  shows "List.map_filter sysfs_cache (map (sysfs_listing caches) [0..<4]) =
    map of_nat (data_caches caches)"
proof -
  have m: "map (sysfs_listing caches) [0..<4] =
      map sysfs_files (take 4 caches) @ replicate (4 - length caches) (None, None)"
    by (rule nth_equalityI) (auto simp: sysfs_listing_def nth_append)
  have n: "filter (\<lambda>x. \<exists>y. sysfs_cache x = Some y) (replicate k (None, None)) = []" for k
    by (simp add: sysfs_cache_missing)
  have "List.map_filter sysfs_cache (map sysfs_files cs) =
      map of_nat (map (\<lambda>(t, n). 1024 * n) (filter (\<lambda>(t, n). t \<noteq> ''Instruction'') cs))"
    if "\<forall>c \<in> set cs. listed c" for cs
    using that
    by (induction cs) (auto simp: List.map_filter_simps sysfs_cache_listed)
  moreover have "\<forall>c \<in> set (take 4 caches). listed c" using assms by (meson in_set_takeD)
  ultimately show ?thesis
    unfolding m data_caches_def by (simp add: List.map_filter_def n)
qed

section \<open>Properties\<close>

text \<open>The bytes the answer is for: those of the first listed cache, or of the first three.\<close>

definition listed_bytes :: "(string \<times> nat) list \<Rightarrow> bool \<Rightarrow> nat" where
  "listed_bytes caches all_caches = sum_list (take (if all_caches then 3 else 1) (data_caches caches))"

lemma listed_total:
  assumes "\<forall>c \<in> set caches. listed c"
    and "jent_get_cachesize_sysfs (sysfs_listing caches) (0, 0, 0) = (l1, l2, l3)"
  shows "cache_total l1 l2 l3 all_caches = listed_bytes caches all_caches"
proof -
  let ?ds = "data_caches caches"
  have small: "0 < d \<and> d < 2 ^ 42" if "d \<in> set ?ds" for d
    using that assms(1) by (fastforce simp: data_caches_def listed_def dest: in_set_takeD)
  have c: "counted (of_nat d) = d \<and> (of_nat d :: u64) \<noteq> 0" if "d \<in> set ?ds" for d
  proof -
    have u: "unat (of_nat d :: u64) = d" using small [OF that] by (intro unat_of_nat_small) simp
    have "sint (of_nat d :: u64) = int d" using small [OF that] by (intro sint_u64) simp
    with u small [OF that] show ?thesis by (auto simp: counted_def)
  qed
  then have "0 \<notin> set (map of_nat ?ds :: u64 list)" by fastforce
  then have l: "(l1, l2, l3) = (case map of_nat ?ds of
      [] \<Rightarrow> (0, 0, 0) | [a] \<Rightarrow> (a, 0, 0) | [a, b] \<Rightarrow> (a, b, 0) | a # b # c # _ \<Rightarrow> (a, b, c))"
    using assms(2) sysfs_loop_first [of "map (sysfs_listing caches) [0..<4]"]
    by (simp add: jent_get_cachesize_sysfs_def sysfs_listing_found [OF assms(1)])
  have z: "counted 0 = 0" by (simp add: counted_def)
  consider "?ds = []" | a where "?ds = [a]" | a b where "?ds = [a, b]"
    | a b d ds where "?ds = a # b # d # ds"
    by (metis neq_Nil_conv)
  then show ?thesis
    using l c z by cases (auto simp: cache_total_def listed_bytes_def)
qed



end
