(* ===== verification/Ncpu.thy ===== *)
theory Ncpu
  imports Decimal
begin

unbundle bit_operations_syntax

text \<open>
  The number of CPUs (\<open>arch/jitterentropy-arch-ncpu.c\<close>) and the FIPS mode of the machine
  (\<open>arch/jitterentropy-arch-fips.c\<close>). What the operating system tells is an argument: the affinity
  mask, the contents of files, the value of \<open>sysconf\<close>. A \<open>long\<close> is an integer; negative results
  are error numbers.
\<close>

section \<open>The list of online CPUs\<close>

definition EIO :: int where "EIO = 5"

definition EFAULT :: int where "EFAULT = 14"

definition EINVAL :: int where "EINVAL = 22"

text \<open>\<open>strtol\<close> as it is called here: \<open>None\<close> when it finds no number or sets \<open>errno\<close>.\<close>

definition read_index :: "string \<Rightarrow> (int \<times> string) option" where
  "read_index p = (case strtol p of
       None \<Rightarrow> None
     | Some (v, erange, endp) \<Rightarrow> if erange then None else Some (v, endp))"

lemma dropWhile_shorter: "takeWhile P s \<noteq> [] \<Longrightarrow> length (dropWhile P s) < length s"
  by (cases s) (auto simp: less_Suc_eq_le length_dropWhile_le split: if_splits)

lemma scan_number_shorter: "scan_number s = Some (neg, ds, rest) \<Longrightarrow> length rest < length s"
proof -
  assume a: "scan_number s = Some (neg, ds, rest)"
  define u where "u = dropWhile is_space s"
  obtain n t where t: "(case u of [] \<Rightarrow> (False, [])
      | c # t \<Rightarrow> if c = CHR ''-'' then (True, t) else if c = CHR ''+'' then (False, t)
                 else (False, u)) = (n, t)" by fastforce
  then have "length t \<le> length u" by (cases u) (auto split: if_splits)
  moreover have "length u \<le> length s" unfolding u_def by (rule length_dropWhile_le)
  moreover have "takeWhile is_digit t \<noteq> []" "rest = dropWhile is_digit t"
    using a t unfolding scan_number_def u_def [symmetric] by (auto simp: Let_def split: if_splits)
  ultimately show ?thesis using dropWhile_shorter [of is_digit t] by simp
qed

lemma read_index_shorter: "read_index p = Some (v, endp) \<Longrightarrow> length endp < length p"
  by (auto simp: read_index_def strtol_def Let_def split: option.splits if_splits
      dest!: scan_number_shorter)

text \<open>The range that starts at \<open>p\<close>: its two ends and the rest of the text.\<close>

definition read_range :: "string \<Rightarrow> (int \<times> int \<times> string) option" where
  "read_range p = do {
     (first, p) \<leftarrow> read_index p;
     if first < 0 then None
     else case p of
         [] \<Rightarrow> Some (first, first, p)
       | c # q \<Rightarrow>
           if c = CHR ''-'' then do {
             (last, q) \<leftarrow> read_index q;
             if last < first then None else Some (first, last, q)
           }
           else Some (first, first, p)
   }"

lemma read_range_shorter: "read_range p = Some (a, b, q) \<Longrightarrow> length q < length p"
  by (auto simp: read_range_def elim!: bind_SomeE split: if_splits list.splits
      dest!: read_index_shorter)

text \<open>\<open>None\<close> is the return of \<open>-EINVAL\<close>.\<close>

function ncpu_loop :: "string \<Rightarrow> int \<Rightarrow> int option" where
  "ncpu_loop p n =
     (if p = [] \<or> hd p = CHR 0x0A then Some n
      else do {
        (first, last, p) \<leftarrow> read_range p;
        let n = n + (last - first + 1);
        case p of
          [] \<Rightarrow> Some n
        | c # q \<Rightarrow> if c = CHR '','' then ncpu_loop q n else Some n
      })"
  by pat_completeness auto
termination
  by (relation "measure (\<lambda>(p, n). length p)") (auto dest!: read_range_shorter)

declare ncpu_loop.simps [simp del]

text \<open>\<open>online\<close> are the contents of the file, or the error number of \<open>open\<close>.\<close>

definition jent_ncpu_sysfs :: "int + string \<Rightarrow> int" where
  "jent_ncpu_sysfs online = (case online of
       Inl err \<Rightarrow> - err
     | Inr contents \<Rightarrow>
         let buf = take 255 contents
         in if buf = [] then - EIO
            else if length buf = 255 \<and> last buf \<noteq> CHR 0x0A then - EINVAL
            else case ncpu_loop (takeWhile (\<lambda>c. c \<noteq> CHR 0x00) buf) 0 of
                   None \<Rightarrow> - EINVAL
                 | Some n \<Rightarrow> if n \<le> 0 then - EINVAL else n)"

text \<open>
  \<open>affinity\<close>: the CPUs of the affinity mask, \<open>None\<close> when it cannot be read; \<open>online\<close>: the file, \<open>None\<close>
  in a build against glibc, which does not look at it; \<open>nproc\<close> and \<open>err\<close>: the value of \<open>sysconf\<close> and \<open>errno\<close>.
\<close>

definition ncpu_sysconf :: "int \<Rightarrow> int \<Rightarrow> int" where
  "ncpu_sysconf nproc err = (if nproc = - 1 then - err else if nproc = 0 then - EFAULT else nproc)"

definition jent_ncpu :: "int option \<Rightarrow> (int + string) option \<Rightarrow> int \<Rightarrow> int \<Rightarrow> int" where
  "jent_ncpu affinity online nproc err =
     (if affinity \<noteq> None \<and> the affinity > 0 then the affinity
      else if online \<noteq> None \<and> jent_ncpu_sysfs (the online) > 0 then jent_ncpu_sysfs (the online)
      else ncpu_sysconf nproc err)"

text \<open>The contents of the mode switch file; \<open>None\<close> when it cannot be opened.\<close>

definition jent_fips_enabled :: "string option \<Rightarrow> bool" where
  "jent_fips_enabled file = (case file of
       None \<Rightarrow> False
     | Some contents \<Rightarrow> if contents = [] then False else hd contents = CHR ''1'')"

section \<open>The count is the number of CPUs\<close>

text \<open>The file as the kernel writes it: ranges \<open>a-b\<close>, single CPUs, commas between, a line feed.\<close>

definition render_range :: "nat \<times> nat \<Rightarrow> string" where
  "render_range = (\<lambda>(a, b). if a = b then decimal_nat a else decimal_nat a @ CHR ''-'' # decimal_nat b)"

fun render_cpus :: "(nat \<times> nat) list \<Rightarrow> string" where
  "render_cpus [] = [CHR 0x0A]"
| "render_cpus [r] = render_range r @ [CHR 0x0A]"
| "render_cpus (r # rs) = render_range r @ CHR '','' # render_cpus rs"

definition cpu_ranges :: "(nat \<times> nat) list \<Rightarrow> bool" where
  "cpu_ranges rs \<longleftrightarrow> rs \<noteq> [] \<and> (\<forall>(a, b) \<in> set rs. a \<le> b \<and> b < 2 ^ 31) \<and>
     sorted_wrt (\<lambda>r s. snd r < fst s) rs"

definition cpus_of :: "(nat \<times> nat) list \<Rightarrow> nat set" where
  "cpus_of rs = (\<Union>(a, b) \<in> set rs. {a..b})"

lemma read_index_decimal:
  assumes "rest = [] \<or> \<not> is_digit (hd rest)" "n < 2 ^ 31"
  shows "read_index (decimal_nat n @ rest) = Some (int n, rest)"
  using strtol_decimal [OF assms(1), of n] assms(2) by (simp add: read_index_def LONG_MAX_def)

lemma read_range_render:
  assumes "a \<le> b" "b < 2 ^ 31" "\<not> is_digit c" "c \<noteq> CHR ''-''"
  shows "read_range (render_range (a, b) @ c # q) = Some (int a, int b, c # q)"
proof -
  have m: "\<not> is_digit (CHR ''-'')" by (simp add: is_digit_range)
  show ?thesis
    using assms m read_index_decimal [of "c # q" a] read_index_decimal [of "c # q" b]
      read_index_decimal [of "CHR ''-'' # decimal_nat b @ c # q" a]
    by (auto simp: read_range_def render_range_def)
qed

lemma render_range_hd: "\<exists>c t. render_range r = c # t \<and> is_digit c"
proof -
  obtain a b where r: "r = (a, b)" by fastforce
  obtain c t where "decimal_nat a = c # t" using decimal_nat_hd [of a] by (cases "decimal_nat a") auto
  moreover from this have "is_digit c" using decimal_nat_digits [of a] by simp
  ultimately show ?thesis by (auto simp: r render_range_def)
qed

lemma render_range_plain: "c \<in> set (render_range r) \<Longrightarrow> c \<noteq> CHR 0x0A \<and> c \<noteq> CHR 0x00"
  using decimal_nat_digits [of "fst r"] decimal_nat_digits [of "snd r"]
  by (cases r) (fastforce simp: render_range_def is_digit_range split: if_splits)

lemma ncpu_loop_render:
  assumes "rs \<noteq> []" "\<forall>(a, b) \<in> set rs. a \<le> b \<and> b < 2 ^ 31"
  shows "ncpu_loop (render_cpus rs) n = Some (n + (\<Sum>(a, b) \<leftarrow> rs. int b - int a + 1))"
  using assms
proof (induction rs arbitrary: n rule: render_cpus.induct)
  case (2 r)
  obtain a b where r: "r = (a, b)" by fastforce
  obtain c t where c: "render_range r = c # t" "is_digit c" using render_range_hd by blast
  have "read_range (render_range (a, b) @ [CHR 0x0A]) = Some (int a, int b, [CHR 0x0A])"
    using 2 by (intro read_range_render) (simp_all add: r is_digit_range)
  with c r show ?case by (subst ncpu_loop.simps) (auto simp: is_digit_range)
next
  case (3 r s rs)
  obtain a b where r: "r = (a, b)" by fastforce
  obtain c t where c: "render_range r = c # t" "is_digit c" using render_range_hd by blast
  have "read_range (render_range (a, b) @ CHR '','' # render_cpus (s # rs)) =
      Some (int a, int b, CHR '','' # render_cpus (s # rs))"
    using 3 by (intro read_range_render) (simp_all add: r is_digit_range)
  with c r 3 show ?case by (subst ncpu_loop.simps) (auto simp: is_digit_range)
qed simp

lemma card_cpus:
  assumes "cpu_ranges rs"
  shows "int (card (cpus_of rs)) = (\<Sum>(a, b) \<leftarrow> rs. int b - int a + 1)"
proof -
  have "finite (cpus_of rs) \<and> int (card (cpus_of rs)) = (\<Sum>(a, b) \<leftarrow> rs. int b - int a + 1)"
    if "\<forall>(a, b) \<in> set rs. a \<le> b" "sorted_wrt (\<lambda>r s. snd r < fst s) rs" for rs
    using that
  proof (induction rs)
    case (Cons r rs)
    obtain a b where r: "r = (a, b)" by fastforce
    have "{a..b} \<inter> cpus_of rs = {}" using Cons.prems by (fastforce simp: r cpus_of_def)
    moreover have "cpus_of (r # rs) = {a..b} \<union> cpus_of rs" by (simp add: r cpus_of_def)
    ultimately show ?case using Cons by (auto simp: r card_Un_disjoint of_nat_diff)
  qed (simp add: cpus_of_def)
  from this [of rs] assms show ?thesis by (auto simp: cpu_ranges_def)
qed

section \<open>Properties\<close>

lemma render_cpus_end:
  assumes "rs \<noteq> []"
  shows "\<exists>t. render_cpus rs = t @ [CHR 0x0A] \<and> (\<forall>c \<in> set t. c \<noteq> CHR 0x0A \<and> c \<noteq> CHR 0x00)"
  using assms
proof (induction rs rule: render_cpus.induct)
  case (2 r)
  then show ?case using render_range_plain [of _ r] by (auto intro!: exI [of _ "render_range r"])
next
  case (3 r s rs)
  then obtain t where "render_cpus (s # rs) = t @ [CHR 0x0A]" "\<forall>c \<in> set t. c \<noteq> CHR 0x0A \<and> c \<noteq> CHR 0x00"
    by auto
  then show ?case
    using render_range_plain [of _ r] by (auto intro!: exI [of _ "render_range r @ CHR '','' # t"])
qed simp

text \<open>
  C35. The list of online CPUs is counted exactly: for the ranges that the kernel writes (ascending
  and disjoint), the result is the number of CPUs in them; when the text does not fit the
  buffer it is refused rather than miscounted.
\<close>

theorem ncpu_counts_online:
  assumes "cpu_ranges rs"
  shows "jent_ncpu_sysfs (Inr (render_cpus rs)) =
    (if length (render_cpus rs) \<le> 255 then int (card (cpus_of rs)) else - EINVAL)"
proof -
  have rs: "rs \<noteq> []" "\<forall>(a, b) \<in> set rs. a \<le> b \<and> b < 2 ^ 31" using assms by (auto simp: cpu_ranges_def)
  obtain t where t: "render_cpus rs = t @ [CHR 0x0A]" "\<forall>c \<in> set t. c \<noteq> CHR 0x0A \<and> c \<noteq> CHR 0x00"
    using render_cpus_end [OF rs(1)] by blast
  show ?thesis
  proof (cases "length (render_cpus rs) \<le> 255")
    case True
    have "takeWhile (\<lambda>c. c \<noteq> CHR 0x00) (render_cpus rs) = render_cpus rs" using t by auto
    moreover have "0 < card (cpus_of rs)"
      using rs by (cases rs) (auto simp: cpus_of_def card_gt_0_iff)
    ultimately show ?thesis
      using True t(1) ncpu_loop_render [OF rs, of 0] card_cpus [OF assms]
      by (simp add: jent_ncpu_sysfs_def Let_def)
  next
    case False
    then have "take 255 (render_cpus rs) = take 255 t" "length (take 255 t) = 255" "take 255 t \<noteq> []"
      using t(1) by auto
    moreover from this have "last (take 255 t) \<noteq> CHR 0x0A" using t(2) by (meson in_set_takeD last_in_set)
    ultimately show ?thesis using False by (simp add: jent_ncpu_sysfs_def)
  qed
qed

theorem ncpu_counts_online_witness:
  "jent_ncpu_sysfs (Inr (render_cpus [(0, 0), (2, 5), (8, 8)])) = 6"
proof -
  have "cpu_ranges [(0, 0), (2, 5), (8, 8)]" by (simp add: cpu_ranges_def)
  moreover have "length (render_cpus [(0, 0), (2, 5), (8, 8)]) \<le> 255"
    by (simp add: render_range_def decimal_nat.simps [of 0] decimal_nat.simps [of 2]
        decimal_nat.simps [of 5] decimal_nat.simps [of 8])
  moreover have "cpus_of [(0, 0), (2, 5), (8, 8)] = {0, 2, 3, 4, 5, 8}"
    by (auto simp: cpus_of_def)
  ultimately show ?thesis using ncpu_counts_online [of "[(0, 0), (2, 5), (8, 8)]"] by simp
qed

end
