(* ===== verification/Secure_Memory.thy ===== *)
theory Secure_Memory
  imports Prelude
begin

unbundle bit_operations_syntax

text \<open>
  The secure memory of the library on POSIX systems (\<open>arch/jitterentropy-arch-memory.c\<close>, the variant
  with \<open>mlock\<close> and no crypto library): a block lies between two inaccessible pages, is zeroed when it
  is allocated and wiped before it is unmapped.

  The address space is a state: the mappings, which bytes can be accessed, and their contents. What
  the kernel answers is an argument. \<open>None\<close> is a fault. The hints of \<open>madvise\<close> are not modelled.
\<close>

section \<open>The address space\<close>

record address_space =
  mappings :: "(u64 \<times> u64) list"
  accessible :: "u64 \<Rightarrow> bool"
  contents :: "u64 \<Rightarrow> u8"

record kernel_answers =
  k_page_size :: "64 word"
  k_mmap :: "u64 option"
  k_mprotect_ok :: bool
  k_mlock_ok :: bool

definition in_region :: "u64 \<Rightarrow> u64 \<Rightarrow> u64 \<Rightarrow> bool" where
  "in_region base len a \<longleftrightarrow> unat base \<le> unat a \<and> unat a < unat base + unat len"

text \<open>A new private mapping that cannot be accessed, of zero bytes.\<close>

definition mmap_none :: "u64 \<Rightarrow> u64 \<Rightarrow> address_space \<Rightarrow> address_space" where
  "mmap_none base len s =
     s\<lparr>mappings := (base, len) # mappings s,
       accessible := (\<lambda>a. \<not> in_region base len a \<and> accessible s a),
       contents := (\<lambda>a. if in_region base len a then 0 else contents s a)\<rparr>"

definition mprotect_rw :: "u64 \<Rightarrow> u64 \<Rightarrow> address_space \<Rightarrow> address_space" where
  "mprotect_rw base len s = s\<lparr>accessible := (\<lambda>a. in_region base len a \<or> accessible s a)\<rparr>"

definition munmap :: "u64 \<Rightarrow> u64 \<Rightarrow> address_space \<Rightarrow> address_space" where
  "munmap base len s =
     s\<lparr>mappings := remove1 (base, len) (mappings s),
       accessible := (\<lambda>a. \<not> in_region base len a \<and> accessible s a)\<rparr>"

section \<open>Operations\<close>

text \<open>The build has \<open>JENT_MEM_SECURE\<close>.\<close>

definition jent_secure_memory_supported :: bool where
  "jent_secure_memory_supported = True"

definition jent_memset_secure :: "u64 \<Rightarrow> u64 \<Rightarrow> address_space \<Rightarrow> address_space option" where
  "jent_memset_secure p n s =
     (if \<forall>i < unat n. accessible s (p + of_nat i)
      then Some (s\<lparr>contents := fold (\<lambda>i c. c(p + of_nat i := 0)) [0..<unat n] (contents s)\<rparr>)
      else None)"

definition jent_pagesize :: "kernel_answers \<Rightarrow> u64" where
  "jent_pagesize k = (if sint (k_page_size k) \<le> 0 then 4096 else k_page_size k)"

definition page_payload :: "u64 \<Rightarrow> u64 \<Rightarrow> u64" where
  "page_payload page_size len = (len + page_size - 1) AND NOT (page_size - 1)"

definition posix_zalloc ::
  "kernel_answers \<Rightarrow> u64 \<Rightarrow> address_space \<Rightarrow> (u64 option \<times> address_space) option" where
  "posix_zalloc k len s =
     (let page_size = jent_pagesize k
      in if len > - 1 - 3 * page_size then Some (None, s)
         else let payload = page_payload page_size len;
                  total_size = payload + 2 * page_size
              in case k_mmap k of
                   None \<Rightarrow> Some (None, s)
                 | Some base \<Rightarrow>
                     let s = mmap_none base total_size s
                     in if \<not> k_mprotect_ok k then Some (None, munmap base total_size s)
                        else let s = mprotect_rw (base + page_size) payload s;
                                 tmp = base + page_size
                             in if \<not> k_mlock_ok k then Some (None, munmap base total_size s)
                                else do {
                                  s \<leftarrow> jent_memset_secure tmp len s;
                                  Some (Some tmp, s)
                                })"

definition posix_zfree :: "kernel_answers \<Rightarrow> u64 \<Rightarrow> u64 \<Rightarrow> address_space \<Rightarrow> address_space option" where
  "posix_zfree k ptr len s =
     (let page_size = jent_pagesize k;
          payload = page_payload page_size len;
          base = ptr - page_size
      in do {
           s \<leftarrow> jent_memset_secure ptr len s;
           Some (munmap base (payload + 2 * page_size) s)
         })"

section \<open>Page arithmetic\<close>

text \<open>Rounding up to pages, with the sizes that the guard of the code admits.\<close>

lemma and_not_mask: "x AND NOT (mask n) = push_bit n (drop_bit n x)" for x :: "'a::len word"
  by (rule bit_word_eqI) (auto simp: bit_simps)

lemma unat_page_payload:
  assumes "page_size = 2 ^ n" "n < 62" "unat len + 3 * 2 ^ n < 2 ^ 64"
  shows "unat (page_payload page_size len) = (unat len + 2 ^ n - 1) div 2 ^ n * 2 ^ n"
proof -
  let ?x = "len + page_size - 1"
  have p: "unat page_size = 2 ^ n"
    unfolding assms(1) using assms(2) by (intro unat_power_of_two) simp
  have "(1 :: nat) \<le> unat len + 2 ^ n" by (simp add: add_increasing)
  then have "(of_nat (unat len + 2 ^ n - 1) :: u64) = of_nat (unat len + 2 ^ n) - of_nat 1"
    by (rule of_nat_diff)
  then have "(of_nat (unat len + 2 ^ n - 1) :: u64) = ?x" using assms(1) by simp
  moreover have "unat len + 2 ^ n - 1 < 2 ^ LENGTH(64)" using assms(3) by simp
  ultimately have x: "unat ?x = unat len + 2 ^ n - 1"
    by (metis unat_of_nat_small)
  have m: "page_size - 1 = mask n" using assms(1) by (simp add: mask_eq_exp_minus_1)
  have "unat (push_bit n (drop_bit n ?x)) = unat ?x div 2 ^ n * 2 ^ n"
  proof -
    have "push_bit n (drop_bit n ?x) = of_nat (unat ?x div 2 ^ n * 2 ^ n)"
      by (simp add: push_bit_eq_mult drop_bit_eq_div word_arith_nat_div assms(1)[symmetric] p[symmetric])
    moreover have "unat ?x div 2 ^ n * 2 ^ n < 2 ^ LENGTH(64)"
      by (rule le_less_trans [OF div_times_less_eq_dividend unsigned_less])
    ultimately show ?thesis by (metis unat_of_nat_small)
  qed
  then show ?thesis unfolding page_payload_def m and_not_mask x .
qed

text \<open>What \<open>sysconf\<close> says of the page size: an error, or a power of two.\<close>

definition page_size_ok :: "kernel_answers \<Rightarrow> bool" where
  "page_size_ok k \<longleftrightarrow> sint (k_page_size k) \<le> 0 \<or> (\<exists>n < 62. k_page_size k = 2 ^ n)"

lemma pagesize_power:
  assumes "page_size_ok k"
  obtains n where "n < 62" "jent_pagesize k = 2 ^ n" "unat (jent_pagesize k) = 2 ^ n"
proof -
  have "\<exists>n < 62. jent_pagesize k = 2 ^ n"
  proof (cases "sint (k_page_size k) \<le> 0")
    case True
    then show ?thesis by (intro exI [of _ 12]) (simp add: jent_pagesize_def)
  next
    case False
    with assms show ?thesis by (simp add: page_size_ok_def jent_pagesize_def)
  qed
  then obtain n where n: "n < 62" "jent_pagesize k = 2 ^ n" by blast
  then have "unat (jent_pagesize k) = 2 ^ n" by (simp only: n(2)) (intro unat_power_of_two, simp)
  with n show thesis by (rule that)
qed

definition mapped_size :: "kernel_answers \<Rightarrow> u64 \<Rightarrow> u64" where
  "mapped_size k len = page_payload (jent_pagesize k) len + 2 * jent_pagesize k"

text \<open>The guard against overflow is enough: nothing wraps, and the payload holds the block.\<close>

lemma page_sizes:
  assumes "page_size_ok k" "\<not> len > - 1 - 3 * jent_pagesize k"
  shows "unat len \<le> unat (page_payload (jent_pagesize k) len)"
    "unat (page_payload (jent_pagesize k) len) < unat len + unat (jent_pagesize k)"
    "unat (jent_pagesize k) dvd unat (page_payload (jent_pagesize k) len)"
    "unat (mapped_size k len) = unat (page_payload (jent_pagesize k) len) + 2 * unat (jent_pagesize k)"
    "0 < unat (jent_pagesize k)"
proof -
  obtain n where n: "n < 62" "jent_pagesize k = 2 ^ n" "unat (jent_pagesize k) = 2 ^ n"
    using pagesize_power [OF assms(1)] .
  let ?p = "2 ^ n :: nat"
  have p: "?p \<le> 2 ^ 61" using n(1) by (intro power_increasing) simp_all
  have "unat (3 * jent_pagesize k) = 3 * ?p"
  proof -
    have "of_nat (3 * ?p) = 3 * jent_pagesize k" using n(2) by simp
    moreover have "3 * ?p < 2 ^ LENGTH(64)" using p by simp
    ultimately show ?thesis by (metis unat_of_nat_small)
  qed
  moreover have "unat (- 1 - 3 * jent_pagesize k) = 2 ^ 64 - 1 - unat (3 * jent_pagesize k)"
    by (subst unat_sub) (simp_all add: unsigned_minus_1_eq_mask mask_eq_exp_minus_1)
  ultimately have len: "unat len + 3 * ?p < 2 ^ 64"
    using assms(2) p by (simp add: not_less word_le_nat_alt)
  note u = unat_page_payload [OF n(2,1) len]
  have d: "(unat len + ?p - 1) div ?p * ?p \<le> unat len + ?p - 1" by (rule div_times_less_eq_dividend)
  have "(unat len + ?p - 1) mod ?p < ?p" by simp
  then have "unat len + ?p - 1 < (unat len + ?p - 1) div ?p * ?p + ?p"
    using div_mult_mod_eq [of "unat len + ?p - 1" ?p] by linarith
  moreover have "1 \<le> ?p" by simp
  ultimately show "unat len \<le> unat (page_payload (jent_pagesize k) len)"
    "unat (page_payload (jent_pagesize k) len) < unat len + unat (jent_pagesize k)"
    using d unfolding u n(3) by linarith+
  show "unat (jent_pagesize k) dvd unat (page_payload (jent_pagesize k) len)" using u n(3) by simp
  show "0 < unat (jent_pagesize k)" using n(3) by simp
  have "unat (page_payload (jent_pagesize k) len) + 2 * ?p < 2 ^ 64" unfolding u using d len by linarith
  then have "unat (page_payload (jent_pagesize k) len) + 2 * ?p < 2 ^ LENGTH(64)" by simp
  then have "unat (of_nat (unat (page_payload (jent_pagesize k) len) + 2 * ?p) :: u64) =
      unat (page_payload (jent_pagesize k) len) + 2 * ?p" by (rule unat_of_nat_small)
  moreover have "of_nat (unat (page_payload (jent_pagesize k) len) + 2 * ?p) = mapped_size k len"
    using n(2) by (simp add: mapped_size_def)
  ultimately show "unat (mapped_size k len) =
      unat (page_payload (jent_pagesize k) len) + 2 * unat (jent_pagesize k)" using n(3) by simp
qed

section \<open>Wiping\<close>

lemma in_region_offset:
  assumes "unat p + unat n \<le> 2 ^ 64"
  shows "in_region p n a \<longleftrightarrow> (\<exists>i < unat n. a = p + of_nat i)"
proof
  assume "in_region p n a"
  then have "unat p \<le> unat a" "unat a - unat p < unat n" by (auto simp: in_region_def)
  then show "\<exists>i < unat n. a = p + of_nat i"
    by (intro exI [of _ "unat a - unat p"]) (simp add: of_nat_diff)
next
  assume "\<exists>i < unat n. a = p + of_nat i"
  then obtain i where i: "i < unat n" "a = p + of_nat i" by blast
  have "unat (of_nat (unat p + i) :: u64) = unat p + i"
    using i(1) assms by (intro unat_of_nat_small) simp
  with i show "in_region p n a" by (simp add: in_region_def)
qed

lemma fold_zero: "fold (\<lambda>i c. c(f i := 0)) xs c a = (if a \<in> f ` set xs then 0 else c a)"
  by (induction xs arbitrary: c) auto

lemma memset_region:
  assumes "unat p + unat n \<le> 2 ^ 64" "\<forall>a. in_region p n a \<longrightarrow> accessible s a"
  shows "jent_memset_secure p n s =
    Some (s\<lparr>contents := (\<lambda>a. if in_region p n a then 0 else contents s a)\<rparr>)"
proof -
  have "\<forall>i < unat n. accessible s (p + of_nat i)"
    using assms(2) in_region_offset [OF assms(1)] by blast
  moreover have "fold (\<lambda>i c. c(p + of_nat i := 0)) [0..<unat n] (contents s) =
      (\<lambda>a. if in_region p n a then 0 else contents s a)"
    by (rule ext) (auto simp: fold_zero in_region_offset [OF assms(1)] image_iff)
  ultimately show ?thesis by (simp add: jent_memset_secure_def)
qed

section \<open>Properties\<close>

text \<open>
  A block between its guard pages: the payload holds it and is less than a page longer, it is
  accessible, and the pages of the mapping on both sides of it are not.
\<close>

definition guarded :: "kernel_answers \<Rightarrow> u64 \<Rightarrow> u64 \<Rightarrow> address_space \<Rightarrow> bool" where
  "guarded k len ptr s \<longleftrightarrow>
     (let page = unat (jent_pagesize k); payload = unat (page_payload (jent_pagesize k) len)
      in page \<le> unat ptr \<and> unat ptr + payload + page \<le> 2 ^ 64 \<and> page dvd unat ptr \<and>
         unat len \<le> payload \<and> payload < unat len + page \<and>
         (ptr - jent_pagesize k, mapped_size k len) \<in> set (mappings s) \<and>
         (\<forall>a. unat ptr - page \<le> unat a \<and> unat a < unat ptr + payload + page \<longrightarrow>
            (accessible s a \<longleftrightarrow> unat ptr \<le> unat a \<and> unat a < unat ptr + payload)))"

text \<open>What \<open>mmap\<close> promises: a page-aligned region inside the address space that was not in use.\<close>

definition mmap_contract :: "kernel_answers \<Rightarrow> u64 \<Rightarrow> address_space \<Rightarrow> bool" where
  "mmap_contract k len s \<longleftrightarrow> (\<forall>base. k_mmap k = Some base \<longrightarrow>
     unat base + unat (mapped_size k len) \<le> 2 ^ 64 \<and> unat (jent_pagesize k) dvd unat base \<and>
     (\<forall>a. in_region base (mapped_size k len) a \<longrightarrow> \<not> accessible s a))"

lemma mprotect_contents [simp]: "contents (mprotect_rw base len s) = contents s"
  by (simp add: mprotect_rw_def)

lemma posix_zalloc_cases:
  assumes "page_size_ok k" "mmap_contract k len s"
  shows "(\<exists>s'. posix_zalloc k len s = Some (None, s') \<and> mappings s' = mappings s \<and>
      accessible s' = accessible s) \<or>
    (\<exists>base. let ptr = base + jent_pagesize k; payload = page_payload (jent_pagesize k) len
      in k_mmap k = Some base \<and> unat ptr = unat base + unat (jent_pagesize k) \<and>
        \<not> len > - 1 - 3 * jent_pagesize k \<and>
        posix_zalloc k len s = Some (Some ptr, (mprotect_rw ptr payload (mmap_none base (mapped_size k len) s))
          \<lparr>contents := (\<lambda>a. if in_region ptr len a then 0
             else contents (mmap_none base (mapped_size k len) s) a)\<rparr>))"
proof (cases "len > - 1 - 3 * jent_pagesize k \<or> k_mmap k = None")
  case True
  then show ?thesis by (auto simp: posix_zalloc_def Let_def split: option.split)
next
  case False
  then obtain base where b: "k_mmap k = Some base" "\<not> len > - 1 - 3 * jent_pagesize k" by auto
  note z = page_sizes [OF assms(1) b(2)]
  have fit: "unat base + unat (mapped_size k len) \<le> 2 ^ 64"
    "\<forall>a. in_region base (mapped_size k len) a \<longrightarrow> \<not> accessible s a"
    using assms(2) b(1) by (auto simp: mmap_contract_def)
  let ?ptr = "base + jent_pagesize k" and ?pay = "page_payload (jent_pagesize k) len"
  have "unat (of_nat (unat base + unat (jent_pagesize k)) :: u64) = unat base + unat (jent_pagesize k)"
    using fit(1) z(4,5) by (intro unat_of_nat_small) simp
  then have ptr: "unat ?ptr = unat base + unat (jent_pagesize k)" by simp
  let ?s1 = "mmap_none base (mapped_size k len) s"
  have acc: "\<forall>a. in_region ?ptr len a \<longrightarrow> accessible (mprotect_rw ?ptr ?pay ?s1) a"
    using z(1) by (auto simp: in_region_def mprotect_rw_def)
  have inside: "in_region ?ptr ?pay a \<Longrightarrow> in_region base (mapped_size k len) a" for a
    using ptr z(4) by (auto simp: in_region_def)
  show ?thesis
  proof (cases "k_mprotect_ok k \<and> k_mlock_ok k")
    case True
    have "unat ?ptr + unat len \<le> 2 ^ 64" using ptr fit(1) z(1,4) by simp
    from memset_region [OF this acc, unfolded mprotect_contents] True b ptr show ?thesis
      by (intro disjI2 exI [of _ base])
        (simp add: posix_zalloc_def mapped_size_def [symmetric] Let_def)
  next
    case False
    then show ?thesis
      using b inside fit(2)
      by (intro disjI1)
        (auto simp: posix_zalloc_def mapped_size_def [symmetric] Let_def munmap_def mprotect_rw_def
          mmap_none_def fun_eq_iff)
  qed
qed

lemma zalloc_guarded:
  fixes s :: address_space
  assumes "page_size_ok k" "mmap_contract k len s" "k_mmap k = Some base"
    "\<not> len > - 1 - 3 * jent_pagesize k" "ptr = base + jent_pagesize k"
    "unat ptr = unat base + unat (jent_pagesize k)"
  shows "guarded k len ptr ((mprotect_rw ptr (page_payload (jent_pagesize k) len)
      (mmap_none base (mapped_size k len) s))\<lparr>contents := c\<rparr>)"
proof -
  note z = page_sizes [OF assms(1,4)]
  have fit: "unat base + unat (mapped_size k len) \<le> 2 ^ 64" "unat (jent_pagesize k) dvd unat base"
    using assms(2,3) by (auto simp: mmap_contract_def)
  have "unat (jent_pagesize k) dvd unat ptr" using fit(2) by (simp add: assms(6))
  moreover have "unat ptr + unat (page_payload (jent_pagesize k) len) + unat (jent_pagesize k) \<le> 2 ^ 64"
    using fit(1) z(4) assms(6) by simp
  moreover have "ptr - jent_pagesize k = base" by (simp add: assms(5))
  ultimately show ?thesis
    unfolding guarded_def Let_def
    using z(1,2,4) assms(6) by (auto simp: mprotect_rw_def mmap_none_def in_region_def)
qed

lemma zfree_wiped:
  assumes "guarded k len ptr s"
  shows "posix_zfree k ptr len s = Some (munmap (ptr - jent_pagesize k) (mapped_size k len)
    (s\<lparr>contents := (\<lambda>a. if in_region ptr len a then 0 else contents s a)\<rparr>))"
proof -
  have "unat ptr + unat len \<le> 2 ^ 64" "\<forall>a. in_region ptr len a \<longrightarrow> accessible s a"
    using assms by (auto simp: guarded_def Let_def in_region_def)
  from memset_region [OF this] show ?thesis
    by (simp add: posix_zfree_def mapped_size_def Let_def)
qed

text \<open>
  C24. The secure memory never faults and leaks nothing: an allocation fails with the address space
  as it was, or it yields zeroed memory, page-aligned between two inaccessible pages, with sizes that
  do not wrap; and whatever the library writes there, freeing it wipes the block, removes the mapping
  and leaves the rest of the address space as it was.
\<close>

theorem secure_block_lifecycle:
  assumes "page_size_ok k" "mmap_contract k len s"
  shows "\<exists>r s1. posix_zalloc k len s = Some (r, s1) \<and> (case r of
      None \<Rightarrow> mappings s1 = mappings s \<and> accessible s1 = accessible s
    | Some ptr \<Rightarrow> guarded k len ptr s1 \<and> (\<forall>a. in_region ptr len a \<longrightarrow> contents s1 a = 0) \<and>
        (\<forall>s2. mappings s2 = mappings s1 \<and> accessible s2 = accessible s1 \<longrightarrow>
          (\<exists>s3. posix_zfree k ptr len s2 = Some s3 \<and> mappings s3 = mappings s \<and>
             accessible s3 = accessible s \<and>
             (\<forall>a. contents s3 a = (if in_region ptr len a then 0 else contents s2 a)))))"
proof -
  consider s' where "posix_zalloc k len s = Some (None, s')" "mappings s' = mappings s"
      "accessible s' = accessible s"
    | base where "k_mmap k = Some base" "unat (base + jent_pagesize k) = unat base + unat (jent_pagesize k)"
      "\<not> len > - 1 - 3 * jent_pagesize k"
      "posix_zalloc k len s = Some (Some (base + jent_pagesize k),
        (mprotect_rw (base + jent_pagesize k) (page_payload (jent_pagesize k) len)
          (mmap_none base (mapped_size k len) s))\<lparr>contents := (\<lambda>a. if in_region (base + jent_pagesize k) len a then 0
             else contents (mmap_none base (mapped_size k len) s) a)\<rparr>)"
    using posix_zalloc_cases [OF assms] by (auto simp: Let_def)
  then show ?thesis
  proof cases
    case 1
    then show ?thesis by auto
  next
    case 2
    let ?ptr = "base + jent_pagesize k"
    let ?s1 = "(mprotect_rw ?ptr (page_payload (jent_pagesize k) len)
        (mmap_none base (mapped_size k len) s))\<lparr>contents := (\<lambda>a. if in_region ?ptr len a then 0
           else contents (mmap_none base (mapped_size k len) s) a)\<rparr>"
    have g: "guarded k len ?ptr ?s1" by (rule zalloc_guarded [OF assms 2(1,3) refl 2(2)])
    have free: "\<forall>a. in_region base (mapped_size k len) a \<longrightarrow> \<not> accessible s a"
      using assms(2) 2(1) by (auto simp: mmap_contract_def)
    have inside: "in_region ?ptr (page_payload (jent_pagesize k) len) a \<Longrightarrow>
        in_region base (mapped_size k len) a" for a
      using 2(2) page_sizes(4) [OF assms(1) 2(3)] by (auto simp: in_region_def)
    have "\<exists>s3. posix_zfree k ?ptr len s2 = Some s3 \<and> mappings s3 = mappings s \<and>
        accessible s3 = accessible s \<and>
        (\<forall>a. contents s3 a = (if in_region ?ptr len a then 0 else contents s2 a))"
      if s2: "mappings s2 = mappings ?s1" "accessible s2 = accessible ?s1" for s2
    proof -
      have "guarded k len ?ptr s2" using g s2 by (simp add: guarded_def)
      from zfree_wiped [OF this] s2 free inside show ?thesis
        by (auto simp: munmap_def mprotect_rw_def mmap_none_def fun_eq_iff)
    qed
    with g 2(4) show ?thesis by auto
  qed
qed

definition kernel_example :: kernel_answers where
  "kernel_example = \<lparr>k_page_size = 4096, k_mmap = Some 0x10000, k_mprotect_ok = True, k_mlock_ok = True\<rparr>"

definition empty_space :: address_space where
  "empty_space = \<lparr>mappings = [], accessible = (\<lambda>_. False), contents = (\<lambda>_. 7)\<rparr>"

theorem secure_block_lifecycle_witness:
  "\<exists>s1. posix_zalloc kernel_example 1 empty_space = Some (Some 0x11000, s1) \<and>
     guarded kernel_example 1 0x11000 s1 \<and> contents s1 0x11000 = 0"
proof -
  have p: "jent_pagesize kernel_example = 4096" "page_payload 4096 1 = 4096"
    by (simp_all add: jent_pagesize_def kernel_example_def page_payload_def)
  have "k_page_size kernel_example = 2 ^ 12" by (simp add: kernel_example_def)
  then have "page_size_ok kernel_example" unfolding page_size_ok_def by (intro disjI2 exI [of _ 12]) simp
  moreover have "mmap_contract kernel_example 1 empty_space"
    by (simp add: mmap_contract_def mapped_size_def p) (simp add: kernel_example_def empty_space_def)
  ultimately obtain r s1 where r: "posix_zalloc kernel_example 1 empty_space = Some (r, s1)"
    "\<forall>ptr. r = Some ptr \<longrightarrow> guarded kernel_example 1 ptr s1 \<and>
      (\<forall>a. in_region ptr 1 a \<longrightarrow> contents s1 a = 0)"
    using secure_block_lifecycle [of kernel_example 1 empty_space] by (auto split: option.splits)
  moreover have "\<exists>s. posix_zalloc kernel_example 1 empty_space = Some (Some 0x11000, s)"
    unfolding posix_zalloc_def p Let_def
    by (simp add: kernel_example_def empty_space_def mmap_none_def mprotect_rw_def in_region_def
        jent_memset_secure_def)
  ultimately show ?thesis by (auto simp: in_region_def)
qed

end
