(* ===== verification/Testing_Ring.thy ===== *)
theory Testing_Ring
  imports Prelude
begin

unbundle bit_operations_syntax

text \<open>
  The ring buffer of the kernel module's test interface (\<open>linux_kernel/jitterentropy_testing.c\<close>), which
  collects raw time stamps for a reader. The ring has free-running 32-bit positions of a writer and a
  reader; each body that holds the spin lock is one step. The buffer of the reader is the list of the
  words it copies.

  A wait of the reader for data is answered by an argument: the values that are stored meanwhile and
  whether a signal is pending afterwards; \<open>None\<close> is a reader that waits forever.
\<close>

section \<open>Operations\<close>

abbreviation JENT_TEST_RINGBUFFER_SIZE :: u32 where
  "JENT_TEST_RINGBUFFER_SIZE \<equiv> 1024"

abbreviation JENT_TEST_RINGBUFFER_MASK :: u32 where
  "JENT_TEST_RINGBUFFER_MASK \<equiv> 1023"

record jent_testing =
  jent_testing_rb :: "u64 list"
  rb_reader :: u32
  rb_writer :: u32
  jent_testing_enabled :: bool

definition ERESTARTSYS :: int where "ERESTARTSYS = 512"

definition jent_testing_reset :: "jent_testing \<Rightarrow> jent_testing" where
  "jent_testing_reset d = d\<lparr>rb_reader := 0, rb_writer := 0\<rparr>"

definition jent_testing_data_init :: "jent_testing \<Rightarrow> u32 \<Rightarrow> jent_testing" where
  "jent_testing_data_init d boot =
     (if boot \<noteq> 0 then d else (jent_testing_reset d)\<lparr>jent_testing_enabled := True\<rparr>)"

definition jent_testing_fini :: "jent_testing \<Rightarrow> u32 \<Rightarrow> jent_testing" where
  "jent_testing_fini d boot =
     (if boot \<noteq> 0 then d else jent_testing_reset (d\<lparr>jent_testing_enabled := False\<rparr>))"

text \<open>The value enters the ring; a reader that the writer has caught up with is pushed on.\<close>

definition ring_put :: "jent_testing \<Rightarrow> u64 \<Rightarrow> jent_testing" where
  "ring_put d v =
     (let d = d\<lparr>jent_testing_rb :=
            (jent_testing_rb d)[unat (rb_writer d AND JENT_TEST_RINGBUFFER_MASK) := v]\<rparr>;
          d = d\<lparr>rb_writer := rb_writer d + 1\<rparr>
      in if rb_writer d AND JENT_TEST_RINGBUFFER_MASK = rb_reader d AND JENT_TEST_RINGBUFFER_MASK
         then d\<lparr>rb_reader := rb_reader d + 1\<rparr> else d)"

definition jent_testing_store :: "jent_testing \<Rightarrow> u64 \<Rightarrow> u32 \<Rightarrow> bool \<times> jent_testing \<times> u32" where
  "jent_testing_store d v boot =
     (if \<not> jent_testing_enabled d \<and> boot \<noteq> 1 then (False, d, boot)
      else if boot \<noteq> 0 \<and> rb_writer d \<ge> JENT_TEST_RINGBUFFER_SIZE then (False, d, 2)
      else (True, ring_put d v, boot))"

definition jent_testing_have_data :: "jent_testing \<Rightarrow> bool" where
  "jent_testing_have_data d \<longleftrightarrow>
     rb_writer d AND JENT_TEST_RINGBUFFER_MASK \<noteq> rb_reader d AND JENT_TEST_RINGBUFFER_MASK"

definition ring_next :: "jent_testing \<Rightarrow> u64" where
  "ring_next d = jent_testing_rb d ! unat (rb_reader d AND JENT_TEST_RINGBUFFER_MASK)"

text \<open>The values stored by other threads while the reader waits.\<close>

definition store_all :: "u64 list \<Rightarrow> jent_testing \<times> u32 \<Rightarrow> jent_testing \<times> u32" where
  "store_all vs = fold (\<lambda>v (d, boot). snd (jent_testing_store d v boot)) vs"

function reader_loop ::
  "jent_testing \<Rightarrow> u32 \<Rightarrow> nat \<Rightarrow> (u64 list \<times> bool) list \<Rightarrow> u64 list \<Rightarrow>
   (int \<times> u64 list \<times> jent_testing \<times> u32) option" where
  "reader_loop d boot outbuflen waits out =
     (if outbuflen = 0 then Some (8 * int (length out), out, d, boot)
      else if rb_writer d = 0 \<or> rb_writer d = rb_reader d
      then if boot \<noteq> 0 then Some (8 * int (length out), out, d, 0)
           else (case waits of
               [] \<Rightarrow> None
             | (vs, signal) # waits \<Rightarrow>
                 (let (d, boot) = store_all vs (d, boot)
                  in if signal then Some (- ERESTARTSYS, out, d, boot)
                     else reader_loop d boot outbuflen waits out))
      else if outbuflen < 8 then Some (8 * int (length out), out, d, boot)
      else reader_loop (d\<lparr>rb_reader := rb_reader d + 1\<rparr>) boot (outbuflen - 8) waits
             (out @ [ring_next d]))"
  by pat_completeness auto
termination
  by (relation "measure (\<lambda>(d, boot, n, waits, out). n + length waits)") auto

declare reader_loop.simps [simp del]

definition jent_testing_reader ::
  "jent_testing \<Rightarrow> u32 \<Rightarrow> nat \<Rightarrow> (u64 list \<times> bool) list \<Rightarrow>
   (int \<times> u64 list \<times> jent_testing \<times> u32) option" where
  "jent_testing_reader d boot outbuflen waits = reader_loop d boot outbuflen waits []"

section \<open>A queue that drops its oldest samples\<close>

text \<open>
  The contract between those who store samples and the reader: a queue of bounded length; putting
  into a full one drops the oldest sample, taking yields the oldest one left.
\<close>

locale lossy_queue =
  fixes valid :: "'s \<Rightarrow> bool"
    and put :: "'s \<Rightarrow> 'x \<Rightarrow> 's"
    and next_sample :: "'s \<Rightarrow> 'x"
    and advance :: "'s \<Rightarrow> 's"
    and samples :: "'s \<Rightarrow> 'x list"
    and capacity :: nat
  assumes put_valid: "valid s \<Longrightarrow> valid (put s x)"
    and put_samples: "valid s \<Longrightarrow> samples (put s x) = last_of capacity (samples s @ [x])"
    and samples_fit: "valid s \<Longrightarrow> length (samples s) \<le> capacity"
    and next_samples: "valid s \<Longrightarrow> samples s \<noteq> [] \<Longrightarrow> next_sample s = hd (samples s)"
    and advance_valid: "valid s \<Longrightarrow> samples s \<noteq> [] \<Longrightarrow> valid (advance s)"
    and advance_samples: "valid s \<Longrightarrow> samples s \<noteq> [] \<Longrightarrow> samples (advance s) = tl (samples s)"
begin

lemma puts_valid: "valid s \<Longrightarrow> valid (foldl put s xs)"
  by (induction xs arbitrary: s) (simp_all add: put_valid)

lemma puts_samples: "valid s \<Longrightarrow> samples (foldl put s xs) = last_of capacity (samples s @ xs)"
proof (induction xs arbitrary: s)
  case Nil
  then show ?case using samples_fit by (simp add: last_of_def)
next
  case (Cons x xs)
  then show ?case
    using last_of_append [of capacity "samples s @ [x]" xs] by (simp add: put_valid put_samples)
qed

text \<open>Taking several samples one after the other.\<close>

lemma takes_samples:
  "valid s \<Longrightarrow> n \<le> length (samples s) \<Longrightarrow>
     valid ((advance ^^ n) s) \<and> samples ((advance ^^ n) s) = drop n (samples s)"
proof (induction n)
  case (Suc n)
  then have "valid ((advance ^^ n) s)" "samples ((advance ^^ n) s) = drop n (samples s)" by simp_all
  moreover from this Suc.prems(2) have "samples ((advance ^^ n) s) \<noteq> []" by simp
  ultimately show ?case by (simp add: advance_valid advance_samples drop_Suc tl_drop)
qed simp

end

section \<open>The ring is such a queue\<close>

text \<open>\<open>n\<close> entries from position \<open>r\<close> on; only the position modulo the size matters.\<close>

definition ring_window :: "u64 list \<Rightarrow> nat \<Rightarrow> nat \<Rightarrow> u64 list" where
  "ring_window rb r n = map (\<lambda>i. rb ! ((r + i) mod 1024)) [0..<n]"

definition ring_valid :: "jent_testing \<Rightarrow> bool" where
  "ring_valid d \<longleftrightarrow> length (jent_testing_rb d) = 1024 \<and> unat (rb_writer d - rb_reader d) \<le> 1023"

definition ring_samples :: "jent_testing \<Rightarrow> u64 list" where
  "ring_samples d =
     ring_window (jent_testing_rb d) (unat (rb_reader d)) (unat (rb_writer d - rb_reader d))"

definition ring_advance :: "jent_testing \<Rightarrow> jent_testing" where
  "ring_advance d = d\<lparr>rb_reader := rb_reader d + 1\<rparr>"

lemma unat_masked: "unat (x AND JENT_TEST_RINGBUFFER_MASK) = unat x mod 1024"
proof -
  have "(1023 :: u32) = mask 10" by (simp add: mask_eq_exp_minus_1)
  then have "x AND JENT_TEST_RINGBUFFER_MASK = take_bit 10 x" by (simp add: take_bit_eq_mask)
  then show ?thesis by (simp add: take_bit_eq_mod unat_mod_distrib)
qed

lemma unat_offset: "unat (x + of_nat i :: u32) mod 1024 = (unat x + i) mod 1024"
proof -
  have "unat (x + of_nat i) = (unat x + i) mod 2 ^ 32"
    by (simp add: unat_word_ariths unat_of_nat mod_simps)
  also have "\<dots> mod 1024 = (unat x + i) mod 1024" by (simp add: mod_mod_cancel)
  finally show ?thesis .
qed

lemma ring_window_mod: "r mod 1024 = r' mod 1024 \<Longrightarrow> ring_window rb r n = ring_window rb r' n"
  unfolding ring_window_def by (metis (no_types, lifting) mod_add_left_eq)

lemma length_ring_window [simp]: "length (ring_window rb r n) = n"
  by (simp add: ring_window_def)

lemma ring_window_tl: "ring_window rb (Suc r) n = tl (ring_window rb r (Suc n))"
  unfolding ring_window_def
  by (rule nth_equalityI) (simp_all add: nth_tl del: upt_Suc)

lemma ring_window_write:
  assumes "n < 1024" "length rb = 1024"
  shows "ring_window (rb[(r + n) mod 1024 := v]) r (Suc n) = ring_window rb r n @ [v]"
proof -
  have "rb[(r + n) mod 1024 := v] ! ((r + i) mod 1024) = rb ! ((r + i) mod 1024)" if "i < n" for i
    using that assms(1) mod_distinct [of "r + i" "r + n" 1024] by (intro nth_list_update_neq) simp
  then show ?thesis using assms by (simp add: ring_window_def)
qed

lemma writer_offset: "rb_writer d = rb_reader d + of_nat (unat (rb_writer d - rb_reader d))"
  by simp

lemma ring_put_cases:
  fixes v :: u64
  assumes "ring_valid d"
  defines "n \<equiv> unat (rb_writer d - rb_reader d)"
  defines "rb \<equiv> (jent_testing_rb d)[(unat (rb_reader d) + n) mod 1024 := v]"
  shows "ring_put d v = d\<lparr>jent_testing_rb := rb, rb_writer := rb_writer d + 1,
      rb_reader := (if n = 1023 then rb_reader d + 1 else rb_reader d)\<rparr>"
proof -
  have n: "n \<le> 1023" using assms by (simp add: ring_valid_def)
  have w: "unat (rb_writer d AND JENT_TEST_RINGBUFFER_MASK) = (unat (rb_reader d) + n) mod 1024"
    unfolding unat_masked n_def using unat_offset [of "rb_reader d" "unat (rb_writer d - rb_reader d)"] by simp
  have "rb_writer d + 1 = rb_reader d + of_nat (Suc n)" unfolding n_def by simp
  then have "unat (rb_writer d + 1) mod 1024 = (unat (rb_reader d) + Suc n) mod 1024"
    by (simp only: unat_offset)
  moreover have "(unat (rb_reader d) + Suc n) mod 1024 = unat (rb_reader d) mod 1024 \<longleftrightarrow> n = 1023"
    using n mod_distinct [of "unat (rb_reader d)" "unat (rb_reader d) + Suc n" 1024]
    by (cases "n = 1023") auto
  ultimately have "rb_writer d + 1 AND JENT_TEST_RINGBUFFER_MASK = rb_reader d AND JENT_TEST_RINGBUFFER_MASK
      \<longleftrightarrow> n = 1023"
    unfolding word_unat_eq_iff unat_masked by simp
  with w show ?thesis by (simp add: ring_put_def Let_def rb_def)
qed

lemma ring_put_samples:
  assumes "ring_valid d"
  shows "ring_valid (ring_put d v) \<and> ring_samples (ring_put d v) = last_of 1023 (ring_samples d @ [v])"
proof -
  let ?r = "rb_reader d" and ?n = "unat (rb_writer d - rb_reader d)"
  let ?rb = "(jent_testing_rb d)[(unat ?r + ?n) mod 1024 := v]"
  have n: "?n \<le> 1023" and l: "length (jent_testing_rb d) = 1024" using assms by (auto simp: ring_valid_def)
  note put = ring_put_cases [OF assms, of v]
  have w: "ring_window ?rb (unat ?r) (Suc ?n) = ring_samples d @ [v]"
    using n l by (simp add: ring_window_write ring_samples_def)
  have suc: "unat (rb_writer d + 1 - ?r) = Suc ?n"
  proof -
    have "rb_writer d + 1 - ?r = (rb_writer d - ?r) + 1" by simp
    then show ?thesis using n by (simp only: unat_Suc_below [of _ 1024])
        (rule unat_Suc_below [of _ 1024]; simp)
  qed
  show ?thesis
  proof (cases "?n = 1023")
    case True
    have "rb_writer d + 1 - (?r + 1) = rb_writer d - ?r" by simp
    moreover have "ring_window ?rb (unat (?r + 1)) ?n = ring_window ?rb (Suc (unat ?r)) ?n"
      using unat_offset [of ?r 1] by (intro ring_window_mod) simp
    moreover have "length (ring_samples d) = 1023" using True by (simp add: ring_samples_def)
    moreover from this have "last_of 1023 (ring_samples d @ [v]) = tl (ring_samples d @ [v])"
      by (cases "ring_samples d") (simp_all add: last_of_def)
    ultimately show ?thesis
      using True l w unfolding put by (simp add: ring_valid_def ring_samples_def ring_window_tl)
  next
    case False
    moreover from this n have "length (ring_samples d) < 1023" by (simp add: ring_samples_def)
    ultimately show ?thesis
      using n l w suc unfolding put by (simp add: ring_valid_def ring_samples_def last_of_def)
  qed
qed

lemma ring_not_empty:
  assumes "ring_valid d"
  shows "ring_samples d = [] \<longleftrightarrow> rb_writer d = rb_reader d"
    "jent_testing_have_data d \<longleftrightarrow> ring_samples d \<noteq> []"
proof -
  let ?n = "unat (rb_writer d - rb_reader d)"
  have "ring_samples d = [] \<longleftrightarrow> ?n = 0" unfolding ring_samples_def by (metis length_0_conv length_ring_window)
  then show e: "ring_samples d = [] \<longleftrightarrow> rb_writer d = rb_reader d" by (simp add: unat_eq_zero)
  have "unat (rb_writer d) mod 1024 = (unat (rb_reader d) + ?n) mod 1024"
    using unat_offset [of "rb_reader d" ?n] by simp
  moreover have "?n < 1024" using assms by (simp add: ring_valid_def)
  ultimately have "unat (rb_writer d) mod 1024 = unat (rb_reader d) mod 1024 \<longleftrightarrow> ?n = 0"
    using mod_distinct [of "unat (rb_reader d)" "unat (rb_reader d) + ?n" 1024] by (cases "?n = 0") auto
  then show "jent_testing_have_data d \<longleftrightarrow> ring_samples d \<noteq> []"
    unfolding jent_testing_have_data_def word_unat_eq_iff unat_masked using e by (simp add: unat_eq_zero)
qed

lemma ring_take:
  assumes "ring_valid d" "ring_samples d \<noteq> []"
  shows "ring_next d = hd (ring_samples d)" "ring_valid (ring_advance d)"
    "ring_samples (ring_advance d) = tl (ring_samples d)"
proof -
  let ?n = "unat (rb_writer d - rb_reader d)"
  have "?n \<noteq> 0" using assms(2) by (auto simp: ring_samples_def ring_window_def)
  then obtain m where m: "?n = Suc m" by (cases ?n) auto
  have e: "rb_writer d - (rb_reader d + 1) = rb_writer d - rb_reader d - 1" by simp
  have "rb_writer d - rb_reader d \<noteq> 0" using m by (metis nat.distinct(1) unat_0)
  then have m': "unat (rb_writer d - (rb_reader d + 1)) = m" unfolding e by (simp add: unat_minus_one m)
  show "ring_next d = hd (ring_samples d)"
    by (simp add: ring_next_def unat_masked ring_samples_def m ring_window_def hd_map del: upt_Suc)
  show "ring_valid (ring_advance d)"
    using assms(1) m m' by (simp add: ring_valid_def ring_advance_def)
  have "ring_window (jent_testing_rb d) (unat (rb_reader d + 1)) m =
      ring_window (jent_testing_rb d) (Suc (unat (rb_reader d))) m"
    using unat_offset [of "rb_reader d" 1] by (intro ring_window_mod) simp
  then show "ring_samples (ring_advance d) = tl (ring_samples d)"
    by (simp add: ring_samples_def ring_advance_def m m' ring_window_tl)
qed

interpretation test_ring: lossy_queue ring_valid ring_put ring_next ring_advance ring_samples 1023
  using ring_put_samples ring_take
  by unfold_locales (auto simp: ring_samples_def ring_valid_def)

section \<open>Storing and reading\<close>

lemma ring_put_fields:
  "jent_testing_enabled (ring_put d v) = jent_testing_enabled d"
  "rb_writer (ring_put d v) = rb_writer d + 1"
  "length (jent_testing_rb (ring_put d v)) = length (jent_testing_rb d)"
  by (simp_all add: ring_put_def Let_def)

lemma puts_writer: "rb_writer (foldl ring_put d vs) = rb_writer d + of_nat (length vs)"
  by (induction vs arbitrary: d) (simp_all add: ring_put_fields)

lemma store_all_enabled:
  "jent_testing_enabled d \<Longrightarrow> store_all vs (d, 0) = (foldl ring_put d vs, 0)"
proof (induction vs arbitrary: d)
  case (Cons v vs)
  then show ?case using Cons.IH [of "ring_put d v"]
    by (simp add: store_all_def jent_testing_store_def ring_put_fields)
qed (simp add: store_all_def)

lemma store_all_full:
  "boot \<in> {1, 2} \<Longrightarrow> 1024 \<le> rb_writer d \<Longrightarrow>
     store_all vs (d, boot) = (d, if vs = [] then boot else 2)"
  by (induction vs arbitrary: boot) (auto simp: store_all_def jent_testing_store_def)

lemma store_all_boot:
  assumes "unat (rb_writer d) \<le> 1024"
  shows "store_all vs (d, 1) = (foldl ring_put d (take (1024 - unat (rb_writer d)) vs),
    if 1024 - unat (rb_writer d) < length vs then 2 else 1)"
  using assms
proof (induction vs arbitrary: d)
  case (Cons v vs)
  show ?case
  proof (cases "unat (rb_writer d) = 1024")
    case True
    then have "1024 \<le> rb_writer d" by (simp add: word_le_nat_alt)
    with True show ?thesis using store_all_full [of 1 d "v # vs"] by simp
  next
    case False
    with Cons.prems have w: "unat (rb_writer d) < 1024" by simp
    then have w': "unat (rb_writer d + 1) = Suc (unat (rb_writer d))"
      by (intro unat_Suc_below [of _ 1024]) simp_all
    have "store_all (v # vs) (d, 1) = store_all vs (ring_put d v, 1)"
      using w by (simp add: store_all_def jent_testing_store_def word_le_nat_alt)
    also have "\<dots> = (foldl ring_put (ring_put d v) (take (1024 - Suc (unat (rb_writer d))) vs),
        if 1024 - Suc (unat (rb_writer d)) < length vs then 2 else 1)"
      using Cons.IH [of "ring_put d v"] w by (simp add: ring_put_fields w')
    moreover obtain k where k: "1024 - unat (rb_writer d) = Suc k"
      using w by (metis Suc_diff_Suc)
    moreover from this have "1024 - Suc (unat (rb_writer d)) = k" by simp
    ultimately show ?thesis by simp
  qed
qed (simp add: store_all_def)

text \<open>The reader takes samples from the front of the queue.\<close>

lemma reader_loop_step:
  assumes "ring_valid d" "rb_writer d \<noteq> 0" "ring_samples d \<noteq> []" "8 \<le> n"
  shows "reader_loop d boot n waits out =
    reader_loop (ring_advance d) boot (n - 8) waits (out @ [hd (ring_samples d)])"
  using assms ring_not_empty(1) [OF assms(1)] ring_take(1) [OF assms(1,3)]
  by (subst reader_loop.simps) (simp add: ring_advance_def)

lemma reader_loop_takes:
  assumes "ring_valid d" "rb_writer d \<noteq> 0" "m \<le> length (ring_samples d)"
  shows "reader_loop d boot (8 * m + n) waits out =
    reader_loop ((ring_advance ^^ m) d) boot n waits (out @ take m (ring_samples d))"
  using assms
proof (induction m arbitrary: d out)
  case (Suc m)
  obtain x xs where x: "ring_samples d = x # xs" using Suc.prems(3) by (cases "ring_samples d") auto
  note t = ring_take [OF Suc.prems(1)]
  have "rb_writer (ring_advance d) = rb_writer d" by (simp add: ring_advance_def)
  then have "reader_loop (ring_advance d) boot (8 * m + n) waits (out @ [x]) =
      reader_loop ((ring_advance ^^ m) (ring_advance d)) boot n waits ((out @ [x]) @ take m xs)"
    using Suc.IH [of "ring_advance d" "out @ [x]"] Suc.prems t x by simp
  moreover have "reader_loop d boot (8 * Suc m + n) waits out =
      reader_loop (ring_advance d) boot (8 * m + n) waits (out @ [x])"
    using reader_loop_step [OF Suc.prems(1,2), of "8 * Suc m + n" boot waits out] x by simp
  ultimately show ?case using x by (simp add: funpow_swap1)
qed simp

lemma advances_writer: "rb_writer ((ring_advance ^^ m) d) = rb_writer d"
  by (induction m) (simp_all add: ring_advance_def)

section \<open>Properties\<close>

text \<open>
  C33. A test session delivers what was recorded: after recording was enabled and any values were
  stored, the reader returns them in their order, without waiting, the most recent 1023 when there
  were more, and leaves the others for the next read.
\<close>

theorem test_session_delivers:
  assumes "length (jent_testing_rb d) = 1024" "vs \<noteq> []" "length vs < 2 ^ 32"
    and "m \<le> min 1023 (length vs)"
  shows "\<exists>d'. jent_testing_reader (fst (store_all vs (jent_testing_data_init d 0, 0))) 0 (8 * m) waits =
      Some (8 * int m, take m (last_of 1023 vs), d', 0) \<and> ring_samples d' = drop m (last_of 1023 vs)"
proof -
  let ?d0 = "jent_testing_data_init d 0"
  have v0: "ring_valid ?d0" "ring_samples ?d0 = []" "jent_testing_enabled ?d0" "rb_writer ?d0 = 0"
    using assms(1)
    by (simp_all add: jent_testing_data_init_def jent_testing_reset_def ring_valid_def
        ring_samples_def ring_window_def)
  let ?d = "foldl ring_put ?d0 vs"
  have d: "ring_valid ?d" "ring_samples ?d = last_of 1023 vs"
    using test_ring.puts_valid [OF v0(1), of vs] test_ring.puts_samples [OF v0(1), of vs] v0(2) by simp_all
  have "unat (of_nat (length vs) :: u32) = length vs" using assms(3) by (intro unat_of_nat_small) simp
  then have "(of_nat (length vs) :: u32) \<noteq> 0" using assms(2) by (metis length_0_conv unat_0)
  then have "rb_writer ?d \<noteq> 0" by (simp only: puts_writer v0(4)) simp
  moreover have m: "m \<le> length (ring_samples ?d)" using assms(4) by (simp add: d(2))
  ultimately have "jent_testing_reader ?d 0 (8 * m) waits =
      Some (8 * int m, take m (last_of 1023 vs), (ring_advance ^^ m) ?d, 0)"
    using reader_loop_takes [OF d(1), of m 0 0 waits "[]"] m d(2)
    by (simp add: jent_testing_reader_def reader_loop.simps [of _ 0 0])
  with store_all_enabled [OF v0(3)] test_ring.takes_samples [OF d(1) m] d(2) show ?thesis by simp
qed

definition empty_ring :: jent_testing where
  "empty_ring = \<lparr>jent_testing_rb = replicate 1024 0, rb_reader = 0, rb_writer = 0,
     jent_testing_enabled = False\<rparr>"

theorem test_session_delivers_witness:
  "\<exists>d'. jent_testing_reader (fst (store_all [7, 8, 9] (jent_testing_data_init empty_ring 0, 0))) 0 16 [] =
     Some (16, [7, 8], d', 0) \<and> ring_samples d' = [9]"
  using test_session_delivers [of empty_ring "[7, 8, 9]" 2 "[]"]
  by (simp add: empty_ring_def last_of_def)

text \<open>
  The boot-time test loses a sample: of the 1024 values that are recorded before it stops, the
  first is never read, because storing the last one pushes the reader on. The reader gets 1023 and
  only then ends the boot test.
\<close>

theorem boot_test_loses_first:
  assumes "length (jent_testing_rb d) = 1024" "rb_writer d = 0" "rb_reader d = 0" "1024 < length vs"
  shows "\<exists>d' d''. store_all vs (d, 1) = (d', 2) \<and>
    jent_testing_reader d' 2 (8 * 1024) waits = Some (8 * 1023, tl (take 1024 vs), d'', 0)"
proof -
  have v0: "ring_valid d" "ring_samples d = []"
    using assms(1-3) by (simp_all add: ring_valid_def ring_samples_def ring_window_def)
  let ?vs = "take 1024 vs" and ?d = "foldl ring_put d (take 1024 vs)"
  have st: "store_all vs (d, 1) = (?d, 2)" using store_all_boot [of d vs] assms(2,4) by simp
  have d: "ring_valid ?d" "ring_samples ?d = tl ?vs"
    using test_ring.puts_valid [OF v0(1), of ?vs] test_ring.puts_samples [OF v0(1), of ?vs] v0(2) assms(4)
    by (simp_all add: last_of_def drop_Suc)
  have w: "rb_writer ?d \<noteq> 0" using assms(2,4) by (simp add: puts_writer)
  have len: "length (ring_samples ?d) = 1023" using d(2) assms(4) by simp
  let ?e = "(ring_advance ^^ 1023) ?d"
  have e: "ring_valid ?e" "ring_samples ?e = []"
    using test_ring.takes_samples [OF d(1), of 1023] len by simp_all
  have "reader_loop ?e 2 8 waits (tl ?vs) = Some (8 * 1023, tl ?vs, ?e, 0)"
    using ring_not_empty(1) [OF e(1)] e(2) assms(4)
    by (subst reader_loop.simps) simp
  then have "jent_testing_reader ?d 2 (8 * 1024) waits = Some (8 * 1023, tl ?vs, ?e, 0)"
    using reader_loop_takes [OF d(1) w, of 1023 2 8 waits "[]"] len d(2)
    by (simp add: jent_testing_reader_def)
  with st show ?thesis by blast
qed

theorem boot_test_loses_first_witness:
  "\<exists>d' d''. store_all (7 # replicate 1024 8) (empty_ring, 1) = (d', 2) \<and>
    jent_testing_reader d' 2 (8 * 1024) [] = Some (8 * 1023, replicate 1023 8, d'', 0)"
proof -
  have "tl (take 1024 (7 # replicate 1024 (8 :: u64))) = replicate 1023 8"
    by (simp add: take_Cons' min_def)
  with boot_test_loses_first [of empty_ring "7 # replicate 1024 8" "[]"] show ?thesis
    by (simp add: empty_ring_def)
qed

end
